(* ===== verification/Prelude.thy ===== *)
theory Prelude
  imports Main "HOL-Library.Word" "HOL-Library.Monad_Syntax" "HOL-Library.Signed_Division"
begin

text \<open>
  What every component shares.  Machine types are named here, a C expression that has no defined
  value (a read outside an object, a loop that never ends) is the value \<open>None\<close> of an \<open>option\<close>,
  and the reads of a C buffer are checked reads: \<open>rd8 buf i\<close> is \<open>None\<close> when \<open>i\<close> is outside
  \<open>buf\<close>.  A write pointer that only moves forward from the start of a buffer is the list of the
  bytes written so far, so that \<open>ptr - buf\<close> is its length.
\<close>

unbundle bit_operations_syntax

type_synonym byte = "8 word"
type_synonym u16 = "16 word"
type_synonym u32 = "32 word"
type_synonym u64 = "64 word"

text \<open>The bytes of a C string, without its terminating zero.\<close>

type_synonym cstring = "byte list"

named_theorems codec \<open>equations of serializers and deserializers\<close>
named_theorems frame \<open>which fields of a state an operation leaves alone\<close>
named_theorems bound \<open>bounds of lengths and indices\<close>

definition str :: "string \<Rightarrow> cstring" where
  "str s = map of_char s"

lemma str_simps [simp]: "str [] = []" "str (c # s) = of_char c # str s"
  by (simp_all add: str_def)

subsection \<open>Checked reads\<close>

definition rd8 :: "byte list \<Rightarrow> nat \<Rightarrow> byte option" where
  "rd8 buf i = (if i < length buf then Some (buf ! i) else None)"

lemma rd8_Some [simp]: "i < length buf \<Longrightarrow> rd8 buf i = Some (buf ! i)"
  by (simp add: rd8_def)

lemma rd8_None_iff [simp]: "rd8 buf i = None \<longleftrightarrow> length buf \<le> i"
  by (auto simp: rd8_def)

lemma rd8_eq_Some: "rd8 buf i = Some b \<longleftrightarrow> i < length buf \<and> buf ! i = b"
  by (auto simp: rd8_def)

lemma rd8_Cons_0 [simp]: "rd8 (x # xs) 0 = Some x"
  by (simp add: rd8_def)

lemma rd8_Cons_Suc [simp]: "rd8 (x # xs) (Suc n) = rd8 xs n"
  by (simp add: rd8_def)

lemma rd8_append_length [simp]: "rd8 (xs @ ys) (length xs + n) = rd8 ys n"
  by (simp add: rd8_def nth_append)

lemma rd8_append_length0 [simp]: "rd8 (xs @ ys) (length xs) = rd8 ys 0"
  using rd8_append_length [of xs ys 0] by simp

text \<open>A block of \<open>n\<close> bytes from offset \<open>i\<close>, as \<open>memcpy\<close> reads it.\<close>

definition rd_block :: "byte list \<Rightarrow> nat \<Rightarrow> nat \<Rightarrow> byte list option" where
  "rd_block buf i n = (if i + n \<le> length buf then Some (take n (drop i buf)) else None)"

lemma rd_block_Some [simp]: "i + n \<le> length buf \<Longrightarrow> rd_block buf i n = Some (take n (drop i buf))"
  by (simp add: rd_block_def)

lemma rd_block_None_iff [simp]: "rd_block buf i n = None \<longleftrightarrow> length buf < i + n"
  by (auto simp: rd_block_def)

lemma rd_block_0_self [simp]: "rd_block xs 0 (length xs) = Some xs"
  by (simp add: rd_block_def)

text \<open>Storing \<open>bs\<close> at offset \<open>i\<close> of an object.\<close>

definition splice_at :: "'a list \<Rightarrow> nat \<Rightarrow> 'a list \<Rightarrow> 'a list" where
  "splice_at buf i bs = take i buf @ bs @ drop (i + length bs) buf"

definition wr_bytes :: "byte list \<Rightarrow> nat \<Rightarrow> byte list \<Rightarrow> byte list option" where
  "wr_bytes buf i bs = (if i + length bs \<le> length buf then Some (splice_at buf i bs) else None)"

lemma length_splice_at [simp]: "i + length bs \<le> length buf \<Longrightarrow> length (splice_at buf i bs) = length buf"
  by (simp add: splice_at_def)

lemma splice_at_Nil [simp]: "splice_at buf i [] = buf"
  by (simp add: splice_at_def)

lemma splice_at_whole [simp]: "length bs = length buf \<Longrightarrow> splice_at buf 0 bs = bs"
  by (simp add: splice_at_def)

lemma splice_at_append:
  "i + length bs + length cs \<le> length buf \<Longrightarrow>
     splice_at (splice_at buf i bs) (i + length bs) cs = splice_at buf i (bs @ cs)"
  by (simp add: splice_at_def ac_simps)

lemma wr_bytes_Some [simp]: "i + length bs \<le> length buf \<Longrightarrow> wr_bytes buf i bs = Some (splice_at buf i bs)"
  by (simp add: wr_bytes_def)

lemma wr_bytes_None_iff [simp]: "wr_bytes buf i bs = None \<longleftrightarrow> length buf < i + length bs"
  by (auto simp: wr_bytes_def)

text \<open>
  \<open>strlen\<close> from an offset is the number of non-zero bytes there; without a zero byte behind them it
  is undefined.  \<open>str_append\<close> is \<open>memcpy(buf + strlen(buf), s, strlen(s))\<close>, which copies no zero byte.
\<close>

definition strlen_at :: "byte list \<Rightarrow> nat \<Rightarrow> nat option" where
  "strlen_at buf p =
     (if 0 \<in> set (drop p buf) then Some (length (takeWhile (\<lambda>b. b \<noteq> 0) (drop p buf))) else None)"

definition cstring_at :: "byte list \<Rightarrow> nat \<Rightarrow> cstring" where
  "cstring_at buf p = takeWhile (\<lambda>b. b \<noteq> 0) (drop p buf)"

lemma takeWhile_zero: "0 \<notin> set s \<Longrightarrow> takeWhile (\<lambda>b. b \<noteq> 0) (s @ 0 # post) = s"
  by (induction s) auto

lemma strlen_at_eq: "0 \<notin> set s \<Longrightarrow> strlen_at (pre @ s @ 0 # post) (length pre) = Some (length s)"
  by (simp add: strlen_at_def takeWhile_zero)

lemma cstring_at_eq: "0 \<notin> set s \<Longrightarrow> cstring_at (pre @ s @ 0 # post) (length pre) = s"
  by (simp add: cstring_at_def takeWhile_zero)

definition str_append :: "byte list \<Rightarrow> cstring \<Rightarrow> byte list option" where
  "str_append buf s = do { n \<leftarrow> strlen_at buf 0; wr_bytes buf n s }"

text \<open>A buffer of \<open>n\<close> bytes that holds a string and zeros behind it.\<close>

definition str_buf :: "cstring \<Rightarrow> nat \<Rightarrow> byte list" where
  "str_buf s n = s @ replicate (n - length s) 0"

lemma str_buf_strlen: "0 \<notin> set s \<Longrightarrow> length s < n \<Longrightarrow> strlen_at (str_buf s n) 0 = Some (length s)"
  using strlen_at_eq [of s "[]" "replicate (n - length s - 1) 0"]
  by (cases "n - length s") (simp_all add: str_buf_def)

lemma str_buf_append:
  assumes "0 \<notin> set s" and "length s < n" and "length s + length t \<le> n"
  shows "str_append (str_buf s n) t = Some (str_buf (s @ t) n)"
  using assms by (simp add: str_append_def str_buf_strlen) (simp add: str_buf_def splice_at_def)

subsection \<open>Integers\<close>

text \<open>C's integer division truncates; on the operands that occur it is HOL's \<open>div\<close>.\<close>

lemma sdiv_nonneg [simp]: "0 \<le> a \<Longrightarrow> 0 < b \<Longrightarrow> a sdiv b = a div (b::int)"
  by (cases "a = 0") (simp_all add: signed_divide_int_def sgn_if)

lemma smod_nonneg [simp]: "0 \<le> a \<Longrightarrow> 0 < b \<Longrightarrow> a smod b = a mod (b::int)"
  by (cases "a = 0") (simp_all add: signed_modulo_int_def sgn_if)

lemma sdiv_smaller:
  assumes "1 < b" and "0 < a sdiv b"
  shows "0 < a \<and> a sdiv b < (a::int)"
proof -
  have "0 < a"
  proof (rule ccontr)
    assume "\<not> 0 < a"
    then have "sgn a * (\<bar>a\<bar> div b) \<le> 0"
      using assms(1) by (auto simp: sgn_if pos_imp_zdiv_nonneg_iff)
    then show False using assms by (simp add: signed_divide_int_def)
  qed
  then show ?thesis using assms by (simp add: int_div_less_self)
qed

subsection \<open>Bits of a byte\<close>

lemma byte_bits_eq_iff:
  "(a::byte) = b \<longleftrightarrow> bit a 0 = bit b 0 \<and> bit a 1 = bit b 1 \<and> bit a 2 = bit b 2 \<and> bit a 3 = bit b 3
     \<and> bit a 4 = bit b 4 \<and> bit a 5 = bit b 5 \<and> bit a 6 = bit b 6 \<and> bit a 7 = bit b 7"
proof
  assume R: "bit a 0 = bit b 0 \<and> bit a 1 = bit b 1 \<and> bit a 2 = bit b 2 \<and> bit a 3 = bit b 3
     \<and> bit a 4 = bit b 4 \<and> bit a 5 = bit b 5 \<and> bit a 6 = bit b 6 \<and> bit a 7 = bit b 7"
  show "a = b"
  proof (rule bit_word_eqI)
    fix n assume "n < LENGTH(8)"
    then have "n \<in> {0, 1, 2, 3, 4, 5, 6, 7}" by auto
    then show "bit a n = bit b n" using R by auto
  qed
qed simp

lemma word_small_bit:
  fixes w :: "'a::len word"
  assumes "uint w < 2 ^ k" and "k \<le> n"
  shows "\<not> bit w n"
proof
  assume b: "bit w n"
  have "take_bit k (uint w) = uint w" using assms(1) by (simp add: take_bit_int_eq_self_iff)
  then have "bit (take_bit k (uint w)) n = bit (uint w) n" by simp
  moreover have "bit (uint w) n" using b by (simp add: bit_uint_iff bit_imp_le_length)
  ultimately show False using assms(2) by (simp add: bit_take_bit_iff)
qed

lemma byte_lt_128_bits: "(w::byte) < 128 \<Longrightarrow> \<not> bit w 7"
  using word_small_bit [of w 7 7] by (simp add: word_less_def)

lemma byte_lt_16_bits: "(w::byte) < 16 \<Longrightarrow> \<not> bit w 4 \<and> \<not> bit w 5 \<and> \<not> bit w 6 \<and> \<not> bit w 7"
  using word_small_bit [of w 4] by (simp add: word_less_def)

lemma byte_lt_4_bits: "(w::byte) < 4 \<Longrightarrow> \<not> bit w 2 \<and> \<not> bit w 3 \<and> \<not> bit w 4 \<and> \<not> bit w 5 \<and> \<not> bit w 6 \<and> \<not> bit w 7"
  using word_small_bit [of w 2] by (simp add: word_less_def)

lemma byte_lt_2_bits: "(w::byte) < 2 \<Longrightarrow> \<not> bit w 1 \<and> \<not> bit w 2 \<and> \<not> bit w 3 \<and> \<not> bit w 4 \<and> \<not> bit w 5 \<and> \<not> bit w 6 \<and> \<not> bit w 7"
  using word_small_bit [of w 1] by (simp add: word_less_def)

lemma digit_bits:
  assumes "(w::byte) < 128"
  shows "(w OR 0x80) AND 127 = w" and "(w OR 0x80) AND 128 \<noteq> 0"
    and "w AND 127 = w" and "w AND 128 = 0"
  using byte_lt_128_bits [OF assms]
  by (simp_all add: byte_bits_eq_iff bit_simps)

subsection \<open>Option-valued steps\<close>

lemma bind_eq_SomeI: "m = Some x \<Longrightarrow> f x = Some y \<Longrightarrow> Option.bind m f = Some y"
  by simp

end
