(* ===== verification/Platform.thy ===== *)
theory Platform
  imports Prelude
begin

text \<open>
  What the code calls outside itself: the hardware abstraction layer and the network stack behind
  the function pointers of \<open>utils_network_t\<close>.  They are parameters: an \<open>environment\<close> gives for every
  call, by its number, what it returns.  The state keeps the call numbers, the mutexes held, and
  the effects in the order they happened.  The second half is a small calculus for statements about
  all results of an option-valued operation (\<open>ok\<close>) and for its returning at all (\<open>returns\<close>).
\<close>

datatype mutex = LockGeneric | LockListPub | LockWriteBuf | LockReadBuf | LockYield
  | LockCoap | LockSendList | LockObsServer | LockObsClient | LockResource | LockCoapYield

datatype net_effect = NetWrite "byte list" | NetConnect int | NetDisconnect | SleepMs u32

record environment =
  env_uptime :: "nat \<Rightarrow> u64"                     \<comment> \<open>\<open>HAL_UptimeMs\<close>\<close>
  env_malloc :: "nat \<Rightarrow> int \<Rightarrow> bool"              \<comment> \<open>\<open>HAL_Malloc\<close> returned memory\<close>
  env_mutex :: "nat \<Rightarrow> bool"                     \<comment> \<open>\<open>HAL_MutexCreate\<close> returned a mutex\<close>
  env_read :: "nat \<Rightarrow> int \<Rightarrow> u32 \<Rightarrow> int \<times> byte list"   \<comment> \<open>\<open>ipstack.read\<close>: result and bytes stored\<close>
  env_write :: "nat \<Rightarrow> byte list \<Rightarrow> u32 \<Rightarrow> int"    \<comment> \<open>\<open>ipstack.write\<close>\<close>
  env_connect :: "nat \<Rightarrow> int"                    \<comment> \<open>\<open>ipstack.connect\<close>\<close>

record hal =
  n_uptime :: nat
  n_malloc :: nat
  n_mutex :: nat
  n_read :: nat
  n_write :: nat
  n_connect :: nat
  held :: "mutex set"
  effects :: "net_effect list"

definition HAL_UptimeMs :: "'e environment_scheme \<Rightarrow> 's hal_scheme \<Rightarrow> u64 \<times> 's hal_scheme" where
  "HAL_UptimeMs E s = (env_uptime E (n_uptime s), s\<lparr>n_uptime := Suc (n_uptime s)\<rparr>)"

definition HAL_Malloc :: "'e environment_scheme \<Rightarrow> int \<Rightarrow> 's hal_scheme \<Rightarrow> bool \<times> 's hal_scheme" where
  "HAL_Malloc E sz s = (env_malloc E (n_malloc s) sz, s\<lparr>n_malloc := Suc (n_malloc s)\<rparr>)"

definition HAL_MutexCreate :: "'e environment_scheme \<Rightarrow> 's hal_scheme \<Rightarrow> bool \<times> 's hal_scheme" where
  "HAL_MutexCreate E s = (env_mutex E (n_mutex s), s\<lparr>n_mutex := Suc (n_mutex s)\<rparr>)"

text \<open>Locking a mutex this thread already holds never returns; unlocking a free one is undefined.\<close>

definition HAL_MutexLock :: "mutex \<Rightarrow> 's hal_scheme \<Rightarrow> 's hal_scheme option" where
  "HAL_MutexLock m s = (if m \<in> held s then None else Some (s\<lparr>held := insert m (held s)\<rparr>))"

definition HAL_MutexUnlock :: "mutex \<Rightarrow> 's hal_scheme \<Rightarrow> 's hal_scheme option" where
  "HAL_MutexUnlock m s = (if m \<in> held s then Some (s\<lparr>held := held s - {m}\<rparr>) else None)"

definition HAL_SleepMs :: "u32 \<Rightarrow> 's hal_scheme \<Rightarrow> 's hal_scheme" where
  "HAL_SleepMs ms s = s\<lparr>effects := effects s @ [SleepMs ms]\<rparr>"

text \<open>
  A read stores at most \<open>len\<close> bytes; a write of \<open>rc\<close> bytes is a prefix of what it was given.
\<close>

definition net_read ::
  "'e environment_scheme \<Rightarrow> int \<Rightarrow> u32 \<Rightarrow> 's hal_scheme \<Rightarrow> (int \<times> byte list) \<times> 's hal_scheme" where
  "net_read E len timeout s =
     (case env_read E (n_read s) len timeout of (rc, bs) \<Rightarrow>
        ((rc, take (nat len) bs), s\<lparr>n_read := Suc (n_read s)\<rparr>))"

definition net_write ::
  "'e environment_scheme \<Rightarrow> byte list \<Rightarrow> u32 \<Rightarrow> 's hal_scheme \<Rightarrow> int \<times> 's hal_scheme" where
  "net_write E buf timeout s =
     (let rc = env_write E (n_write s) buf timeout
      in (rc, s\<lparr>n_write := Suc (n_write s), effects := effects s @ [NetWrite (take (nat rc) buf)]\<rparr>))"

definition net_connect :: "'e environment_scheme \<Rightarrow> 's hal_scheme \<Rightarrow> int \<times> 's hal_scheme" where
  "net_connect E s =
     (let rc = env_connect E (n_connect s)
      in (rc, s\<lparr>n_connect := Suc (n_connect s), effects := effects s @ [NetConnect rc]\<rparr>))"

definition net_disconnect :: "'s hal_scheme \<Rightarrow> 's hal_scheme" where
  "net_disconnect s = s\<lparr>effects := effects s @ [NetDisconnect]\<rparr>"

lemmas hal_defs = HAL_UptimeMs_def HAL_Malloc_def HAL_MutexCreate_def HAL_MutexLock_def
  HAL_MutexUnlock_def HAL_SleepMs_def net_read_def net_write_def net_connect_def net_disconnect_def

text \<open>The bytes the network has accepted, in order.\<close>

fun written :: "net_effect list \<Rightarrow> byte list" where
  "written [] = []"
| "written (NetWrite bs # es) = bs @ written es"
| "written (_ # es) = written es"

lemma written_append [simp]: "written (xs @ ys) = written xs @ written ys"
  by (induction xs rule: written.induct) auto

fun connects :: "net_effect list \<Rightarrow> nat" where
  "connects [] = 0"
| "connects (NetConnect rc # es) = Suc (connects es)"
| "connects (_ # es) = connects es"

lemma connects_append [simp]: "connects (xs @ ys) = connects xs + connects ys"
  by (induction xs rule: connects.induct) auto

text \<open>An environment for the concrete instances: the clock advances 10 ms with every reading, writes
  and connects succeed, reads time out.\<close>

definition sample_env :: environment where
  "sample_env = \<lparr>env_uptime = (\<lambda>n. word_of_nat (10 * n)), env_malloc = (\<lambda>n sz. True),
     env_mutex = (\<lambda>n. True), env_read = (\<lambda>n len timeout. (0, [])),
     env_write = (\<lambda>n buf timeout. int (length buf)), env_connect = (\<lambda>n. 0)\<rparr>"

definition hal_start :: hal where
  "hal_start = \<lparr>n_uptime = 0, n_malloc = 0, n_mutex = 0, n_read = 0, n_write = 0, n_connect = 0,
     held = {}, effects = []\<rparr>"

subsection \<open>All results of an operation\<close>

definition ok :: "('a \<Rightarrow> bool) \<Rightarrow> 'a option \<Rightarrow> bool" where
  "ok P m = (\<forall>x. m = Some x \<longrightarrow> P x)"

definition returns :: "('a \<Rightarrow> bool) \<Rightarrow> 'a option \<Rightarrow> bool" where
  "returns P m = (\<exists>x. m = Some x \<and> P x)"

named_theorems vcg \<open>rules that split a goal about an operation along its program text\<close>

lemma okD: "ok P m \<Longrightarrow> m = Some x \<Longrightarrow> P x"
  by (simp add: ok_def)

lemma okI: "(\<And>x. m = Some x \<Longrightarrow> P x) \<Longrightarrow> ok P m"
  by (simp add: ok_def)

lemma ok_weaken: "ok P m \<Longrightarrow> (\<And>x. P x \<Longrightarrow> Q x) \<Longrightarrow> ok Q m"
  by (simp add: ok_def)

lemma ok_None [simp, vcg]: "ok P None"
  by (simp add: ok_def)

lemma ok_Some [simp]: "ok P (Some x) = P x"
  by (simp add: ok_def)

lemma ok_SomeI [vcg]: "P x \<Longrightarrow> ok P (Some x)"
  by simp

lemma ok_bind [vcg]: "ok (\<lambda>x. ok P (f x)) m \<Longrightarrow> ok P (Option.bind m f)"
  by (auto simp: ok_def bind_eq_Some_conv)

lemma ok_bind_iff: "ok P (Option.bind m f) \<longleftrightarrow> ok (\<lambda>x. ok P (f x)) m"
  by (auto simp: ok_def bind_eq_Some_conv)

lemma ok_if [vcg]: "(b \<Longrightarrow> ok P x) \<Longrightarrow> (\<not> b \<Longrightarrow> ok P y) \<Longrightarrow> ok P (if b then x else y)"
  by simp

lemma ok_case_prod [vcg]: "(\<And>a b. x = (a, b) \<Longrightarrow> ok P (f a b)) \<Longrightarrow> ok P (case x of (a, b) \<Rightarrow> f a b)"
  by (cases x) simp

lemma ok_let [vcg]: "ok P (f x) \<Longrightarrow> ok P (Let x f)"
  by simp

lemma ok_case_option [vcg]:
  "(x = None \<Longrightarrow> ok P a) \<Longrightarrow> (\<And>y. x = Some y \<Longrightarrow> ok P (f y)) \<Longrightarrow> ok P (case x of None \<Rightarrow> a | Some y \<Rightarrow> f y)"
  by (cases x) auto

lemma pred_case_prod [vcg]: "(\<And>a b. x = (a, b) \<Longrightarrow> P a b) \<Longrightarrow> (case x of (a, b) \<Rightarrow> P a b)"
  by (cases x) simp

lemma ok_lock: "(m \<notin> held s \<Longrightarrow> P (s\<lparr>held := insert m (held s)\<rparr>)) \<Longrightarrow> ok P (HAL_MutexLock m s)"
  by (simp add: HAL_MutexLock_def)

lemma ok_unlock: "(m \<in> held s \<Longrightarrow> P (s\<lparr>held := held s - {m}\<rparr>)) \<Longrightarrow> ok P (HAL_MutexUnlock m s)"
  by (simp add: HAL_MutexUnlock_def)

lemma returns_ok: "returns P m \<Longrightarrow> ok P m"
  by (auto simp: returns_def ok_def)

lemma returns_Some [simp]: "returns P (Some x) = P x"
  by (simp add: returns_def)

lemma returns_None [simp]: "\<not> returns P None"
  by (simp add: returns_def)

lemma returns_bind: "returns (\<lambda>x. returns P (f x)) m \<Longrightarrow> returns P (Option.bind m f)"
  by (auto simp: returns_def)

lemma returns_weaken: "returns P m \<Longrightarrow> (\<And>x. P x \<Longrightarrow> Q x) \<Longrightarrow> returns Q m"
  by (auto simp: returns_def)

lemma returns_and_ok: "returns P m \<Longrightarrow> ok Q m \<Longrightarrow> returns (\<lambda>x. P x \<and> Q x) m"
  by (auto simp: returns_def ok_def)

end
