(* ===== verification/Timer.thy ===== *)
theory Timer
  imports Platform
begin

text \<open>
  \<open>infra/infra_timer.c\<close>: timers on a millisecond clock kept in 32 bits.  The functions take a pointer
  to the timer; the model takes its value and returns the new one, and the NULL guards have no
  counterpart.  The result 1 or 0 of \<open>utils_time_is_expired\<close> is a truth value.
\<close>

record iotx_time_t =
  time :: u32

definition iotx_time_start :: "'e environment_scheme \<Rightarrow> 's hal_scheme \<Rightarrow> iotx_time_t \<times> 's hal_scheme" where
  "iotx_time_start E s = (case HAL_UptimeMs E s of (now, s) \<Rightarrow> (\<lparr>time = ucast now\<rparr>, s))"

definition utils_time_spend :: "'e environment_scheme \<Rightarrow> iotx_time_t \<Rightarrow> 's hal_scheme \<Rightarrow> u32 \<times> 's hal_scheme" where
  "utils_time_spend E start s =
     (case HAL_UptimeMs E s of (now, s) \<Rightarrow> (ucast now - time start, s))"

definition utils_time_is_expired :: "'e environment_scheme \<Rightarrow> iotx_time_t \<Rightarrow> 's hal_scheme \<Rightarrow> bool \<times> 's hal_scheme" where
  "utils_time_is_expired E timer s =
     (case HAL_UptimeMs E s of (cur_time, s) \<Rightarrow> (ucast cur_time - time timer < 0xFFFFFFFF div 2, s))"

definition iotx_time_left :: "'e environment_scheme \<Rightarrow> iotx_time_t \<Rightarrow> 's hal_scheme \<Rightarrow> u32 \<times> 's hal_scheme" where
  "iotx_time_left E end s =
     (case utils_time_is_expired E end s of (expired, s) \<Rightarrow>
        if expired then (0, s)
        else case HAL_UptimeMs E s of (now, s) \<Rightarrow> (time end - ucast now, s))"

definition iotx_time_init :: iotx_time_t where
  "iotx_time_init = \<lparr>time = 0\<rparr>"

definition utils_time_countdown_ms ::
  "'e environment_scheme \<Rightarrow> u32 \<Rightarrow> 's hal_scheme \<Rightarrow> iotx_time_t \<times> 's hal_scheme" where
  "utils_time_countdown_ms E millisecond s =
     (case HAL_UptimeMs E s of (now, s) \<Rightarrow> (\<lparr>time = ucast (now + ucast millisecond)\<rparr>, s))"

definition utils_time_get_ms :: "'e environment_scheme \<Rightarrow> 's hal_scheme \<Rightarrow> u32 \<times> 's hal_scheme" where
  "utils_time_get_ms E s = (case HAL_UptimeMs E s of (now, s) \<Rightarrow> (ucast now, s))"

lemmas timer_defs = iotx_time_start_def utils_time_spend_def utils_time_is_expired_def
  iotx_time_left_def iotx_time_init_def utils_time_countdown_ms_def utils_time_get_ms_def

subsection \<open>Arithmetic modulo 2 to the 32\<close>

text \<open>A 32-bit difference of two clock readings is the difference of the readings, modulo 2 ^ 32.\<close>

lemma word_of_int_mod_u64: "(word_of_int (a mod 18446744073709551616) :: u32) = word_of_int a"
proof -
  have "a mod 18446744073709551616 mod 4294967296 = a mod (4294967296::int)"
    by (rule mod_mod_cancel) simp
  then show ?thesis by (simp add: word_of_int_eq_iff take_bit_eq_mod)
qed

lemma ucast_u64: "(ucast (x :: u64) :: u32) = word_of_int (uint x)"
  by simp

lemma ucast_down_add: "(ucast (x + y :: u64) :: u32) = ucast x + ucast y"
proof -
  have "uint (x + y) = (uint x + uint y) mod 18446744073709551616"
    by (simp add: uint_word_ariths)
  then have "(ucast (x + y) :: u32) = word_of_int (uint x + uint y)"
    by (simp only: ucast_u64 word_of_int_mod_u64)
  then show ?thesis by (simp only: ucast_u64 of_int_add)
qed

lemma ucast_u64_of_nat: "(ucast (word_of_nat d :: u64) :: u32) = word_of_nat d"
proof -
  have "uint (word_of_nat d :: u64) = int d mod 18446744073709551616"
    by (simp add: unsigned_of_nat take_bit_eq_mod zmod_int)
  then show ?thesis by (simp only: ucast_u64 word_of_int_mod_u64) simp
qed

lemma ucast_diff_elapsed: "(ucast (t0 + word_of_nat d :: u64) :: u32) - ucast t0 = word_of_nat d"
  by (simp only: ucast_down_add ucast_u64_of_nat) simp

lemma uint_nat_diff:
  "uint (word_of_nat d - word_of_nat ms :: u32) = (int d - int ms) mod 4294967296"
proof -
  have "(word_of_nat d - word_of_nat ms :: u32) = word_of_int (int d - int ms)" by simp
  also have "uint \<dots> = (int d - int ms) mod 4294967296" by (simp only: uint_word_of_int) simp
  finally show ?thesis .
qed

lemma mod_nat_diff:
  assumes "ms \<le> 2147483648" "d < ms + 2147483647"
  shows "(int d - int ms) mod 4294967296 = (if ms \<le> d then int d - int ms else int d - int ms + 4294967296)"
  using assms mod_add_self2 [of "int d - int ms" 4294967296] by (auto simp del: mod_add_self2)

lemma mod_nat_left:
  assumes "ms \<le> 2147483648" "d < 4294967296"
  shows "(int ms - int d) mod 4294967296 = (if d \<le> ms then int ms - int d else 4294967296 + int ms - int d)"
  using assms mod_add_self2 [of "int ms - int d" 4294967296] by (auto simp del: mod_add_self2)

lemma mod_window:
  assumes "ms \<le> 2147483648" "d < ms + 2147483647"
  shows "((word_of_nat d - word_of_nat ms :: u32) < 0xFFFFFFFF div 2) \<longleftrightarrow> ms \<le> d"
proof -
  have "(int d - int ms) mod 4294967296 = (if ms \<le> d then int d - int ms else int d - int ms + 4294967296)"
    using assms by (intro mod_nat_diff) auto
  moreover have "uint (0xFFFFFFFF div 2 :: u32) = 2147483647" by simp
  ultimately show ?thesis using assms by (simp add: word_less_def uint_nat_diff)
qed

lemma expired_after_countdown:
  assumes "fst (HAL_UptimeMs E s1) = fst (HAL_UptimeMs E s) + word_of_nat d"
    and "unat ms \<le> 2147483648" "d < unat ms + 2147483647"
  shows "fst (utils_time_is_expired E (fst (utils_time_countdown_ms E ms s)) s1) \<longleftrightarrow> unat ms \<le> d"
proof -
  have "(ucast (ucast ms :: u64) :: u32) = ms"
    by transfer simp
  then have "(ucast (fst (HAL_UptimeMs E s1)) :: u32) - time (fst (utils_time_countdown_ms E ms s)) =
      word_of_nat d - word_of_nat (unat ms)"
    by (simp add: assms(1) utils_time_countdown_ms_def ucast_down_add ucast_u64_of_nat case_prod_beta)
  then show ?thesis
    using mod_window [OF assms(2,3)] by (simp add: utils_time_is_expired_def case_prod_beta)
qed

subsection \<open>Properties\<close>

text \<open>
  A timer started with \<open>utils_time_countdown_ms\<close> for \<open>ms\<close> milliseconds is expired exactly from
  \<open>ms\<close> milliseconds on, also when the 32-bit clock wraps in between, for countdowns of up to
  2 ^ 31 ms checked less than 2 ^ 31 - 1 ms after their end.
\<close>

theorem countdown_expires_exactly:
  assumes "fst (HAL_UptimeMs E s1) = fst (HAL_UptimeMs E s) + word_of_nat d"
    and "unat ms \<le> 2147483648" "d < unat ms + 2147483647"
  shows "fst (utils_time_is_expired E (fst (utils_time_countdown_ms E ms s)) s1) \<longleftrightarrow> unat ms \<le> d"
  by (rule expired_after_countdown [OF assms])

theorem countdown_expires_exactly_witness:
  "fst (utils_time_is_expired sample_env (fst (utils_time_countdown_ms sample_env 30 (hal_start\<lparr>n_uptime := 429496728\<rparr>)))
     (hal_start\<lparr>n_uptime := 429496730\<rparr>)) \<longleftrightarrow> False"
  using countdown_expires_exactly [of sample_env "hal_start\<lparr>n_uptime := 429496730\<rparr>"
      "hal_start\<lparr>n_uptime := 429496728\<rparr>" 20 30]
  by (simp add: HAL_UptimeMs_def sample_env_def hal_start_def)

text \<open>
  \<open>iotx_time_left\<close> reads the clock twice.  When the first reading is before the end of the
  countdown the result is the time left at the second reading, provided that is not past the end;
  when the clock passes the end between the two readings, the result wraps to almost 2 ^ 32 ms, and
  a network call that takes it as its timeout may wait for 49 days.
\<close>

theorem time_left_race:
  assumes "fst (HAL_UptimeMs E s1) = fst (HAL_UptimeMs E s) + word_of_nat d1"
    and "fst (HAL_UptimeMs E (snd (HAL_UptimeMs E s1))) = fst (HAL_UptimeMs E s) + word_of_nat d2"
    and "unat ms \<le> 2147483648" "d1 < unat ms" "d2 < 4294967296"
  shows "uint (fst (iotx_time_left E (fst (utils_time_countdown_ms E ms s)) s1)) =
    (if d2 \<le> unat ms then int (unat ms) - int d2 else 4294967296 + int (unat ms) - int d2)"
proof -
  let ?fin = "fst (utils_time_countdown_ms E ms s)"
  have "\<not> fst (utils_time_is_expired E ?fin s1)"
    using expired_after_countdown [OF assms(1,3)] assms(4) by simp
  moreover have "snd (utils_time_is_expired E ?fin s1) = snd (HAL_UptimeMs E s1)"
    by (simp add: utils_time_is_expired_def case_prod_beta)
  ultimately have "fst (iotx_time_left E ?fin s1) =
      time ?fin - ucast (fst (HAL_UptimeMs E s) + word_of_nat d2)"
    using assms(2) by (simp add: iotx_time_left_def case_prod_beta)
  moreover have "time ?fin = ucast (fst (HAL_UptimeMs E s)) + ms"
  proof -
    have "(ucast (ucast ms :: u64) :: u32) = ms" by transfer simp
    then show ?thesis by (simp add: utils_time_countdown_ms_def ucast_down_add case_prod_beta)
  qed
  ultimately have "fst (iotx_time_left E ?fin s1) = word_of_nat (unat ms) - word_of_nat d2"
    by (simp add: ucast_down_add ucast_u64_of_nat)
  then show ?thesis using mod_nat_left [of "unat ms" d2] assms(3,5) by (simp only: uint_nat_diff)
qed

theorem time_left_race_witness:
  "uint (fst (iotx_time_left sample_env (fst (utils_time_countdown_ms sample_env 15 hal_start))
     (hal_start\<lparr>n_uptime := 1\<rparr>))) = 4294967291"
  using time_left_race [of sample_env "hal_start\<lparr>n_uptime := 1\<rparr>" hal_start 10 20 15]
  by (simp add: HAL_UptimeMs_def sample_env_def hal_start_def)

end
