(* ===== verification/MqttPacket.thy ===== *)
theory MqttPacket
  imports Prelude
begin

text \<open>
  \<open>mqtt/MQTTPacket.c\<close> and \<open>mqtt/MQTTPacket.h\<close>: the fixed header byte, the variable-length
  remaining-length field, the two-byte integers and length-prefixed strings every MQTT packet is
  built from.  Input buffers are the bytes from the pointer to the end of the object it points
  into, cursors are offsets into them, and reading outside gives \<open>None\<close>.  Output is the list of
  bytes written from the start of the buffer.
\<close>

subsection \<open>Constants and the header byte\<close>

abbreviation (input) MQTTPACKET_BUFFER_TOO_SHORT :: int where "MQTTPACKET_BUFFER_TOO_SHORT \<equiv> -2"
abbreviation (input) MQTTPACKET_READ_ERROR :: int where "MQTTPACKET_READ_ERROR \<equiv> -1"

abbreviation (input) MQTT_CPT_RESERVED :: byte where "MQTT_CPT_RESERVED \<equiv> 0"
abbreviation (input) CONNECT :: byte where "CONNECT \<equiv> 1"
abbreviation (input) CONNACK :: byte where "CONNACK \<equiv> 2"
abbreviation (input) PUBLISH :: byte where "PUBLISH \<equiv> 3"
abbreviation (input) PUBACK :: byte where "PUBACK \<equiv> 4"
abbreviation (input) PUBREC :: byte where "PUBREC \<equiv> 5"
abbreviation (input) PUBREL :: byte where "PUBREL \<equiv> 6"
abbreviation (input) PUBCOMP :: byte where "PUBCOMP \<equiv> 7"
abbreviation (input) SUBSCRIBE :: byte where "SUBSCRIBE \<equiv> 8"
abbreviation (input) SUBACK :: byte where "SUBACK \<equiv> 9"
abbreviation (input) UNSUBSCRIBE :: byte where "UNSUBSCRIBE \<equiv> 10"
abbreviation (input) UNSUBACK :: byte where "UNSUBACK \<equiv> 11"
abbreviation (input) PINGREQ :: byte where "PINGREQ \<equiv> 12"
abbreviation (input) PINGRESP :: byte where "PINGRESP \<equiv> 13"
abbreviation (input) DISCONNECT :: byte where "DISCONNECT \<equiv> 14"

definition MQTT_HEADER_GET_TYPE :: "byte \<Rightarrow> byte" where
  "MQTT_HEADER_GET_TYPE head = drop_bit 4 (head AND 0xF0)"

definition MQTT_HEADER_GET_DUP :: "byte \<Rightarrow> byte" where
  "MQTT_HEADER_GET_DUP head = drop_bit 3 (head AND 0x08)"

definition MQTT_HEADER_GET_QOS :: "byte \<Rightarrow> byte" where
  "MQTT_HEADER_GET_QOS head = drop_bit 1 (head AND 0x06)"

definition MQTT_HEADER_GET_RETAIN :: "byte \<Rightarrow> byte" where
  "MQTT_HEADER_GET_RETAIN head = head AND 0x01"

definition MQTT_HEADER_SET_TYPE :: "byte \<Rightarrow> byte \<Rightarrow> byte" where
  "MQTT_HEADER_SET_TYPE head ty = head OR (push_bit 4 ty AND 0xF0)"

definition MQTT_HEADER_SET_DUP :: "byte \<Rightarrow> byte \<Rightarrow> byte" where
  "MQTT_HEADER_SET_DUP head dup = head OR (push_bit 3 dup AND 0x08)"

definition MQTT_HEADER_SET_QOS :: "byte \<Rightarrow> byte \<Rightarrow> byte" where
  "MQTT_HEADER_SET_QOS head qos = head OR (push_bit 1 qos AND 0x06)"

definition MQTT_HEADER_SET_RETAIN :: "byte \<Rightarrow> byte \<Rightarrow> byte" where
  "MQTT_HEADER_SET_RETAIN head retain = head OR (retain AND 0x01)"

lemmas header_defs =
  MQTT_HEADER_GET_TYPE_def MQTT_HEADER_GET_DUP_def MQTT_HEADER_GET_QOS_def
  MQTT_HEADER_GET_RETAIN_def MQTT_HEADER_SET_TYPE_def MQTT_HEADER_SET_DUP_def
  MQTT_HEADER_SET_QOS_def MQTT_HEADER_SET_RETAIN_def

text \<open>The whole header byte, in the order \<open>MQTTSerialize_publish\<close> sets its fields.\<close>

abbreviation header_byte :: "byte \<Rightarrow> byte \<Rightarrow> byte \<Rightarrow> byte \<Rightarrow> byte" where
  "header_byte ty dup qos retain \<equiv>
     MQTT_HEADER_SET_RETAIN (MQTT_HEADER_SET_QOS (MQTT_HEADER_SET_DUP
       (MQTT_HEADER_SET_TYPE 0 ty) dup) qos) retain"

subsection \<open>The remaining length\<close>

function MQTTPacket_encode :: "int \<Rightarrow> byte list" where
  "MQTTPacket_encode n =
     (let d = word_of_int (n smod 128);
          n' = n sdiv 128
      in if 0 < n' then (d OR 0x80) # MQTTPacket_encode n' else [d])"
  by pat_completeness auto
termination
  by (relation "measure nat") (auto dest!: sdiv_smaller [of 128, simplified])

declare MQTTPacket_encode.simps [simp del]

text \<open>
  \<open>getcharfn\<close> reads one byte from a source of type \<open>'s\<close>: its return code, the byte and the source
  after it.  The result is the number of length bytes and the value.
\<close>

abbreviation (input) MAX_NO_OF_REMAINING_LENGTH_BYTES :: nat where
  "MAX_NO_OF_REMAINING_LENGTH_BYTES \<equiv> 4"

function MQTTPacket_decode_loop ::
  "('s \<Rightarrow> (int \<times> byte \<times> 's) option) \<Rightarrow> nat \<Rightarrow> int \<Rightarrow> int \<Rightarrow> 's \<Rightarrow> (nat \<times> int \<times> 's) option" where
  "MQTTPacket_decode_loop getcharfn len multiplier value s =
     (if MAX_NO_OF_REMAINING_LENGTH_BYTES < Suc len then Some (Suc len, value, s)
      else case getcharfn s of
        None \<Rightarrow> None
      | Some (rc, c, s') \<Rightarrow>
          if rc \<noteq> 1 then Some (Suc len, value, s')
          else let value' = value + uint (c AND 127) * multiplier in
            if c AND 128 \<noteq> 0
            then MQTTPacket_decode_loop getcharfn (Suc len) (multiplier * 128) value' s'
            else Some (Suc len, value', s'))"
  by pat_completeness auto
termination
  by (relation "measure (\<lambda>(g, len, m, v, s). 4 - len)") auto

declare MQTTPacket_decode_loop.simps [simp del]

definition MQTTPacket_decode ::
  "('s \<Rightarrow> (int \<times> byte \<times> 's) option) \<Rightarrow> 's \<Rightarrow> (nat \<times> int \<times> 's) option" where
  "MQTTPacket_decode getcharfn s = MQTTPacket_decode_loop getcharfn 0 1 0 s"

definition MQTTPacket_len :: "int \<Rightarrow> int" where
  "MQTTPacket_len rem_len =
     (let rem_len = rem_len + 1 in
      if rem_len < 128 then rem_len + 1
      else if rem_len < 16384 then rem_len + 2
      else if rem_len < 2097151 then rem_len + 3
      else rem_len + 4)"

fun bufchar :: "byte list \<Rightarrow> nat \<Rightarrow> byte \<Rightarrow> nat \<Rightarrow> (byte \<times> nat) option" where
  "bufchar buf 0 c bufptr = Some (c, bufptr)"
| "bufchar buf (Suc count) c bufptr =
     do { c \<leftarrow> rd8 buf bufptr; bufchar buf count c (Suc bufptr) }"

definition MQTTPacket_decodeBuf :: "byte list \<Rightarrow> nat \<Rightarrow> (nat \<times> int) option" where
  "MQTTPacket_decodeBuf buf off =
     map_option (\<lambda>(len, value, _). (len, value))
       (MQTTPacket_decode (\<lambda>p. map_option (\<lambda>(c, p). (1, c, p)) (bufchar buf 1 0 p)) off)"

subsection \<open>Integers, characters and strings\<close>

definition readInt :: "byte list \<Rightarrow> nat \<Rightarrow> (int \<times> nat) option" where
  "readInt buf off =
     do { a \<leftarrow> rd8 buf off; b \<leftarrow> rd8 buf (off + 1); Some (256 * uint a + uint b, off + 2) }"

definition readChar :: "byte list \<Rightarrow> nat \<Rightarrow> (byte \<times> nat) option" where
  "readChar buf off = do { c \<leftarrow> rd8 buf off; Some (c, off + 1) }"

definition writeChar :: "byte list \<Rightarrow> byte \<Rightarrow> byte list" where
  "writeChar out c = out @ [c]"

definition writeInt :: "byte list \<Rightarrow> int \<Rightarrow> byte list" where
  "writeInt out anInt = out @ [word_of_int (anInt sdiv 256), word_of_int (anInt smod 256)]"

definition writeCString :: "byte list \<Rightarrow> cstring \<Rightarrow> byte list" where
  "writeCString out s = writeInt out (int (length s)) @ s"

definition getLenStringLen :: "byte list \<Rightarrow> int option" where
  "getLenStringLen ptr = do { a \<leftarrow> rd8 ptr 0; b \<leftarrow> rd8 ptr 1; Some (256 * uint a + uint b) }"

record MQTTLenString =
  ls_len :: int
  ls_data :: "byte list option"   \<comment> \<open>the memory from the pointer on; \<open>None\<close> is NULL\<close>

record MQTTString =
  ms_cstring :: "cstring option"
  lenstring :: MQTTLenString

definition MQTTString_initializer :: MQTTString where
  "MQTTString_initializer = \<lparr>ms_cstring = None, lenstring = \<lparr>ls_len = 0, ls_data = None\<rparr>\<rparr>"

definition MQTTstrlen :: "MQTTString \<Rightarrow> int" where
  "MQTTstrlen s =
     (case ms_cstring s of Some c \<Rightarrow> int (length c) | None \<Rightarrow> ls_len (lenstring s))"

text \<open>
  \<open>memcpy\<close> and \<open>memcmp\<close> of \<open>n\<close> bytes through a pointer that may be NULL; a negative \<open>n\<close> becomes
  a size beyond every object.
\<close>

definition ptr_block :: "byte list option \<Rightarrow> int \<Rightarrow> byte list option" where
  "ptr_block p n =
     (if n < 0 then None else rd_block (case p of None \<Rightarrow> [] | Some m \<Rightarrow> m) 0 (nat n))"

definition writeMQTTString :: "byte list \<Rightarrow> MQTTString \<Rightarrow> byte list option" where
  "writeMQTTString out s =
     (if 0 < ls_len (lenstring s)
      then do {
        d \<leftarrow> ptr_block (ls_data (lenstring s)) (ls_len (lenstring s));
        Some (writeInt out (ls_len (lenstring s)) @ d) }
      else case ms_cstring s of
        Some c \<Rightarrow> Some (writeCString out c)
      | None \<Rightarrow> Some (writeInt out 0))"

definition readMQTTLenString ::
  "MQTTString \<Rightarrow> byte list \<Rightarrow> nat \<Rightarrow> int \<Rightarrow> (int \<times> MQTTString \<times> nat) option" where
  "readMQTTLenString s buf off enddata =
     (if 1 < enddata - int off
      then do {
        (len, off) \<leftarrow> readInt buf off;
        let s = s\<lparr>lenstring := (lenstring s)\<lparr>ls_len := len\<rparr>, ms_cstring := None\<rparr>;
        (if int off + len \<le> enddata
         then Some (1, s\<lparr>lenstring := (lenstring s)\<lparr>ls_data := Some (drop off buf)\<rparr>\<rparr>, off + nat len)
         else Some (0, s, off)) }
      else Some (0, s\<lparr>ms_cstring := None\<rparr>, off))"

definition MQTTPacket_equals :: "MQTTString \<Rightarrow> cstring \<Rightarrow> bool option" where
  "MQTTPacket_equals a bptr =
     (let (aptr, alen) = (case ms_cstring a of
            Some c \<Rightarrow> (Some c, int (length c))
          | None \<Rightarrow> (ls_data (lenstring a), ls_len (lenstring a)));
          blen = int (length bptr)
      in if alen = blen then do { x \<leftarrow> ptr_block aptr alen; Some (x = bptr) } else Some False)"

subsection \<open>Header fields\<close>

lemma header_get:
  assumes "ty < 16" "dup < 2" "qos < 4" "retain < 2"
  shows "MQTT_HEADER_GET_TYPE (header_byte ty dup qos retain) = ty"
    and "MQTT_HEADER_GET_DUP (header_byte ty dup qos retain) = dup"
    and "MQTT_HEADER_GET_QOS (header_byte ty dup qos retain) = qos"
    and "MQTT_HEADER_GET_RETAIN (header_byte ty dup qos retain) = retain"
  using byte_lt_16_bits [OF assms(1)] byte_lt_2_bits [OF assms(2)]
    byte_lt_4_bits [OF assms(3)] byte_lt_2_bits [OF assms(4)]
  by (simp_all add: header_defs byte_bits_eq_iff bit_simps del: push_bit_Suc)

subsection \<open>Encoding and decoding the remaining length\<close>

lemma encode_unfold:
  assumes "0 \<le> n"
  shows "MQTTPacket_encode n =
    (if n < 128 then [word_of_int n]
     else (word_of_int (n mod 128) OR 0x80) # MQTTPacket_encode (n div 128))"
proof (cases "n < 128")
  case True
  then have "n mod 128 = n" "n div 128 = 0" using assms by auto
  then show ?thesis using True assms by (simp add: MQTTPacket_encode.simps [of n] Let_def)
next
  case False
  then have "0 < n div 128" by (simp add: pos_imp_zdiv_pos_iff)
  then show ?thesis using False assms by (simp add: MQTTPacket_encode.simps [of n] Let_def)
qed

lemma encode_nonempty [simp]: "MQTTPacket_encode n \<noteq> []"
  by (subst MQTTPacket_encode.simps) (simp add: Let_def)

lemma length_encode_pos [simp]: "0 < length (MQTTPacket_encode n)"
  by simp

lemma encode_induct [consumes 1, case_names small large]:
  assumes "0 \<le> (n::int)"
    and "\<And>n. 0 \<le> n \<Longrightarrow> n < 128 \<Longrightarrow> P n"
    and "\<And>n. 128 \<le> n \<Longrightarrow> P (n div 128) \<Longrightarrow> P n"
  shows "P n"
  using assms(1)
proof (induction "nat n" arbitrary: n rule: less_induct)
  case less
  show ?case
  proof (cases "n < 128")
    case True then show ?thesis using assms(2) less.prems by simp
  next
    case False
    then have "nat (n div 128) < nat n" using less.prems by (simp add: int_div_less_self)
    then have "P (n div 128)" using less by (simp add: pos_imp_zdiv_nonneg_iff)
    then show ?thesis using assms(3) False by simp
  qed
qed

lemma length_encode_le:
  assumes "0 \<le> n" "n < 128 ^ Suc k"
  shows "length (MQTTPacket_encode n) \<le> Suc k"
  using assms
proof (induction n arbitrary: k rule: encode_induct)
  case (small n) then show ?case by (simp add: encode_unfold)
next
  case (large n)
  show ?case
  proof (cases k)
    case 0 then show ?thesis using large by simp
  next
    case (Suc j)
    have "n div 128 < 128 ^ Suc j"
      using large.prems Suc by (simp add: div_less_iff_less_mult pos_imp_zdiv_nonneg_iff)
    then show ?thesis using large Suc by (simp add: encode_unfold)
  qed
qed

lemma digit_uint:
  assumes "0 \<le> d" "d < 128"
  shows "(word_of_int d :: byte) < 128" and "uint (word_of_int d :: byte) = d"
proof -
  show "uint (word_of_int d :: byte) = d" using assms by (simp add: uint_word_of_int)
  then show "(word_of_int d :: byte) < 128" using assms by (simp add: word_less_def)
qed

abbreviation "getc buf \<equiv> (\<lambda>p. map_option (\<lambda>(c, p). (1::int, c, p)) (bufchar buf 1 0 p))"

lemma getc_eq: "getc buf p = (if p < length buf then Some (1, buf ! p, Suc p) else None)"
  by (auto simp: rd8_def numeral_eq_Suc One_nat_def)

lemma decode_encode_loop:
  assumes "0 \<le> n" and "len + length (MQTTPacket_encode n) \<le> 4"
    and "pre = length xs"
  shows "MQTTPacket_decode_loop (getc (xs @ MQTTPacket_encode n @ rest)) len mult v pre =
     Some (len + length (MQTTPacket_encode n), v + n * mult, pre + length (MQTTPacket_encode n))"
  using assms
proof (induction n arbitrary: len mult v pre xs rule: encode_induct)
  case (small n)
  note d = digit_uint [OF small(1,2)]
  have "\<not> 4 < Suc len" using small by (simp add: encode_unfold)
  then show ?case using small d
    by (simp add: encode_unfold MQTTPacket_decode_loop.simps [of _ len] getc_eq nth_append
        digit_bits)
next
  case (large n)
  let ?d = "word_of_int (n mod 128) :: byte"
  let ?e = "MQTTPacket_encode (n div 128)"
  have d: "?d < 128" "uint ?d = n mod 128" using digit_uint [of "n mod 128"] by auto
  have enc: "MQTTPacket_encode n = (?d OR 0x80) # ?e" using large by (simp add: encode_unfold)
  have "\<not> 4 < Suc len" using large.prems enc length_encode_pos [of "n div 128"] by simp
  moreover have "MQTTPacket_decode_loop (getc ((xs @ [?d OR 0x80]) @ ?e @ rest)) (Suc len) (mult * 128)
     (v + n mod 128 * mult) (Suc pre) = Some (Suc len + length ?e, v + n mod 128 * mult + n div 128 * (mult * 128), Suc pre + length ?e)"
    using large.prems enc by (intro large.IH) auto
  moreover have "n mod 128 * mult + n div 128 * (mult * 128) = n * mult"
    by (metis (no_types) distrib_right mult.assoc mult.commute mod_div_mult_eq)
  ultimately show ?case using enc d large.prems
    by (simp add: MQTTPacket_decode_loop.simps [of _ len] getc_eq nth_append digit_bits Let_def)
qed


subsection \<open>Strings on the wire\<close>

text \<open>
  \<open>MQTTstrlen\<close> prefers the C string and \<open>writeMQTTString\<close> the counted one.  They agree on a string
  that has one of the two, which is what the code builds.
\<close>

definition MQTTString_ok :: "MQTTString \<Rightarrow> bool" where
  "MQTTString_ok s =
     (case ms_cstring s of
        Some c \<Rightarrow> ls_len (lenstring s) \<le> 0
      | None \<Rightarrow> 0 \<le> ls_len (lenstring s) \<and>
          nat (ls_len (lenstring s)) \<le> (case ls_data (lenstring s) of None \<Rightarrow> 0 | Some d \<Rightarrow> length d))"

definition string_bytes :: "MQTTString \<Rightarrow> byte list" where
  "string_bytes s =
     (case ms_cstring s of
        Some c \<Rightarrow> c
      | None \<Rightarrow> take (nat (ls_len (lenstring s)))
          (case ls_data (lenstring s) of None \<Rightarrow> [] | Some d \<Rightarrow> d))"

abbreviation counted :: "byte list \<Rightarrow> byte list" where
  "counted bs \<equiv> writeInt [] (int (length bs)) @ bs"

lemma length_writeInt [simp]: "length (writeInt out n) = length out + 2"
  by (simp add: writeInt_def)

lemma writeInt_append: "writeInt out n = out @ writeInt [] n"
  by (simp add: writeInt_def)

lemma MQTTstrlen_eq: "MQTTString_ok s \<Longrightarrow> MQTTstrlen s = int (length (string_bytes s))"
  by (auto simp: MQTTString_ok_def string_bytes_def MQTTstrlen_def split: option.splits)

lemma writeMQTTString_eq [codec]:
  assumes "MQTTString_ok s"
  shows "writeMQTTString out s = Some (out @ counted (string_bytes s))"
proof (cases "0 < ls_len (lenstring s)")
  case True
  then obtain n where n: "ls_len (lenstring s) = int n" "0 < n"
    by (metis of_nat_0_less_iff pos_int_cases)
  then show ?thesis using assms
    by (auto simp: MQTTString_ok_def string_bytes_def writeMQTTString_def ptr_block_def
        writeInt_append [of out] min_absorb2 split: option.splits)
next
  case False
  then show ?thesis using assms
    by (auto simp: MQTTString_ok_def string_bytes_def writeMQTTString_def writeCString_def
        writeInt_append [of out] split: option.splits)
qed

lemma uint_byte_of_int: "0 \<le> n \<Longrightarrow> n < 256 \<Longrightarrow> uint (word_of_int n :: byte) = n"
  by (simp add: uint_word_of_int)

lemma readInt_writeInt [codec]:
  assumes "0 \<le> n" "n < 65536"
  shows "readInt (xs @ writeInt [] n @ rest) (length xs) = Some (n, length xs + 2)"
proof -
  have "uint (word_of_int (n div 256) :: byte) = n div 256"
    using assms by (intro uint_byte_of_int) (auto simp: div_less_iff_less_mult pos_imp_zdiv_nonneg_iff)
  moreover have "uint (word_of_int (n mod 256) :: byte) = n mod 256"
    by (intro uint_byte_of_int) auto
  ultimately show ?thesis
    using assms by (simp add: readInt_def writeInt_def rd8_append_length [of xs _ 1, simplified])
qed

lemma readMQTTLenString_counted [codec]:
  assumes "length bs < 65536" and "int (length xs + 2 + length bs) \<le> enddata"
  shows "readMQTTLenString s (xs @ counted bs @ rest) (length xs) enddata =
    Some (1, \<lparr>ms_cstring = None, lenstring = \<lparr>ls_len = int (length bs), ls_data = Some (bs @ rest)\<rparr>\<rparr>,
      length xs + 2 + length bs)"
proof -
  have "readInt (xs @ writeInt [] (int (length bs)) @ bs @ rest) (length xs) =
      Some (int (length bs), length xs + 2)"
    using readInt_writeInt [of "int (length bs)" xs "bs @ rest"] assms(1) by simp
  then show ?thesis using assms by (simp add: readMQTTLenString_def)
qed

text \<open>Reading stays inside a buffer that reaches the end the caller announces.\<close>

lemma readInt_safe: "off + 2 \<le> length buf \<Longrightarrow> \<exists>n. readInt buf off = Some (n, off + 2) \<and> 0 \<le> n \<and> n < 65536"
proof -
  assume "off + 2 \<le> length buf"
  then have "readInt buf off = Some (256 * uint (buf ! off) + uint (buf ! (off + 1)), off + 2)"
    by (simp add: readInt_def)
  moreover have "uint (buf ! off) < 256" "uint (buf ! (off + 1)) < 256"
    using uint_bounded [where 'a = 8] by simp_all
  ultimately show ?thesis by (intro exI [of _ "256 * uint (buf ! off) + uint (buf ! (off + 1))"]) simp
qed

lemma readMQTTLenString_safe:
  assumes "enddata \<le> int (length buf)"
  shows "\<exists>rc s' off'. readMQTTLenString s buf off enddata = Some (rc, s', off') \<and>
    (rc \<noteq> 0 \<longrightarrow> rc = 1 \<and> int off' \<le> enddata \<and> off + 2 \<le> off')"
proof (cases "1 < enddata - int off")
  case True
  then have "off + 2 \<le> length buf" using assms by linarith
  from readInt_safe [OF this] obtain n where n: "readInt buf off = Some (n, off + 2)" "0 \<le> n" by blast
  then show ?thesis using True by (auto simp: readMQTTLenString_def Let_def)
qed (simp add: readMQTTLenString_def)

subsection \<open>The length of an encoding\<close>

lemma decodeBuf_encode [codec]:
  assumes "0 \<le> n" "n < 268435456"
  shows "MQTTPacket_decodeBuf (xs @ MQTTPacket_encode n @ rest) (length xs) =
     Some (length (MQTTPacket_encode n), n)"
proof -
  have "length (MQTTPacket_encode n) \<le> 4" using length_encode_le [of n 3] assms by simp
  then show ?thesis using decode_encode_loop [of n 0 "length xs" xs rest 1 0] assms
    by (simp add: MQTTPacket_decodeBuf_def MQTTPacket_decode_def del: bufchar.simps)
qed

lemma length_encode_ge:
  assumes "128 ^ k \<le> n"
  shows "Suc k \<le> length (MQTTPacket_encode n)"
  using assms
proof (induction k arbitrary: n)
  case 0 then show ?case using length_encode_pos [of n] by linarith
next
  case (Suc k)
  have "(128::int) \<le> 128 ^ Suc k" using self_le_power [of "128::int" "Suc k"] by simp
  from order_trans [OF this Suc.prems] have n: "128 \<le> n" .
  have "128 ^ k \<le> n div 128"
    using zdiv_mono1 [OF Suc.prems, of 128] by simp
  then show ?case using Suc.IH [of "n div 128"] n by (simp add: encode_unfold [of n])
qed

lemma MQTTPacket_len_bounds [bound]:
  assumes "0 \<le> n" "n < 268435456"
  shows "1 + int (length (MQTTPacket_encode n)) + n \<le> MQTTPacket_len n"
    and "MQTTPacket_len n \<le> 2 + int (length (MQTTPacket_encode n)) + n"
proof -
  note le = length_encode_le [of n 0] length_encode_le [of n 1] length_encode_le [of n 2]
    length_encode_le [of n 3]
  note ge = length_encode_ge [of 0 n] length_encode_ge [of 1 n] length_encode_ge [of 2 n]
    length_encode_ge [of 3 n]
  show "1 + int (length (MQTTPacket_encode n)) + n \<le> MQTTPacket_len n"
    using le assms by (auto simp: MQTTPacket_len_def Let_def)
  show "MQTTPacket_len n \<le> 2 + int (length (MQTTPacket_encode n)) + n"
    using ge assms by (auto simp: MQTTPacket_len_def Let_def)
qed

subsection \<open>What a serializer promises\<close>

text \<open>
  Every \<open>MQTTSerialize_*\<close> function takes a buffer length and its parameters and either leaves the
  buffer alone and returns \<open>MQTTPACKET_BUFFER_TOO_SHORT\<close>, or writes a header byte, the remaining
  length and the body that this length announces.
\<close>

locale mqtt_serializer =
  fixes ser :: "int \<Rightarrow> 'a \<Rightarrow> (int \<times> byte list) option"
    and body_len :: "'a \<Rightarrow> int"
    and valid :: "'a \<Rightarrow> bool"
    and first :: "'a \<Rightarrow> byte"
    and body :: "'a \<Rightarrow> byte list"
  assumes short: "valid x \<Longrightarrow> buflen < MQTTPacket_len (body_len x) \<Longrightarrow>
      ser buflen x = Some (MQTTPACKET_BUFFER_TOO_SHORT, [])"
    and fits: "valid x \<Longrightarrow> MQTTPacket_len (body_len x) \<le> buflen \<Longrightarrow>
      ser buflen x = Some (int (length (first x # MQTTPacket_encode (body_len x) @ body x)),
        first x # MQTTPacket_encode (body_len x) @ body x)"
    and body_len: "valid x \<Longrightarrow> body_len x = int (length (body x))"
    and limit: "valid x \<Longrightarrow> body_len x < 268435456"
begin

lemma total: "valid x \<Longrightarrow> \<exists>rc out. ser buflen x = Some (rc, out)"
  using short [of x buflen] fits [of x buflen] by fastforce

lemma no_overflow:
  assumes "valid x" "ser buflen x = Some (rc, out)"
  shows "out \<noteq> [] \<Longrightarrow> int (length out) \<le> buflen" "rc < 0 \<longleftrightarrow> out = []"
    "0 \<le> rc \<Longrightarrow> rc = int (length out)"
proof -
  have n: "0 \<le> body_len x" "body_len x < 268435456" using body_len limit assms(1) by auto
  show "out \<noteq> [] \<Longrightarrow> int (length out) \<le> buflen" "rc < 0 \<longleftrightarrow> out = []"
    "0 \<le> rc \<Longrightarrow> rc = int (length out)"
    using assms short [of x buflen] fits [of x buflen] MQTTPacket_len_bounds(1) [OF n] body_len [of x]
    by (cases "buflen < MQTTPacket_len (body_len x)"; fastforce)+
qed

lemma serialized:
  assumes "valid x"
  shows "\<exists>rc out. ser buflen x = Some (rc, out) \<and> int (length out) \<le> max 0 buflen \<and>
    (if buflen < MQTTPacket_len (int (length (body x)))
     then rc = MQTTPACKET_BUFFER_TOO_SHORT \<and> out = []
     else rc = int (length out) \<and>
       out = first x # MQTTPacket_encode (int (length (body x))) @ body x)"
proof -
  have n: "0 \<le> body_len x" "body_len x < 268435456" using body_len limit assms by auto
  show ?thesis
    using short [OF assms, of buflen] fits [OF assms, of buflen] MQTTPacket_len_bounds(1) [OF n]
      body_len [OF assms]
    by (cases "buflen < MQTTPacket_len (body_len x)") auto
qed

lemma positive_framed:
  assumes "valid x" "ser buflen x = Some (rc, out)" "0 < rc"
  shows "out = first x # MQTTPacket_encode (int (length (body x))) @ body x"
  using assms short [of x buflen] fits [of x buflen] body_len [of x]
  by (cases "buflen < MQTTPacket_len (body_len x)") auto

lemma remaining_length:
  assumes "valid x" "ser buflen x = Some (rc, out)" "0 < rc"
  shows "MQTTPacket_decodeBuf (out @ rest) 1 =
     Some (length out - 1 - length (body x), int (length (body x)))"
proof -
  have out: "out = first x # MQTTPacket_encode (int (length (body x))) @ body x"
    by (rule positive_framed [OF assms])
  show ?thesis
    using decodeBuf_encode [of "int (length (body x))" "[first x]" "body x @ rest"]
      limit [OF assms(1)] body_len [OF assms(1)]
    by (simp add: out)
qed

end

subsection \<open>Properties\<close>

text \<open>
  C30: The remaining length survives the wire: what \<open>MQTTPacket_encode\<close> writes for any length MQTT
  allows, at any place of a buffer, is read back by \<open>MQTTPacket_decodeBuf\<close> with the same value and
  byte count.
\<close>

theorem remaining_length_roundtrip:
  assumes "0 \<le> n" "n < 268435456"
  shows "MQTTPacket_decodeBuf (xs @ MQTTPacket_encode n @ rest) (length xs) =
    Some (length (MQTTPacket_encode n), n)"
  by (rule decodeBuf_encode [OF assms])

theorem remaining_length_roundtrip_witness:
  "MQTTPacket_decodeBuf ([0x30] @ MQTTPacket_encode 321 @ [7]) (length [0x30 :: byte]) = Some (2, 321)"
  using remaining_length_roundtrip [of 321 "[0x30]" "[7]"] by (simp add: encode_unfold)

text \<open>
  \<open>MQTTPacket_len\<close>, the size every serializer compares with its buffer, is never less than
  the bytes written for a body of \<open>n\<close> bytes (header byte, remaining length, body), and is at most
  one byte more.  From 2 ^ 28 on, which MQTT does not allow and nothing checks, the length field
  takes five bytes and the size is one too small.
\<close>

theorem packet_len_sufficient:
  "(0 \<le> n \<and> n < 268435456 \<longrightarrow>
      1 + int (length (MQTTPacket_encode n)) + n \<le> MQTTPacket_len n \<and>
      MQTTPacket_len n \<le> 2 + int (length (MQTTPacket_encode n)) + n) \<and>
   (268435456 \<le> n \<longrightarrow> MQTTPacket_len n < 1 + int (length (MQTTPacket_encode n)) + n)"
proof -
  have "5 \<le> length (MQTTPacket_encode n) \<and> MQTTPacket_len n = n + 5" if "268435456 \<le> n"
    using length_encode_ge [of 4 n] that by (simp add: MQTTPacket_len_def Let_def)
  then show ?thesis using MQTTPacket_len_bounds [of n] by auto
qed

theorem packet_len_sufficient_witness:
  "1 + int (length (MQTTPacket_encode 200)) + 200 \<le> MQTTPacket_len 200 \<and>
   MQTTPacket_len 268435456 < 1 + int (length (MQTTPacket_encode 268435456)) + 268435456"
  using packet_len_sufficient [of 200] packet_len_sufficient [of 268435456] by simp

end
