(* ===== verification/MqttConnect.thy ===== *)
theory MqttConnect
  imports MqttPacket
begin

text \<open>
  \<open>mqtt/MQTTConnectClient.c\<close> and \<open>mqtt/MQTTConnect.h\<close>: the CONNECT packet and its options, the
  CONNACK packet, and the packets without a body (DISCONNECT, PINGREQ).
\<close>

subsection \<open>Connect options\<close>

abbreviation (input) MQTT_CONN_FLAG_USER_NAME :: byte where "MQTT_CONN_FLAG_USER_NAME \<equiv> 0x80"
abbreviation (input) MQTT_CONN_FLAG_PASSWORD :: byte where "MQTT_CONN_FLAG_PASSWORD \<equiv> 0x40"
abbreviation (input) MQTT_CONN_FLAG_WILL_RETAIN :: byte where "MQTT_CONN_FLAG_WILL_RETAIN \<equiv> 0x20"
abbreviation (input) MQTT_CONN_FLAG_WILL_FLAG :: byte where "MQTT_CONN_FLAG_WILL_FLAG \<equiv> 0x04"
abbreviation (input) MQTT_CONN_FLAG_CLEAN_SESSION :: byte where "MQTT_CONN_FLAG_CLEAN_SESSION \<equiv> 0x02"

record MQTTPacket_willOptions =
  will_struct_id :: cstring
  will_struct_version :: int
  will_topicName :: MQTTString
  will_message :: MQTTString
  will_retained :: byte
  will_qos :: byte

definition MQTTPacket_willOptions_initializer :: MQTTPacket_willOptions where
  "MQTTPacket_willOptions_initializer =
     \<lparr>will_struct_id = str ''MQTW'', will_struct_version = 0,
      will_topicName = MQTTString_initializer, will_message = MQTTString_initializer,
      will_retained = 0, will_qos = 0\<rparr>"

record MQTTPacket_connectData =
  cd_struct_id :: cstring
  cd_struct_version :: int
  MQTTVersion :: byte
  clientID :: MQTTString
  keepAliveInterval :: u16
  cleansession :: byte
  willFlag :: byte
  will :: MQTTPacket_willOptions
  username :: MQTTString
  password :: MQTTString

abbreviation (input) CONFIG_MQTT_KEEPALIVE_INTERVAL_MIN :: u16 where
  "CONFIG_MQTT_KEEPALIVE_INTERVAL_MIN \<equiv> 30"

definition MQTTPacket_connectData_initializer :: MQTTPacket_connectData where
  "MQTTPacket_connectData_initializer =
     \<lparr>cd_struct_id = str ''MQTC'', cd_struct_version = 0, MQTTVersion = 4,
      clientID = MQTTString_initializer, keepAliveInterval = CONFIG_MQTT_KEEPALIVE_INTERVAL_MIN,
      cleansession = 1, willFlag = 0, will = MQTTPacket_willOptions_initializer,
      username = MQTTString_initializer, password = MQTTString_initializer\<rparr>"

text \<open>\<open>s.cstring || s.lenstring.data\<close>\<close>

definition MQTTString_given :: "MQTTString \<Rightarrow> bool" where
  "MQTTString_given s = (ms_cstring s \<noteq> None \<or> ls_data (lenstring s) \<noteq> None)"

subsection \<open>Serializing CONNECT\<close>

definition MQTTSerialize_connectLength :: "MQTTPacket_connectData \<Rightarrow> int" where
  "MQTTSerialize_connectLength options =
     (let len = (if MQTTVersion options = 3 then 12 else if MQTTVersion options = 4 then 10 else 0);
          len = len + (MQTTstrlen (clientID options) + 2);
          len = (if willFlag options \<noteq> 0
                 then len + (MQTTstrlen (will_topicName (will options)) + 2
                        + MQTTstrlen (will_message (will options)) + 2) else len);
          len = (if MQTTString_given (username options) then len + (MQTTstrlen (username options) + 2) else len)
      in if MQTTString_given (password options) then len + (MQTTstrlen (password options) + 2) else len)"

definition connect_flags :: "MQTTPacket_connectData \<Rightarrow> byte" where
  "connect_flags options =
     (let all = 0;
          all = all OR (if cleansession options \<noteq> 0 then MQTT_CONN_FLAG_CLEAN_SESSION else 0);
          all = all OR (if willFlag options \<noteq> 0 then MQTT_CONN_FLAG_WILL_FLAG else 0);
          all = (if all AND MQTT_CONN_FLAG_WILL_FLAG \<noteq> 0
                 then all OR push_bit 3 (will_qos (will options) AND 0x03)
                          OR (if will_retained (will options) \<noteq> 0 then MQTT_CONN_FLAG_WILL_RETAIN else 0)
                 else all);
          all = (if MQTTString_given (username options) then all OR MQTT_CONN_FLAG_USER_NAME else all)
      in if MQTTString_given (password options) then all OR MQTT_CONN_FLAG_PASSWORD else all)"

definition MQTTSerialize_connect ::
  "int \<Rightarrow> MQTTPacket_connectData \<Rightarrow> (int \<times> byte list) option" where
  "MQTTSerialize_connect buflen options =
     (let len = MQTTSerialize_connectLength options in
      if buflen < MQTTPacket_len len then Some (MQTTPACKET_BUFFER_TOO_SHORT, [])
      else do {
        let out = writeChar [] (MQTT_HEADER_SET_TYPE 0 CONNECT);
        let out = out @ MQTTPacket_encode len;
        let out = (if MQTTVersion options = 4
                   then writeChar (writeCString out (str ''MQTT'')) 4
                   else writeChar (writeCString out (str ''MQIsdp'')) 3);
        let flags = connect_flags options;
        let out = writeChar out flags;
        let out = writeInt out (uint (keepAliveInterval options));
        out \<leftarrow> writeMQTTString out (clientID options);
        out \<leftarrow> (if willFlag options \<noteq> 0
                then do { out \<leftarrow> writeMQTTString out (will_topicName (will options));
                          writeMQTTString out (will_message (will options)) }
                else Some out);
        out \<leftarrow> (if flags AND MQTT_CONN_FLAG_USER_NAME \<noteq> 0
                then writeMQTTString out (username options) else Some out);
        out \<leftarrow> (if flags AND MQTT_CONN_FLAG_PASSWORD \<noteq> 0
                then writeMQTTString out (password options) else Some out);
        Some (int (length out), out) })"

subsection \<open>CONNACK\<close>

text \<open>
  The outputs are \<open>(sessionPresent, connack_rc)\<close>.  The bit field is the top bit of the flags byte
  in both layouts of \<open>MQTTConnackFlags\<close>.
\<close>

definition connack_sessionpresent :: "byte \<Rightarrow> byte" where
  "connack_sessionpresent all = drop_bit 7 all"

definition MQTTDeserialize_connack ::
  "byte \<times> byte \<Rightarrow> byte list \<Rightarrow> (int \<times> byte \<times> byte) option" where
  "MQTTDeserialize_connack outs buf = (case outs of (sessionPresent, connack_rc) \<Rightarrow>
     do {
       (header, cur) \<leftarrow> readChar buf 0;
       (if MQTT_HEADER_GET_TYPE header \<noteq> CONNACK then Some (0, sessionPresent, connack_rc)
        else do {
          (rc, mylen) \<leftarrow> MQTTPacket_decodeBuf buf cur;
          let cur = cur + rc;
          (if mylen < 2 then Some (int rc, sessionPresent, connack_rc)
           else do {
             (flags, cur) \<leftarrow> readChar buf cur;
             (connack_rc, cur) \<leftarrow> readChar buf cur;
             Some (1, connack_sessionpresent flags, connack_rc) }) }) })"

subsection \<open>Packets without a body\<close>

definition MQTTSerialize_zero :: "int \<Rightarrow> byte \<Rightarrow> (int \<times> byte list) option" where
  "MQTTSerialize_zero buflen packettype =
     (if buflen < 2 then Some (MQTTPACKET_BUFFER_TOO_SHORT, [])
      else let out = writeChar [] (MQTT_HEADER_SET_TYPE 0 packettype);
               out = out @ MQTTPacket_encode 0
           in Some (int (length out), out))"

definition MQTTSerialize_disconnect :: "int \<Rightarrow> (int \<times> byte list) option" where
  "MQTTSerialize_disconnect buflen = MQTTSerialize_zero buflen DISCONNECT"

definition MQTTSerialize_pingreq :: "int \<Rightarrow> (int \<times> byte list) option" where
  "MQTTSerialize_pingreq buflen = MQTTSerialize_zero buflen PINGREQ"

subsection \<open>The serializers keep their contract\<close>

text \<open>The body of CONNECT as the MQTT standard lays it out.\<close>

definition optional_string :: "MQTTString \<Rightarrow> byte list" where
  "optional_string s = (if MQTTString_given s then counted (string_bytes s) else [])"

definition connect_body :: "MQTTPacket_connectData \<Rightarrow> byte list" where
  "connect_body options =
     (if MQTTVersion options = 4 then counted (str ''MQTT'') @ [4] else counted (str ''MQIsdp'') @ [3])
     @ [connect_flags options] @ writeInt [] (uint (keepAliveInterval options))
     @ counted (string_bytes (clientID options))
     @ (if willFlag options \<noteq> 0 then counted (string_bytes (will_topicName (will options)))
          @ counted (string_bytes (will_message (will options))) else [])
     @ optional_string (username options) @ optional_string (password options)"

definition connect_valid :: "MQTTPacket_connectData \<Rightarrow> bool" where
  "connect_valid options =
     (MQTTVersion options \<in> {3, 4} \<and>
      (\<forall>s \<in> {clientID options, will_topicName (will options), will_message (will options),
             username options, password options}.
         MQTTString_ok s \<and> length (string_bytes s) < 65536))"

lemma connect_flags_user:
  "connect_flags options AND MQTT_CONN_FLAG_USER_NAME \<noteq> 0 \<longleftrightarrow> MQTTString_given (username options)"
  by (auto simp: connect_flags_def Let_def byte_bits_eq_iff bit_simps)

lemma connect_flags_password:
  "connect_flags options AND MQTT_CONN_FLAG_PASSWORD \<noteq> 0 \<longleftrightarrow> MQTTString_given (password options)"
  by (auto simp: connect_flags_def Let_def byte_bits_eq_iff bit_simps)

lemma connectLength_eq:
  assumes "connect_valid options"
  shows "MQTTSerialize_connectLength options = int (length (connect_body options))"
  using assms
  by (auto simp: connect_valid_def MQTTSerialize_connectLength_def Let_def connect_body_def
      optional_string_def MQTTstrlen_eq)

lemma connect_writes:
  assumes "connect_valid options" and "MQTTPacket_len (MQTTSerialize_connectLength options) \<le> buflen"
  shows "MQTTSerialize_connect buflen options =
     (let out = MQTT_HEADER_SET_TYPE 0 CONNECT # MQTTPacket_encode (MQTTSerialize_connectLength options)
                @ connect_body options
      in Some (int (length out), out))"
  using assms
  by (simp add: connect_valid_def MQTTSerialize_connect_def connect_flags_user connect_flags_password
      writeMQTTString_eq connect_body_def optional_string_def writeChar_def Let_def
      writeInt_append [of "_ @ _"] writeInt_append [of "_ # _"] writeCString_def)

interpretation connect_packet: mqtt_serializer MQTTSerialize_connect MQTTSerialize_connectLength
  connect_valid "\<lambda>_. MQTT_HEADER_SET_TYPE 0 CONNECT" connect_body
proof
  fix x buflen assume v: "connect_valid x"
  show "MQTTSerialize_connectLength x = int (length (connect_body x))" by (rule connectLength_eq [OF v])
  show "MQTTSerialize_connectLength x < 268435456"
    using v by (auto simp: connectLength_eq connect_body_def optional_string_def connect_valid_def)
  { assume "buflen < MQTTPacket_len (MQTTSerialize_connectLength x)"
    then show "MQTTSerialize_connect buflen x = Some (MQTTPACKET_BUFFER_TOO_SHORT, [])"
      by (simp add: MQTTSerialize_connect_def Let_def) }
  { assume "MQTTPacket_len (MQTTSerialize_connectLength x) \<le> buflen"
    from connect_writes [OF v this]
    show "MQTTSerialize_connect buflen x =
      Some (int (length (MQTT_HEADER_SET_TYPE 0 CONNECT # MQTTPacket_encode (MQTTSerialize_connectLength x) @ connect_body x)),
        MQTT_HEADER_SET_TYPE 0 CONNECT # MQTTPacket_encode (MQTTSerialize_connectLength x) @ connect_body x)"
      by (simp add: Let_def) }
qed

interpretation zero_packet: mqtt_serializer MQTTSerialize_zero "\<lambda>_. 0" "\<lambda>ty. True"
  "MQTT_HEADER_SET_TYPE 0" "\<lambda>_. []"
  by unfold_locales (auto simp: MQTTSerialize_zero_def MQTTPacket_len_def Let_def writeChar_def)

subsection \<open>Properties\<close>

text \<open>
  For every valid set of connect options \<open>MQTTSerialize_connect\<close> either reports that the
  buffer is too short and writes nothing, or writes a CONNECT packet in the standard's layout
  within the buffer and returns its length.
\<close>

theorem connect_serialized:
  assumes "connect_valid options"
  shows "\<exists>rc out. MQTTSerialize_connect buflen options = Some (rc, out) \<and> int (length out) \<le> max 0 buflen \<and>
    (if buflen < MQTTPacket_len (int (length (connect_body options)))
     then rc = MQTTPACKET_BUFFER_TOO_SHORT \<and> out = []
     else rc = int (length out) \<and> out = MQTT_HEADER_SET_TYPE 0 CONNECT
       # MQTTPacket_encode (int (length (connect_body options))) @ connect_body options)"
  by (rule connect_packet.serialized [OF assms])

definition connect_example :: MQTTPacket_connectData where
  "connect_example = MQTTPacket_connectData_initializer
     \<lparr>clientID := \<lparr>ms_cstring = Some [0x61, 0x62], lenstring = \<lparr>ls_len = 0, ls_data = None\<rparr>\<rparr>,
      username := \<lparr>ms_cstring = Some [0x75], lenstring = \<lparr>ls_len = 0, ls_data = None\<rparr>\<rparr>\<rparr>"

lemma connect_example_valid: "connect_valid connect_example"
  by (simp add: connect_valid_def connect_example_def MQTTPacket_connectData_initializer_def
      MQTTPacket_willOptions_initializer_def MQTTString_initializer_def MQTTString_ok_def string_bytes_def)

theorem connect_serialized_witness:
  "\<exists>rc out. MQTTSerialize_connect 64 connect_example = Some (rc, out) \<and> int (length out) \<le> 64 \<and> rc = 19"
proof -
  have "int (length (connect_body connect_example)) = 17"
    by (simp add: connect_body_def connect_example_def MQTTPacket_connectData_initializer_def
      MQTTPacket_willOptions_initializer_def MQTTString_initializer_def optional_string_def
      MQTTString_given_def string_bytes_def)
  then show ?thesis
    using connect_serialized [OF connect_example_valid, of 64] by (auto simp: MQTTPacket_len_def encode_unfold)
qed

text \<open>
  A CONNACK packet whose remaining length announces fewer than the two bytes of its body is
  not accepted as one by the length check alone: \<open>MQTTDeserialize_connack\<close> leaves both outputs as
  they were, but returns the number of length bytes, which is the success code 1 for every packet
  with a one-byte length.
\<close>

theorem connack_truncated_is_success:
  assumes "MQTT_HEADER_GET_TYPE header = CONNACK" "n < 2"
  shows "MQTTDeserialize_connack outs (header # word_of_nat n # rest) = Some (1, outs)"
proof -
  have "MQTTPacket_encode (int n) = [word_of_nat n]" using assms(2) by (simp add: encode_unfold)
  then have "MQTTPacket_decodeBuf (header # word_of_nat n # rest) 1 = Some (1, int n)"
    using decodeBuf_encode [of "int n" "[header]" rest] assms(2) by simp
  then show ?thesis using assms
    by (cases outs) (simp add: MQTTDeserialize_connack_def readChar_def)
qed

theorem connack_truncated_is_success_witness:
  "MQTTDeserialize_connack (9, 9) [0x20, 0] = Some (1, 9, 9)"
  using connack_truncated_is_success [where header = "0x20" and n = 0 and outs = "(9, 9)" and rest = "[]"] by (simp add: header_defs)

text \<open>
  On a CONNACK packet with both body bytes \<open>MQTTDeserialize_connack\<close> succeeds and returns the
  return code, but takes the session-present flag from bit 7 of the flags byte, so the flag of the
  MQTT standard (bit 0) is never seen.
\<close>

theorem connack_fields:
  "MQTTDeserialize_connack outs (0x20 # 2 # flags # code # rest) =
     Some (1, if bit flags 7 then 1 else 0, code)"
proof -
  have "MQTTPacket_decodeBuf (0x20 # 2 # flags # code # rest) 1 = Some (1, 2)"
    using decodeBuf_encode [of 2 "[0x20]" "flags # code # rest"] by (simp add: encode_unfold)
  moreover have "drop_bit 7 flags = (if bit flags 7 then 1 else 0)"
    by (auto simp: byte_bits_eq_iff bit_simps dest: bit_imp_le_length)
  moreover have "MQTT_HEADER_GET_TYPE 0x20 = CONNACK" by (simp add: header_defs)
  ultimately show ?thesis
    by (cases outs) (simp add: MQTTDeserialize_connack_def readChar_def
        connack_sessionpresent_def numeral_2_eq_2)
qed

end
