(* ===== verification/MqttPublish.thy ===== *)
theory MqttPublish
  imports MqttPacket
begin

text \<open>
  \<open>mqtt/MQTTSerializePublish.c\<close> and \<open>mqtt/MQTTDeserializePublish.c\<close>: the PUBLISH packet and the
  acknowledgements.  The parameters of \<open>MQTTSerialize_publish\<close> and the outputs of
  \<open>MQTTDeserialize_publish\<close> are one record; a payload pointer is the memory from it on.
\<close>

record publish_data =
  pub_dup :: byte
  pub_qos :: int
  pub_retained :: byte
  pub_packetid :: u16
  pub_topicName :: MQTTString
  pub_payload :: "byte list option"
  pub_payloadlen :: int

subsection \<open>PUBLISH\<close>

definition MQTTSerialize_publishLength :: "int \<Rightarrow> MQTTString \<Rightarrow> int \<Rightarrow> int" where
  "MQTTSerialize_publishLength qos topicName payloadlen =
     (let len = 0 + (2 + MQTTstrlen topicName + payloadlen)
      in if 0 < qos then len + 2 else len)"

definition MQTTSerialize_publish :: "int \<Rightarrow> publish_data \<Rightarrow> (int \<times> byte list) option" where
  "MQTTSerialize_publish buflen p =
     (let rem_len = MQTTSerialize_publishLength (pub_qos p) (pub_topicName p) (pub_payloadlen p) in
      if buflen < MQTTPacket_len rem_len then Some (MQTTPACKET_BUFFER_TOO_SHORT, [])
      else do {
        let header = MQTT_HEADER_SET_TYPE 0 PUBLISH;
        let header = MQTT_HEADER_SET_DUP header (pub_dup p);
        let header = MQTT_HEADER_SET_QOS header (word_of_int (pub_qos p));
        let header = MQTT_HEADER_SET_RETAIN header (pub_retained p);
        let out = writeChar [] header;
        let out = out @ MQTTPacket_encode rem_len;
        out \<leftarrow> writeMQTTString out (pub_topicName p);
        let out = (if 0 < pub_qos p then writeInt out (uint (pub_packetid p)) else out);
        d \<leftarrow> ptr_block (pub_payload p) (pub_payloadlen p);
        let out = out @ d;
        Some (int (length out), out) })"

definition MQTTDeserialize_publish :: "publish_data \<Rightarrow> byte list \<Rightarrow> (int \<times> publish_data) option" where
  "MQTTDeserialize_publish p buf =
     do {
       (header, cur) \<leftarrow> readChar buf 0;
       (if MQTT_HEADER_GET_TYPE header \<noteq> PUBLISH then Some (0, p)
        else do {
          let p = p\<lparr>pub_dup := MQTT_HEADER_GET_DUP header, pub_qos := uint (MQTT_HEADER_GET_QOS header),
                    pub_retained := MQTT_HEADER_GET_RETAIN header\<rparr>;
          (rc, mylen) \<leftarrow> MQTTPacket_decodeBuf buf cur;
          let cur = cur + rc;
          let enddata = int cur + mylen;
          (r, topic, cur) \<leftarrow> readMQTTLenString (pub_topicName p) buf cur enddata;
          let p = p\<lparr>pub_topicName := topic\<rparr>;
          (if r = 0 \<or> enddata - int cur < 0 then Some (int rc, p)
           else do {
             (p, cur) \<leftarrow>
               (if 0 < pub_qos p
                then do { (pid, cur) \<leftarrow> readInt buf cur;
                          Some (p\<lparr>pub_packetid := word_of_int pid\<rparr>, cur) }
                else Some (p, cur));
             Some (1, p\<lparr>pub_payloadlen := enddata - int cur, pub_payload := Some (drop cur buf)\<rparr>) }) }) }"

subsection \<open>Acknowledgements\<close>

text \<open>
  The parameters are \<open>(packettype, dup, packetid)\<close>, in and out; an output \<open>packetid\<close> may hold no
  value before.
\<close>

definition MQTTSerialize_ack :: "int \<Rightarrow> byte \<times> byte \<times> u16 \<Rightarrow> (int \<times> byte list) option" where
  "MQTTSerialize_ack buflen a = (case a of (packettype, dup, packetid) \<Rightarrow>
     (if buflen < 4 then Some (MQTTPACKET_BUFFER_TOO_SHORT, [])
      else let header = MQTT_HEADER_SET_TYPE 0 packettype;
               header = MQTT_HEADER_SET_DUP header dup;
               header = MQTT_HEADER_SET_QOS header (if packettype = PUBREL then 1 else 0);
               out = writeChar [] header;
               out = out @ MQTTPacket_encode 2;
               out = writeInt out (uint packetid)
           in Some (int (length out), out)))"

definition MQTTDeserialize_ack ::
  "byte \<times> byte \<times> u16 option \<Rightarrow> byte list \<Rightarrow> (int \<times> byte \<times> byte \<times> u16 option) option" where
  "MQTTDeserialize_ack outs buf = (case outs of (_, _, packetid) \<Rightarrow>
     do {
       (header, cur) \<leftarrow> readChar buf 0;
       let dup = MQTT_HEADER_GET_DUP header;
       let packettype = MQTT_HEADER_GET_TYPE header;
       (rc, mylen) \<leftarrow> MQTTPacket_decodeBuf buf cur;
       let cur = cur + rc;
       (if mylen < 2 then Some (int rc, packettype, dup, packetid)
        else do {
          (pid, cur) \<leftarrow> readInt buf cur;
          Some (1, packettype, dup, Some (word_of_int pid)) }) })"

subsection \<open>The serializers keep their contract\<close>

definition publish_body :: "publish_data \<Rightarrow> byte list" where
  "publish_body p =
     counted (string_bytes (pub_topicName p))
     @ (if 0 < pub_qos p then writeInt [] (uint (pub_packetid p)) else [])
     @ (case pub_payload p of None \<Rightarrow> [] | Some d \<Rightarrow> take (nat (pub_payloadlen p)) d)"

definition publish_valid :: "publish_data \<Rightarrow> bool" where
  "publish_valid p =
     (MQTTString_ok (pub_topicName p) \<and> length (string_bytes (pub_topicName p)) < 65536 \<and>
      0 \<le> pub_payloadlen p \<and>
      nat (pub_payloadlen p) \<le> (case pub_payload p of None \<Rightarrow> 0 | Some d \<Rightarrow> length d) \<and>
      length (publish_body p) < 268435456)"

lemma payload_block:
  assumes "publish_valid p"
  shows "ptr_block (pub_payload p) (pub_payloadlen p) =
    Some (case pub_payload p of None \<Rightarrow> [] | Some d \<Rightarrow> take (nat (pub_payloadlen p)) d)"
  using assms by (auto simp: publish_valid_def ptr_block_def split: option.splits)

lemma publishLength_eq:
  assumes "publish_valid p"
  shows "MQTTSerialize_publishLength (pub_qos p) (pub_topicName p) (pub_payloadlen p) =
    int (length (publish_body p))"
  using assms
  by (auto simp: publish_valid_def MQTTSerialize_publishLength_def publish_body_def Let_def
      MQTTstrlen_eq min_absorb2 split: option.splits)

abbreviation publish_header :: "publish_data \<Rightarrow> byte" where
  "publish_header p \<equiv> header_byte PUBLISH (pub_dup p) (word_of_int (pub_qos p)) (pub_retained p)"

interpretation publish_packet: mqtt_serializer MQTTSerialize_publish
  "\<lambda>p. MQTTSerialize_publishLength (pub_qos p) (pub_topicName p) (pub_payloadlen p)"
  publish_valid publish_header publish_body
proof
  fix p buflen assume v: "publish_valid p"
  let ?n = "MQTTSerialize_publishLength (pub_qos p) (pub_topicName p) (pub_payloadlen p)"
  show "?n = int (length (publish_body p))" by (rule publishLength_eq [OF v])
  show "?n < 268435456" using v by (simp add: publishLength_eq) (simp add: publish_valid_def)
  { assume "buflen < MQTTPacket_len ?n"
    then show "MQTTSerialize_publish buflen p = Some (MQTTPACKET_BUFFER_TOO_SHORT, [])"
      by (simp add: MQTTSerialize_publish_def Let_def) }
  { assume "MQTTPacket_len ?n \<le> buflen"
    then show "MQTTSerialize_publish buflen p =
      Some (int (length (publish_header p # MQTTPacket_encode ?n @ publish_body p)),
        publish_header p # MQTTPacket_encode ?n @ publish_body p)"
      using v payload_block [OF v]
      by (simp add: publish_valid_def MQTTSerialize_publish_def writeMQTTString_eq publish_body_def
          writeChar_def Let_def writeInt_append [of "_ # _"]) }
qed

lemma encode_2: "MQTTPacket_encode 2 = [2]"
  by (simp add: encode_unfold)

interpretation ack_packet: mqtt_serializer MQTTSerialize_ack "\<lambda>_. 2" "\<lambda>_. True"
  "\<lambda>(ty, dup, pid). header_byte ty dup (if ty = PUBREL then 1 else 0) 0"
  "\<lambda>(ty, dup, pid). writeInt [] (uint pid)"
  by unfold_locales
    (auto simp: MQTTSerialize_ack_def MQTTPacket_len_def Let_def writeChar_def
      MQTT_HEADER_SET_RETAIN_def writeInt_append [of "_ # _"])

subsection \<open>Reading back what was written\<close>

lemma ack_roundtrip_lemma:
  assumes "4 \<le> buflen" "ty < 16" "dup < 2"
  shows "do { (rc, out) \<leftarrow> MQTTSerialize_ack buflen (ty, dup, pid);
              MQTTDeserialize_ack outs (out @ rest) } = Some (1, ty, dup, Some pid)"
proof -
  define h where "h = header_byte ty dup (if ty = PUBREL then 1 else 0) 0"
  have h: "MQTT_HEADER_GET_TYPE h = ty" "MQTT_HEADER_GET_DUP h = dup"
    using header_get [of ty dup "if ty = PUBREL then 1 else 0" 0] assms by (auto simp: h_def)
  have "MQTTSerialize_ack buflen (ty, dup, pid) = Some (4, h # [2] @ writeInt [] (uint pid))"
    using ack_packet.fits [of buflen "(ty, dup, pid)"] assms
    by (simp add: MQTTPacket_len_def encode_2 h_def)
  moreover have "MQTTPacket_decodeBuf (h # [2] @ writeInt [] (uint pid) @ rest) 1 = Some (1, 2)"
    using decodeBuf_encode [of 2 "[h]" "writeInt [] (uint pid) @ rest"] by (simp add: encode_2)
  moreover have "readInt (h # [2] @ writeInt [] (uint pid) @ rest) 2 = Some (uint pid, 4)"
    using readInt_writeInt [of "uint pid" "[h, 2]" rest] uint_bounded [of pid]
    by (simp add: eval_nat_numeral)
  ultimately show ?thesis using h
    by (simp add: MQTTDeserialize_ack_def readChar_def numeral_2_eq_2 split: prod.splits)
qed

lemma deserialize_publish_steps:
  assumes "readChar buf 0 = Some (h, 1)" "MQTT_HEADER_GET_TYPE h = PUBLISH"
    and "MQTTPacket_decodeBuf buf 1 = Some (rc, mylen)"
    and "readMQTTLenString (pub_topicName q) buf (1 + rc) (int (1 + rc) + mylen) = Some (1, topic, cur)"
    and "int cur \<le> int (1 + rc) + mylen"
    and "0 < uint (MQTT_HEADER_GET_QOS h) \<Longrightarrow> readInt buf cur = Some (pid, cur + 2)"
  defines "cur' \<equiv> (if 0 < uint (MQTT_HEADER_GET_QOS h) then cur + 2 else cur)"
  shows "MQTTDeserialize_publish q buf = Some (1,
    \<lparr>pub_dup = MQTT_HEADER_GET_DUP h, pub_qos = uint (MQTT_HEADER_GET_QOS h),
     pub_retained = MQTT_HEADER_GET_RETAIN h,
     pub_packetid = (if 0 < uint (MQTT_HEADER_GET_QOS h) then word_of_int pid else pub_packetid q),
     pub_topicName = topic, pub_payload = Some (drop cur' buf),
     pub_payloadlen = int (1 + rc) + mylen - int cur'\<rparr>)"
  using assms by (cases q) (simp add: MQTTDeserialize_publish_def Let_def)

lemma publish_roundtrip_lemma:
  assumes v: "publish_valid p" and r: "pub_dup p < 2" "0 \<le> pub_qos p" "pub_qos p < 4" "pub_retained p < 2"
    and s: "MQTTSerialize_publish buflen p = Some (rc, out)" "0 < rc"
  shows "\<exists>q'. MQTTDeserialize_publish q (out @ rest) = Some (1, q') \<and>
    pub_dup q' = pub_dup p \<and> pub_qos q' = pub_qos p \<and> pub_retained q' = pub_retained p \<and>
    pub_packetid q' = (if 0 < pub_qos p then pub_packetid p else pub_packetid q) \<and>
    string_bytes (pub_topicName q') = string_bytes (pub_topicName p) \<and>
    pub_payloadlen q' = pub_payloadlen p \<and>
    ptr_block (pub_payload q') (pub_payloadlen q') = ptr_block (pub_payload p) (pub_payloadlen p)"
proof -
  let ?b = "publish_body p" and ?t = "string_bytes (pub_topicName p)"
  let ?pid = "if 0 < pub_qos p then writeInt [] (uint (pub_packetid p)) else []"
  let ?pl = "case pub_payload p of None \<Rightarrow> [] | Some d \<Rightarrow> take (nat (pub_payloadlen p)) d"
  let ?pre = "publish_header p # MQTTPacket_encode (int (length ?b))"
  have out: "out = ?pre @ ?b" using publish_packet.positive_framed [OF v s] by simp
  have b: "?b = counted ?t @ ?pid @ ?pl" by (simp add: publish_body_def)
  have t: "length ?t < 65536" using v by (simp add: publish_valid_def)
  have pl: "length ?pl = nat (pub_payloadlen p)"
    using v by (auto simp: publish_valid_def min_absorb2 split: option.splits)
  have qw: "(word_of_int (pub_qos p) :: byte) < 4" "uint (word_of_int (pub_qos p) :: byte) = pub_qos p"
    using r uint_byte_of_int [of "pub_qos p"] by (auto simp: word_less_def)
  note h = header_get [of PUBLISH "pub_dup p" "word_of_int (pub_qos p)" "pub_retained p", OF _ r(1) qw(1) r(4)]
  have dec: "MQTTPacket_decodeBuf (out @ rest) 1 =
      Some (length (MQTTPacket_encode (int (length ?b))), int (length ?b))"
    using decodeBuf_encode [of "int (length ?b)" "[publish_header p]" "?b @ rest"] v
    by (simp add: out publish_valid_def)
  have str: "readMQTTLenString x (out @ rest) (length ?pre) (int (length ?pre) + int (length ?b)) =
      Some (1, \<lparr>ms_cstring = None, lenstring = \<lparr>ls_len = int (length ?t),
        ls_data = Some (?t @ ?pid @ ?pl @ rest)\<rparr>\<rparr>, length ?pre + 2 + length ?t)" for x
    using readMQTTLenString_counted [of ?t ?pre "int (length ?pre) + int (length ?b)" x "?pid @ ?pl @ rest"] t
    by (simp add: out b)
  have pid: "readInt (out @ rest) (length ?pre + 2 + length ?t) =
      Some (uint (pub_packetid p), length ?pre + 2 + length ?t + 2)" if "0 < pub_qos p"
    using readInt_writeInt [of "uint (pub_packetid p)" "?pre @ counted ?t" "?pl @ rest"] that
      uint_bounded [of "pub_packetid p"]
    by (simp add: out b)
  have hd: "readChar (out @ rest) 0 = Some (publish_header p, 1)"
    by (simp add: readChar_def out)
  let ?n = "length ?pre + 2 + length ?t + (if 0 < pub_qos p then 2 else 0)"
  have len: "length ?b = 2 + length ?t + (if 0 < pub_qos p then 2 else 0) + nat (pub_payloadlen p)"
    using pl by (simp add: b)
  have drop: "drop ?n (out @ rest) = ?pl @ rest" by (simp add: out b)
  have "MQTTDeserialize_publish q (out @ rest) = Some (1,
    \<lparr>pub_dup = pub_dup p, pub_qos = pub_qos p, pub_retained = pub_retained p,
     pub_packetid = (if 0 < pub_qos p then word_of_int (uint (pub_packetid p)) else pub_packetid q),
     pub_topicName = \<lparr>ms_cstring = None, lenstring = \<lparr>ls_len = int (length ?t),
        ls_data = Some (?t @ ?pid @ ?pl @ rest)\<rparr>\<rparr>,
     pub_payload = Some (?pl @ rest), pub_payloadlen = pub_payloadlen p\<rparr>)"
    using deserialize_publish_steps [OF hd h(1) dec, of q "\<lparr>ms_cstring = None, lenstring = \<lparr>ls_len = int (length ?t),
        ls_data = Some (?t @ ?pid @ ?pl @ rest)\<rparr>\<rparr>" "length ?pre + 2 + length ?t" "uint (pub_packetid p)"]
      str [of "pub_topicName q"] pid drop len h qw v
    by (simp add: publish_valid_def split: if_splits)
  moreover have "ptr_block (Some (?pl @ rest)) (pub_payloadlen p) = ptr_block (pub_payload p) (pub_payloadlen p)"
    using pl v payload_block [OF v] by (simp add: ptr_block_def publish_valid_def)
  ultimately show ?thesis by (simp add: string_bytes_def)
qed

subsection \<open>Properties\<close>

text \<open>
  C16: Every PUBLISH packet that \<open>MQTTSerialize_publish\<close> writes is read back by
  \<open>MQTTDeserialize_publish\<close> with the same flags, topic and payload, and the same packet id when the
  QoS is above 0, whatever follows it in the buffer.
\<close>

theorem publish_roundtrip:
  assumes "publish_valid p" "pub_dup p < 2" "0 \<le> pub_qos p" "pub_qos p < 4" "pub_retained p < 2"
    and "MQTTSerialize_publish buflen p = Some (rc, out)" "0 < rc"
  shows "\<exists>q'. MQTTDeserialize_publish q (out @ rest) = Some (1, q') \<and>
    pub_dup q' = pub_dup p \<and> pub_qos q' = pub_qos p \<and> pub_retained q' = pub_retained p \<and>
    pub_packetid q' = (if 0 < pub_qos p then pub_packetid p else pub_packetid q) \<and>
    string_bytes (pub_topicName q') = string_bytes (pub_topicName p) \<and>
    pub_payloadlen q' = pub_payloadlen p \<and>
    ptr_block (pub_payload q') (pub_payloadlen q') = ptr_block (pub_payload p) (pub_payloadlen p)"
  by (rule publish_roundtrip_lemma [OF assms])

definition publish_example :: publish_data where
  "publish_example = \<lparr>pub_dup = 0, pub_qos = 1, pub_retained = 0, pub_packetid = 7,
     pub_topicName = \<lparr>ms_cstring = Some [0x61, 0x62], lenstring = \<lparr>ls_len = 0, ls_data = None\<rparr>\<rparr>,
     pub_payload = Some [0x31, 0x32], pub_payloadlen = 2\<rparr>"

lemma publish_example_valid: "publish_valid publish_example"
  by (simp add: publish_valid_def publish_example_def publish_body_def MQTTString_ok_def string_bytes_def)

theorem publish_roundtrip_witness:
  "\<exists>rc out q'. MQTTSerialize_publish 64 publish_example = Some (rc, out) \<and> 0 < rc \<and>
     MQTTDeserialize_publish publish_example (out @ [1]) = Some (1, q') \<and> pub_packetid q' = 7"
proof -
  have n: "length (publish_body publish_example) = 8"
    by (simp add: publish_example_def publish_body_def string_bytes_def)
  then obtain rc out where s: "MQTTSerialize_publish 64 publish_example = Some (rc, out)" "0 < rc"
    using publish_packet.serialized [OF publish_example_valid, of 64]
    by (auto simp: MQTTPacket_len_def)
  show ?thesis
    using publish_roundtrip [OF publish_example_valid _ _ _ _ s, of publish_example "[1]"] s
    by (auto simp: publish_example_def)
qed

text \<open>
  The acknowledgement packets round trip: for every 4-bit type and 1-bit dup flag,
  \<open>MQTTDeserialize_ack\<close> reads back the type, the flag and all 16 bits of the packet id that
  \<open>MQTTSerialize_ack\<close> wrote.
\<close>

theorem ack_roundtrip:
  assumes "4 \<le> buflen" "ty < 16" "dup < 2"
  shows "do { (rc, out) \<leftarrow> MQTTSerialize_ack buflen (ty, dup, pid);
              MQTTDeserialize_ack outs (out @ rest) } = Some (1, ty, dup, Some pid)"
  by (rule ack_roundtrip_lemma [OF assms])

theorem ack_roundtrip_witness:
  "do { (rc, out) \<leftarrow> MQTTSerialize_ack 4 (PUBACK, 0, 0xABCD);
        MQTTDeserialize_ack (0, 0, None) (out @ []) } = Some (1, PUBACK, 0, Some 0xABCD)"
  by (rule ack_roundtrip) simp_all

text \<open>
  A PUBLISH packet of QoS 1 or 2 whose remaining length ends right after the topic is accepted:
  \<open>MQTTDeserialize_publish\<close> takes the two bytes behind the packet for the packet id, returns
  success, and reports a payload length of -2.
\<close>

theorem publish_missing_id_accepted:
  assumes "MQTT_HEADER_GET_TYPE header = PUBLISH" "MQTT_HEADER_GET_QOS header \<noteq> 0"
    and "length topic < 126"
  shows "\<exists>q'. MQTTDeserialize_publish q
      (header # word_of_nat (2 + length topic) # counted topic @ [a, b] @ rest) = Some (1, q') \<and>
    pub_payloadlen q' = -2 \<and> pub_packetid q' = word_of_int (256 * uint a + uint b)"
proof -
  let ?n = "int (2 + length topic)"
  let ?buf = "header # word_of_nat (2 + length topic) # counted topic @ [a, b] @ rest"
  let ?t = "\<lparr>ms_cstring = None, lenstring = \<lparr>ls_len = int (length topic), ls_data = Some (topic @ [a, b] @ rest)\<rparr>\<rparr>"
  have "MQTTPacket_encode ?n = [word_of_nat (2 + length topic)]"
    using assms(3) by (subst encode_unfold) simp_all
  then have dec: "MQTTPacket_decodeBuf ?buf 1 = Some (1, ?n)"
    using decodeBuf_encode [of ?n "[header]" "counted topic @ [a, b] @ rest"] assms(3) by simp
  have str: "readMQTTLenString (pub_topicName q) ?buf (1 + 1) (int (1 + 1) + ?n) =
      Some (1, ?t, 4 + length topic)"
    using readMQTTLenString_counted [of topic "[header, word_of_nat (2 + length topic)]"
        "2 + ?n" "pub_topicName q" "[a, b] @ rest"] assms(3)
    by (simp add: numeral_2_eq_2)
  have id: "readInt ?buf (4 + length topic) = Some (256 * uint a + uint b, 4 + length topic + 2)"
    by (simp add: readInt_def rd8_def nth_append writeInt_def)
  have hd: "readChar ?buf 0 = Some (header, 1)" by (simp add: readChar_def)
  have qos: "0 < uint (MQTT_HEADER_GET_QOS header)"
    using assms(2) by (simp add: word_neq_0_conv word_less_def)
  show ?thesis
    using deserialize_publish_steps [OF hd assms(1) dec str _ id] qos
    by simp
qed

theorem publish_missing_id_accepted_witness:
  "\<exists>q'. MQTTDeserialize_publish publish_example [0x32, 3, 0, 1, 0x61, 0xAB, 0xCD] = Some (1, q') \<and>
    pub_payloadlen q' = -2 \<and> pub_packetid q' = 0xABCD"
  using publish_missing_id_accepted [where header = "0x32" and topic = "[0x61]" and q = publish_example
      and a = "0xAB" and b = "0xCD" and rest = "[]"]
  by (simp add: header_defs writeInt_def)

end
