(* ===== verification/MqttSubscribe.thy ===== *)
theory MqttSubscribe
  imports MqttPublish
begin

text \<open>
  \<open>mqtt/MQTTSubscribeClient.c\<close> and \<open>mqtt/MQTTUnsubscribeClient.c\<close>: the SUBSCRIBE and UNSUBSCRIBE
  packets and their acknowledgements.  The arrays are lists, the loops over \<open>count\<close> elements end
  in \<open>None\<close> when an array is shorter than \<open>count\<close>.
\<close>

record subscribe_data =
  sub_dup :: byte
  sub_packetid :: u16
  sub_count :: int
  sub_topicFilters :: "MQTTString list"
  sub_requestedQoSs :: "int list"

subsection \<open>SUBSCRIBE\<close>

fun subscribeLength_loop :: "nat \<Rightarrow> MQTTString list \<Rightarrow> int \<Rightarrow> int option" where
  "subscribeLength_loop 0 ts len = Some len"
| "subscribeLength_loop (Suc n) (t # ts) len = subscribeLength_loop n ts (len + (2 + MQTTstrlen t + 1))"
| "subscribeLength_loop (Suc n) [] len = None"

definition MQTTSerialize_subscribeLength :: "int \<Rightarrow> MQTTString list \<Rightarrow> int option" where
  "MQTTSerialize_subscribeLength count topicFilters = subscribeLength_loop (nat count) topicFilters 2"

fun subscribe_loop :: "nat \<Rightarrow> MQTTString list \<Rightarrow> int list \<Rightarrow> byte list \<Rightarrow> byte list option" where
  "subscribe_loop 0 ts qs out = Some out"
| "subscribe_loop (Suc n) (t # ts) (q # qs) out =
     do { out \<leftarrow> writeMQTTString out t; subscribe_loop n ts qs (writeChar out (word_of_int q)) }"
| "subscribe_loop (Suc n) _ _ out = None"

definition MQTTSerialize_subscribe :: "int \<Rightarrow> subscribe_data \<Rightarrow> (int \<times> byte list) option" where
  "MQTTSerialize_subscribe buflen s =
     do {
       rem_len \<leftarrow> MQTTSerialize_subscribeLength (sub_count s) (sub_topicFilters s);
       (if buflen < MQTTPacket_len rem_len then Some (MQTTPACKET_BUFFER_TOO_SHORT, [])
        else do {
          let header = MQTT_HEADER_SET_TYPE 0 SUBSCRIBE;
          let header = MQTT_HEADER_SET_DUP header (sub_dup s);
          let header = MQTT_HEADER_SET_QOS header 1;
          let out = writeChar [] header;
          let out = out @ MQTTPacket_encode rem_len;
          let out = writeInt out (uint (sub_packetid s));
          out \<leftarrow> subscribe_loop (nat (sub_count s)) (sub_topicFilters s) (sub_requestedQoSs s) out;
          Some (int (length out), out) }) }"

text \<open>
  The granted QoS array is a list of the bytes stored; \<open>*count\<close> is an output that keeps its old
  value on the early exits, and \<open>*packetid\<close> one that may hold no value before.
\<close>

record suback_data =
  sa_packetid :: "u16 option"
  sa_count :: int
  sa_grantedQoSs :: "byte list"

fun suback_loop :: "nat \<Rightarrow> int \<Rightarrow> byte list \<Rightarrow> nat \<Rightarrow> suback_data \<Rightarrow> (int \<times> suback_data) option" where
  "suback_loop 0 maxcount buf cur d = Some (1, d)"
| "suback_loop (Suc n) maxcount buf cur d =
     (if maxcount \<le> sa_count d then Some (-1, d)
      else do {
        (c, cur) \<leftarrow> readChar buf cur;
        (if nat (sa_count d) < length (sa_grantedQoSs d)
         then suback_loop n maxcount buf cur
           (d\<lparr>sa_grantedQoSs := (sa_grantedQoSs d)[nat (sa_count d) := c], sa_count := sa_count d + 1\<rparr>)
         else None) })"

definition MQTTDeserialize_suback ::
  "int \<Rightarrow> suback_data \<Rightarrow> byte list \<Rightarrow> (int \<times> suback_data) option" where
  "MQTTDeserialize_suback maxcount d buf =
     do {
       (header, cur) \<leftarrow> readChar buf 0;
       (if MQTT_HEADER_GET_TYPE header \<noteq> SUBACK then Some (0, d)
        else do {
          (rc, mylen) \<leftarrow> MQTTPacket_decodeBuf buf cur;
          let cur = cur + rc;
          let enddata = int cur + mylen;
          (if enddata - int cur < 2 then Some (int rc, d)
           else do {
             (pid, cur) \<leftarrow> readInt buf cur;
             let d = d\<lparr>sa_packetid := Some (word_of_int pid), sa_count := 0\<rparr>;
             suback_loop (nat (enddata - int cur)) maxcount buf cur d }) }) }"

subsection \<open>UNSUBSCRIBE\<close>

fun unsubscribeLength_loop :: "nat \<Rightarrow> MQTTString list \<Rightarrow> int \<Rightarrow> int option" where
  "unsubscribeLength_loop 0 ts len = Some len"
| "unsubscribeLength_loop (Suc n) (t # ts) len = unsubscribeLength_loop n ts (len + (2 + MQTTstrlen t))"
| "unsubscribeLength_loop (Suc n) [] len = None"

definition MQTTSerialize_unsubscribeLength :: "int \<Rightarrow> MQTTString list \<Rightarrow> int option" where
  "MQTTSerialize_unsubscribeLength count topicFilters = unsubscribeLength_loop (nat count) topicFilters 2"

fun unsubscribe_loop :: "nat \<Rightarrow> MQTTString list \<Rightarrow> byte list \<Rightarrow> byte list option" where
  "unsubscribe_loop 0 ts out = Some out"
| "unsubscribe_loop (Suc n) (t # ts) out =
     do { out \<leftarrow> writeMQTTString out t; unsubscribe_loop n ts out }"
| "unsubscribe_loop (Suc n) [] out = None"

text \<open>The parameters are \<open>(dup, packetid, count, topicFilters)\<close>.\<close>

definition MQTTSerialize_unsubscribe ::
  "int \<Rightarrow> byte \<times> u16 \<times> int \<times> MQTTString list \<Rightarrow> (int \<times> byte list) option" where
  "MQTTSerialize_unsubscribe buflen u = (case u of (dup, packetid, count, topicFilters) \<Rightarrow>
     do {
       rem_len \<leftarrow> MQTTSerialize_unsubscribeLength count topicFilters;
       (if buflen < MQTTPacket_len rem_len then Some (MQTTPACKET_BUFFER_TOO_SHORT, [])
        else do {
          let header = MQTT_HEADER_SET_TYPE 0 UNSUBSCRIBE;
          let header = MQTT_HEADER_SET_DUP header dup;
          let header = MQTT_HEADER_SET_QOS header 1;
          let out = writeChar [] header;
          let out = out @ MQTTPacket_encode rem_len;
          let out = writeInt out (uint packetid);
          out \<leftarrow> unsubscribe_loop (nat count) topicFilters out;
          Some (int (length out), out) }) })"

definition MQTTDeserialize_unsuback :: "u16 option \<Rightarrow> byte list \<Rightarrow> (int \<times> u16 option) option" where
  "MQTTDeserialize_unsuback packetid buf =
     do {
       (rc, type, dup, packetid) \<leftarrow> MQTTDeserialize_ack (0, 0, packetid) buf;
       Some (if type = UNSUBACK then 1 else rc, packetid) }"

subsection \<open>The serializers keep their contract\<close>

definition subscribe_body :: "subscribe_data \<Rightarrow> byte list" where
  "subscribe_body s = writeInt [] (uint (sub_packetid s)) @
     concat (map (\<lambda>(t, q). counted (string_bytes t) @ [word_of_int q])
       (take (nat (sub_count s)) (zip (sub_topicFilters s) (sub_requestedQoSs s))))"

definition subscribe_valid :: "subscribe_data \<Rightarrow> bool" where
  "subscribe_valid s =
     (nat (sub_count s) \<le> length (sub_topicFilters s) \<and> nat (sub_count s) \<le> length (sub_requestedQoSs s) \<and>
      list_all MQTTString_ok (sub_topicFilters s) \<and> length (subscribe_body s) < 268435456)"

lemma subscribeLength_loop_eq:
  assumes "n \<le> length ts" "n \<le> length qs" "list_all MQTTString_ok ts"
  shows "subscribeLength_loop n ts len = Some (len + int (length (concat
    (map (\<lambda>(t, q). counted (string_bytes t) @ [word_of_int q :: byte]) (take n (zip ts qs))))))"
  using assms
proof (induction n ts len arbitrary: qs rule: subscribeLength_loop.induct)
  case (2 n t ts len) then show ?case by (cases qs) (auto simp: MQTTstrlen_eq)
qed auto

lemma subscribe_loop_eq:
  assumes "n \<le> length ts" "n \<le> length qs" "list_all MQTTString_ok ts"
  shows "subscribe_loop n ts qs out = Some (out @ concat
    (map (\<lambda>(t, q). counted (string_bytes t) @ [word_of_int q :: byte]) (take n (zip ts qs))))"
  using assms
  by (induction n ts qs out rule: subscribe_loop.induct) (auto simp: writeMQTTString_eq writeChar_def)

abbreviation subscribe_length :: "subscribe_data \<Rightarrow> int" where
  "subscribe_length s \<equiv> the (MQTTSerialize_subscribeLength (sub_count s) (sub_topicFilters s))"

lemma subscribeLength_eq:
  assumes "subscribe_valid s"
  shows "MQTTSerialize_subscribeLength (sub_count s) (sub_topicFilters s) = Some (int (length (subscribe_body s)))"
  using assms subscribeLength_loop_eq [of "nat (sub_count s)" "sub_topicFilters s" "sub_requestedQoSs s" 2]
  by (simp add: subscribe_valid_def MQTTSerialize_subscribeLength_def subscribe_body_def)

interpretation subscribe_packet: mqtt_serializer MQTTSerialize_subscribe subscribe_length
  subscribe_valid "\<lambda>s. MQTT_HEADER_SET_QOS (MQTT_HEADER_SET_DUP (MQTT_HEADER_SET_TYPE 0 SUBSCRIBE) (sub_dup s)) 1"
  subscribe_body
proof
  fix s buflen assume v: "subscribe_valid s"
  note len = subscribeLength_eq [OF v]
  have loop: "subscribe_loop (nat (sub_count s)) (sub_topicFilters s) (sub_requestedQoSs s)
     (writeInt out (uint (sub_packetid s))) = Some (out @ subscribe_body s)" for out
    using v by (simp add: subscribe_valid_def subscribe_loop_eq subscribe_body_def
        writeInt_append [of out])
  show "subscribe_length s = int (length (subscribe_body s))" by (simp add: len)
  show "subscribe_length s < 268435456" using v len by (simp add: subscribe_valid_def)
  { assume "buflen < MQTTPacket_len (subscribe_length s)"
    then show "MQTTSerialize_subscribe buflen s = Some (MQTTPACKET_BUFFER_TOO_SHORT, [])"
      by (simp add: MQTTSerialize_subscribe_def len) }
  { assume "MQTTPacket_len (subscribe_length s) \<le> buflen"
    then show "MQTTSerialize_subscribe buflen s =
      Some (int (length (MQTT_HEADER_SET_QOS (MQTT_HEADER_SET_DUP (MQTT_HEADER_SET_TYPE 0 SUBSCRIBE) (sub_dup s)) 1
          # MQTTPacket_encode (subscribe_length s) @ subscribe_body s)),
        MQTT_HEADER_SET_QOS (MQTT_HEADER_SET_DUP (MQTT_HEADER_SET_TYPE 0 SUBSCRIBE) (sub_dup s)) 1
          # MQTTPacket_encode (subscribe_length s) @ subscribe_body s)"
      by (simp add: MQTTSerialize_subscribe_def len loop writeChar_def) }
qed

type_synonym unsubscribe_data = "byte \<times> u16 \<times> int \<times> MQTTString list"

definition unsubscribe_body :: "unsubscribe_data \<Rightarrow> byte list" where
  "unsubscribe_body u = (case u of (dup, packetid, count, ts) \<Rightarrow>
     writeInt [] (uint packetid) @ concat (map (\<lambda>t. counted (string_bytes t)) (take (nat count) ts)))"

definition unsubscribe_valid :: "unsubscribe_data \<Rightarrow> bool" where
  "unsubscribe_valid u = (case u of (dup, packetid, count, ts) \<Rightarrow>
     nat count \<le> length ts \<and> list_all MQTTString_ok ts \<and> length (unsubscribe_body u) < 268435456)"

lemma unsubscribeLength_loop_eq:
  assumes "n \<le> length ts" "list_all MQTTString_ok ts"
  shows "unsubscribeLength_loop n ts len = Some (len + int (length (concat
    (map (\<lambda>t. counted (string_bytes t)) (take n ts)))))"
  using assms
  by (induction n ts len rule: unsubscribeLength_loop.induct) (auto simp: MQTTstrlen_eq)

lemma unsubscribe_loop_eq:
  assumes "n \<le> length ts" "list_all MQTTString_ok ts"
  shows "unsubscribe_loop n ts out = Some (out @ concat (map (\<lambda>t. counted (string_bytes t)) (take n ts)))"
  using assms
  by (induction n ts out rule: unsubscribe_loop.induct) (auto simp: writeMQTTString_eq)

abbreviation unsubscribe_length :: "unsubscribe_data \<Rightarrow> int" where
  "unsubscribe_length u \<equiv> (case u of (dup, packetid, count, ts) \<Rightarrow>
     the (MQTTSerialize_unsubscribeLength count ts))"

lemma unsubscribeLength_eq:
  assumes "unsubscribe_valid (dup, packetid, count, ts)"
  shows "MQTTSerialize_unsubscribeLength count ts =
    Some (int (length (unsubscribe_body (dup, packetid, count, ts))))"
  using assms by (simp add: unsubscribe_valid_def MQTTSerialize_unsubscribeLength_def
      unsubscribe_body_def unsubscribeLength_loop_eq)

interpretation unsubscribe_packet: mqtt_serializer MQTTSerialize_unsubscribe unsubscribe_length
  unsubscribe_valid
  "\<lambda>(dup, packetid, count, ts). MQTT_HEADER_SET_QOS (MQTT_HEADER_SET_DUP (MQTT_HEADER_SET_TYPE 0 UNSUBSCRIBE) dup) 1"
  unsubscribe_body
proof
  fix u :: unsubscribe_data and buflen :: int
  assume v: "unsubscribe_valid u"
  obtain dup packetid count ts where u: "u = (dup, packetid, count, ts)" by (cases u)
  let ?h = "MQTT_HEADER_SET_QOS (MQTT_HEADER_SET_DUP (MQTT_HEADER_SET_TYPE 0 UNSUBSCRIBE) dup) 1"
  note len = unsubscribeLength_eq [OF v [unfolded u]]
  have loop: "unsubscribe_loop (nat count) ts (writeInt out (uint packetid)) =
     Some (out @ unsubscribe_body (dup, packetid, count, ts))" for out
    using v by (simp add: u unsubscribe_valid_def unsubscribe_loop_eq unsubscribe_body_def
        writeInt_append [of out])
  show "unsubscribe_length u = int (length (unsubscribe_body u))" by (simp add: u len)
  show "unsubscribe_length u < 268435456" using v len by (simp add: unsubscribe_valid_def u)
  { assume "buflen < MQTTPacket_len (unsubscribe_length u)"
    then show "MQTTSerialize_unsubscribe buflen u = Some (MQTTPACKET_BUFFER_TOO_SHORT, [])"
      by (simp add: MQTTSerialize_unsubscribe_def u len) }
  { assume "MQTTPacket_len (unsubscribe_length u) \<le> buflen"
    then show "MQTTSerialize_unsubscribe buflen u = Some
      (int (length ((case u of (dup, packetid, count, ts) \<Rightarrow>
          MQTT_HEADER_SET_QOS (MQTT_HEADER_SET_DUP (MQTT_HEADER_SET_TYPE 0 UNSUBSCRIBE) dup) 1)
          # MQTTPacket_encode (unsubscribe_length u) @ unsubscribe_body u)),
        (case u of (dup, packetid, count, ts) \<Rightarrow>
          MQTT_HEADER_SET_QOS (MQTT_HEADER_SET_DUP (MQTT_HEADER_SET_TYPE 0 UNSUBSCRIBE) dup) 1)
          # MQTTPacket_encode (unsubscribe_length u) @ unsubscribe_body u)"
      by (simp add: MQTTSerialize_unsubscribe_def u len loop writeChar_def) }
qed

subsection \<open>The arrays of SUBACK\<close>

lemma suback_loop_bounds:
  assumes "suback_loop n maxcount buf cur d = Some (rc, d')" "0 \<le> sa_count d" "sa_count d \<le> maxcount"
  shows "sa_count d \<le> sa_count d' \<and> sa_count d' \<le> maxcount \<and> sa_packetid d' = sa_packetid d \<and>
    length (sa_grantedQoSs d') = length (sa_grantedQoSs d) \<and> (rc = 1 \<or> rc = -1)"
  using assms
proof (induction n arbitrary: cur d)
  case (Suc n)
  show ?case
  proof (cases "maxcount \<le> sa_count d")
    case True then show ?thesis using Suc.prems by auto
  next
    case False
    then show ?thesis using Suc.prems Suc.IH
      by (fastforce simp: readChar_def rd8_eq_Some bind_eq_Some_conv split: if_splits)
  qed
qed auto

lemma suback_loop_enough:
  assumes "suback_loop n maxcount buf cur d = Some (rc, d')" "sa_count d + int n \<le> maxcount"
  shows "rc = 1"
  using assms
  by (induction n arbitrary: cur d) (fastforce simp: bind_eq_Some_conv split: if_splits)+

lemma deserialize_suback_cases:
  assumes "MQTTDeserialize_suback maxcount d buf = Some (rc, d')"
  shows "d' = d \<or> (\<exists>n cur pid. suback_loop n maxcount buf cur (d\<lparr>sa_packetid := pid, sa_count := 0\<rparr>) = Some (rc, d'))"
  using assms
  by (auto simp: MQTTDeserialize_suback_def bind_eq_Some_conv Let_def split: if_splits)

lemma header_suback: "MQTT_HEADER_GET_TYPE 0x90 = SUBACK"
  by (simp add: header_defs)

lemma suback_loop_stores:
  assumes "suback_loop n maxcount buf cur d = Some (1, d')" "0 \<le> sa_count d"
    and "nat (sa_count d) \<le> length (sa_grantedQoSs d)"
  shows "sa_count d' = sa_count d + int n \<and>
    take (nat (sa_count d')) (sa_grantedQoSs d') =
      take (nat (sa_count d)) (sa_grantedQoSs d) @ take n (drop cur buf)"
  using assms
proof (induction n arbitrary: cur d)
  case (Suc n)
  let ?g = "sa_grantedQoSs d" and ?c = "nat (sa_count d)"
  from Suc.prems have c: "cur < length buf" "?c < length ?g" and
    rec: "suback_loop n maxcount buf (Suc cur)
      (d\<lparr>sa_grantedQoSs := ?g[?c := buf ! cur], sa_count := sa_count d + 1\<rparr>) = Some (1, d')"
    by (auto simp: readChar_def rd8_eq_Some bind_eq_Some_conv split: if_splits)
  have "take (nat (sa_count d + 1)) (?g[?c := buf ! cur]) = take ?c ?g @ [buf ! cur]"
    using Suc.prems(2) c by (simp add: nat_add_distrib take_Suc_conv_app_nth)
  moreover have "nat (sa_count d + 1) \<le> length ?g" using c Suc.prems(2) by linarith
  ultimately show ?case using Suc.IH [OF rec] c Suc.prems(2)
    by (auto simp: Cons_nth_drop_Suc [symmetric])
qed auto

lemma suback_loop_safe:
  assumes "cur + n \<le> length buf" "0 \<le> sa_count d" "maxcount \<le> int (length (sa_grantedQoSs d))"
  shows "\<exists>rc d'. suback_loop n maxcount buf cur d = Some (rc, d')"
  using assms
proof (induction n arbitrary: cur d)
  case (Suc n)
  show ?case
  proof (cases "maxcount \<le> sa_count d")
    case False
    then have "nat (sa_count d) < length (sa_grantedQoSs d)" using Suc.prems by linarith
    then show ?thesis using Suc by (simp add: readChar_def)
  qed simp
qed simp

subsection \<open>Properties\<close>

text \<open>
  For every valid request \<open>MQTTSerialize_subscribe\<close> either reports that the buffer is too
  short and writes nothing, or writes the packet id and each filter with its QoS behind a correct
  header, within the buffer.
\<close>

theorem subscribe_serialized:
  assumes "subscribe_valid s"
  shows "\<exists>rc out. MQTTSerialize_subscribe buflen s = Some (rc, out) \<and> int (length out) \<le> max 0 buflen \<and>
    (if buflen < MQTTPacket_len (int (length (subscribe_body s)))
     then rc = MQTTPACKET_BUFFER_TOO_SHORT \<and> out = []
     else rc = int (length out) \<and>
       out = MQTT_HEADER_SET_QOS (MQTT_HEADER_SET_DUP (MQTT_HEADER_SET_TYPE 0 SUBSCRIBE) (sub_dup s)) 1
         # MQTTPacket_encode (int (length (subscribe_body s))) @ subscribe_body s)"
  by (rule subscribe_packet.serialized [OF assms])

theorem subscribe_serialized_witness:
  "\<exists>out. MQTTSerialize_subscribe 64
     \<lparr>sub_dup = 0, sub_packetid = 1, sub_count = 1,
      sub_topicFilters = [\<lparr>ms_cstring = Some [0x61], lenstring = \<lparr>ls_len = 0, ls_data = None\<rparr>\<rparr>],
      sub_requestedQoSs = [1]\<rparr> = Some (8, out)"
  using subscribe_serialized [of "\<lparr>sub_dup = 0, sub_packetid = 1, sub_count = 1,
      sub_topicFilters = [\<lparr>ms_cstring = Some [0x61], lenstring = \<lparr>ls_len = 0, ls_data = None\<rparr>\<rparr>],
      sub_requestedQoSs = [1]\<rparr>" 64]
  by (auto simp: subscribe_valid_def subscribe_body_def string_bytes_def MQTTString_ok_def
      MQTTPacket_len_def encode_unfold)

text \<open>
  \<open>MQTTDeserialize_suback\<close> never stores more granted QoS values than the caller's array holds:
  on any bytes, if it returns, the count is at most \<open>maxcount\<close> and the array has kept its size; and
  when the buffer holds the whole packet and the array has \<open>maxcount\<close> elements, it does return.
\<close>

theorem suback_bounded:
  assumes "0 \<le> maxcount" "sa_count d = 0"
  shows "(\<forall>rc d'. MQTTDeserialize_suback maxcount d buf = Some (rc, d') \<longrightarrow>
      0 \<le> sa_count d' \<and> sa_count d' \<le> maxcount \<and>
      length (sa_grantedQoSs d') = length (sa_grantedQoSs d)) \<and>
    (\<forall>len mylen. MQTTPacket_decodeBuf buf 1 = Some (len, mylen) \<longrightarrow> int (1 + len) + mylen \<le> int (length buf) \<longrightarrow>
      maxcount \<le> int (length (sa_grantedQoSs d)) \<longrightarrow>
      MQTTDeserialize_suback maxcount d buf \<noteq> None)"
proof (intro conjI allI impI)
  fix rc d'
  assume "MQTTDeserialize_suback maxcount d buf = Some (rc, d')"
  from deserialize_suback_cases [OF this] have "0 \<le> sa_count d' \<and> sa_count d' \<le> maxcount \<and>
      length (sa_grantedQoSs d') = length (sa_grantedQoSs d)"
  proof
    assume "\<exists>n cur pid. suback_loop n maxcount buf cur (d\<lparr>sa_packetid := pid, sa_count := 0\<rparr>) = Some (rc, d')"
    then obtain n cur pid where
      "suback_loop n maxcount buf cur (d\<lparr>sa_packetid := pid, sa_count := 0\<rparr>) = Some (rc, d')" by blast
    from suback_loop_bounds [OF this] show ?thesis using assms by simp
  qed (simp add: assms)
  then show "0 \<le> sa_count d'" "sa_count d' \<le> maxcount"
    "length (sa_grantedQoSs d') = length (sa_grantedQoSs d)" by auto
next
  fix len mylen
  assume a: "MQTTPacket_decodeBuf buf 1 = Some (len, mylen)" "int (1 + len) + mylen \<le> int (length buf)"
    "maxcount \<le> int (length (sa_grantedQoSs d))"
  have ne: "buf \<noteq> []"
  proof
    assume "buf = []"
    with a(1) show False
      by (simp add: MQTTPacket_decodeBuf_def MQTTPacket_decode_def MQTTPacket_decode_loop.simps rd8_def)
  qed
  show "MQTTDeserialize_suback maxcount d buf \<noteq> None"
  proof (cases "mylen < 2")
    case True
    then show ?thesis using ne a(1) by (simp add: MQTTDeserialize_suback_def readChar_def)
  next
    case False
    then have "Suc len + 2 \<le> length buf" using a(2) by linarith
    then obtain pid where pid: "readInt buf (Suc len) = Some (pid, Suc len + 2)"
      using readInt_safe by blast
    let ?d = "d\<lparr>sa_packetid := Some (word_of_int pid), sa_count := 0\<rparr>"
    have "(Suc len + 2) + nat (mylen - 2) \<le> length buf" using a(2) False by linarith
    then obtain rc d' where "suback_loop (nat (mylen - 2)) maxcount buf (Suc len + 2) ?d = Some (rc, d')"
      using suback_loop_safe [of "Suc len + 2" "nat (mylen - 2)" buf ?d maxcount] a(3) by auto
    then show ?thesis using False ne a(1) pid by (simp add: MQTTDeserialize_suback_def readChar_def)
  qed
qed

theorem suback_bounded_witness:
  "MQTTDeserialize_suback 2 \<lparr>sa_packetid = None, sa_count = 0, sa_grantedQoSs = [0, 0]\<rparr>
     [0x90, 4, 0, 1, 0, 0x80] \<noteq> None"
proof -
  have "MQTTPacket_decodeBuf [0x90, 4, 0, 1, 0, 0x80] 1 = Some (1, 4)"
    using decodeBuf_encode [of 4 "[0x90]" "[0, 1, 0, 0x80]"] by (simp add: encode_unfold)
  then show ?thesis
    using suback_bounded [of 2 "\<lparr>sa_packetid = None, sa_count = 0, sa_grantedQoSs = [0, 0]\<rparr>"
        "[0x90, 4, 0, 1, 0, 0x80]"] by simp
qed

text \<open>
  A SUBACK packet is decoded exactly: for every packet id and every list of at most
  \<open>maxcount\<close> return codes, \<open>MQTTDeserialize_suback\<close> returns 1, the id, the number of codes and the
  codes in order (0x80, the refusal, included).
\<close>

theorem suback_decoded:
  assumes "int (length codes) \<le> maxcount" "maxcount \<le> int (length (sa_grantedQoSs d))"
    and "length codes < 126"
  shows "\<exists>d'. MQTTDeserialize_suback maxcount d
      (0x90 # word_of_nat (2 + length codes) # writeInt [] (uint pid) @ codes @ rest) = Some (1, d') \<and>
    sa_packetid d' = Some pid \<and> sa_count d' = int (length codes) \<and>
    take (length codes) (sa_grantedQoSs d') = codes"
proof -
  let ?n = "int (2 + length codes)"
  let ?pre = "[0x90 :: byte, word_of_nat (2 + length codes)]"
  let ?buf = "?pre @ writeInt [] (uint pid) @ codes @ rest"
  have "MQTTPacket_encode ?n = [word_of_nat (2 + length codes)]"
    using assms(3) by (subst encode_unfold) simp_all
  then have dec: "MQTTPacket_decodeBuf ?buf 1 = Some (1, ?n)"
    using decodeBuf_encode [of ?n "[0x90]" "writeInt [] (uint pid) @ codes @ rest"] assms(3) by simp
  have pid: "readInt ?buf 2 = Some (uint pid, 4)"
    using readInt_writeInt [of "uint pid" ?pre "codes @ rest"] uint_bounded [of pid] by (simp add: eval_nat_numeral)
  let ?d = "d\<lparr>sa_packetid := Some pid, sa_count := 0\<rparr>"
  have "4 + length codes \<le> length ?buf" by simp
  then obtain rc d' where l: "suback_loop (length codes) maxcount ?buf 4 ?d = Some (rc, d')"
    using suback_loop_safe [of 4 "length codes" ?buf ?d maxcount] assms by auto
  have rc: "rc = 1" using suback_loop_enough [OF l] assms by simp
  have "drop 4 ?buf = codes @ rest" by (simp add: eval_nat_numeral writeInt_def)
  moreover have "sa_packetid d' = Some pid" using suback_loop_bounds [OF l] assms by simp
  ultimately have "sa_packetid d' = Some pid \<and> sa_count d' = int (length codes) \<and>
      take (length codes) (sa_grantedQoSs d') = codes"
    using suback_loop_stores [of "length codes" maxcount ?buf 4 ?d d'] l rc by auto
  moreover have "MQTTDeserialize_suback maxcount d ?buf = Some (1, d')"
    using l rc dec pid by (simp add: MQTTDeserialize_suback_def readChar_def header_suback numeral_2_eq_2)
  ultimately show ?thesis by simp
qed

theorem suback_decoded_witness:
  "\<exists>d'. MQTTDeserialize_suback 5 \<lparr>sa_packetid = None, sa_count = 0, sa_grantedQoSs = [9, 9, 9, 9, 9]\<rparr>
     [0x90, 4, 0, 7, 1, 0x80] = Some (1, d') \<and> take (length [1, 0x80 :: byte]) (sa_grantedQoSs d') = [1, 0x80]"
  using suback_decoded [of "[1, 0x80]" 5 "\<lparr>sa_packetid = None, sa_count = 0, sa_grantedQoSs = [9, 9, 9, 9, 9]\<rparr>" 7 "[]"]
  by (auto simp: writeInt_def)

text \<open>
  \<open>MQTTDeserialize_unsuback\<close> accepts every packet of type UNSUBACK, also one whose remaining
  length leaves no room for the packet id, and then hands back the id it was called with.
\<close>

theorem unsuback_truncated_is_success:
  assumes "mylen < 2" "MQTTPacket_decodeBuf (0xB0 # body) 1 = Some (rc, mylen)"
  shows "MQTTDeserialize_unsuback packetid (0xB0 # body) = Some (1, packetid)"
proof -
  have "MQTT_HEADER_GET_TYPE 0xB0 = UNSUBACK" by (simp add: header_defs)
  then show ?thesis using assms
    by (simp add: MQTTDeserialize_unsuback_def MQTTDeserialize_ack_def readChar_def)
qed

theorem unsuback_truncated_is_success_witness:
  "MQTTDeserialize_unsuback (Some 77) [0xB0, 0] = Some (1, Some 77)"
proof -
  have "MQTTPacket_decodeBuf [0xB0, 0] 1 = Some (1, 0)"
    using decodeBuf_encode [of 0 "[0xB0]" "[]"] by (simp add: encode_unfold)
  then show ?thesis using unsuback_truncated_is_success [of 0 "[0]" 1 "Some 77"] by simp
qed

end
