(* ===== verification/MqttTopic.thy ===== *)
theory MqttTopic
  imports MqttPacket
begin

text \<open>
  Topic names and filters: the tokenizer \<open>infra_strtok\<close> of \<open>infra/infra_string.c\<close>, the format check
  \<open>iotx_mc_check_topic\<close> and the matcher \<open>iotx_mc_is_topic_matched\<close> of \<open>mqtt/iotx_mqtt_client.c\<close>.
  C strings are lists of non-zero bytes.
\<close>

abbreviation (input) SUCCESS_RETURN :: int where "SUCCESS_RETURN \<equiv> 0"
abbreviation (input) FAIL_RETURN :: int where "FAIL_RETURN \<equiv> -1"
abbreviation (input) CONFIG_MQTT_TOPIC_MAXLEN :: nat where "CONFIG_MQTT_TOPIC_MAXLEN \<equiv> 128"

abbreviation slash :: byte where "slash \<equiv> 0x2F"
abbreviation plus_sign :: byte where "plus_sign \<equiv> 0x2B"
abbreviation hash_sign :: byte where "hash_sign \<equiv> 0x23"

datatype iotx_mc_topic_type_t = TOPIC_NAME_TYPE | TOPIC_FILTER_TYPE

subsection \<open>The tokenizer\<close>

text \<open>
  The static pointer \<open>pos\<close> is an offset into the caller's buffer, or \<open>None\<close> before the first call.
\<close>

definition memset_at :: "byte list \<Rightarrow> nat \<Rightarrow> byte \<Rightarrow> nat \<Rightarrow> byte list" where
  "memset_at buf p b n = take p buf @ replicate n b @ drop (p + n) buf"

text \<open>The loop over \<open>pos\<close>; the result is the token, \<open>pos\<close> and the buffer.\<close>

partial_function (option) infra_strtok_loop ::
  "cstring \<Rightarrow> bool \<Rightarrow> nat \<Rightarrow> nat \<Rightarrow> byte list \<Rightarrow> (nat option \<times> nat \<times> byte list) option" where
  "infra_strtok_loop delim only_delim target pos buf =
     do {
       n \<leftarrow> strlen_at buf pos;
       (if n < length delim then Some (Some target, pos, buf)
        else if take (length delim) (drop pos buf) \<noteq> delim
        then infra_strtok_loop delim False target (pos + 1) buf
        else if n = length delim
        then (let buf = memset_at buf pos 0 (length delim)
              in if only_delim then Some (None, pos, buf) else Some (Some target, pos, buf))
        else if target = pos
        then infra_strtok_loop delim only_delim (pos + length delim) (pos + length delim) buf
        else Some (Some target, pos + length delim, memset_at buf pos 0 (length delim))) }"

text \<open>\<open>first\<close> is a call with the buffer, otherwise the first argument is NULL.\<close>

definition infra_strtok ::
  "bool \<Rightarrow> cstring \<Rightarrow> nat option \<Rightarrow> byte list \<Rightarrow> (nat option \<times> nat option \<times> byte list) option" where
  "infra_strtok first delim pos buf =
     (let pos = (if first then Some 0 else pos) in
      case pos of
        None \<Rightarrow> Some (None, None, buf)
      | Some p \<Rightarrow> do {
          n \<leftarrow> strlen_at buf p;
          (if n \<le> length delim then Some (None, Some p, buf)
           else do {
             (token, p, buf) \<leftarrow> infra_strtok_loop delim True p p buf;
             Some (token, Some p, buf) }) })"

subsection \<open>The format check\<close>

fun check_rule_loop :: "iotx_mc_topic_type_t \<Rightarrow> nat \<Rightarrow> cstring \<Rightarrow> int" where
  "check_rule_loop type len [] = SUCCESS_RETURN"
| "check_rule_loop type len (c # cs) =
     (if type = TOPIC_FILTER_TYPE \<and> (c = plus_sign \<or> c = hash_sign) \<and> len \<noteq> 1 then FAIL_RETURN
      else if type \<noteq> TOPIC_FILTER_TYPE \<and> (c = plus_sign \<or> c = hash_sign) then FAIL_RETURN
      else if c < 32 \<or> 127 \<le> c then FAIL_RETURN
      else check_rule_loop type len cs)"

definition iotx_mc_check_rule :: "cstring option \<Rightarrow> iotx_mc_topic_type_t \<Rightarrow> int" where
  "iotx_mc_check_rule iterm type =
     (case iterm of None \<Rightarrow> FAIL_RETURN | Some s \<Rightarrow> check_rule_loop type (length s) s)"

partial_function (option) check_topic_loop ::
  "iotx_mc_topic_type_t \<Rightarrow> bool \<Rightarrow> nat option \<Rightarrow> byte list \<Rightarrow> int option" where
  "check_topic_loop type hash_seen pos buf =
     do {
       (iterm, pos, buf) \<leftarrow> infra_strtok False [slash] pos buf;
       (case iterm of
          None \<Rightarrow> Some SUCCESS_RETURN
        | Some t \<Rightarrow>
            if hash_seen then Some FAIL_RETURN
            else if iotx_mc_check_rule (Some (cstring_at buf t)) type \<noteq> SUCCESS_RETURN then Some FAIL_RETURN
            else do { c \<leftarrow> rd8 buf t; check_topic_loop type (c = hash_sign) pos buf }) }"

definition iotx_mc_check_topic :: "cstring \<Rightarrow> iotx_mc_topic_type_t \<Rightarrow> int option" where
  "iotx_mc_check_topic topicName type =
     (if topicName = [] \<or> hd topicName \<noteq> slash then Some FAIL_RETURN
      else if CONFIG_MQTT_TOPIC_MAXLEN < length topicName then Some FAIL_RETURN
      else do {
        let s = take (CONFIG_MQTT_TOPIC_MAXLEN - 1) topicName;
        let topicString = s @ replicate (CONFIG_MQTT_TOPIC_MAXLEN - length s) 0;
        (iterm, pos, buf) \<leftarrow> infra_strtok True [slash] None topicString;
        (if iotx_mc_check_rule (map_option (cstring_at buf) iterm) type \<noteq> SUCCESS_RETURN then Some FAIL_RETURN
         else check_topic_loop type False pos buf) })"

subsection \<open>The matcher\<close>

text \<open>
  The two cursors are the remaining filter and the remaining topic name.  Skipping a level for
  \<open>+\<close> leaves the name cursor on the level's last byte; the common step at the end of the loop body
  moves behind it.
\<close>

fun skip_level :: "byte list \<Rightarrow> byte list" where
  "skip_level (n # m # ns) = (if m \<noteq> slash then skip_level (m # ns) else n # m # ns)"
| "skip_level ns = ns"

fun topic_matched_loop :: "cstring \<Rightarrow> byte list \<Rightarrow> bool" where
  "topic_matched_loop (f # fs) (n # ns) =
     (if n = slash \<and> f \<noteq> slash then False
      else if f \<noteq> plus_sign \<and> f \<noteq> hash_sign \<and> f \<noteq> n then False
      else if f = plus_sign then topic_matched_loop fs (tl (skip_level (n # ns)))
      else if f = hash_sign then topic_matched_loop fs []
      else topic_matched_loop fs ns)"
| "topic_matched_loop fs ns = (fs = [] \<and> ns = [])"

definition iotx_mc_is_topic_matched :: "cstring \<Rightarrow> MQTTString \<Rightarrow> bool option" where
  "iotx_mc_is_topic_matched topicFilter topicName =
     do {
       name \<leftarrow> ptr_block (ls_data (lenstring topicName)) (ls_len (lenstring topicName));
       Some (topic_matched_loop topicFilter name) }"

subsection \<open>Matching, level by level\<close>

fun join_levels :: "cstring list \<Rightarrow> cstring" where
  "join_levels [] = []"
| "join_levels [l] = l"
| "join_levels (l # ls) = l @ slash # join_levels ls"

text \<open>The levels of a topic: what stands between its separators, empty levels included.\<close>

fun levels :: "cstring \<Rightarrow> cstring list" where
  "levels [] = [[]]"
| "levels (c # cs) =
     (if c = slash then [] # levels cs else (c # hd (levels cs)) # tl (levels cs))"

lemma levels_not_Nil [simp]: "levels s \<noteq> []"
  by (cases s) auto

lemma join_levels_levels [simp]: "join_levels (levels s) = s"
proof (induction s)
  case (Cons c cs)
  then show ?case by (cases "levels cs"; cases "tl (levels cs)") auto
qed simp

lemma levels_no_slash: "n \<in> set (levels s) \<Longrightarrow> slash \<notin> set n"
proof (induction s arbitrary: n)
  case (Cons c cs)
  then show ?case by (cases "levels cs") (auto split: if_splits)
qed simp

text \<open>The rule of the MQTT standard on the levels of a filter and of a topic name.\<close>

fun mqtt_match :: "cstring list \<Rightarrow> cstring list \<Rightarrow> bool" where
  "mqtt_match [] [] = True"
| "mqtt_match [] (n # ns) = False"
| "mqtt_match (f # fs) [] = (f = [hash_sign] \<and> fs = [])"
| "mqtt_match (f # fs) (n # ns) =
     (if f = [hash_sign] \<and> fs = [] then True
      else if f = [plus_sign] then mqtt_match fs ns
      else f = n \<and> mqtt_match fs ns)"

text \<open>No wildcard of the filter meets an empty level of the name.\<close>

definition wild_nonempty :: "cstring list \<Rightarrow> cstring list \<Rightarrow> bool" where
  "wild_nonempty fs ns = list_all (\<lambda>(f, n). n = [] \<longrightarrow> f \<noteq> [plus_sign] \<and> f \<noteq> [hash_sign]) (zip fs ns)"

lemma wild_nonempty_simps [simp]:
  "wild_nonempty [] ns" "wild_nonempty fs []"
  "wild_nonempty (f # fs) (n # ns) \<longleftrightarrow> (n = [] \<longrightarrow> f \<noteq> [plus_sign] \<and> f \<noteq> [hash_sign]) \<and> wild_nonempty fs ns"
  by (simp_all add: wild_nonempty_def)

text \<open>A filter level is a wildcard or has none, and \<open>#\<close> is the last level.\<close>

fun wf_filter :: "cstring list \<Rightarrow> bool" where
  "wf_filter [] = False"
| "wf_filter [f] = (f = [hash_sign] \<or> f = [plus_sign] \<or> {slash, plus_sign, hash_sign} \<inter> set f = {})"
| "wf_filter (f # fs) = ((f = [plus_sign] \<or> {slash, plus_sign, hash_sign} \<inter> set f = {}) \<and> wf_filter fs)"

lemma skip_level_tl:
  "slash \<notin> set ns \<Longrightarrow> tl (skip_level (n # ns @ slash # rest)) = slash # rest"
  "slash \<notin> set ns \<Longrightarrow> tl (skip_level (n # ns)) = []"
  by (induction ns arbitrary: n) auto

text \<open>What is left of a name or filter behind a level: nothing, or a separator and more.\<close>

definition level_end :: "byte list \<Rightarrow> bool" where
  "level_end r = (r = [] \<or> hd r = slash)"

lemma level_end_cases: "level_end r \<Longrightarrow> (r = [] \<Longrightarrow> P) \<Longrightarrow> (\<And>r'. r = slash # r' \<Longrightarrow> P) \<Longrightarrow> P"
  by (cases r) (auto simp: level_end_def)

lemma matched_literal:
  assumes "{slash, plus_sign, hash_sign} \<inter> set f = {}" "slash \<notin> set n" "level_end fr" "level_end nr"
  shows "topic_matched_loop (f @ fr) (n @ nr) \<longleftrightarrow> f = n \<and> topic_matched_loop fr nr"
  using assms
proof (induction f arbitrary: n)
  case Nil
  then show ?case
    by (cases n) (auto elim!: level_end_cases)
next
  case (Cons c cs)
  show ?case
  proof (cases n)
    case Nil
    then show ?thesis using Cons.prems by (auto elim!: level_end_cases)
  next
    case (Cons m ms)
    then show ?thesis using Cons.prems Cons.IH [of ms] by auto
  qed
qed

lemma matched_plus:
  assumes "slash \<notin> set n" "level_end nr"
  shows "topic_matched_loop (plus_sign # fr) (n @ nr) \<longleftrightarrow> n \<noteq> [] \<and> topic_matched_loop fr nr"
proof (cases n)
  case Nil
  then show ?thesis using assms(2) by (auto elim!: level_end_cases)
next
  case (Cons m ms)
  then have "tl (skip_level (n @ nr)) = nr"
    using assms skip_level_tl [of ms m] by (auto elim!: level_end_cases)
  then show ?thesis using Cons assms(1) by auto
qed

lemma matched_hash:
  assumes "slash \<notin> set n" "level_end nr"
  shows "topic_matched_loop [hash_sign] (n @ nr) \<longleftrightarrow> n \<noteq> []"
  using assms by (cases n) (auto elim!: level_end_cases)

lemma join_Cons: "join_levels (l # ls) = l @ (if ls = [] then [] else slash # join_levels ls)"
  by (cases ls) auto

lemma level_end_tail: "level_end (if ls = [] then [] else slash # x)"
  by (simp add: level_end_def)

lemma wf_filter_Cons:
  "wf_filter (f # fs) \<longleftrightarrow>
     (fs = [] \<and> (f = [hash_sign] \<or> f = [plus_sign] \<or> {slash, plus_sign, hash_sign} \<inter> set f = {})) \<or>
     (fs \<noteq> [] \<and> (f = [plus_sign] \<or> {slash, plus_sign, hash_sign} \<inter> set f = {}) \<and> wf_filter fs)"
  by (cases fs) auto

lemma matched_tails:
  "topic_matched_loop (if fs = [] then [] else slash # x) (if ns = [] then [] else slash # y) \<longleftrightarrow>
     (if fs = [] \<or> ns = [] then fs = [] \<and> ns = [] else topic_matched_loop x y)"
  by auto

lemma matched_levels:
  assumes "wf_filter fs" "\<forall>n \<in> set ns. slash \<notin> set n" "ns \<noteq> []"
  shows "topic_matched_loop (join_levels fs) (join_levels ns) \<longleftrightarrow>
    mqtt_match fs ns \<and> length fs \<le> length ns \<and> wild_nonempty fs ns"
  using assms
proof (induction fs arbitrary: ns)
  case (Cons f fs)
  obtain n ns' where ns: "ns = n # ns'" using Cons.prems(3) by (cases ns) auto
  have n: "slash \<notin> set n" using Cons.prems(2) ns by auto
  have rest: "topic_matched_loop (if fs = [] then [] else slash # join_levels fs)
        (if ns' = [] then [] else slash # join_levels ns') \<longleftrightarrow>
      mqtt_match fs ns' \<and> length fs \<le> length ns' \<and> wild_nonempty fs ns'"
  proof (cases "fs = [] \<or> ns' = []")
    case True
    then show ?thesis unfolding matched_tails by (cases fs; cases ns') auto
  next
    case False
    then have "wf_filter fs" using Cons.prems(1) by (auto simp: wf_filter_Cons)
    then show ?thesis unfolding matched_tails using False Cons.IH [of ns'] Cons.prems(2) ns by auto
  qed
  consider (hash) "f = [hash_sign]" "fs = []" | (plus) "f = [plus_sign]"
    | (lit) "{slash, plus_sign, hash_sign} \<inter> set f = {}"
    using Cons.prems(1) by (auto simp: wf_filter_Cons)
  then show ?case
  proof cases
    case hash
    then show ?thesis
      using matched_hash [OF n level_end_tail [of ns' "join_levels ns'"]]
      by (simp add: ns join_Cons)
  next
    case plus
    then show ?thesis
      using matched_plus [OF n level_end_tail [of ns' "join_levels ns'"],
          of "if fs = [] then [] else slash # join_levels fs"] rest
      by (simp add: ns join_Cons) blast
  next
    case lit
    then have "f \<noteq> [hash_sign]" "f \<noteq> [plus_sign]" by auto
    then show ?thesis
      using matched_literal [OF lit n level_end_tail [of fs "join_levels fs"]
          level_end_tail [of ns' "join_levels ns'"]] rest
      by (simp add: ns join_Cons)
  qed
qed simp

lemma matched_on:
  assumes "ls_len (lenstring t) = int (length name)" "ls_data (lenstring t) = Some (name @ rest)"
  shows "iotx_mc_is_topic_matched f t = Some (topic_matched_loop f name)"
  using assms by (simp add: iotx_mc_is_topic_matched_def ptr_block_def)

subsection \<open>The tokens of a topic\<close>

text \<open>
  The tokens \<open>infra_strtok\<close> finds: the non-empty levels, except that a rest of at most one byte is
  never looked at.
\<close>

function tokens :: "cstring \<Rightarrow> cstring list" where
  "tokens s =
     (if length s \<le> 1 then []
      else let s' = dropWhile (\<lambda>c. c = slash) s in
        if s' = [] then []
        else takeWhile (\<lambda>c. c \<noteq> slash) s' # tokens (drop 1 (dropWhile (\<lambda>c. c \<noteq> slash) s')))"
  by pat_completeness auto
termination
  by (relation "measure length")
    (auto intro!: le_less_trans [OF diff_le_mono [OF order_trans [OF length_dropWhile_le length_dropWhile_le]]])

declare tokens.simps [simp del]

text \<open>Where the loop stops: the buffer holds the rest of the string at the new position.\<close>

definition token_at :: "byte list \<Rightarrow> nat \<Rightarrow> cstring \<Rightarrow> nat \<Rightarrow> cstring \<Rightarrow> bool" where
  "token_at buf target tok pos r =
     (cstring_at buf target = tok \<and> target < length buf \<and> buf ! target = hd tok \<and> 
      (\<exists>pre post. buf = pre @ r @ 0 # post \<and> length pre = pos))"

lemma token_atI:
  assumes "buf = pre @ r @ 0 # post" "length pre = pos" "cstring_at buf target = tok" "target < length buf" "buf ! target = hd tok"
  shows "token_at buf target tok pos r"
  using assms unfolding token_at_def by blast

lemma strtok_loop_token:
  assumes "0 \<notin> set s" "0 \<notin> set tok" "tok \<noteq> []"
  shows "\<exists>pos' buf'. infra_strtok_loop [slash] False (length pre) (length pre + length tok) (pre @ tok @ s @ 0 # post)
      = Some (Some (length pre), pos', buf') \<and>
    token_at buf' (length pre) (tok @ takeWhile (\<lambda>c. c \<noteq> slash) s) pos' (drop 1 (dropWhile (\<lambda>c. c \<noteq> slash) s))"
  using assms
proof (induction s arbitrary: tok)
  case Nil
  have "strlen_at (pre @ tok @ 0 # post) (length pre + length tok) = Some 0"
    using strlen_at_eq [of "[]" "pre @ tok" post] by simp
  then show ?case
    using Nil cstring_at_eq [of tok pre post]
    by (subst infra_strtok_loop.simps) (auto simp: nth_append hd_conv_nth intro!: token_atI [of _ "pre @ tok" _ post])
next
  case (Cons c cs)
  have len: "strlen_at (pre @ tok @ (c # cs) @ 0 # post) (length pre + length tok) = Some (Suc (length cs))"
    using strlen_at_eq [of "c # cs" "pre @ tok" post] Cons.prems(1) by simp
  show ?case
  proof (cases "c = slash")
    case False
    then show ?thesis
      using Cons.IH [of "tok @ [c]"] Cons.prems len
      by (subst infra_strtok_loop.simps) auto
  next
    case True
    have m: "memset_at (pre @ tok @ (c # cs) @ 0 # post) (length pre + length tok) 0 1 = pre @ tok @ 0 # cs @ 0 # post"
      by (simp add: memset_at_def)
    show ?thesis
    proof (cases cs)
      case Nil
      then show ?thesis using True len m Cons.prems cstring_at_eq [of tok pre "0 # post"]
        by (subst infra_strtok_loop.simps)
          (auto simp: nth_append hd_conv_nth intro!: token_atI [of _ "pre @ tok" _ "0 # post"])
    next
      case (Cons d ds)
      then show ?thesis using True len m Cons.prems cstring_at_eq [of tok pre "cs @ 0 # post"]
        by (subst infra_strtok_loop.simps)
          (auto simp: nth_append hd_conv_nth intro!: token_atI [of _ "pre @ tok @ [0]" _ post])
    qed
  qed
qed

lemma strtok_loop_skip:
  assumes "0 \<notin> set s" "s \<noteq> []"
  shows "let s' = dropWhile (\<lambda>c. c = slash) s in
    \<exists>tok pos' buf'. infra_strtok_loop [slash] True (length pre) (length pre) (pre @ s @ 0 # post) = Some (tok, pos', buf') \<and>
     (if s' = [] then tok = None
      else \<exists>t. tok = Some t \<and> token_at buf' t (takeWhile (\<lambda>c. c \<noteq> slash) s') pos' (drop 1 (dropWhile (\<lambda>c. c \<noteq> slash) s')))"
  using assms
proof (induction s arbitrary: pre)
  case (Cons c cs)
  have len: "strlen_at (pre @ (c # cs) @ 0 # post) (length pre) = Some (Suc (length cs))"
    using strlen_at_eq [of "c # cs" pre post] Cons.prems(1) by simp
  show ?case
  proof (cases "c = slash")
    case False
    then show ?thesis
      using strtok_loop_token [of cs "[c]" pre post] Cons.prems len
      by (subst infra_strtok_loop.simps) (auto simp: Let_def)
  next
    case True
    show ?thesis
    proof (cases cs)
      case Nil
      then show ?thesis using True len
        by (subst infra_strtok_loop.simps) (simp add: Let_def)
    next
      case (Cons d ds)
      then show ?thesis using True len Cons.IH [of "pre @ [slash]"] Cons.prems
        by (subst infra_strtok_loop.simps) (auto simp: Let_def)
    qed
  qed
qed simp

text \<open>A whole call: the next token, and the rest of the string behind it.\<close>

lemma strtok_step:
  assumes "0 \<notin> set s"
  shows "\<exists>tok pos' buf'. infra_strtok False [slash] (Some (length pre)) (pre @ s @ 0 # post) = Some (tok, Some pos', buf') \<and>
    (case tokens s of
       [] \<Rightarrow> tok = None
     | t # ts \<Rightarrow> \<exists>off r. tok = Some off \<and> token_at buf' off t pos' r \<and> tokens r = ts \<and> length r < length s \<and> 0 \<notin> set r)"
proof (cases "length s \<le> 1")
  case True
  then show ?thesis
    using strlen_at_eq [OF assms, of pre post] by (simp add: infra_strtok_def tokens.simps)
next
  case False
  let ?s = "dropWhile (\<lambda>c. c = slash) s"
  let ?r = "drop 1 (dropWhile (\<lambda>c. c \<noteq> slash) ?s)"
  have "s \<noteq> []" using False by auto
  from strtok_loop_skip [OF assms this, of pre post]
  obtain tok pos' buf' where l: "infra_strtok_loop [slash] True (length pre) (length pre) (pre @ s @ 0 # post) = Some (tok, pos', buf')"
    and t: "if ?s = [] then tok = None
      else \<exists>t. tok = Some t \<and> token_at buf' t (takeWhile (\<lambda>c. c \<noteq> slash) ?s) pos' ?r"
    unfolding Let_def by blast
  have call: "infra_strtok False [slash] (Some (length pre)) (pre @ s @ 0 # post) = Some (tok, Some pos', buf')"
    using strlen_at_eq [OF assms, of pre post] False l by (simp add: infra_strtok_def)
  have tokens: "tokens s = (if ?s = [] then [] else takeWhile (\<lambda>c. c \<noteq> slash) ?s # tokens ?r)"
    using False by (simp add: tokens.simps [of s] Let_def)
  have "set ?r \<subseteq> set s" by (meson order_trans set_drop_subset set_dropWhileD subsetI)
  then have zr: "0 \<notin> set ?r" using assms by blast
  have lr: "length ?r < length s"
  proof -
    have "length (dropWhile (\<lambda>c. c \<noteq> slash) ?s) \<le> length s"
      by (meson length_dropWhile_le order_trans)
    then show ?thesis using \<open>s \<noteq> []\<close> by (cases s) auto
  qed
  show ?thesis
  proof (cases "?s = []")
    case True
    then have "tok = None" "tokens s = []" using t tokens by (simp_all del: dropWhile_eq_Nil_conv)
    then show ?thesis using call by simp
  next
    case False
    then obtain off where "tok = Some off" "token_at buf' off (takeWhile (\<lambda>c. c \<noteq> slash) ?s) pos' ?r"
      using t by (simp only: if_False) blast
    moreover have "tokens s = takeWhile (\<lambda>c. c \<noteq> slash) ?s # tokens ?r"
      using tokens False by (simp only: if_False)
    ultimately show ?thesis using call zr lr by (simp only: list.case option.inject) blast
  qed
qed

fun check_tokens :: "iotx_mc_topic_type_t \<Rightarrow> bool \<Rightarrow> cstring list \<Rightarrow> int" where
  "check_tokens type hash_seen [] = SUCCESS_RETURN"
| "check_tokens type hash_seen (t # ts) =
     (if hash_seen \<or> check_rule_loop type (length t) t \<noteq> SUCCESS_RETURN then FAIL_RETURN
      else check_tokens type (hd t = hash_sign) ts)"

lemma check_topic_loop_eq:
  assumes "0 \<notin> set s"
  shows "check_topic_loop type hash_seen (Some (length pre)) (pre @ s @ 0 # post) = Some (check_tokens type hash_seen (tokens s))"
  using assms
proof (induction "length s" arbitrary: s pre post hash_seen rule: less_induct)
  case less
  from strtok_step [OF less.prems, of pre post] obtain tok pos' buf' where
    call: "infra_strtok False [slash] (Some (length pre)) (pre @ s @ 0 # post) = Some (tok, Some pos', buf')" and
    tok: "case tokens s of
       [] \<Rightarrow> tok = None
     | t # ts \<Rightarrow> \<exists>off r. tok = Some off \<and> token_at buf' off t pos' r \<and> tokens r = ts \<and> length r < length s \<and> 0 \<notin> set r"
    by blast
  show ?case
  proof (cases "tokens s")
    case Nil
    then show ?thesis using tok call by (subst check_topic_loop.simps) simp
  next
    case (Cons t ts)
    then obtain off r where r: "tok = Some off" "token_at buf' off t pos' r" "tokens r = ts" "length r < length s" "0 \<notin> set r"
      using tok by auto
    from r(2) obtain pre' post' where b: "buf' = pre' @ r @ 0 # post'" "length pre' = pos'"
      and t: "cstring_at buf' off = t" "off < length buf'" "buf' ! off = hd t"
      unfolding token_at_def by blast
    have "check_topic_loop type h (Some pos') buf' = Some (check_tokens type h ts)" for h
      using less.hyps [OF r(4,5), of h pre' post'] b r(3) by simp
    then show ?thesis using Cons call r(1) t
      by (subst check_topic_loop.simps) (simp add: iotx_mc_check_rule_def)
  qed
qed

lemma check_topic_eq:
  assumes "0 \<notin> set topicName"
  shows "iotx_mc_check_topic topicName type = Some
    (if topicName = [] \<or> hd topicName \<noteq> slash \<or> 128 < length topicName then FAIL_RETURN
     else case tokens (take 127 topicName) of
       [] \<Rightarrow> FAIL_RETURN
     | t # ts \<Rightarrow> if check_rule_loop type (length t) t \<noteq> SUCCESS_RETURN then FAIL_RETURN
                else check_tokens type False ts)"
proof (cases "topicName = [] \<or> hd topicName \<noteq> slash \<or> 128 < length topicName")
  case True
  then show ?thesis by (auto simp: iotx_mc_check_topic_def)
next
  case False
  let ?s = "take 127 topicName"
  have z: "0 \<notin> set ?s" using assms by (meson in_set_takeD)
  have "replicate (128 - length ?s) 0 = 0 # replicate (127 - length ?s) (0::byte)"
    by (simp flip: replicate_Suc add: Suc_diff_le)
  with strtok_step [OF z, of "[]" "replicate (127 - length ?s) 0"] obtain tok pos' buf' where
    call: "infra_strtok False [slash] (Some 0) (?s @ replicate (128 - length ?s) 0) = Some (tok, Some pos', buf')" and
    tok: "case tokens ?s of
       [] \<Rightarrow> tok = None
     | t # ts \<Rightarrow> \<exists>off r. tok = Some off \<and> token_at buf' off t pos' r \<and> tokens r = ts \<and> length r < length ?s \<and> 0 \<notin> set r"
    by auto
  have first: "infra_strtok True [slash] None buf = infra_strtok False [slash] (Some 0) buf" for buf
    by (simp add: infra_strtok_def)
  show ?thesis
  proof (cases "tokens ?s")
    case Nil
    then show ?thesis using False tok call by (simp add: iotx_mc_check_topic_def first iotx_mc_check_rule_def)
  next
    case (Cons t ts)
    then obtain off r where r: "tok = Some off" "token_at buf' off t pos' r" "tokens r = ts" "0 \<notin> set r"
      using tok by auto
    from r(2) obtain pre' post' where b: "buf' = pre' @ r @ 0 # post'" "length pre' = pos'"
      and t: "cstring_at buf' off = t"
      unfolding token_at_def by blast
    have "check_topic_loop type False (Some pos') buf' = Some (check_tokens type False ts)"
      using check_topic_loop_eq [OF r(4), of type False pre' post'] b r(3) by simp
    then show ?thesis using False Cons call r(1) t
      by (simp add: iotx_mc_check_topic_def first iotx_mc_check_rule_def)
  qed
qed

subsection \<open>Properties\<close>

text \<open>
  C28: The topic matcher implements the MQTT rule, with two exceptions.  For a filter whose levels are
  well formed and every topic name, those with empty levels (so all that begin with a separator)
  included, \<open>iotx_mc_is_topic_matched\<close> answers yes exactly when the standard's level-by-level rule
  does, the name has at least as many levels as the filter (so a filter ending in \<open>#\<close> does not match
  the parent level itself, as the standard wants), and no wildcard meets an empty level (which the
  standard would let it match).
\<close>

theorem topic_matched_levels:
  assumes "wf_filter (levels topicFilter)"
    and "ls_len (lenstring t) = int (length name)" and "ls_data (lenstring t) = Some (name @ rest)"
  shows "iotx_mc_is_topic_matched topicFilter t = Some (mqtt_match (levels topicFilter) (levels name) \<and>
    length (levels topicFilter) \<le> length (levels name) \<and> wild_nonempty (levels topicFilter) (levels name))"
  using matched_levels [OF assms(1), of "levels name"] levels_no_slash matched_on [OF assms(2,3)] by simp

text \<open>The filter \<open>/a/+\<close> matches \<open>/a/b\<close>, but neither \<open>/a/\<close> nor, being too short, \<open>/a//\<close>.\<close>

definition received_name :: "cstring \<Rightarrow> MQTTString" where
  "received_name name = \<lparr>ms_cstring = None, lenstring = \<lparr>ls_len = int (length name), ls_data = Some name\<rparr>\<rparr>"

theorem topic_matched_levels_witness:
  "iotx_mc_is_topic_matched [slash, 0x61, slash, plus_sign] (received_name [slash, 0x61, slash, 0x62]) = Some True \<and>
   iotx_mc_is_topic_matched [slash, 0x61, slash, plus_sign] (received_name [slash, 0x61, slash]) = Some False \<and>
   iotx_mc_is_topic_matched [slash, 0x61, slash, plus_sign] (received_name [slash, 0x61, slash, slash]) = Some False \<and>
   iotx_mc_is_topic_matched [slash, 0x61, slash, hash_sign] (received_name [slash, 0x61, slash, 0x62, slash]) = Some True"
  using topic_matched_levels [of "[slash, 0x61, slash, plus_sign]" "received_name [slash, 0x61, slash, 0x62]" _ "[]"]
    topic_matched_levels [of "[slash, 0x61, slash, plus_sign]" "received_name [slash, 0x61, slash]" _ "[]"]
    topic_matched_levels [of "[slash, 0x61, slash, plus_sign]" "received_name [slash, 0x61, slash, slash]" _ "[]"]
    topic_matched_levels [of "[slash, 0x61, slash, hash_sign]" "received_name [slash, 0x61, slash, 0x62, slash]" _ "[]"]
  by (simp add: received_name_def)

text \<open>
  A \<open>+\<close> in a filter does not match an empty level, which the MQTT standard asks for: whatever
  stands before and after, the matcher refuses a name whose level at the place of the \<open>+\<close> is empty.
\<close>

theorem plus_refuses_empty_level:
  assumes "{slash, plus_sign, hash_sign} \<inter> set f = {}"
    and "ls_len (lenstring t) = int (length (f @ [slash, slash] @ ns))"
    and "ls_data (lenstring t) = Some ((f @ [slash, slash] @ ns) @ rest)"
  shows "iotx_mc_is_topic_matched (f @ [slash, plus_sign, slash] @ fs) t = Some False"
proof -
  have "slash \<notin> set f" using assms(1) by auto
  then have "\<not> topic_matched_loop (f @ [slash, plus_sign, slash] @ fs) (f @ [slash, slash] @ ns)"
    using matched_literal [OF assms(1), of f "[slash, plus_sign, slash] @ fs" "[slash, slash] @ ns"]
    by (simp add: level_end_def)
  then show ?thesis using matched_on [OF assms(2,3)] by simp
qed

theorem plus_refuses_empty_level_witness:
  "iotx_mc_is_topic_matched [0x61, slash, plus_sign, slash, 0x62]
     \<lparr>ms_cstring = None, lenstring = \<lparr>ls_len = 4, ls_data = Some [0x61, slash, slash, 0x62]\<rparr>\<rparr> = Some False"
  using plus_refuses_empty_level [of "[0x61]"
      "\<lparr>ms_cstring = None, lenstring = \<lparr>ls_len = 4, ls_data = Some [0x61, slash, slash, 0x62]\<rparr>\<rparr>" "[0x62]" "[]" "[0x62]"]
  by simp

text \<open>
  \<open>iotx_mc_check_topic\<close> returns on every C string and is the check of the topic's tokens: the
  topic begins with a slash, has at most 128 bytes and at least one token, every token obeys the
  rule of its type, and no token follows a \<open>#\<close> that is not the first token.
\<close>

theorem check_topic_tokens:
  assumes "0 \<notin> set topicName"
  shows "iotx_mc_check_topic topicName type = Some
    (if topicName = [] \<or> hd topicName \<noteq> slash \<or> 128 < length topicName then FAIL_RETURN
     else case tokens (take 127 topicName) of
       [] \<Rightarrow> FAIL_RETURN
     | t # ts \<Rightarrow> if check_rule_loop type (length t) t \<noteq> SUCCESS_RETURN then FAIL_RETURN
                else check_tokens type False ts)"
  by (rule check_topic_eq [OF assms])

theorem check_topic_tokens_witness:
  "iotx_mc_check_topic [slash, 0x61, slash, 0x62, 0x63] TOPIC_NAME_TYPE = Some SUCCESS_RETURN"
  using check_topic_tokens [of "[slash, 0x61, slash, 0x62, 0x63]" TOPIC_NAME_TYPE]
  by (simp add: tokens.simps)

text \<open>
  The format check never looks at a last level of one byte: for a first level \<open>l\<close> and any byte
  \<open>c\<close>, the answer for \<open>/l/c\<close> does not depend on \<open>c\<close>.  So a wildcard passes as the last level of a
  topic name, and so does a byte that is not printable.
\<close>

theorem last_byte_unchecked:
  assumes "slash \<notin> set l" "0 \<notin> set l" "l \<noteq> []" "length l < 124" "c \<noteq> 0"
  shows "iotx_mc_check_topic (slash # l @ [slash, c]) type =
    Some (if check_rule_loop type (length l) l = SUCCESS_RETURN then SUCCESS_RETURN else FAIL_RETURN)"
proof -
  have tw: "takeWhile (\<lambda>c. c \<noteq> slash) (l @ slash # x) = l" "dropWhile (\<lambda>c. c \<noteq> slash) (l @ slash # x) = slash # x" for x
    using assms(1) by (induction l) auto
  have hd: "dropWhile (\<lambda>c. c = slash) (l @ [slash, c]) = l @ [slash, c]"
    using assms(1,3) by (cases l) auto
  have "tokens (slash # l @ [slash, c]) = [l]"
    by (simp add: tokens.simps [of "_ # _"] tokens.simps [of "[c]"] hd tw assms(3) Let_def)
  then show ?thesis
    using check_topic_eq [of "slash # l @ [slash, c]" type] assms by auto
qed

theorem last_byte_unchecked_witness:
  "iotx_mc_check_topic [slash, 0x61, slash, plus_sign] TOPIC_NAME_TYPE = Some SUCCESS_RETURN"
  using last_byte_unchecked [of "[0x61]" plus_sign TOPIC_NAME_TYPE] by simp

end
