(* ===== verification/MqttClient.thy ===== *)
theory MqttClient
  imports Timer MqttConnect MqttSubscribe MqttTopic
begin

text \<open>
  The state of the MQTT client (\<open>mqtt/iotx_mqtt_client.h\<close>) and the lower half of
  \<open>mqtt/iotx_mqtt_client.c\<close>: initialisation, the send and receive buffers that live only while a
  packet is handled, and the exchange of whole packets with the network.  Built for the
  configuration of the repository: dynamic memory, dynamic buffers, QoS 1 publishing, no
  compressed topics, no QoS 2.

  An operation takes the environment \<open>E\<close> and the client and gives its result and the client
  afterwards, or \<open>None\<close> when C gives it no result: it does not return, reads or writes outside an
  object, or uses a value that was never set.
\<close>

subsection \<open>Codes and constants\<close>

abbreviation (input) NULL_VALUE_ERROR :: int where "NULL_VALUE_ERROR \<equiv> -2"
abbreviation (input) ERROR_MALLOC :: int where "ERROR_MALLOC \<equiv> -1014"
abbreviation (input) MQTT_PUBLISH_ACK_TYPE_ERROR :: int where "MQTT_PUBLISH_ACK_TYPE_ERROR \<equiv> -13"
abbreviation (input) MQTT_NETWORK_ERROR :: int where "MQTT_NETWORK_ERROR \<equiv> -14"
abbreviation (input) MQTT_UNSUBSCRIBE_ACK_PACKET_ERROR :: int where "MQTT_UNSUBSCRIBE_ACK_PACKET_ERROR \<equiv> -15"
abbreviation (input) MQTT_PUBLISH_ACK_PACKET_ERROR :: int where "MQTT_PUBLISH_ACK_PACKET_ERROR \<equiv> -19"
abbreviation (input) MQTT_PUBLISH_QOS_ERROR :: int where "MQTT_PUBLISH_QOS_ERROR \<equiv> -20"
abbreviation (input) MQTT_PUBLISH_PACKET_ERROR :: int where "MQTT_PUBLISH_PACKET_ERROR \<equiv> -21"
abbreviation (input) MQTT_UNSUBSCRIBE_PACKET_ERROR :: int where "MQTT_UNSUBSCRIBE_PACKET_ERROR \<equiv> -22"
abbreviation (input) MQTT_SUBSCRIBE_ACK_PACKET_ERROR :: int where "MQTT_SUBSCRIBE_ACK_PACKET_ERROR \<equiv> -25"
abbreviation (input) MQTT_SUBSCRIBE_PACKET_ERROR :: int where "MQTT_SUBSCRIBE_PACKET_ERROR \<equiv> -26"
abbreviation (input) MQTT_STATE_ERROR :: int where "MQTT_STATE_ERROR \<equiv> -27"
abbreviation (input) MQTT_NETWORK_CONNECT_ERROR :: int where "MQTT_NETWORK_CONNECT_ERROR \<equiv> -28"
abbreviation (input) MQTT_CONNECT_ACK_PACKET_ERROR :: int where "MQTT_CONNECT_ACK_PACKET_ERROR \<equiv> -29"
abbreviation (input) MQTT_CONNECT_PACKET_ERROR :: int where "MQTT_CONNECT_PACKET_ERROR \<equiv> -30"
abbreviation (input) MQTT_PING_PACKET_ERROR :: int where "MQTT_PING_PACKET_ERROR \<equiv> -31"
abbreviation (input) MQTT_CONNECT_ERROR :: int where "MQTT_CONNECT_ERROR \<equiv> -33"
abbreviation (input) MQTT_CONNACK_NOT_AUTHORIZED_ERROR :: int where "MQTT_CONNACK_NOT_AUTHORIZED_ERROR \<equiv> -34"
abbreviation (input) MQTT_CONNACK_BAD_USERDATA_ERROR :: int where "MQTT_CONNACK_BAD_USERDATA_ERROR \<equiv> -35"
abbreviation (input) MQTT_CONNACK_SERVER_UNAVAILABLE_ERROR :: int where "MQTT_CONNACK_SERVER_UNAVAILABLE_ERROR \<equiv> -36"
abbreviation (input) MQTT_CONNACK_IDENTIFIER_REJECTED_ERROR :: int where "MQTT_CONNACK_IDENTIFIER_REJECTED_ERROR \<equiv> -37"
abbreviation (input) MQTT_CONANCK_UNACCEPTABLE_PROTOCOL_VERSION_ERROR :: int where "MQTT_CONANCK_UNACCEPTABLE_PROTOCOL_VERSION_ERROR \<equiv> -38"
abbreviation (input) MQTT_CONNACK_UNKNOWN_ERROR :: int where "MQTT_CONNACK_UNKNOWN_ERROR \<equiv> -39"
abbreviation (input) MQTT_TOPIC_FORMAT_ERROR :: int where "MQTT_TOPIC_FORMAT_ERROR \<equiv> -41"
abbreviation (input) MQTT_PUSH_TO_LIST_ERROR :: int where "MQTT_PUSH_TO_LIST_ERROR \<equiv> -42"
abbreviation (input) MQTT_CONNECT_BLOCK :: int where "MQTT_CONNECT_BLOCK \<equiv> -44"
abbreviation (input) ERROR_CERTIFICATE_EXPIRED :: int where "ERROR_CERTIFICATE_EXPIRED \<equiv> -1015"
abbreviation (input) ERROR_CERT_VERIFY_FAIL :: int where "ERROR_CERT_VERIFY_FAIL \<equiv> -309"

abbreviation (input) MQTT_DYNBUF_SEND_MARGIN :: int where "MQTT_DYNBUF_SEND_MARGIN \<equiv> 64"
abbreviation (input) MQTT_DYNBUF_RECV_MARGIN :: int where "MQTT_DYNBUF_RECV_MARGIN \<equiv> 8"
abbreviation (input) MUTLI_SUBSCIRBE_MAX :: int where "MUTLI_SUBSCIRBE_MAX \<equiv> 5"
abbreviation (input) IOTX_MC_REPUB_NUM_MAX :: nat where "IOTX_MC_REPUB_NUM_MAX \<equiv> 20"
abbreviation (input) IOTX_MC_MQTT_VERSION :: byte where "IOTX_MC_MQTT_VERSION \<equiv> 4"
abbreviation (input) IOTX_MC_PACKET_ID_MAX :: u32 where "IOTX_MC_PACKET_ID_MAX \<equiv> 65535"
abbreviation (input) IOTX_MC_RECONNECT_INTERVAL_MIN_MS :: u32 where "IOTX_MC_RECONNECT_INTERVAL_MIN_MS \<equiv> 1000"
abbreviation (input) IOTX_MC_RECONNECT_INTERVAL_MAX_MS :: u32 where "IOTX_MC_RECONNECT_INTERVAL_MAX_MS \<equiv> 60000"
abbreviation (input) IOTX_MC_KEEPALIVE_PROBE_MAX :: byte where "IOTX_MC_KEEPALIVE_PROBE_MAX \<equiv> 1"
abbreviation (input) CONFIG_MQTT_KEEPALIVE_INTERVAL :: u16 where "CONFIG_MQTT_KEEPALIVE_INTERVAL \<equiv> 60"
abbreviation (input) CONFIG_MQTT_KEEPALIVE_INTERVAL_MAX :: u16 where "CONFIG_MQTT_KEEPALIVE_INTERVAL_MAX \<equiv> 180"
abbreviation (input) CONFIG_MQTT_REQUEST_TIMEOUT :: u32 where "CONFIG_MQTT_REQUEST_TIMEOUT \<equiv> 2000"
abbreviation (input) CONFIG_MQTT_REQ_TIMEOUT_MIN :: u32 where "CONFIG_MQTT_REQ_TIMEOUT_MIN \<equiv> 500"
abbreviation (input) CONFIG_MQTT_REQ_TIMEOUT_MAX :: u32 where "CONFIG_MQTT_REQ_TIMEOUT_MAX \<equiv> 5000"

subsection \<open>The data\<close>

datatype iotx_mc_state_t = IOTX_MC_STATE_INVALID | IOTX_MC_STATE_INITIALIZED | IOTX_MC_STATE_CONNECTED
  | IOTX_MC_STATE_DISCONNECTED | IOTX_MC_STATE_DISCONNECTED_RECONNECTING | IOTX_MC_STATE_CONNECT_BLOCK

datatype iotx_mc_node_t = IOTX_MC_NODE_STATE_NORMANL | IOTX_MC_NODE_STATE_INVALID

datatype iotx_mqtt_event_type_t = IOTX_MQTT_EVENT_UNDEF | IOTX_MQTT_EVENT_DISCONNECT
  | IOTX_MQTT_EVENT_RECONNECT | IOTX_MQTT_EVENT_SUBCRIBE_SUCCESS | IOTX_MQTT_EVENT_SUBCRIBE_TIMEOUT
  | IOTX_MQTT_EVENT_SUBCRIBE_NACK | IOTX_MQTT_EVENT_UNSUBCRIBE_SUCCESS
  | IOTX_MQTT_EVENT_UNSUBCRIBE_TIMEOUT | IOTX_MQTT_EVENT_UNSUBCRIBE_NACK
  | IOTX_MQTT_EVENT_PUBLISH_SUCCESS | IOTX_MQTT_EVENT_PUBLISH_TIMEOUT
  | IOTX_MQTT_EVENT_PUBLISH_NACK | IOTX_MQTT_EVENT_PUBLISH_RECEIVED
  | IOTX_MQTT_EVENT_BUFFER_OVERFLOW

record iotx_mqtt_topic_info_t =
  ti_packet_id :: u16
  ti_qos :: byte
  ti_dup :: byte
  ti_retain :: byte
  ti_topic_len :: u16
  ti_payload_len :: u32
  ti_ptopic :: "byte list option"
  ti_payload :: "byte list option"

text \<open>What \<open>msg\<close> points to, or the number stored in the pointer.\<close>

datatype event_arg = NoArg | IdArg u16 | TextArg cstring | TopicArg iotx_mqtt_topic_info_t

record iotx_mqtt_event_msg_t =
  event_type :: iotx_mqtt_event_type_t
  msg :: event_arg

record iotx_mqtt_event_handle_t =
  h_fp :: "nat option"
  pcontext :: nat

text \<open>A subscription node; its address tells it from the others, also after it was freed.\<close>

record iotx_mc_topic_handle_t =
  th_addr :: nat
  handle :: iotx_mqtt_event_handle_t
  topic_filter :: cstring

record iotx_mc_pub_info_t =
  pub_start_time :: iotx_time_t
  node_state :: iotx_mc_node_t
  msg_id :: u16
  node_len :: u32
  node_buf :: "byte list"

record iotx_mc_reconnect_param_t =
  reconnect_next_time :: iotx_time_t
  reconnect_time_interval_ms :: u32

record mqtt_sub_sync_node_t =
  sync_packet_id :: int
  ack_type :: iotx_mqtt_event_type_t

record utils_network_t =
  pHostAddress :: "cstring option"
  net_port :: u16
  ca_crt :: "cstring option"
  ca_crt_len :: u16

record iotx_mqtt_param_t =
  p_port :: u16
  p_host :: "cstring option"
  p_client_id :: "cstring option"
  p_username :: "cstring option"
  p_password :: "cstring option"
  p_pub_key :: "cstring option"
  p_clean_session :: byte
  p_request_timeout_ms :: u32
  p_keepalive_interval_ms :: u32
  p_write_buf_size :: u32
  p_read_buf_size :: u32
  p_handle_event :: iotx_mqtt_event_handle_t

text \<open>\<open>locks\<close> are the mutexes that exist; \<open>in_yield_cb\<close> is the static variable of the file.\<close>

record iotx_mc_client_t = hal +
  locks :: "mutex set"
  packet_id :: u32
  request_timeout_ms :: u32
  cycle_timeout_ms :: u32
  buf_size_send :: u32
  buf_size_send_max :: u32
  buf_size_read_max :: u32
  buf_size_read :: u32
  keepalive_probes :: byte
  buf_send :: "byte list option"
  buf_read :: "byte list option"
  list_sub_handle :: "iotx_mc_topic_handle_t list"
  ipstack :: utils_network_t
  next_ping_time :: iotx_time_t
  ping_mark :: int
  client_state :: iotx_mc_state_t
  reconnect_param :: iotx_mc_reconnect_param_t
  connect_data :: MQTTPacket_connectData
  list_pub_wait_ack :: "iotx_mc_pub_info_t list"
  list_sub_sync_ack :: "mqtt_sub_sync_node_t list"
  handle_event :: iotx_mqtt_event_handle_t
  in_yield_cb :: int

text \<open>
  The environment of the client has the application's event handlers: what the function \<open>h_fp\<close>
  does to the client when called with a context and a message, or \<open>None\<close> if it does not return.
\<close>

record mqtt_environment = environment +
  env_handler :: "nat \<Rightarrow> nat \<Rightarrow> iotx_mqtt_event_msg_t \<Rightarrow> iotx_mc_client_t \<Rightarrow> iotx_mc_client_t option"

subsection \<open>Initialisation\<close>

definition iotx_mc_pub_wait_list_init :: "iotx_mc_client_t \<Rightarrow> iotx_mc_client_t" where
  "iotx_mc_pub_wait_list_init c = c\<lparr>list_pub_wait_ack := []\<rparr>"

definition iotx_mc_pub_wait_list_deinit :: "iotx_mc_client_t \<Rightarrow> iotx_mc_client_t" where
  "iotx_mc_pub_wait_list_deinit c = c\<lparr>list_pub_wait_ack := []\<rparr>"

definition iotx_mc_set_connect_params ::
  "MQTTPacket_connectData \<Rightarrow> iotx_mc_client_t \<Rightarrow> int \<times> iotx_mc_client_t" where
  "iotx_mc_set_connect_params p c =
     (let c = c\<lparr>connect_data := (connect_data c)
            \<lparr>cd_struct_id := take 4 (cd_struct_id p), cd_struct_version := cd_struct_version p,
             MQTTVersion := MQTTVersion p, clientID := clientID p, cleansession := cleansession p,
             willFlag := willFlag p, username := username p, password := password p,
             will := \<lparr>will_struct_id = take 4 (will_struct_id (will p)),
               will_struct_version = will_struct_version (will p),
               will_topicName = will_topicName (will p), will_message = will_message (will p),
               will_retained = will_retained (will p), will_qos = will_qos (will p)\<rparr>\<rparr>\<rparr>;
          keepalive =
            (if keepAliveInterval p < CONFIG_MQTT_KEEPALIVE_INTERVAL_MIN then CONFIG_MQTT_KEEPALIVE_INTERVAL
             else if CONFIG_MQTT_KEEPALIVE_INTERVAL_MAX < keepAliveInterval p then CONFIG_MQTT_KEEPALIVE_INTERVAL
             else keepAliveInterval p)
      in (SUCCESS_RETURN, c\<lparr>connect_data := (connect_data c)\<lparr>keepAliveInterval := keepalive\<rparr>\<rparr>))"

definition iotx_mc_set_client_state :: "iotx_mc_state_t \<Rightarrow> iotx_mc_client_t \<Rightarrow> iotx_mc_client_t option" where
  "iotx_mc_set_client_state newState c =
     do { c \<leftarrow> HAL_MutexLock LockGeneric c;
          HAL_MutexUnlock LockGeneric (c\<lparr>client_state := newState\<rparr>) }"

definition iotx_mc_get_client_state :: "iotx_mc_client_t \<Rightarrow> (iotx_mc_state_t \<times> iotx_mc_client_t) option" where
  "iotx_mc_get_client_state c =
     do { c \<leftarrow> HAL_MutexLock LockGeneric c;
          let state = client_state c;
          c \<leftarrow> HAL_MutexUnlock LockGeneric c;
          Some (state, c) }"

definition iotx_net_init ::
  "cstring option \<Rightarrow> u16 \<Rightarrow> cstring option \<Rightarrow> utils_network_t \<Rightarrow> int \<times> utils_network_t" where
  "iotx_net_init host port crt pNetwork =
     (if host = None then (-1, pNetwork)
      else (0, pNetwork\<lparr>pHostAddress := host, net_port := port, ca_crt := crt,
        ca_crt_len := (case crt of None \<Rightarrow> 0 | Some s \<Rightarrow> word_of_nat (length s))\<rparr>))"

definition net_zero :: utils_network_t where
  "net_zero = \<lparr>pHostAddress = None, net_port = 0, ca_crt = None, ca_crt_len = 0\<rparr>"

text \<open>The steps of \<open>iotx_mc_init\<close> up to its label \<open>RETURN\<close>: the result, the state to set, the client.\<close>

definition create_lock ::
  "'e environment_scheme \<Rightarrow> mutex \<Rightarrow> iotx_mc_client_t \<Rightarrow> bool \<times> iotx_mc_client_t" where
  "create_lock E m c =
     (case HAL_MutexCreate E c of (created, c) \<Rightarrow>
        (created, if created then c\<lparr>locks := insert m (locks c)\<rparr> else c))"

fun create_locks ::
  "'e environment_scheme \<Rightarrow> mutex list \<Rightarrow> iotx_mc_client_t \<Rightarrow> bool \<times> iotx_mc_client_t" where
  "create_locks E [] c = (True, c)"
| "create_locks E (m # ms) c =
     (case create_lock E m c of (created, c) \<Rightarrow> if created then create_locks E ms c else (False, c))"

definition iotx_mc_init_body ::
  "iotx_mqtt_param_t \<Rightarrow> iotx_mc_client_t \<Rightarrow> int \<times> iotx_mc_state_t \<times> iotx_mc_client_t" where
  "iotx_mc_init_body p c =
     (let cstr = (\<lambda>s. \<lparr>ms_cstring = s, lenstring = \<lparr>ls_len = 0, ls_data = None\<rparr>\<rparr>);
          connectdata = MQTTPacket_connectData_initializer
            \<lparr>MQTTVersion := IOTX_MC_MQTT_VERSION,
             keepAliveInterval := ucast (p_keepalive_interval_ms p div 1000),
             clientID := cstr (p_client_id p), username := cstr (p_username p),
             password := cstr (p_password p), cleansession := p_clean_session p\<rparr>;
          c = c\<lparr>request_timeout_ms :=
                (if p_request_timeout_ms p < CONFIG_MQTT_REQ_TIMEOUT_MIN
                    \<or> CONFIG_MQTT_REQ_TIMEOUT_MAX < p_request_timeout_ms p
                 then CONFIG_MQTT_REQUEST_TIMEOUT else p_request_timeout_ms p),
              buf_size_send_max := p_write_buf_size p, buf_size_read_max := p_read_buf_size p,
              keepalive_probes := 0, handle_event := p_handle_event p,
              reconnect_param := (reconnect_param c)\<lparr>reconnect_time_interval_ms := IOTX_MC_RECONNECT_INTERVAL_MIN_MS\<rparr>\<rparr>;
          c = iotx_mc_pub_wait_list_init c;
          c = c\<lparr>list_sub_handle := [], list_sub_sync_ack := []\<rparr>;
          (rc, c) = iotx_mc_set_connect_params connectdata c
      in if rc \<noteq> SUCCESS_RETURN then (rc, IOTX_MC_STATE_INVALID, c)
         else let c = c\<lparr>next_ping_time := iotx_time_init,
                    reconnect_param := (reconnect_param c)\<lparr>reconnect_next_time := iotx_time_init\<rparr>,
                    ipstack := net_zero\<rparr>;
                  (rc, net) = iotx_net_init (p_host p) (p_port p) (p_pub_key p) (ipstack c);
                  c = c\<lparr>ipstack := net\<rparr>
              in if rc \<noteq> SUCCESS_RETURN then (rc, IOTX_MC_STATE_INVALID, c)
                 else (SUCCESS_RETURN, IOTX_MC_STATE_INITIALIZED, c))"

definition iotx_mc_init ::
  "'e environment_scheme \<Rightarrow> iotx_mqtt_param_t \<Rightarrow> iotx_mc_client_t \<Rightarrow> (int \<times> iotx_mc_client_t) option" where
  "iotx_mc_init E p c =
     (if p_write_buf_size p = 0 \<or> p_read_buf_size p = 0 then Some (NULL_VALUE_ERROR, c)
      else case create_lock E LockGeneric c of (created, c) \<Rightarrow>
        if \<not> created then Some (FAIL_RETURN, c)
        else do {
          let (rc, mc_state, c) =
            (case create_locks E [LockListPub, LockYield, LockWriteBuf, LockReadBuf] c of (created, c) \<Rightarrow>
               if created then iotx_mc_init_body p c else (FAIL_RETURN, IOTX_MC_STATE_INVALID, c));
          c \<leftarrow> iotx_mc_set_client_state mc_state c;
          Some (rc, if rc \<noteq> SUCCESS_RETURN
                    then c\<lparr>buf_send := None, buf_read := None,
                      locks := locks c - {LockListPub, LockWriteBuf, LockReadBuf, LockYield}\<rparr>
                    else c) })"

subsection \<open>Send and receive buffers\<close>

definition get_connect_length :: "MQTTPacket_connectData \<Rightarrow> int" where
  "get_connect_length options = MQTTPacket_len (MQTTSerialize_connectLength options)"

definition reset_send_buffer :: "iotx_mc_client_t \<Rightarrow> int \<times> iotx_mc_client_t" where
  "reset_send_buffer c =
     (if buf_send c = None then (FAIL_RETURN, c) else (0, c\<lparr>buf_send := None, buf_size_send := 0\<rparr>))"

definition reset_recv_buffer :: "iotx_mc_client_t \<Rightarrow> int \<times> iotx_mc_client_t" where
  "reset_recv_buffer c =
     (if buf_read c = None then (FAIL_RETURN, c) else (0, c\<lparr>buf_read := None, buf_size_read := 0\<rparr>))"

definition alloc_send_buffer ::
  "'e environment_scheme \<Rightarrow> int \<Rightarrow> iotx_mc_client_t \<Rightarrow> int \<times> iotx_mc_client_t" where
  "alloc_send_buffer E len c =
     (let tmp_len = word_of_int (MQTT_DYNBUF_SEND_MARGIN + len) :: u32;
          tmp_len = (if buf_size_send_max c < tmp_len then buf_size_send_max c else tmp_len);
          c = c\<lparr>buf_send := None\<rparr>
      in case HAL_Malloc E (uint tmp_len) c of (allocated, c) \<Rightarrow>
        if \<not> allocated then (ERROR_MALLOC, c)
        else (SUCCESS_RETURN, c\<lparr>buf_send := Some (replicate (unat tmp_len) 0), buf_size_send := tmp_len\<rparr>))"

definition alloc_recv_buffer ::
  "'e environment_scheme \<Rightarrow> int \<Rightarrow> iotx_mc_client_t \<Rightarrow> (int \<times> iotx_mc_client_t) option" where
  "alloc_recv_buffer E len c =
     (let tmp_len = word_of_int (MQTT_DYNBUF_RECV_MARGIN + len) :: u32;
          tmp_len = (if buf_size_read_max c < tmp_len then buf_size_read_max c else tmp_len)
      in case HAL_Malloc E (uint tmp_len) c of (allocated, c) \<Rightarrow>
        if \<not> allocated then Some (ERROR_MALLOC, c)
        else do {
          temp \<leftarrow> (case buf_read c of
              None \<Rightarrow> Some (replicate (unat tmp_len) 0)
            | Some old \<Rightarrow> do {
                let n = unat (min (buf_size_read c) tmp_len);
                d \<leftarrow> rd_block old 0 n;
                Some (d @ replicate (unat tmp_len - n) 0) });
          Some (SUCCESS_RETURN, c\<lparr>buf_read := Some temp, buf_size_read := tmp_len\<rparr>) })"

text \<open>Writing a block into a buffer through its pointer.\<close>

definition wr_block :: "byte list option \<Rightarrow> nat \<Rightarrow> byte list \<Rightarrow> byte list option option" where
  "wr_block buf off bs =
     (case buf of
        None \<Rightarrow> if bs = [] then Some None else None
      | Some b \<Rightarrow>
          if off + length bs \<le> length b
          then Some (Some (take off b @ bs @ drop (off + length bs) b)) else None)"

text \<open>\<open>len = MQTTSerialize_...(c->buf_send, c->buf_size_send, ...)\<close>\<close>

definition serialize_to_send ::
  "(int \<Rightarrow> 'a \<Rightarrow> (int \<times> byte list) option) \<Rightarrow> 'a \<Rightarrow> iotx_mc_client_t \<Rightarrow> (int \<times> iotx_mc_client_t) option" where
  "serialize_to_send ser x c =
     do {
       (len, out) \<leftarrow> ser (sint (buf_size_send c)) x;
       b \<leftarrow> wr_block (buf_send c) 0 out;
       Some (len, c\<lparr>buf_send := b\<rparr>) }"

subsection \<open>Sending a packet\<close>

definition time_left_or_1 ::
  "'e environment_scheme \<Rightarrow> iotx_time_t \<Rightarrow> 's hal_scheme \<Rightarrow> u32 \<times> 's hal_scheme" where
  "time_left_or_1 E timer s =
     (case iotx_time_left E timer s of (left_t, s) \<Rightarrow> (if left_t = 0 then 1 else left_t, s))"

partial_function (option) send_loop ::
  "'e environment_scheme \<Rightarrow> byte list \<Rightarrow> int \<Rightarrow> iotx_time_t \<Rightarrow> int \<Rightarrow> iotx_mc_client_t \<Rightarrow>
     (int \<times> iotx_mc_client_t) option" where
  "send_loop E buf len timer sent c =
     (if \<not> sent < len then Some (sent, c)
      else case utils_time_is_expired E timer c of (expired, c) \<Rightarrow>
        if expired then Some (sent, c)
        else case time_left_or_1 E timer c of (left_t, c) \<Rightarrow>
          do {
            d \<leftarrow> rd_block buf (nat sent) (nat (len - sent));
            (case net_write E d left_t c of (rc, c) \<Rightarrow>
               if rc < 0 then Some (sent, c) else send_loop E buf len timer (sent + rc) c) })"

definition iotx_mc_send_packet ::
  "'e environment_scheme \<Rightarrow> byte list option \<Rightarrow> int \<Rightarrow> iotx_time_t \<Rightarrow> iotx_mc_client_t \<Rightarrow>
     (int \<times> iotx_mc_client_t) option" where
  "iotx_mc_send_packet E buf len timer c =
     (case buf of
        None \<Rightarrow> Some (FAIL_RETURN, c)
      | Some b \<Rightarrow> do {
          (sent, c) \<leftarrow> send_loop E b len timer 0 c;
          Some (if sent = len then SUCCESS_RETURN else MQTT_NETWORK_ERROR, c) })"

definition MQTTConnect :: "'e environment_scheme \<Rightarrow> iotx_mc_client_t \<Rightarrow> (int \<times> iotx_mc_client_t) option" where
  "MQTTConnect E c =
     do {
       c \<leftarrow> HAL_MutexLock LockWriteBuf c;
       let len = get_connect_length (connect_data c);
       (case alloc_send_buffer E len c of (rc, c) \<Rightarrow>
          if rc \<noteq> SUCCESS_RETURN then do { c \<leftarrow> HAL_MutexUnlock LockWriteBuf c; Some (FAIL_RETURN, c) }
          else do {
            (len, c) \<leftarrow> serialize_to_send MQTTSerialize_connect (connect_data c) c;
            (if len \<le> 0
             then do { let c = snd (reset_send_buffer c);
                       c \<leftarrow> HAL_MutexUnlock LockWriteBuf c;
                       Some (MQTT_CONNECT_PACKET_ERROR, c) }
             else do {
               let (connectTimer, c) = utils_time_countdown_ms E (request_timeout_ms c) c;
               (rc, c) \<leftarrow> iotx_mc_send_packet E (buf_send c) len connectTimer c;
               let c = snd (reset_send_buffer c);
               c \<leftarrow> HAL_MutexUnlock LockWriteBuf c;
               Some (if rc \<noteq> SUCCESS_RETURN then MQTT_NETWORK_ERROR else SUCCESS_RETURN, c) }) }) }"

subsection \<open>Receiving a packet\<close>

function decode_packet_loop ::
  "'e environment_scheme \<Rightarrow> u32 \<Rightarrow> nat \<Rightarrow> int \<Rightarrow> int \<Rightarrow> iotx_mc_client_t \<Rightarrow>
     (int \<times> int \<times> iotx_mc_client_t) option" where
  "decode_packet_loop E timeout len multiplier value c =
     (if MAX_NO_OF_REMAINING_LENGTH_BYTES < Suc len then Some (MQTTPACKET_READ_ERROR, value, c)
      else case net_read E 1 (if timeout = 0 then 1 else timeout) c of ((rc, bs), c) \<Rightarrow>
        if rc = 0 then Some (FAIL_RETURN, value, c)
        else if rc \<noteq> 1 then Some (MQTT_NETWORK_ERROR, value, c)
        else case bs of
          [] \<Rightarrow> None
        | i # _ \<Rightarrow>
            let value = value + uint (i AND 127) * multiplier in
            if i AND 128 \<noteq> 0
            then decode_packet_loop E timeout (Suc len) (multiplier * 128) value c
            else Some (int (Suc len), value, c))"
  by pat_completeness auto
termination
  by (relation "measure (\<lambda>(E, t, len, m, v, c). 4 - len)") auto

declare decode_packet_loop.simps [simp del]

definition iotx_mc_decode_packet ::
  "'e environment_scheme \<Rightarrow> u32 \<Rightarrow> iotx_mc_client_t \<Rightarrow> (int \<times> int \<times> iotx_mc_client_t) option" where
  "iotx_mc_decode_packet E timeout c = decode_packet_loop E timeout 0 1 0 c"

text \<open>
  \<open>_handle_event\<close> calls the handler, if there is one, between setting and clearing the flag that
  \<open>_is_in_yield_cb\<close> reads.
\<close>

definition call_handler ::
  "'e mqtt_environment_scheme \<Rightarrow> iotx_mqtt_event_handle_t \<Rightarrow> iotx_mqtt_event_msg_t \<Rightarrow> iotx_mc_client_t \<Rightarrow>
     (int \<times> iotx_mc_client_t) option" where
  "call_handler E hdl m c =
     (case h_fp hdl of
        None \<Rightarrow> Some (FAIL_RETURN, c)
      | Some f \<Rightarrow> do {
          c \<leftarrow> env_handler E f (pcontext hdl) m (c\<lparr>in_yield_cb := 1\<rparr>);
          Some (0, c\<lparr>in_yield_cb := 0\<rparr>) })"

text \<open>\<open>read(buf_read + off, len)\<close>: a length the buffer has no room for is undefined.\<close>

definition read_into ::
  "'e environment_scheme \<Rightarrow> nat \<Rightarrow> int \<Rightarrow> u32 \<Rightarrow> iotx_mc_client_t \<Rightarrow> (int \<times> iotx_mc_client_t) option" where
  "read_into E off len timeout c =
     (if len < 0 \<or> length (case buf_read c of None \<Rightarrow> [] | Some b \<Rightarrow> b) < off + nat len then None
      else case net_read E len timeout c of ((rc, bs), c) \<Rightarrow>
        do { b \<leftarrow> wr_block (buf_read c) off bs; Some (rc, c\<lparr>buf_read := b\<rparr>) })"

definition unlock_return :: "mutex \<Rightarrow> 'a \<Rightarrow> iotx_mc_client_t \<Rightarrow> ('a \<times> iotx_mc_client_t) option" where
  "unlock_return m r c = do { c \<leftarrow> HAL_MutexUnlock m c; Some (r, c) }"

text \<open>The branch for a packet larger than the buffer: fill the buffer, drop the rest, tell the application.\<close>

definition read_packet_overflow ::
  "'e mqtt_environment_scheme \<Rightarrow> iotx_time_t \<Rightarrow> byte option \<Rightarrow> int \<Rightarrow> int \<Rightarrow> iotx_mc_client_t \<Rightarrow>
     ((int \<times> byte option) \<times> iotx_mc_client_t) option" where
  "read_packet_overflow E timer packet_type len rem_len c =
     do {
       let needReadLen = uint (buf_size_read c) - len;
       let (left_t, c) = time_left_or_1 E timer c;
       (rc, c) \<leftarrow> read_into E (nat len) needReadLen left_t c;
       (if rc < 0 then unlock_return LockReadBuf (MQTT_NETWORK_ERROR, packet_type) c
        else if rc \<noteq> needReadLen then unlock_return LockReadBuf (FAIL_RETURN, packet_type) c
        else do {
          let remainDataLen = rem_len - needReadLen;
          (case HAL_Malloc E (remainDataLen + 1) c of (allocated, c) \<Rightarrow>
             if \<not> allocated then unlock_return LockReadBuf (FAIL_RETURN, packet_type) c
             else case time_left_or_1 E timer c of (left_t, c) \<Rightarrow>
               case net_read E remainDataLen left_t c of ((rc, _), c) \<Rightarrow>
                 if rc < 0 then unlock_return LockReadBuf (MQTT_NETWORK_ERROR, packet_type) c
                 else if rc \<noteq> remainDataLen then unlock_return LockReadBuf (FAIL_RETURN, packet_type) c
                 else do {
                   c \<leftarrow> HAL_MutexUnlock LockReadBuf c;
                   (_, c) \<leftarrow> (if h_fp (handle_event c) \<noteq> None
                     then call_handler E (handle_event c)
                       \<lparr>event_type = IOTX_MQTT_EVENT_BUFFER_OVERFLOW,
                        msg = TextArg (str ''mqtt read buffer is too short'')\<rparr> c
                     else Some (0, c));
                   Some ((SUCCESS_RETURN, packet_type), c) }) }) }"

text \<open>
  \<open>packet_type\<close> is an output variable of the caller: \<open>None\<close> while it is not set.
\<close>

definition iotx_mc_read_packet ::
  "'e mqtt_environment_scheme \<Rightarrow> iotx_time_t \<Rightarrow> byte option \<Rightarrow> iotx_mc_client_t \<Rightarrow>
     ((int \<times> byte option) \<times> iotx_mc_client_t) option" where
  "iotx_mc_read_packet E timer packet_type c =
     do {
       c \<leftarrow> HAL_MutexLock LockReadBuf c;
       (rc, c) \<leftarrow> alloc_recv_buffer E 0 c;
       (if rc < 0 then unlock_return LockReadBuf (FAIL_RETURN, packet_type) c
        else do {
          let (left_t, c) = time_left_or_1 E timer c;
          (rc, c) \<leftarrow> read_into E 0 1 left_t c;
          (if rc = 0 then unlock_return LockReadBuf (SUCCESS_RETURN, Some 0) c
           else if rc \<noteq> 1 then unlock_return LockReadBuf (MQTT_NETWORK_ERROR, packet_type) c
           else do {
             let (left_t, c) = time_left_or_1 E timer c;
             (rc, rem_len, c) \<leftarrow> iotx_mc_decode_packet E left_t c;
             (if rc < 0 then unlock_return LockReadBuf (rc, packet_type) c
              else do {
                let enc = MQTTPacket_encode rem_len;
                b \<leftarrow> wr_block (buf_read c) 1 enc;
                let c = c\<lparr>buf_read := b\<rparr>;
                let len = 1 + int (length enc);
                (rc, c) \<leftarrow> alloc_recv_buffer E (rem_len + len) c;
                (if rc < 0 then unlock_return LockReadBuf (FAIL_RETURN, packet_type) c
                 else if 0 < rem_len \<and> uint (buf_size_read c) < rem_len + len
                 then read_packet_overflow E timer packet_type len rem_len c
                 else do {
                   let (left_t, c) = time_left_or_1 E timer c;
                   (rc, c) \<leftarrow> read_into E (nat len) rem_len left_t c;
                   (if 0 < rem_len \<and> rc < 0 then unlock_return LockReadBuf (MQTT_NETWORK_ERROR, packet_type) c
                    else if 0 < rem_len \<and> rc \<noteq> rem_len then unlock_return LockReadBuf (FAIL_RETURN, packet_type) c
                    else do {
                      header \<leftarrow> rd8 (case buf_read c of None \<Rightarrow> [] | Some b \<Rightarrow> b) 0;
                      let packet_type = Some (MQTT_HEADER_GET_TYPE header);
                      b \<leftarrow> (if len + rem_len < uint (buf_size_read c)
                            then wr_block (buf_read c) (nat (len + rem_len)) [0] else Some (buf_read c));
                      unlock_return LockReadBuf (SUCCESS_RETURN, packet_type) (c\<lparr>buf_read := b\<rparr>) }) }) }) }) }) }"

end
