(* ===== verification/MqttSession.thy ===== *)
theory MqttSession
  imports MqttClient
begin

text \<open>
  \<open>mqtt/iotx_mqtt_client.c\<close>, the session with the broker: the CONNECT handshake with its retries,
  keep-alive, and reconnecting with its backoff.
\<close>

abbreviation read_bytes :: "iotx_mc_client_t \<Rightarrow> byte list" where
  "read_bytes c \<equiv> (case buf_read c of None \<Rightarrow> [] | Some b \<Rightarrow> b)"

subsection \<open>Connecting\<close>

definition iotx_mc_handle_recv_CONNACK :: "iotx_mc_client_t \<Rightarrow> (int \<times> iotx_mc_client_t) option" where
  "iotx_mc_handle_recv_CONNACK c =
     do {
       (r, sessionPresent, connack_rc) \<leftarrow> MQTTDeserialize_connack (0, 255) (read_bytes c);
       Some (if r \<noteq> 1 then MQTT_CONNECT_ACK_PACKET_ERROR
             else if connack_rc = 0 then SUCCESS_RETURN
             else if connack_rc = 1 then MQTT_CONANCK_UNACCEPTABLE_PROTOCOL_VERSION_ERROR
             else if connack_rc = 2 then MQTT_CONNACK_IDENTIFIER_REJECTED_ERROR
             else if connack_rc = 3 then MQTT_CONNACK_SERVER_UNAVAILABLE_ERROR
             else if connack_rc = 4 then MQTT_CONNACK_BAD_USERDATA_ERROR
             else if connack_rc = 5 then MQTT_CONNACK_NOT_AUTHORIZED_ERROR
             else MQTT_CONNACK_UNKNOWN_ERROR, c) }"

definition locked_reset_recv_buffer :: "iotx_mc_client_t \<Rightarrow> iotx_mc_client_t option" where
  "locked_reset_recv_buffer c =
     do { c \<leftarrow> HAL_MutexLock LockReadBuf c;
          HAL_MutexUnlock LockReadBuf (snd (reset_recv_buffer c)) }"

abbreviation (input) WAIT_CONNACK_MAX :: nat where "WAIT_CONNACK_MAX \<equiv> 10"

function wait_connack_loop ::
  "'e mqtt_environment_scheme \<Rightarrow> iotx_time_t \<Rightarrow> nat \<Rightarrow> byte option \<Rightarrow> iotx_mc_client_t \<Rightarrow>
     (int \<times> iotx_mc_client_t) option" where
  "wait_connack_loop E timer wait_connack packetType c =
     (case iotx_mc_read_packet E timer packetType c of
        None \<Rightarrow> None
      | Some ((rc, packetType), c) \<Rightarrow>
          if rc \<noteq> SUCCESS_RETURN
          then do { c \<leftarrow> locked_reset_recv_buffer c; Some (rc, c) }
          else if WAIT_CONNACK_MAX < Suc wait_connack
          then do { c \<leftarrow> locked_reset_recv_buffer c; Some (MQTT_NETWORK_ERROR, c) }
          else if packetType \<noteq> Some CONNACK
          then wait_connack_loop E timer (Suc wait_connack) packetType c
          else do {
            c \<leftarrow> HAL_MutexLock LockReadBuf c;
            (rc, c) \<leftarrow> iotx_mc_handle_recv_CONNACK c;
            let c = snd (reset_recv_buffer c);
            c \<leftarrow> HAL_MutexUnlock LockReadBuf c;
            Some (rc, c) })"
  by pat_completeness auto
termination
  by (relation "measure (\<lambda>(E, t, n, p, c). 10 - n)") auto

declare wait_connack_loop.simps [simp del]

definition iotx_mc_wait_CONNACK ::
  "'e mqtt_environment_scheme \<Rightarrow> iotx_mc_client_t \<Rightarrow> (int \<times> iotx_mc_client_t) option" where
  "iotx_mc_wait_CONNACK E c =
     (case utils_time_countdown_ms E (request_timeout_ms c) c of (timer, c) \<Rightarrow>
        wait_connack_loop E timer 0 (Some 0) c)"

abbreviation (input) RETRY_TIME_LIMIT :: nat where "RETRY_TIME_LIMIT \<equiv> 9"
abbreviation (input) RETRY_INTV_PERIOD :: u32 where "RETRY_INTV_PERIOD \<equiv> 2000"

text \<open>
  The handshake loop of \<open>_mqtt_connect\<close>: \<open>Inl\<close> is a \<open>return\<close> from inside the loop, \<open>Inr\<close> the value of
  \<open>try_count\<close> behind it.
\<close>

function mqtt_connect_loop ::
  "'e mqtt_environment_scheme \<Rightarrow> nat \<Rightarrow> iotx_mc_client_t \<Rightarrow> ((int + nat) \<times> iotx_mc_client_t) option" where
  "mqtt_connect_loop E try_count c =
     (case MQTTConnect E c of
        None \<Rightarrow> None
      | Some (rc, c) \<Rightarrow>
          if rc \<noteq> SUCCESS_RETURN then Some (Inl rc, net_disconnect c)
          else case iotx_mc_wait_CONNACK E c of
            None \<Rightarrow> None
          | Some (rc, c) \<Rightarrow>
              if rc \<le> MQTT_CONNACK_NOT_AUTHORIZED_ERROR \<and> MQTT_CONANCK_UNACCEPTABLE_PROTOCOL_VERSION_ERROR \<le> rc
              then Some (Inl MQTT_CONNECT_ERROR, net_disconnect c)
              else if rc \<noteq> SUCCESS_RETURN
              then let c = HAL_SleepMs RETRY_INTV_PERIOD c;
                       c = net_disconnect c;
                       (_, c) = net_connect E c
                   in if Suc try_count < RETRY_TIME_LIMIT
                      then mqtt_connect_loop E (Suc try_count) c
                      else Some (Inr (Suc try_count), c)
              else Some (Inr try_count, c))"
  by pat_completeness auto
termination
  by (relation "measure (\<lambda>(E, n, c). 9 - n)") auto

declare mqtt_connect_loop.simps [simp del]

definition keepalive_ms :: "iotx_mc_client_t \<Rightarrow> u32" where
  "keepalive_ms c = word_of_int (uint (keepAliveInterval (connect_data c)) * 1000)"

definition mqtt_connect ::
  "'e mqtt_environment_scheme \<Rightarrow> iotx_mc_client_t \<Rightarrow> (int \<times> iotx_mc_client_t) option" where
  "mqtt_connect E c =
     do {
       (r, c) \<leftarrow> mqtt_connect_loop E 1 c;
       (case r of
          Inl rc \<Rightarrow> Some (rc, c)
        | Inr try_count \<Rightarrow>
            if try_count = RETRY_TIME_LIMIT then Some (MQTT_CONNECT_ERROR, c)
            else do {
              c \<leftarrow> iotx_mc_set_client_state IOTX_MC_STATE_CONNECTED c;
              let (t, c) = utils_time_countdown_ms E (keepalive_ms c) c;
              Some (SUCCESS_RETURN, c\<lparr>next_ping_time := t\<rparr>) }) }"

text \<open>
  The TCP or TLS loop of \<open>wrapper_mqtt_connect\<close> (three attempts, one second apart), and the whole
  function: the loop's result is not looked at, the handshake follows in any case.
\<close>

function tcp_connect_loop ::
  "'e environment_scheme \<Rightarrow> nat \<Rightarrow> nat \<Rightarrow> iotx_mc_client_t \<Rightarrow> int \<times> iotx_mc_client_t" where
  "tcp_connect_loop E retry_max retry_cnt c =
     (case net_connect E c of (rc, c) \<Rightarrow>
        if rc \<noteq> SUCCESS_RETURN
        then let c = net_disconnect c;
                 rc = (if rc = ERROR_CERTIFICATE_EXPIRED then ERROR_CERT_VERIFY_FAIL
                       else MQTT_NETWORK_CONNECT_ERROR);
                 c = HAL_SleepMs 1000 c
             in if Suc retry_cnt \<le> retry_max then tcp_connect_loop E retry_max (Suc retry_cnt) c
                else (rc, c)
        else (rc, c))"
  by pat_completeness auto
termination
  by (relation "measure (\<lambda>(E, m, n, c). m - n)") auto

declare tcp_connect_loop.simps [simp del]

definition wrapper_mqtt_connect ::
  "'e mqtt_environment_scheme \<Rightarrow> iotx_mc_client_t \<Rightarrow> (int \<times> iotx_mc_client_t) option" where
  "wrapper_mqtt_connect E c = (case tcp_connect_loop E 3 1 c of (rc, c) \<Rightarrow> mqtt_connect E c)"

subsection \<open>Keep-alive\<close>

definition wrapper_mqtt_check_state :: "iotx_mc_client_t \<Rightarrow> (bool \<times> iotx_mc_client_t) option" where
  "wrapper_mqtt_check_state c =
     do { (state, c) \<leftarrow> iotx_mc_get_client_state c; Some (state = IOTX_MC_STATE_CONNECTED, c) }"

definition MQTTKeepalive :: "'e environment_scheme \<Rightarrow> iotx_mc_client_t \<Rightarrow> (int \<times> iotx_mc_client_t) option" where
  "MQTTKeepalive E c =
     (case utils_time_countdown_ms E 1000 c of (timer, c) \<Rightarrow>
      do {
       c \<leftarrow> HAL_MutexLock LockWriteBuf c;
       (case alloc_send_buffer E 0 c of (rc, c) \<Rightarrow>
          if rc < 0 then unlock_return LockWriteBuf FAIL_RETURN c
          else do {
            (len, c) \<leftarrow> serialize_to_send (\<lambda>n _. MQTTSerialize_pingreq n) () c;
            (if len \<le> 0 then unlock_return LockWriteBuf MQTT_PING_PACKET_ERROR (snd (reset_send_buffer c))
             else do {
               (rc, c) \<leftarrow> iotx_mc_send_packet E (buf_send c) len timer c;
               let c = snd (reset_send_buffer c);
               unlock_return LockWriteBuf
                 (if rc \<noteq> SUCCESS_RETURN then MQTT_NETWORK_ERROR else SUCCESS_RETURN) c }) }) })"

definition iotx_mc_keepalive_sub ::
  "'e environment_scheme \<Rightarrow> iotx_mc_client_t \<Rightarrow> (int \<times> iotx_mc_client_t) option" where
  "iotx_mc_keepalive_sub E c =
     do {
       (connected, c) \<leftarrow> wrapper_mqtt_check_state c;
       (if \<not> connected then Some (SUCCESS_RETURN, c)
        else case utils_time_is_expired E (next_ping_time c) c of (expired, c) \<Rightarrow>
          if \<not> expired then Some (SUCCESS_RETURN, c)
          else case utils_time_countdown_ms E (keepalive_ms c) c of (t, c) \<Rightarrow>
            do {
              (rc, c) \<leftarrow> MQTTKeepalive E (c\<lparr>next_ping_time := t\<rparr>);
              (if rc \<noteq> SUCCESS_RETURN
               then do {
                 c \<leftarrow> (if rc = MQTT_NETWORK_ERROR
                       then iotx_mc_set_client_state IOTX_MC_STATE_DISCONNECTED c else Some c);
                 Some (rc, c) }
               else do {
                 c \<leftarrow> HAL_MutexLock LockGeneric c;
                 let c = c\<lparr>ping_mark := 1, keepalive_probes := keepalive_probes c + 1\<rparr>;
                 unlock_return LockGeneric SUCCESS_RETURN c }) }) }"

subsection \<open>Reconnecting\<close>

definition iotx_mc_attempt_reconnect ::
  "'e mqtt_environment_scheme \<Rightarrow> iotx_mc_client_t \<Rightarrow> (int \<times> iotx_mc_client_t) option" where
  "iotx_mc_attempt_reconnect E c = wrapper_mqtt_connect E (net_disconnect c)"

text \<open>The interval after a failed attempt.\<close>

definition next_interval :: "u32 \<Rightarrow> u32" where
  "next_interval interval =
     (if interval < IOTX_MC_RECONNECT_INTERVAL_MAX_MS then interval * 2 else IOTX_MC_RECONNECT_INTERVAL_MAX_MS)"

definition iotx_mc_handle_reconnect ::
  "'e mqtt_environment_scheme \<Rightarrow> iotx_mc_client_t \<Rightarrow> (int \<times> iotx_mc_client_t) option" where
  "iotx_mc_handle_reconnect E c =
     (case utils_time_is_expired E (reconnect_next_time (reconnect_param c)) c of (expired, c) \<Rightarrow>
        if \<not> expired then Some (FAIL_RETURN, HAL_SleepMs 100 c)
        else do {
          (rc, c) \<leftarrow> iotx_mc_attempt_reconnect E c;
          (if rc = SUCCESS_RETURN
           then do { c \<leftarrow> iotx_mc_set_client_state IOTX_MC_STATE_CONNECTED c; Some (SUCCESS_RETURN, c) }
           else if rc = MQTT_CONNECT_BLOCK then Some (rc, c)
           else do {
             let c = c\<lparr>reconnect_param := (reconnect_param c)\<lparr>reconnect_time_interval_ms :=
                   next_interval (reconnect_time_interval_ms (reconnect_param c))\<rparr>\<rparr>;
             let interval_ms = reconnect_time_interval_ms (reconnect_param c);
             let interval_ms = (if IOTX_MC_RECONNECT_INTERVAL_MAX_MS < interval_ms
                   then IOTX_MC_RECONNECT_INTERVAL_MAX_MS else interval_ms);
             let (t, c) = utils_time_countdown_ms E interval_ms c;
             Some (rc, c\<lparr>reconnect_param := (reconnect_param c)\<lparr>reconnect_next_time := t\<rparr>\<rparr>) }) })"

text \<open>The two callbacks call \<open>h_fp\<close> directly, without the flag of \<open>_handle_event\<close>.\<close>

definition plain_callback ::
  "'e mqtt_environment_scheme \<Rightarrow> iotx_mqtt_event_type_t \<Rightarrow> iotx_mc_client_t \<Rightarrow> iotx_mc_client_t option" where
  "plain_callback E ev c =
     (case h_fp (handle_event c) of
        None \<Rightarrow> Some c
      | Some f \<Rightarrow> env_handler E f (pcontext (handle_event c)) \<lparr>event_type = ev, msg = NoArg\<rparr> c)"

definition iotx_mc_reconnect_callback ::
  "'e mqtt_environment_scheme \<Rightarrow> iotx_mc_client_t \<Rightarrow> iotx_mc_client_t option" where
  "iotx_mc_reconnect_callback E c = plain_callback E IOTX_MQTT_EVENT_RECONNECT c"

definition iotx_mc_disconnect_callback ::
  "'e mqtt_environment_scheme \<Rightarrow> iotx_mc_client_t \<Rightarrow> iotx_mc_client_t option" where
  "iotx_mc_disconnect_callback E c = plain_callback E IOTX_MQTT_EVENT_DISCONNECT c"

definition iotx_mc_keepalive ::
  "'e mqtt_environment_scheme \<Rightarrow> iotx_mc_client_t \<Rightarrow> iotx_mc_client_t option" where
  "iotx_mc_keepalive E c =
     do {
       (_, c) \<leftarrow> iotx_mc_keepalive_sub E c;
       (currentState, c) \<leftarrow> iotx_mc_get_client_state c;
       (if currentState = IOTX_MC_STATE_DISCONNECTED_RECONNECTING \<or> currentState = IOTX_MC_STATE_CONNECT_BLOCK
        then do {
          c \<leftarrow> HAL_MutexLock LockGeneric c;
          c \<leftarrow> HAL_MutexUnlock LockGeneric (c\<lparr>ping_mark := 0\<rparr>);
          (rc, c) \<leftarrow> iotx_mc_handle_reconnect E c;
          (if rc \<noteq> SUCCESS_RETURN then Some c
           else do {
             c \<leftarrow> iotx_mc_reconnect_callback E c;
             Some (c\<lparr>reconnect_param := (reconnect_param c)
               \<lparr>reconnect_time_interval_ms := IOTX_MC_RECONNECT_INTERVAL_MIN_MS\<rparr>\<rparr>) }) }
        else if currentState = IOTX_MC_STATE_DISCONNECTED
        then do {
          c \<leftarrow> iotx_mc_disconnect_callback E c;
          let c = c\<lparr>reconnect_param := (reconnect_param c)
               \<lparr>reconnect_time_interval_ms := IOTX_MC_RECONNECT_INTERVAL_MIN_MS\<rparr>\<rparr>;
          let (t, c) = utils_time_countdown_ms E (reconnect_time_interval_ms (reconnect_param c)) c;
          let c = c\<lparr>reconnect_param := (reconnect_param c)\<lparr>reconnect_next_time := t\<rparr>\<rparr>;
          iotx_mc_set_client_state IOTX_MC_STATE_DISCONNECTED_RECONNECTING (net_disconnect c) }
        else Some c) }"

subsection \<open>Disconnecting\<close>

definition MQTTDisconnect :: "'e environment_scheme \<Rightarrow> iotx_mc_client_t \<Rightarrow> (int \<times> iotx_mc_client_t) option" where
  "MQTTDisconnect E c =
     do {
       c \<leftarrow> HAL_MutexLock LockWriteBuf c;
       (case alloc_send_buffer E 0 c of (rc, c) \<Rightarrow>
          if rc < 0 then unlock_return LockWriteBuf FAIL_RETURN c
          else do {
            (len, c) \<leftarrow> serialize_to_send (\<lambda>n _. MQTTSerialize_disconnect n) () c;
            let (timer, c) = utils_time_countdown_ms E (request_timeout_ms c) c;
            (rc, c) \<leftarrow> (if 0 < len then iotx_mc_send_packet E (buf_send c) len timer c
                        else Some (FAIL_RETURN, c));
            unlock_return LockWriteBuf rc (snd (reset_send_buffer c)) }) }"

definition iotx_mc_disconnect ::
  "'e environment_scheme \<Rightarrow> iotx_mc_client_t \<Rightarrow> (int \<times> iotx_mc_client_t) option" where
  "iotx_mc_disconnect E c =
     do {
       (connected, c) \<leftarrow> wrapper_mqtt_check_state c;
       (_, c) \<leftarrow> (if connected then MQTTDisconnect E c else Some (-1, c));
       c \<leftarrow> iotx_mc_set_client_state IOTX_MC_STATE_INITIALIZED (net_disconnect c);
       Some (SUCCESS_RETURN, c) }"

end
