(* ===== verification/MqttPubSub.thy ===== *)
theory MqttPubSub
  imports MqttSession
begin

text \<open>
  \<open>mqtt/iotx_mqtt_client.c\<close>, publishing and subscribing: the list of QoS 1 messages waiting for
  their acknowledgement, the list of subscriptions, the requests, and the handlers of received
  packets.  The doubly linked lists are lists; a traversal that allows changes by the callbacks it
  makes works on the addresses of the nodes.
\<close>

subsection \<open>Messages waiting for PUBACK\<close>

text \<open>The third result of \<open>iotx_mc_push_pubInfo_to\<close>, the node, is the last element of the list.\<close>

definition iotx_mc_push_pubInfo_to ::
  "'e environment_scheme \<Rightarrow> int \<Rightarrow> u16 \<Rightarrow> iotx_mc_client_t \<Rightarrow> (int \<times> iotx_mc_client_t) option" where
  "iotx_mc_push_pubInfo_to E len msgId c =
     (if len < 0 \<or> uint (buf_size_send c) < len then Some (FAIL_RETURN, c)
      else if IOTX_MC_REPUB_NUM_MAX \<le> length (list_pub_wait_ack c) then Some (FAIL_RETURN, c)
      else case HAL_Malloc E len c of (allocated, c) \<Rightarrow>
        if \<not> allocated then Some (FAIL_RETURN, c)
        else case iotx_time_start E c of (t, c) \<Rightarrow>
          do {
            d \<leftarrow> ptr_block (buf_send c) len;
            let repubInfo = \<lparr>pub_start_time = t, node_state = IOTX_MC_NODE_STATE_NORMANL, msg_id = msgId,
                  node_len = word_of_int len, node_buf = d\<rparr>;
            Some (SUCCESS_RETURN, c\<lparr>list_pub_wait_ack := list_pub_wait_ack c @ [repubInfo]\<rparr>) })"

definition iotx_mc_mask_pubInfo_from :: "u16 \<Rightarrow> iotx_mc_client_t \<Rightarrow> (int \<times> iotx_mc_client_t) option" where
  "iotx_mc_mask_pubInfo_from msgId c =
     do {
       c \<leftarrow> HAL_MutexLock LockListPub c;
       let c = c\<lparr>list_pub_wait_ack :=
             map (\<lambda>node. if msg_id node = msgId then node\<lparr>node_state := IOTX_MC_NODE_STATE_INVALID\<rparr> else node)
               (list_pub_wait_ack c)\<rparr>;
       unlock_return LockListPub SUCCESS_RETURN c }"

definition MQTTRePublish ::
  "'e environment_scheme \<Rightarrow> byte list \<Rightarrow> int \<Rightarrow> iotx_mc_client_t \<Rightarrow> (int \<times> iotx_mc_client_t) option" where
  "MQTTRePublish E buf len c =
     (case utils_time_countdown_ms E (request_timeout_ms c) c of (timer, c) \<Rightarrow>
      do {
        c \<leftarrow> HAL_MutexLock LockWriteBuf c;
        (rc, c) \<leftarrow> iotx_mc_send_packet E (Some buf) len timer c;
        unlock_return LockWriteBuf (if rc \<noteq> SUCCESS_RETURN then MQTT_NETWORK_ERROR else SUCCESS_RETURN) c })"

text \<open>
  The traversal of \<open>MQTTPubInfoProc\<close>: the nodes already passed and kept, in order, and the nodes
  still to come.  The result is the whole list that is left.
\<close>

fun pub_info_loop ::
  "'e environment_scheme \<Rightarrow> iotx_mc_pub_info_t list \<Rightarrow> iotx_mc_pub_info_t list \<Rightarrow> iotx_mc_client_t \<Rightarrow>
     iotx_mc_client_t option" where
  "pub_info_loop E passed [] c = Some (c\<lparr>list_pub_wait_ack := passed\<rparr>)"
| "pub_info_loop E passed (node # next) c =
     (if node_state node = IOTX_MC_NODE_STATE_INVALID then pub_info_loop E passed next c
      else do {
        (state, c) \<leftarrow> iotx_mc_get_client_state c;
        (if state \<noteq> IOTX_MC_STATE_CONNECTED then pub_info_loop E (passed @ [node]) next c
         else case utils_time_spend E (pub_start_time node) c of (spent, c) \<Rightarrow>
           if spent \<le> request_timeout_ms c * 2 then pub_info_loop E (passed @ [node]) next c
           else do {
             (rc, c) \<leftarrow> MQTTRePublish E (node_buf node) (uint (node_len node)) c;
             (case iotx_time_start E c of (t, c) \<Rightarrow>
                let node = node\<lparr>pub_start_time := t\<rparr> in
                if rc = MQTT_NETWORK_ERROR
                then do {
                  c \<leftarrow> iotx_mc_set_client_state IOTX_MC_STATE_DISCONNECTED c;
                  Some (c\<lparr>list_pub_wait_ack := passed @ [node] @ next\<rparr>) }
                else pub_info_loop E (passed @ [node]) next c) }) })"

definition MQTTPubInfoProc ::
  "'e environment_scheme \<Rightarrow> iotx_mc_client_t \<Rightarrow> (int \<times> iotx_mc_client_t) option" where
  "MQTTPubInfoProc E c =
     do {
       c \<leftarrow> HAL_MutexLock LockListPub c;
       c \<leftarrow> pub_info_loop E [] (list_pub_wait_ack c) c;
       unlock_return LockListPub SUCCESS_RETURN c }"

subsection \<open>Publishing\<close>

definition MQTTPublish ::
  "'e environment_scheme \<Rightarrow> cstring \<Rightarrow> iotx_mqtt_topic_info_t \<Rightarrow> iotx_mc_client_t \<Rightarrow>
     (int \<times> iotx_mc_client_t) option" where
  "MQTTPublish E topicName topic_msg c =
     (case utils_time_countdown_ms E (request_timeout_ms c) c of (timer, c) \<Rightarrow>
      do {
        let topic = MQTTString_initializer\<lparr>ms_cstring := Some topicName\<rparr>;
        c \<leftarrow> HAL_MutexLock LockListPub c;
        c \<leftarrow> HAL_MutexLock LockWriteBuf c;
        let unlock_both = (\<lambda>rc c. do { c \<leftarrow> HAL_MutexUnlock LockWriteBuf c; unlock_return LockListPub rc c });
        (case alloc_send_buffer E (int (length topicName) + uint (ti_payload_len topic_msg)) c of (rc, c) \<Rightarrow>
           if rc < 0 then unlock_both FAIL_RETURN c
           else do {
             (len, c) \<leftarrow> serialize_to_send MQTTSerialize_publish
               \<lparr>pub_dup = 0, pub_qos = uint (ti_qos topic_msg), pub_retained = ti_retain topic_msg,
                pub_packetid = ti_packet_id topic_msg, pub_topicName = topic,
                pub_payload = ti_payload topic_msg, pub_payloadlen = sint (ti_payload_len topic_msg)\<rparr> c;
             (if len \<le> 0 then unlock_both MQTT_PUBLISH_PACKET_ERROR (snd (reset_send_buffer c))
              else do {
                (pushed, c) \<leftarrow> (if 0 < ti_qos topic_msg
                  then iotx_mc_push_pubInfo_to E len (ti_packet_id topic_msg) c else Some (SUCCESS_RETURN, c));
                (if pushed \<noteq> SUCCESS_RETURN then unlock_both MQTT_PUSH_TO_LIST_ERROR (snd (reset_send_buffer c))
                 else do {
                   (rc, c) \<leftarrow> iotx_mc_send_packet E (buf_send c) len timer c;
                   (if rc \<noteq> SUCCESS_RETURN
                    then let c = (if 0 < ti_qos topic_msg
                               then c\<lparr>list_pub_wait_ack := butlast (list_pub_wait_ack c)\<rparr> else c)
                         in unlock_both MQTT_NETWORK_ERROR (snd (reset_send_buffer c))
                    else unlock_both SUCCESS_RETURN (snd (reset_send_buffer c))) }) }) }) })"

definition MQTTPuback ::
  "'e environment_scheme \<Rightarrow> u16 \<Rightarrow> byte \<Rightarrow> iotx_mc_client_t \<Rightarrow> (int \<times> iotx_mc_client_t) option" where
  "MQTTPuback E msgId type c =
     (case utils_time_countdown_ms E (request_timeout_ms c) c of (timer, c) \<Rightarrow>
      do {
        c \<leftarrow> HAL_MutexLock LockWriteBuf c;
        (if type \<noteq> PUBACK then unlock_return LockWriteBuf MQTT_PUBLISH_ACK_TYPE_ERROR c
         else case alloc_send_buffer E 0 c of (rc, c) \<Rightarrow>
           if rc < 0 then unlock_return LockWriteBuf FAIL_RETURN c
           else do {
             (len, c) \<leftarrow> serialize_to_send MQTTSerialize_ack (PUBACK, 0, msgId) c;
             (if len \<le> 0
              then unlock_return LockWriteBuf MQTT_PUBLISH_ACK_PACKET_ERROR (snd (reset_send_buffer c))
              else do {
                (rc, c) \<leftarrow> iotx_mc_send_packet E (buf_send c) len timer c;
                unlock_return LockWriteBuf
                  (if rc \<noteq> SUCCESS_RETURN then MQTT_NETWORK_ERROR else SUCCESS_RETURN)
                  (snd (reset_send_buffer c)) }) }) })"

subsection \<open>Subscriptions\<close>

definition iotx_mc_check_handle_is_identical_ex ::
  "iotx_mc_topic_handle_t \<Rightarrow> iotx_mc_topic_handle_t \<Rightarrow> int" where
  "iotx_mc_check_handle_is_identical_ex h1 h2 =
     (if length (topic_filter h1) \<noteq> length (topic_filter h2) then 1
      else if topic_filter h1 \<noteq> topic_filter h2 then 1 else 0)"

definition iotx_mc_check_handle_is_identical ::
  "iotx_mc_topic_handle_t \<Rightarrow> iotx_mc_topic_handle_t \<Rightarrow> int" where
  "iotx_mc_check_handle_is_identical h1 h2 =
     (if iotx_mc_check_handle_is_identical_ex h1 h2 \<noteq> 0 then 1
      else if h_fp (handle h1) \<noteq> h_fp (handle h2) then 1
      else if pcontext (handle h1) \<noteq> pcontext (handle h2) then 1 else 0)"

text \<open>Appending the new node unless an identical one is in the list.\<close>

definition add_handle :: "iotx_mc_topic_handle_t \<Rightarrow> iotx_mc_client_t \<Rightarrow> iotx_mc_client_t option" where
  "add_handle handler c =
     do {
       c \<leftarrow> HAL_MutexLock LockGeneric c;
       let dup = list_ex (\<lambda>node. iotx_mc_check_handle_is_identical node handler = 0) (list_sub_handle c);
       HAL_MutexUnlock LockGeneric
         (if dup then c else c\<lparr>list_sub_handle := list_sub_handle c @ [handler]\<rparr>) }"

definition MQTTSubscribe ::
  "'e environment_scheme \<Rightarrow> cstring \<Rightarrow> int \<Rightarrow> u32 \<Rightarrow> nat \<Rightarrow> nat \<Rightarrow> iotx_mc_client_t \<Rightarrow>
     (int \<times> iotx_mc_client_t) option" where
  "MQTTSubscribe E topicFilter qos msgId messageHandler ctx c =
     (case utils_time_countdown_ms E (request_timeout_ms c) c of (timer, c) \<Rightarrow>
      let addr = n_malloc c in
      case HAL_Malloc E 1 c of (got_handler, c) \<Rightarrow>
      if \<not> got_handler then Some (FAIL_RETURN, c)
      else case HAL_Malloc E (int (length topicFilter) + 1) c of (got_filter, c) \<Rightarrow>
      if \<not> got_filter then Some (FAIL_RETURN, c)
      else do {
        let topic = MQTTString_initializer\<lparr>ms_cstring := Some topicFilter\<rparr>;
        let handler = \<lparr>th_addr = addr, handle = \<lparr>h_fp = Some messageHandler, pcontext = ctx\<rparr>,
              topic_filter = topicFilter\<rparr>;
        c \<leftarrow> HAL_MutexLock LockWriteBuf c;
        (case alloc_send_buffer E (int (length topicFilter)) c of (rc, c) \<Rightarrow>
           if rc < 0 then unlock_return LockWriteBuf FAIL_RETURN c
           else do {
             (len, c) \<leftarrow> serialize_to_send MQTTSerialize_subscribe
               \<lparr>sub_dup = 0, sub_packetid = ucast msgId, sub_count = 1,
                sub_topicFilters = [topic], sub_requestedQoSs = [qos]\<rparr> c;
             (if len \<le> 0
              then unlock_return LockWriteBuf MQTT_SUBSCRIBE_PACKET_ERROR (snd (reset_send_buffer c))
              else do {
                (rc, c) \<leftarrow> iotx_mc_send_packet E (buf_send c) len timer c;
                (if rc \<noteq> SUCCESS_RETURN
                 then unlock_return LockWriteBuf MQTT_NETWORK_ERROR (snd (reset_send_buffer c))
                 else do {
                   c \<leftarrow> HAL_MutexUnlock LockWriteBuf (snd (reset_send_buffer c));
                   c \<leftarrow> add_handle handler c;
                   Some (SUCCESS_RETURN, c) }) }) }) })"

text \<open>The test both traversals of the subscriptions make.\<close>

definition topic_hits :: "MQTTString \<Rightarrow> iotx_mc_topic_handle_t \<Rightarrow> bool option" where
  "topic_hits t node =
     do { eq \<leftarrow> MQTTPacket_equals t (topic_filter node);
          (if eq then Some True else iotx_mc_is_topic_matched (topic_filter node) t) }"

fun remove_hits :: "MQTTString \<Rightarrow> iotx_mc_topic_handle_t list \<Rightarrow> iotx_mc_topic_handle_t list option" where
  "remove_hits t [] = Some []"
| "remove_hits t (node # nodes) =
     do { hit \<leftarrow> topic_hits t node;
          rest \<leftarrow> remove_hits t nodes;
          Some (if hit then rest else node # rest) }"

definition MQTTUnsubscribe ::
  "'e environment_scheme \<Rightarrow> cstring \<Rightarrow> u32 \<Rightarrow> iotx_mc_client_t \<Rightarrow> (int \<times> iotx_mc_client_t) option" where
  "MQTTUnsubscribe E topicFilter msgId c =
     (case utils_time_countdown_ms E (request_timeout_ms c) c of (timer, c) \<Rightarrow>
      case HAL_Malloc E 1 c of (got_handler, c) \<Rightarrow>
      if \<not> got_handler then Some (FAIL_RETURN, c)
      else case HAL_Malloc E (int (length topicFilter) + 1) c of (got_filter, c) \<Rightarrow>
      if \<not> got_filter then Some (FAIL_RETURN, c)
      else do {
        let topic = MQTTString_initializer\<lparr>ms_cstring := Some topicFilter\<rparr>;
        c \<leftarrow> HAL_MutexLock LockWriteBuf c;
        (case alloc_send_buffer E (int (length topicFilter)) c of (rc, c) \<Rightarrow>
           if rc < 0 then unlock_return LockWriteBuf FAIL_RETURN c
           else do {
             (len, c) \<leftarrow> serialize_to_send MQTTSerialize_unsubscribe (0, ucast msgId, 1, [topic]) c;
             (if len \<le> 0
              then unlock_return LockWriteBuf MQTT_UNSUBSCRIBE_PACKET_ERROR (snd (reset_send_buffer c))
              else do {
                (rc, c) \<leftarrow> iotx_mc_send_packet E (buf_send c) len timer c;
                (if rc \<noteq> SUCCESS_RETURN
                 then unlock_return LockWriteBuf MQTT_NETWORK_ERROR (snd (reset_send_buffer c))
                 else do {
                   let cur_topic = \<lparr>ms_cstring = None, lenstring =
                         \<lparr>ls_len = int (length topicFilter) + 1, ls_data = Some (topicFilter @ [0])\<rparr>\<rparr>;
                   c \<leftarrow> HAL_MutexLock LockGeneric c;
                   nodes \<leftarrow> remove_hits cur_topic (list_sub_handle c);
                   c \<leftarrow> HAL_MutexUnlock LockGeneric (c\<lparr>list_sub_handle := nodes\<rparr>);
                   unlock_return LockWriteBuf SUCCESS_RETURN (snd (reset_send_buffer c)) }) }) }) })"

definition iotx_mc_get_next_packetid :: "iotx_mc_client_t \<Rightarrow> (u32 \<times> iotx_mc_client_t) option" where
  "iotx_mc_get_next_packetid c =
     do {
       c \<leftarrow> HAL_MutexLock LockGeneric c;
       let c = c\<lparr>packet_id := (if packet_id c = IOTX_MC_PACKET_ID_MAX then 1 else packet_id c + 1)\<rparr>;
       let id = packet_id c;
       unlock_return LockGeneric id c }"

subsection \<open>Received packets\<close>

text \<open>A packet id the deserializer did not set is an uninitialised variable, and using it undefined.\<close>

definition iotx_mc_handle_recv_PUBACK ::
  "'e mqtt_environment_scheme \<Rightarrow> iotx_mc_client_t \<Rightarrow> (int \<times> iotx_mc_client_t) option" where
  "iotx_mc_handle_recv_PUBACK E c =
     do {
       (r, type, dup, mypacketid) \<leftarrow> MQTTDeserialize_ack (0, 0, None) (read_bytes c);
       (if r \<noteq> 1 then Some (MQTT_PUBLISH_ACK_PACKET_ERROR, c)
        else do {
          mypacketid \<leftarrow> mypacketid;
          (_, c) \<leftarrow> iotx_mc_mask_pubInfo_from mypacketid c;
          (_, c) \<leftarrow> (if h_fp (handle_event c) \<noteq> None
            then call_handler E (handle_event c)
              \<lparr>event_type = IOTX_MQTT_EVENT_PUBLISH_SUCCESS, msg = IdArg mypacketid\<rparr> c
            else Some (0, c));
          Some (SUCCESS_RETURN, c) }) }"

definition iotx_mqtt_event_handle_sub ::
  "iotx_mqtt_event_type_t \<Rightarrow> u16 \<Rightarrow> iotx_mc_client_t \<Rightarrow> iotx_mc_client_t option" where
  "iotx_mqtt_event_handle_sub ev pid c =
     do {
       c \<leftarrow> HAL_MutexLock LockGeneric c;
       HAL_MutexUnlock LockGeneric (c\<lparr>list_sub_sync_ack :=
         map (\<lambda>node. if sync_packet_id node = uint pid then node\<lparr>ack_type := ev\<rparr> else node)
           (list_sub_sync_ack c)\<rparr>) }"

text \<open>
  \<open>fail_flag\<close> after the loop over the granted QoS values: each value overwrites it.
\<close>

definition suback_fail_flag :: "byte list \<Rightarrow> int" where
  "suback_fail_flag granted = fold (\<lambda>q fail_flag. if q = 0x80 then 1 else 0) granted (-1)"

definition iotx_mc_handle_recv_SUBACK ::
  "'e mqtt_environment_scheme \<Rightarrow> iotx_mc_client_t \<Rightarrow> (int \<times> iotx_mc_client_t) option" where
  "iotx_mc_handle_recv_SUBACK E c =
     do {
       (rc, d) \<leftarrow> MQTTDeserialize_suback MUTLI_SUBSCIRBE_MAX
         \<lparr>sa_packetid = None, sa_count = 0, sa_grantedQoSs = replicate (nat MUTLI_SUBSCIRBE_MAX) 0\<rparr> (read_bytes c);
       (if rc < 0 then Some (MQTT_SUBSCRIBE_ACK_PACKET_ERROR, c)
        else do {
          mypacketid \<leftarrow> sa_packetid d;
          let fail_flag = suback_fail_flag (take (nat (sa_count d)) (sa_grantedQoSs d));
          let ev = (if fail_flag = 1 then IOTX_MQTT_EVENT_SUBCRIBE_NACK else IOTX_MQTT_EVENT_SUBCRIBE_SUCCESS);
          c \<leftarrow> iotx_mqtt_event_handle_sub ev mypacketid c;
          (_, c) \<leftarrow> (if h_fp (handle_event c) \<noteq> None
            then call_handler E (handle_event c) \<lparr>event_type = ev, msg = IdArg mypacketid\<rparr> c
            else Some (0, c));
          Some (SUCCESS_RETURN, c) }) }"

text \<open>
  Delivery walks along the list while the handlers it calls may change it: the next node is the
  successor, in the list as it is then, of the node just handled, and there is none to read when
  that node was freed.  The second result is \<open>flag_matched\<close>.
\<close>

fun node_after :: "nat \<Rightarrow> iotx_mc_topic_handle_t list \<Rightarrow> nat option option" where
  "node_after a [] = None"
| "node_after a [n] = (if th_addr n = a then Some None else None)"
| "node_after a (n # m # ns) = (if th_addr n = a then Some (Some (th_addr m)) else node_after a (m # ns))"

definition node_at :: "nat \<Rightarrow> iotx_mc_topic_handle_t list \<Rightarrow> iotx_mc_topic_handle_t option" where
  "node_at a nodes = find (\<lambda>n. th_addr n = a) nodes"

partial_function (option) deliver_loop ::
  "'e mqtt_environment_scheme \<Rightarrow> MQTTString \<Rightarrow> iotx_mqtt_topic_info_t \<Rightarrow> nat option \<Rightarrow> bool \<Rightarrow>
     iotx_mc_client_t \<Rightarrow> (bool \<times> iotx_mc_client_t) option" where
  "deliver_loop E topicName topic_msg cur flag_matched c =
     (case cur of
        None \<Rightarrow> Some (flag_matched, c)
      | Some a \<Rightarrow> do {
          node \<leftarrow> node_at a (list_sub_handle c);
          hit \<leftarrow> topic_hits topicName node;
          (flag_matched, c) \<leftarrow>
            (if hit then do {
               c \<leftarrow> HAL_MutexUnlock LockGeneric c;
               (flag_matched, c) \<leftarrow>
                 (if h_fp (handle node) \<noteq> None then do {
                    (_, c) \<leftarrow> call_handler E (handle node)
                      \<lparr>event_type = IOTX_MQTT_EVENT_PUBLISH_RECEIVED, msg = TopicArg topic_msg\<rparr> c;
                    Some (True, c) }
                  else Some (flag_matched, c));
               c \<leftarrow> HAL_MutexLock LockGeneric c;
               Some (flag_matched, c) }
             else Some (flag_matched, c));
          cur \<leftarrow> node_after a (list_sub_handle c);
          deliver_loop E topicName topic_msg cur flag_matched c })"

definition iotx_mc_deliver_message ::
  "'e mqtt_environment_scheme \<Rightarrow> MQTTString \<Rightarrow> iotx_mqtt_topic_info_t \<Rightarrow> iotx_mc_client_t \<Rightarrow>
     iotx_mc_client_t option" where
  "iotx_mc_deliver_message E topicName topic_msg c =
     do {
       let topic_msg = topic_msg\<lparr>ti_ptopic := ls_data (lenstring topicName),
             ti_topic_len := word_of_int (ls_len (lenstring topicName))\<rparr>;
       c \<leftarrow> HAL_MutexLock LockGeneric c;
       (flag_matched, c) \<leftarrow> deliver_loop E topicName topic_msg
         (case list_sub_handle c of [] \<Rightarrow> None | n # _ \<Rightarrow> Some (th_addr n)) False c;
       c \<leftarrow> HAL_MutexUnlock LockGeneric c;
       (if \<not> flag_matched \<and> h_fp (handle_event c) \<noteq> None
        then do {
          (_, c) \<leftarrow> call_handler E (handle_event c)
            \<lparr>event_type = IOTX_MQTT_EVENT_PUBLISH_RECEIVED, msg = TopicArg topic_msg\<rparr> c;
          Some c }
        else Some c) }"

definition iotx_mc_handle_recv_PUBLISH ::
  "'e mqtt_environment_scheme \<Rightarrow> iotx_mc_client_t \<Rightarrow> (int \<times> iotx_mc_client_t) option" where
  "iotx_mc_handle_recv_PUBLISH E c =
     do {
       (r, p) \<leftarrow> MQTTDeserialize_publish
         \<lparr>pub_dup = 0, pub_qos = 0, pub_retained = 0, pub_packetid = 0,
          pub_topicName = MQTTString_initializer, pub_payload = None, pub_payloadlen = 0\<rparr> (read_bytes c);
       (if r \<noteq> 1 then Some (MQTT_PUBLISH_PACKET_ERROR, c)
        else do {
          let topic_msg = \<lparr>ti_packet_id = pub_packetid p, ti_qos = word_of_int (pub_qos p), ti_dup = pub_dup p,
                ti_retain = pub_retained p, ti_topic_len = 0, ti_payload_len = word_of_int (pub_payloadlen p),
                ti_ptopic = None, ti_payload = pub_payload p\<rparr>;
          c \<leftarrow> iotx_mc_deliver_message E (pub_topicName p) topic_msg c;
          (if ti_qos topic_msg = 0 then Some (SUCCESS_RETURN, c)
           else if ti_qos topic_msg = 1 then MQTTPuback E (ti_packet_id topic_msg) PUBACK c
           else if ti_qos topic_msg = 2 then MQTTPuback E (ti_packet_id topic_msg) PUBREC c
           else Some (MQTT_PUBLISH_QOS_ERROR, c)) }) }"

definition iotx_mc_handle_recv_UNSUBACK ::
  "'e mqtt_environment_scheme \<Rightarrow> iotx_mc_client_t \<Rightarrow> (int \<times> iotx_mc_client_t) option" where
  "iotx_mc_handle_recv_UNSUBACK E c =
     do {
       (r, mypacketid) \<leftarrow> MQTTDeserialize_unsuback (Some 0) (read_bytes c);
       (if r \<noteq> 1 then Some (MQTT_UNSUBSCRIBE_ACK_PACKET_ERROR, c)
        else do {
          mypacketid \<leftarrow> mypacketid;
          (_, c) \<leftarrow> (if h_fp (handle_event c) \<noteq> None
            then call_handler E (handle_event c)
              \<lparr>event_type = IOTX_MQTT_EVENT_UNSUBCRIBE_SUCCESS, msg = IdArg mypacketid\<rparr> c
            else Some (0, c));
          Some (SUCCESS_RETURN, c) }) }"

end
