(* ===== verification/MqttCycle.thy ===== *)
theory MqttCycle
  imports MqttPubSub
begin

text \<open>
  \<open>mqtt/iotx_mqtt_client.c\<close>, the cycle that reads a packet and hands it to its handler, and the
  functions the rest of the kit calls (\<open>wrapper_mqtt_*\<close>).  The client handle they take is the
  client itself, so that their NULL guards on it have no counterpart.
\<close>

subsection \<open>The cycle\<close>

text \<open>The dispatch of \<open>iotx_mc_cycle\<close> on the packet type; \<open>None\<close> in the first result is the branch
  \<open>default\<close>, which returns \<open>FAIL_RETURN\<close>.\<close>

definition cycle_dispatch ::
  "'e mqtt_environment_scheme \<Rightarrow> byte \<Rightarrow> iotx_mc_client_t \<Rightarrow> (int \<times> iotx_mc_client_t) option" where
  "cycle_dispatch E packetType c =
     (if packetType = CONNACK then Some (SUCCESS_RETURN, c)
      else if packetType = PUBACK then iotx_mc_handle_recv_PUBACK E c
      else if packetType = SUBACK then iotx_mc_handle_recv_SUBACK E c
      else if packetType = PUBLISH then iotx_mc_handle_recv_PUBLISH E c
      else if packetType = UNSUBACK then iotx_mc_handle_recv_UNSUBACK E c
      else if packetType = PINGRESP then Some (SUCCESS_RETURN, c)
      else Some (FAIL_RETURN, c))"

definition iotx_mc_cycle ::
  "'e mqtt_environment_scheme \<Rightarrow> iotx_time_t \<Rightarrow> iotx_mc_client_t \<Rightarrow> (int \<times> iotx_mc_client_t) option" where
  "iotx_mc_cycle E timer c =
     do {
       (state, c) \<leftarrow> iotx_mc_get_client_state c;
       (if state \<noteq> IOTX_MC_STATE_CONNECTED then Some (MQTT_STATE_ERROR, c)
        else do {
          c \<leftarrow> (if IOTX_MC_KEEPALIVE_PROBE_MAX < keepalive_probes c
                then do { c \<leftarrow> iotx_mc_set_client_state IOTX_MC_STATE_DISCONNECTED c;
                          Some (c\<lparr>keepalive_probes := 0\<rparr>) }
                else Some c);
          ((rc, packetType), c) \<leftarrow> iotx_mc_read_packet E timer None c;
          (if rc \<noteq> SUCCESS_RETURN
           then do {
             c \<leftarrow> locked_reset_recv_buffer c;
             c \<leftarrow> (if rc = MQTT_NETWORK_ERROR
                   then iotx_mc_set_client_state IOTX_MC_STATE_DISCONNECTED c else Some c);
             Some (MQTT_NETWORK_ERROR, c) }
           else do {
             packetType \<leftarrow> packetType;
             (if packetType = MQTT_CPT_RESERVED
              then do { c \<leftarrow> locked_reset_recv_buffer c; Some (SUCCESS_RETURN, c) }
              else do {
                c \<leftarrow> HAL_MutexLock LockGeneric c;
                c \<leftarrow> HAL_MutexUnlock LockGeneric (c\<lparr>ping_mark := 0, keepalive_probes := 0\<rparr>);
                c \<leftarrow> HAL_MutexLock LockReadBuf c;
                (rc, c) \<leftarrow> cycle_dispatch E packetType c;
                unlock_return LockReadBuf rc (snd (reset_recv_buffer c)) }) }) }) }"

partial_function (option) cycle_loop ::
  "'e mqtt_environment_scheme \<Rightarrow> iotx_time_t \<Rightarrow> iotx_mc_client_t \<Rightarrow> iotx_mc_client_t option" where
  "cycle_loop E timer c =
     do {
       c \<leftarrow> HAL_MutexLock LockYield c;
       (rc, c) \<leftarrow> iotx_mc_cycle E timer c;
       c \<leftarrow> (if rc = SUCCESS_RETURN then do { (_, c) \<leftarrow> MQTTPubInfoProc E c; Some c } else Some c);
       c \<leftarrow> HAL_MutexUnlock LockYield c;
       (case iotx_time_left E timer c of (left_t, c) \<Rightarrow>
          let c = (if left_t < 10 then HAL_SleepMs left_t c else HAL_SleepMs 10 c) in
          case utils_time_is_expired E timer c of (expired, c) \<Rightarrow>
            if expired then Some c else cycle_loop E timer c) }"

definition mqtt_cycle :: "'e mqtt_environment_scheme \<Rightarrow> iotx_mc_client_t \<Rightarrow> iotx_mc_client_t option" where
  "mqtt_cycle E c =
     (case utils_time_countdown_ms E (cycle_timeout_ms c) c of (timer, c) \<Rightarrow> cycle_loop E timer c)"

definition wrapper_mqtt_yield ::
  "'e mqtt_environment_scheme \<Rightarrow> int \<Rightarrow> iotx_mc_client_t \<Rightarrow> (int \<times> iotx_mc_client_t) option" where
  "wrapper_mqtt_yield E timeout_ms c =
     (if timeout_ms < 0 then Some (-1, c)
      else do {
        let timeout_ms = (if timeout_ms = 0 then 10 else timeout_ms);
        c \<leftarrow> HAL_MutexLock LockYield c;
        c \<leftarrow> iotx_mc_keepalive E (c\<lparr>cycle_timeout_ms := word_of_int timeout_ms\<rparr>);
        c \<leftarrow> HAL_MutexUnlock LockYield c;
        c \<leftarrow> mqtt_cycle E c;
        Some (0, c) })"

subsection \<open>Life of a client\<close>

text \<open>A freshly allocated client: every field zero, on the platform as it is.\<close>

definition zero_client :: "hal \<Rightarrow> iotx_mc_client_t" where
  "zero_client h = \<lparr>n_uptime = n_uptime h, n_malloc = n_malloc h, n_mutex = n_mutex h, n_read = n_read h,
     n_write = n_write h, n_connect = n_connect h, held = held h, effects = effects h,
     locks = {}, packet_id = 0, request_timeout_ms = 0, cycle_timeout_ms = 0, buf_size_send = 0,
     buf_size_send_max = 0, buf_size_read_max = 0, buf_size_read = 0, keepalive_probes = 0,
     buf_send = None, buf_read = None, list_sub_handle = [], ipstack = net_zero,
     next_ping_time = \<lparr>time = 0\<rparr>, ping_mark = 0, client_state = IOTX_MC_STATE_INVALID,
     reconnect_param = \<lparr>reconnect_next_time = \<lparr>time = 0\<rparr>, reconnect_time_interval_ms = 0\<rparr>,
     connect_data = MQTTPacket_connectData_initializer\<lparr>cd_struct_id := [0, 0, 0, 0], MQTTVersion := 0,
       keepAliveInterval := 0, cleansession := 0,
       will := MQTTPacket_willOptions_initializer\<lparr>will_struct_id := [0, 0, 0, 0]\<rparr>\<rparr>,
     list_pub_wait_ack = [], list_sub_sync_ack = [], handle_event = \<lparr>h_fp = None, pcontext = 0\<rparr>,
     in_yield_cb = 0\<rparr>"

text \<open>The first result is whether a client is returned (otherwise NULL, and it was freed).\<close>

definition wrapper_mqtt_init ::
  "'e environment_scheme \<Rightarrow> iotx_mqtt_param_t \<Rightarrow> hal \<Rightarrow> (bool \<times> iotx_mc_client_t) option" where
  "wrapper_mqtt_init E mqtt_params h =
     (case HAL_Malloc E 1 h of (allocated, h) \<Rightarrow>
        let pclient = zero_client h in
        if \<not> allocated then Some (False, pclient)
        else do {
          (err, pclient) \<leftarrow> iotx_mc_init E mqtt_params pclient;
          Some (err = SUCCESS_RETURN, pclient) })"

definition wrapper_mqtt_release ::
  "'e environment_scheme \<Rightarrow> iotx_mc_client_t \<Rightarrow> (int \<times> iotx_mc_client_t) option" where
  "wrapper_mqtt_release E c =
     do {
       let c = HAL_SleepMs 100 c;
       (_, c) \<leftarrow> iotx_mc_disconnect E c;
       c \<leftarrow> iotx_mc_set_client_state IOTX_MC_STATE_INVALID c;
       let c = HAL_SleepMs 100 c;
       let c = c\<lparr>list_sub_handle := []\<rparr>;
       let c = c\<lparr>locks := locks c - {LockGeneric, LockListPub, LockWriteBuf, LockYield, LockReadBuf}\<rparr>;
       let c = iotx_mc_pub_wait_list_deinit c;
       let c = c\<lparr>buf_send := None, buf_read := None\<rparr>;
       Some (SUCCESS_RETURN, c) }"

subsection \<open>Requests of the application\<close>

definition set_disconnected_if :: "bool \<Rightarrow> iotx_mc_client_t \<Rightarrow> iotx_mc_client_t option" where
  "set_disconnected_if b c = (if b then iotx_mc_set_client_state IOTX_MC_STATE_DISCONNECTED c else Some c)"

definition wrapper_mqtt_subscribe ::
  "'e environment_scheme \<Rightarrow> cstring option \<Rightarrow> int \<Rightarrow> nat option \<Rightarrow> nat \<Rightarrow> iotx_mc_client_t \<Rightarrow>
     (int \<times> iotx_mc_client_t) option" where
  "wrapper_mqtt_subscribe E topicFilter qos topic_handle_func ctx c =
     (case (topicFilter, topic_handle_func) of
        (Some tf, Some f) \<Rightarrow>
          (if tf = [] then Some (NULL_VALUE_ERROR, c)
           else do {
             (msgId, c) \<leftarrow> iotx_mc_get_next_packetid c;
             (connected, c) \<leftarrow> wrapper_mqtt_check_state c;
             (if \<not> connected then Some (MQTT_STATE_ERROR, c)
              else do {
                ck \<leftarrow> iotx_mc_check_topic tf TOPIC_FILTER_TYPE;
                (if ck \<noteq> 0 then Some (MQTT_TOPIC_FORMAT_ERROR, c)
                 else do {
                   (rc, c) \<leftarrow> MQTTSubscribe E tf qos msgId f ctx c;
                   (if rc \<noteq> SUCCESS_RETURN
                    then do { c \<leftarrow> set_disconnected_if (rc = MQTT_NETWORK_ERROR) c; Some (rc, c) }
                    else Some (sint msgId, c)) }) }) })
      | _ \<Rightarrow> Some (NULL_VALUE_ERROR, c))"

definition wrapper_mqtt_unsubscribe ::
  "'e environment_scheme \<Rightarrow> cstring option \<Rightarrow> iotx_mc_client_t \<Rightarrow> (int \<times> iotx_mc_client_t) option" where
  "wrapper_mqtt_unsubscribe E topicFilter c =
     (case topicFilter of
        None \<Rightarrow> Some (NULL_VALUE_ERROR, c)
      | Some tf \<Rightarrow> do {
          (msgId, c) \<leftarrow> iotx_mc_get_next_packetid c;
          ck \<leftarrow> iotx_mc_check_topic tf TOPIC_FILTER_TYPE;
          (if ck \<noteq> 0 then Some (MQTT_TOPIC_FORMAT_ERROR, c)
           else do {
             (connected, c) \<leftarrow> wrapper_mqtt_check_state c;
             (if \<not> connected then Some (MQTT_STATE_ERROR, c)
              else do {
                (rc, c) \<leftarrow> MQTTUnsubscribe E tf msgId c;
                (if rc \<noteq> SUCCESS_RETURN
                 then do { c \<leftarrow> set_disconnected_if (rc = MQTT_NETWORK_ERROR) c; Some (rc, c) }
                 else Some (sint msgId, c)) }) }) })"

text \<open>The message is passed by reference; its packet id is an output.\<close>

definition wrapper_mqtt_publish ::
  "'e environment_scheme \<Rightarrow> cstring option \<Rightarrow> iotx_mqtt_topic_info_t \<Rightarrow> iotx_mc_client_t \<Rightarrow>
     ((int \<times> iotx_mqtt_topic_info_t) \<times> iotx_mc_client_t) option" where
  "wrapper_mqtt_publish E topicName topic_msg c =
     (case (topicName, ti_payload topic_msg) of
        (Some name, Some _) \<Rightarrow> do {
          ck \<leftarrow> iotx_mc_check_topic name TOPIC_NAME_TYPE;
          (if ck \<noteq> 0 then Some ((MQTT_TOPIC_FORMAT_ERROR, topic_msg), c)
           else do {
             (connected, c) \<leftarrow> wrapper_mqtt_check_state c;
             (if \<not> connected then Some ((MQTT_STATE_ERROR, topic_msg), c)
              else do {
                (msg_id, topic_msg, c) \<leftarrow>
                  (if ti_qos topic_msg = 1 \<or> ti_qos topic_msg = 2
                   then do { (id, c) \<leftarrow> iotx_mc_get_next_packetid c;
                             Some (ucast id, topic_msg\<lparr>ti_packet_id := ucast id\<rparr>, c) }
                   else Some (0 :: u16, topic_msg, c));
                (if ti_qos topic_msg = 2 then Some ((MQTT_PUBLISH_QOS_ERROR, topic_msg), c)
                 else do {
                   (rc, c) \<leftarrow> MQTTPublish E name topic_msg c;
                   (if rc \<noteq> SUCCESS_RETURN
                    then do { c \<leftarrow> set_disconnected_if (rc = MQTT_NETWORK_ERROR) c; Some ((rc, topic_msg), c) }
                    else Some ((uint msg_id, topic_msg), c)) }) }) }) }
      | _ \<Rightarrow> Some ((NULL_VALUE_ERROR, topic_msg), c))"

text \<open>
  One look of \<open>wrapper_mqtt_subscribe_sync\<close> at the list of pending subscriptions: only its first
  node is looked at.  The result is a value to return, or the new \<open>ret\<close> and \<open>subed\<close>.
\<close>

definition sync_scan ::
  "int \<Rightarrow> bool \<Rightarrow> iotx_mc_client_t \<Rightarrow> (int option \<times> int \<times> bool) \<times> iotx_mc_client_t" where
  "sync_scan ret subed c =
     (case list_sub_sync_ack c of
        [] \<Rightarrow> ((None, ret, subed), c)
      | node # rest \<Rightarrow>
          if sync_packet_id node = ret
          then if ack_type node = IOTX_MQTT_EVENT_SUBCRIBE_SUCCESS
               then ((Some ret, ret, subed), c\<lparr>list_sub_sync_ack := rest\<rparr>)
               else if ack_type node = IOTX_MQTT_EVENT_SUBCRIBE_NACK
                 \<or> ack_type node = IOTX_MQTT_EVENT_SUBCRIBE_TIMEOUT
               then ((None, -1, False), c\<lparr>list_sub_sync_ack := rest\<rparr>)
               else ((None, ret, subed), c)
          else ((None, ret, subed), c))"

text \<open>\<open>Inl\<close> is a return from inside the loop, \<open>Inr\<close> the value of \<open>ret\<close> behind it.\<close>

partial_function (option) subscribe_sync_loop ::
  "'e mqtt_environment_scheme \<Rightarrow> cstring option \<Rightarrow> int \<Rightarrow> nat option \<Rightarrow> nat \<Rightarrow> iotx_time_t \<Rightarrow> int \<Rightarrow> bool \<Rightarrow>
     iotx_mc_client_t \<Rightarrow> ((int + int) \<times> iotx_mc_client_t) option" where
  "subscribe_sync_loop E tf qos f ctx timer ret subed c =
     do {
       (leave, ret, c) \<leftarrow>
         (if ret < 0
          then do {
            (ret, c) \<leftarrow> wrapper_mqtt_subscribe E tf qos f ctx c;
            Some (in_yield_cb c \<noteq> 0 \<or> qos = 3, ret, c) }
          else Some (False, ret, c));
       (if leave then Some (Inl ret, c)
        else do {
          (subed, c) \<leftarrow>
            (if \<not> subed \<and> 0 \<le> ret
             then case HAL_Malloc E 1 c of (allocated, c) \<Rightarrow>
               if \<not> allocated then Some (subed, c)
               else do {
                 c \<leftarrow> HAL_MutexLock LockGeneric c;
                 c \<leftarrow> HAL_MutexUnlock LockGeneric (c\<lparr>list_sub_sync_ack := list_sub_sync_ack c @
                   [\<lparr>sync_packet_id = ret, ack_type = IOTX_MQTT_EVENT_UNDEF\<rparr>]\<rparr>);
                 Some (True, c) }
             else Some (subed, c));
          (_, c) \<leftarrow> wrapper_mqtt_yield E 100 c;
          c \<leftarrow> HAL_MutexLock LockGeneric c;
          (case sync_scan ret subed c of ((done, ret, subed), c) \<Rightarrow>
             do {
               c \<leftarrow> HAL_MutexUnlock LockGeneric c;
               (case done of
                  Some r \<Rightarrow> Some (Inl r, c)
                | None \<Rightarrow>
                    case utils_time_is_expired E timer c of (expired, c) \<Rightarrow>
                      if expired then Some (Inr ret, c)
                      else subscribe_sync_loop E tf qos f ctx timer ret subed c) }) }) }"

definition wrapper_mqtt_subscribe_sync ::
  "'e mqtt_environment_scheme \<Rightarrow> cstring option \<Rightarrow> int \<Rightarrow> nat option \<Rightarrow> nat \<Rightarrow> int \<Rightarrow> iotx_mc_client_t \<Rightarrow>
     (int \<times> iotx_mc_client_t) option" where
  "wrapper_mqtt_subscribe_sync E tf qos topic_handle_func ctx timeout_ms c =
     (let qos = (if 2 < qos then 0 else qos) in
      case utils_time_countdown_ms E (word_of_int timeout_ms) c of (timer, c) \<Rightarrow>
      do {
        (r, c) \<leftarrow> subscribe_sync_loop E tf qos topic_handle_func ctx timer (-1) False c;
        (case r of
           Inl ret \<Rightarrow> Some (ret, c)
         | Inr ret \<Rightarrow> do {
             c \<leftarrow> HAL_MutexLock LockGeneric c;
             c \<leftarrow> HAL_MutexUnlock LockGeneric (c\<lparr>list_sub_sync_ack :=
               filter (\<lambda>node. sync_packet_id node \<noteq> ret) (list_sub_sync_ack c)\<rparr>);
             Some (-1, c) }) })"

end
