(* ===== verification/MqttInvariant.thy ===== *)
theory MqttInvariant
  imports MqttCycle
begin

text \<open>
  The invariant of the client's state and its preservation by every operation, together with the
  lock discipline: an operation that returns holds exactly the mutexes it was called with.  The
  event handlers of the application are assumed to behave in the same way
  (\<open>handlers_stable\<close>), which they do when they only use the functions of the kit.
\<close>

subsection \<open>The invariant\<close>

definition pub_node_ok :: "iotx_mc_pub_info_t \<Rightarrow> bool" where
  "pub_node_ok n = (uint (node_len n) = int (length (node_buf n)))"

definition buf_ok :: "byte list option \<Rightarrow> u32 \<Rightarrow> bool" where
  "buf_ok buf sz = (case buf of None \<Rightarrow> True | Some b \<Rightarrow> length b = unat sz)"

lemma buf_ok_simps [simp]: "buf_ok None sz" "buf_ok (Some b) sz = (length b = unat sz)"
  by (simp_all add: buf_ok_def)

lemma buf_ok_cong: "map_option length b = map_option length b' \<Longrightarrow> buf_ok b sz = buf_ok b' sz"
  by (auto simp: buf_ok_def split: option.splits)

text \<open>The reconnect intervals: doubling from the minimum, one step beyond the maximum, the maximum.\<close>

definition backoff_steps :: "u32 set" where
  "backoff_steps = {1000, 2000, 4000, 8000, 16000, 32000, 64000, 60000}"

definition mc_inv :: "iotx_mc_client_t \<Rightarrow> bool" where
  "mc_inv c \<longleftrightarrow>
     packet_id c \<le> IOTX_MC_PACKET_ID_MAX \<and>
     500 \<le> request_timeout_ms c \<and> request_timeout_ms c \<le> 5000 \<and>
     30 \<le> keepAliveInterval (connect_data c) \<and> keepAliveInterval (connect_data c) \<le> 180 \<and>
     reconnect_time_interval_ms (reconnect_param c) \<in> backoff_steps \<and>
     length (list_pub_wait_ack c) \<le> IOTX_MC_REPUB_NUM_MAX \<and>
     list_all pub_node_ok (list_pub_wait_ack c) \<and>
     buf_ok (buf_send c) (buf_size_send c) \<and> buf_ok (buf_read c) (buf_size_read c)"

definition stable :: "iotx_mc_client_t \<Rightarrow> iotx_mc_client_t \<Rightarrow> bool" where
  "stable c c' \<longleftrightarrow> held c' = held c \<and> (mc_inv c \<longrightarrow> mc_inv c')"

lemma stable_refl [simp]: "stable c c" by (simp add: stable_def)
lemma stable_trans: "stable a b \<Longrightarrow> stable b c \<Longrightarrow> stable a c" by (simp add: stable_def)

lemma mc_inv_frame [simp]:
  "mc_inv (c\<lparr>n_uptime := x1\<rparr>) = mc_inv c"
  "mc_inv (c\<lparr>n_malloc := x2\<rparr>) = mc_inv c"
  "mc_inv (c\<lparr>n_mutex := x3\<rparr>) = mc_inv c"
  "mc_inv (c\<lparr>n_read := x4\<rparr>) = mc_inv c"
  "mc_inv (c\<lparr>n_write := x5\<rparr>) = mc_inv c"
  "mc_inv (c\<lparr>n_connect := x6\<rparr>) = mc_inv c"
  "mc_inv (c\<lparr>held := x7\<rparr>) = mc_inv c"
  "mc_inv (c\<lparr>effects := x8\<rparr>) = mc_inv c"
  "mc_inv (c\<lparr>locks := x9\<rparr>) = mc_inv c"
  "mc_inv (c\<lparr>cycle_timeout_ms := x10\<rparr>) = mc_inv c"
  "mc_inv (c\<lparr>keepalive_probes := x11\<rparr>) = mc_inv c"
  "mc_inv (c\<lparr>list_sub_handle := x12\<rparr>) = mc_inv c"
  "mc_inv (c\<lparr>ipstack := x13\<rparr>) = mc_inv c"
  "mc_inv (c\<lparr>next_ping_time := x14\<rparr>) = mc_inv c"
  "mc_inv (c\<lparr>ping_mark := x15\<rparr>) = mc_inv c"
  "mc_inv (c\<lparr>client_state := x16\<rparr>) = mc_inv c"
  "mc_inv (c\<lparr>list_sub_sync_ack := x17\<rparr>) = mc_inv c"
  "mc_inv (c\<lparr>in_yield_cb := x18\<rparr>) = mc_inv c"
  by (simp_all add: mc_inv_def)

named_theorems stab

lemma hal_stable [stab]:
  "HAL_UptimeMs E c = (t, c') \<Longrightarrow> stable c c'"
  "HAL_Malloc E n c = (b, c') \<Longrightarrow> stable c c'"
  "net_read E len tm c = (r, c') \<Longrightarrow> stable c c'"
  "net_write E d tm c = (rc, c') \<Longrightarrow> stable c c'"
  "net_connect E c = (rc, c') \<Longrightarrow> stable c c'"
  by (auto simp: hal_defs stable_def Let_def split: prod.splits)

lemma net_disconnect_stable [simp]: "stable c (net_disconnect c')  \<longleftrightarrow> stable c c'" 
  "stable c (HAL_SleepMs ms c') \<longleftrightarrow> stable c c'"
  by (simp_all add: stable_def hal_defs)

lemma net_disconnect_inv [simp]:
  "held (net_disconnect c) = held c" "held (HAL_SleepMs ms c) = held c"
  "mc_inv (net_disconnect c1) = mc_inv c1" "mc_inv (HAL_SleepMs ms c1) = mc_inv c1"
  by (simp_all add: hal_defs)

lemma timer_stable [stab]:
  "iotx_time_start E c = (t, c') \<Longrightarrow> stable c c'"
  "utils_time_spend E tm c = (u, c') \<Longrightarrow> stable c c'"
  "utils_time_is_expired E tm c = (b, c') \<Longrightarrow> stable c c'"
  "iotx_time_left E tm c = (u, c') \<Longrightarrow> stable c c'"
  "time_left_or_1 E tm c = (u, c') \<Longrightarrow> stable c c'"
  "utils_time_countdown_ms E ms c = (t, c') \<Longrightarrow> stable c c'"
  by (auto simp: timer_defs time_left_or_1_def HAL_UptimeMs_def stable_def split: prod.splits if_splits)


lemma wr_block_cases:
  assumes "wr_block buf off bs = Some b'"
  shows "case buf of None \<Rightarrow> b' = None \<and> bs = []
    | Some b \<Rightarrow> off + length bs \<le> length b \<and> b' = Some (take off b @ bs @ drop (off + length bs) b)"
  using assms by (auto simp: wr_block_def split: option.splits if_splits)

lemma wr_block_length: "wr_block buf off bs = Some b' \<Longrightarrow> map_option length b' = map_option length buf"
  by (drule wr_block_cases) (auto split: option.splits)

lemma mc_inv_buffers [simp]:
  "map_option length b = map_option length (buf_send c) \<Longrightarrow> mc_inv (c\<lparr>buf_send := b\<rparr>) = mc_inv c"
  "map_option length b = map_option length (buf_read c) \<Longrightarrow> mc_inv (c\<lparr>buf_read := b\<rparr>) = mc_inv c"
  "mc_inv c \<Longrightarrow> mc_inv (c\<lparr>buf_send := None, buf_size_send := x\<rparr>)"
  "mc_inv c \<Longrightarrow> mc_inv (c\<lparr>buf_read := None, buf_size_read := x'\<rparr>)"
     apply (simp add: mc_inv_def buf_ok_cong [of b "buf_send c"])
    apply (simp add: mc_inv_def buf_ok_cong [of b "buf_read c"])
  by (simp_all add: mc_inv_def)

lemma stable_frame [simp]:
  "held c' = held c \<Longrightarrow> (mc_inv c \<Longrightarrow> mc_inv c') \<Longrightarrow> stable c c'"
  by (simp add: stable_def)

lemma reset_stable [simp]:
  "held (snd (reset_send_buffer c)) = held c" "mc_inv c \<Longrightarrow> mc_inv (snd (reset_send_buffer c))"
  "held (snd (reset_recv_buffer c)) = held c" "mc_inv c \<Longrightarrow> mc_inv (snd (reset_recv_buffer c))"
  by (auto simp: reset_send_buffer_def reset_recv_buffer_def)

lemma mc_set_stable [stab]: "iotx_mc_set_client_state st c = Some c' \<Longrightarrow> stable c c'"
  by (auto simp: iotx_mc_set_client_state_def hal_defs stable_def bind_eq_Some_conv split: if_splits)

lemma mc_get_stable [stab]: "iotx_mc_get_client_state c = Some (st, c') \<Longrightarrow> stable c c'"
  by (auto simp: iotx_mc_get_client_state_def hal_defs stable_def bind_eq_Some_conv split: if_splits)

lemma alloc_send_stable [stab]: "alloc_send_buffer E len c = (rc, c') \<Longrightarrow> stable c c'"
  by (auto simp: alloc_send_buffer_def HAL_Malloc_def stable_def Let_def mc_inv_def split: if_splits option.splits)

lemma ok_case_pair: "ok P (f a b) \<Longrightarrow> ok P (case (a, b) of (x, y) \<Rightarrow> f x y)"
  by simp

lemma ok_case_triple: "ok P (f a b c) \<Longrightarrow> ok P (case (a, b, c) of (x, y, z) \<Rightarrow> f x y z)"
  by simp

lemma pred_case_pair: "P a b \<Longrightarrow> case (a, b) of (x, y) \<Rightarrow> P x y"
  by simp

lemma ok_lock_eq [vcg]:
  "(\<And>c'. m \<notin> held c \<Longrightarrow> c' = c\<lparr>held := insert m (held c)\<rparr> \<Longrightarrow> P c') \<Longrightarrow> ok P (HAL_MutexLock m c)"
  by (simp add: HAL_MutexLock_def)

lemma ok_unlock_eq [vcg]:
  "(\<And>c'. m \<in> held c \<Longrightarrow> c' = c\<lparr>held := held c - {m}\<rparr> \<Longrightarrow> P c') \<Longrightarrow> ok P (HAL_MutexUnlock m c)"
  by (simp add: HAL_MutexUnlock_def)

lemma unlock_return_ok [vcg]:
  "(\<And>c'. m \<in> held c \<Longrightarrow> c' = c\<lparr>held := held c - {m}\<rparr> \<Longrightarrow> P (r, c')) \<Longrightarrow> ok P (unlock_return m r c)"
  by (simp add: unlock_return_def HAL_MutexUnlock_def)

lemma set_state_ok [vcg]:
  "(\<And>c'. stable c c' \<Longrightarrow> P c') \<Longrightarrow> ok P (iotx_mc_set_client_state st c)"
  by (auto simp: ok_def dest: mc_set_stable)

lemma get_state_ok [vcg]:
  "(\<And>st c'. stable c c' \<Longrightarrow> P (st, c')) \<Longrightarrow> ok P (iotx_mc_get_client_state c)"
  by (auto simp: ok_def dest: mc_get_stable)

lemma alloc_recv_ok [vcg]:
  assumes "\<And>rc c'. stable c c' \<Longrightarrow> P (rc, c')"
  shows "ok P (alloc_recv_buffer E len c)"
proof -
  have "stable c c'" if "alloc_recv_buffer E len c = Some (rc, c')" for rc c'
    using that
    by (auto simp: alloc_recv_buffer_def HAL_Malloc_def stable_def Let_def rd_block_def bind_eq_Some_conv
        min_def mc_inv_def word_le_nat_alt word_less_nat_alt split: if_split_asm option.split_asm)
  then show ?thesis using assms by (auto simp: ok_def)
qed

lemma serialize_ok [vcg]:
  "(\<And>len c'. stable c c' \<Longrightarrow> P (len, c')) \<Longrightarrow> ok P (serialize_to_send ser x c)"
  by (auto simp: ok_def serialize_to_send_def bind_eq_Some_conv stable_def dest!: wr_block_length)

lemma ok_wr_block [vcg]:
  "(\<And>b'. map_option length b' = map_option length buf \<Longrightarrow> P b') \<Longrightarrow> ok P (wr_block buf off bs)"
  by (auto simp: ok_def dest: wr_block_length)

lemma ok_rd8 [vcg]: "(\<And>b. P b) \<Longrightarrow> ok P (rd8 buf i)"
  by (simp add: ok_def)

lemma ok_rd_block [vcg]:
  "(\<And>d. length d = n \<Longrightarrow> P d) \<Longrightarrow> ok P (rd_block buf off n)"
  by (auto simp: ok_def rd_block_def)

lemma ok_case_bind: "ok (\<lambda>x. ok P (f x)) m \<Longrightarrow> ok P (case m of None \<Rightarrow> None | Some x \<Rightarrow> f x)"
  by (cases m) auto

lemma ok_case_prod_app [vcg]:
  "(\<And>a b. x = (a, b) \<Longrightarrow> ok P (f a b y)) \<Longrightarrow> ok P ((case x of (a, b) \<Rightarrow> f a b) y)"
  by (cases x) simp

lemma ok_case_sum [vcg]:
  "(\<And>a. x = Inl a \<Longrightarrow> ok P (f a)) \<Longrightarrow> (\<And>b. x = Inr b \<Longrightarrow> ok P (g b)) \<Longrightarrow>
    ok P (case x of Inl a \<Rightarrow> f a | Inr b \<Rightarrow> g b)"
  by (cases x) auto

lemmas vcg_pairs = ok_case_pair ok_case_triple pred_case_pair ok_case_bind

lemma stable_pair: "ok (\<lambda>(r, c'). stable c c') m \<Longrightarrow> (\<And>r c'. stable c c' \<Longrightarrow> P (r, c')) \<Longrightarrow> ok P m"
  by (auto simp: ok_def)

lemma stable_single: "ok (stable c) m \<Longrightarrow> (\<And>c'. stable c c' \<Longrightarrow> P c') \<Longrightarrow> ok P m"
  by (auto simp: ok_def)

lemma send_loop_stable: "send_loop E buf len timer sent c = Some r \<Longrightarrow> stable c (snd r)"
proof (induct rule: send_loop.raw_induct [rotated, consumes 1, case_names step])
  case (step send_loop E buf len timer sent c r)
  have [vcg]: "(\<And>r. stable c (snd r) \<Longrightarrow> P r) \<Longrightarrow> ok P (send_loop E buf len timer sent c)" for P E buf len timer sent c
    using step(1) by (auto simp: ok_def)
  have "ok (\<lambda>r. stable c (snd r)) (Some r)"
    unfolding step(2) [symmetric] 
    by (intro vcg_pairs vcg; ((drule stab)+)?; simp add: stable_def)
  then show ?case by simp
qed

lemma send_packet_stable: "ok (\<lambda>(r, c'). stable c c') (iotx_mc_send_packet E buf len timer c)"
  by (auto simp: iotx_mc_send_packet_def ok_def bind_eq_Some_conv dest!: send_loop_stable split: option.split_asm)
lemmas send_packet_ok [vcg] = stable_pair [OF send_packet_stable]

lemma MQTTConnect_stable: "ok (\<lambda>(r, c'). stable c c') (MQTTConnect E c)"
  unfolding MQTTConnect_def
  by (intro vcg_pairs vcg; ((drule stab)+)?; simp add: stable_def)
lemmas MQTTConnect_ok [vcg] = stable_pair [OF MQTTConnect_stable]

definition handlers_stable :: "'e mqtt_environment_scheme \<Rightarrow> bool" where
  "handlers_stable E = (\<forall>f ctx m c c'. env_handler E f ctx m c = Some c' \<longrightarrow> stable c c')"

lemma net_read_ok [vcg]:
  "(\<And>rc bs c'. stable c c' \<Longrightarrow> ok P (f rc bs c')) \<Longrightarrow> ok P (case net_read E len tm c of ((rc, bs), c) \<Rightarrow> f rc bs c)"
  by (auto simp: net_read_def stable_def split: prod.split)

lemma call_handler_stable:
  assumes "handlers_stable E"
  shows "ok (\<lambda>(r, c'). stable c c') (call_handler E hdl m c)"
proof -
  have "stable c (c'\<lparr>in_yield_cb := 0\<rparr>)" if "env_handler E f x m (c\<lparr>in_yield_cb := 1\<rparr>) = Some c'" for f x c'
    using assms that unfolding handlers_stable_def by (fastforce simp: stable_def)
  then show ?thesis by (auto simp: ok_def call_handler_def bind_eq_Some_conv split: option.split_asm)
qed
lemmas call_handler_ok [vcg] = stable_pair [OF call_handler_stable]

lemma plain_callback_stable:
  assumes "handlers_stable E"
  shows "ok (stable c) (plain_callback E ev c)"
  using assms unfolding handlers_stable_def by (auto simp: ok_def plain_callback_def split: option.split_asm)
lemmas plain_callback_ok [vcg] = stable_single [OF plain_callback_stable]

subsection \<open>Receiving\<close>

lemma read_into_stable: "ok (\<lambda>(r, c'). stable c c') (read_into E off len tm c)"
  unfolding read_into_def
  by (intro vcg_pairs vcg; ((drule stab)+)?; simp add: stable_def)
lemmas read_into_ok [vcg] = stable_pair [OF read_into_stable]

lemma decode_packet_stable: "ok (\<lambda>(r, v, c'). stable c c') (decode_packet_loop E tm len mult v c)"
proof (induction E tm len mult v c rule: decode_packet_loop.induct)
  case (1 E tm len mult v c)
  show ?case
  proof (cases "4 < Suc len")
    case False
    obtain rc bs c' where r: "net_read E 1 (if tm = 0 then 1 else tm) c = ((rc, bs), c')"
      by (metis prod.exhaust)
    then have st: "stable c c'" by (auto simp: net_read_def stable_def split: prod.splits)
    show ?thesis
    proof (cases "rc = 1 \<and> bs \<noteq> [] \<and> hd bs AND 128 \<noteq> 0")
      case True
      then obtain i bs' where i: "bs = i # bs'" "i AND 128 \<noteq> 0" by (cases bs) auto
      then have "ok (\<lambda>(r, v, ca). stable c' ca)
          (decode_packet_loop E tm (Suc len) (mult * 128) (v + uint (i AND 127) * mult) c')"
        using 1 [OF False r [symmetric] refl _ _ i(1) refl i(2)] True by simp
      then show ?thesis using False r True i st
        by (subst decode_packet_loop.simps) (auto simp: ok_def intro: stable_trans)
    next
      case False
      then show ?thesis using r st
        by (subst decode_packet_loop.simps) (auto simp: Let_def split: list.split)
    qed
  qed (subst decode_packet_loop.simps, simp)
qed

lemma decode_ok [vcg]: "(\<And>rc v c'. stable c c' \<Longrightarrow> P (rc, v, c')) \<Longrightarrow> ok P (iotx_mc_decode_packet E tm c)"
  using decode_packet_stable [of c E tm 0 1 0] by (auto simp: iotx_mc_decode_packet_def ok_def)

lemma read_overflow_stable:
  assumes [simp]: "handlers_stable E"
  shows "ok (\<lambda>(r, c'). held c' = held c - {LockReadBuf} \<and> (mc_inv c \<longrightarrow> mc_inv c'))
    (read_packet_overflow E timer pt len rem c)"
  unfolding read_packet_overflow_def
  by (intro vcg_pairs vcg; ((drule stab)+)?; simp add: stable_def)

lemma read_overflow_ok [vcg]:
  "handlers_stable E \<Longrightarrow> (\<And>r c'. held c' = held c - {LockReadBuf} \<Longrightarrow> (mc_inv c \<longrightarrow> mc_inv c') \<Longrightarrow> P (r, c')) \<Longrightarrow>
    ok P (read_packet_overflow E timer pt len rem c)"
  using read_overflow_stable [of E c timer pt len rem] by (auto simp: ok_def)

lemma read_packet_stable:
  assumes [simp]: "handlers_stable E"
  shows "ok (\<lambda>(r, c'). stable c c') (iotx_mc_read_packet E timer pt c)"
  unfolding iotx_mc_read_packet_def
  by (intro vcg_pairs vcg; ((drule stab)+)?; simp add: stable_def)
lemmas read_packet_ok [vcg] = stable_pair [OF read_packet_stable]

subsection \<open>The session\<close>

lemma ok_deserialize [vcg]:
  "(\<And>r. P r) \<Longrightarrow> ok P (MQTTDeserialize_connack outs buf)"
  "(\<And>r. P1 r) \<Longrightarrow> ok P1 (MQTTDeserialize_ack outs1 buf)"
  "(\<And>r. P2 r) \<Longrightarrow> ok P2 (MQTTDeserialize_suback n outs2 buf)"
  "(\<And>r. P3 r) \<Longrightarrow> ok P3 (MQTTDeserialize_unsuback outs3 buf)"
  "(\<And>r. P4 r) \<Longrightarrow> ok P4 (MQTTDeserialize_publish outs4 buf)"
  by (simp_all add: ok_def)

lemma handle_CONNACK_stable: "ok (\<lambda>(r, c'). stable c c') (iotx_mc_handle_recv_CONNACK c)"
  unfolding iotx_mc_handle_recv_CONNACK_def
  by (intro vcg_pairs vcg; ((drule stab)+)?; simp add: stable_def)
lemmas handle_CONNACK_ok [vcg] = stable_pair [OF handle_CONNACK_stable]

lemma locked_reset_stable: "ok (stable c) (locked_reset_recv_buffer c)"
  unfolding locked_reset_recv_buffer_def
  by (intro vcg_pairs vcg; ((drule stab)+)?; simp add: stable_def)
lemmas locked_reset_ok [vcg] = stable_single [OF locked_reset_stable]

lemma wait_connack_loop_stable:
  assumes [simp]: "handlers_stable E"
  shows "ok (\<lambda>(r, c'). stable c c') (wait_connack_loop E timer n pt c)"
proof (induction "11 - n" arbitrary: n pt c rule: less_induct)
  case less
  have [vcg]: "\<not> 10 < Suc n \<Longrightarrow> (\<And>r c'. stable c1 c' \<Longrightarrow> P (r, c')) \<Longrightarrow> ok P (wait_connack_loop E timer (Suc n) pt1 c1)" for P pt1 c1
    using less [of "Suc n" c1 pt1] by (auto intro: stable_pair [of c1])
  show ?case
    apply (subst wait_connack_loop.simps)
    by (intro vcg_pairs vcg; ((drule stab)+)?; simp add: stable_def)
qed

lemma wait_CONNACK_stable:
  assumes [simp]: "handlers_stable E"
  shows "ok (\<lambda>(r, c'). stable c c') (iotx_mc_wait_CONNACK E c)"
proof -
  note stable_pair [OF wait_connack_loop_stable, vcg]
  show ?thesis unfolding iotx_mc_wait_CONNACK_def
    by (intro vcg_pairs vcg; ((drule stab)+)?; simp add: stable_def)
qed
lemmas wait_CONNACK_ok [vcg] = stable_pair [OF wait_CONNACK_stable]

lemma mqtt_connect_loop_stable:
  assumes [simp]: "handlers_stable E"
  shows "ok (\<lambda>(r, c'). stable c c') (mqtt_connect_loop E n c)"
proof (induction "9 - n" arbitrary: n c rule: less_induct)
  case less
  have [vcg]: "Suc n < 9 \<Longrightarrow> (\<And>r c'. stable c1 c' \<Longrightarrow> P (r, c')) \<Longrightarrow> ok P (mqtt_connect_loop E (Suc n) c1)" for P c1
    using less [of "Suc n" c1] by (auto intro: stable_pair [of c1])
  show ?case
    apply (subst mqtt_connect_loop.simps)
    by (intro vcg_pairs vcg; ((drule stab)+)?; simp add: stable_def)
qed

lemma mqtt_connect_stable:
  assumes [simp]: "handlers_stable E"
  shows "ok (\<lambda>(r, c'). stable c c') (mqtt_connect E c)"
proof -
  note stable_pair [OF mqtt_connect_loop_stable, vcg]
  show ?thesis unfolding mqtt_connect_def
    by (intro vcg_pairs vcg; ((drule stab)+)?; simp add: stable_def split: sum.split)
qed
lemmas mqtt_connect_ok [vcg] = stable_pair [OF mqtt_connect_stable]

lemma tcp_connect_loop_stable: "stable c (snd (tcp_connect_loop E m n c))"
proof (induction E m n c rule: tcp_connect_loop.induct)
  case (1 E m n c)
  obtain rc c' where r: "net_connect E c = (rc, c')" by (cases "net_connect E c")
  then have "stable c c'" by (rule hal_stable)
  then show ?case using 1 [OF r [symmetric]] r
    by (subst tcp_connect_loop.simps) (auto simp: Let_def stable_def)
qed

lemma wrapper_connect_stable:
  assumes [simp]: "handlers_stable E"
  shows "ok (\<lambda>(r, c'). stable c c') (wrapper_mqtt_connect E c)"
  using tcp_connect_loop_stable [of c E 3 1] unfolding wrapper_mqtt_connect_def
  by (intro vcg_pairs vcg; ((drule stab)+)?; simp add: stable_def)
lemmas wrapper_connect_ok [vcg] = stable_pair [OF wrapper_connect_stable]

lemma check_state_stable:
  shows "ok (\<lambda>(r, c'). stable c c') (wrapper_mqtt_check_state c)"
  unfolding wrapper_mqtt_check_state_def
  by (intro vcg_pairs vcg; ((drule stab)+)?; simp add: stable_def)
lemmas check_state_ok [vcg] = stable_pair [OF check_state_stable]

lemma MQTTKeepalive_stable:
  shows "ok (\<lambda>(r, c'). stable c c') (MQTTKeepalive E c)"
  unfolding MQTTKeepalive_def
  by (intro vcg_pairs vcg; ((drule stab)+)?; simp add: stable_def)
lemmas MQTTKeepalive_ok [vcg] = stable_pair [OF MQTTKeepalive_stable]

lemma keepalive_sub_stable:
  shows "ok (\<lambda>(r, c'). stable c c') (iotx_mc_keepalive_sub E c)"
  unfolding iotx_mc_keepalive_sub_def
  by (intro vcg_pairs vcg; ((drule stab)+)?; simp add: stable_def)
lemmas keepalive_sub_ok [vcg] = stable_pair [OF keepalive_sub_stable]

lemma attempt_reconnect_stable:
  assumes [simp]: "handlers_stable E"
  shows "ok (\<lambda>(r, c'). stable c c') (iotx_mc_attempt_reconnect E c)"
  unfolding iotx_mc_attempt_reconnect_def
  by (intro vcg_pairs vcg; ((drule stab)+)?; simp add: stable_def)
lemmas attempt_reconnect_ok [vcg] = stable_pair [OF attempt_reconnect_stable]

lemma next_interval_steps: "i \<in> backoff_steps \<Longrightarrow> next_interval i \<in> backoff_steps"
  by (auto simp: backoff_steps_def next_interval_def)

lemma mc_inv_reconnect [simp]:
  "mc_inv c \<Longrightarrow> mc_inv (c\<lparr>reconnect_param := (reconnect_param c)\<lparr>reconnect_next_time := t\<rparr>\<rparr>)"
  "mc_inv c \<Longrightarrow> mc_inv (c\<lparr>reconnect_param := (reconnect_param c)\<lparr>reconnect_time_interval_ms := 1000\<rparr>\<rparr>)"
  "mc_inv c \<Longrightarrow> mc_inv (c\<lparr>reconnect_param := (reconnect_param c)\<lparr>reconnect_time_interval_ms :=
     next_interval (reconnect_time_interval_ms (reconnect_param c))\<rparr>\<rparr>)"
  by (auto simp: mc_inv_def next_interval_steps) (simp add: backoff_steps_def)

lemma handle_reconnect_stable:
  assumes [simp]: "handlers_stable E"
  shows "ok (\<lambda>(r, c'). stable c c') (iotx_mc_handle_reconnect E c)"
  unfolding iotx_mc_handle_reconnect_def
  by (intro vcg_pairs vcg; ((drule stab)+)?; simp add: stable_def)
lemmas handle_reconnect_ok [vcg] = stable_pair [OF handle_reconnect_stable]

lemma reconnect_callback_stable:
  assumes [simp]: "handlers_stable E"
  shows "ok (stable c) (iotx_mc_reconnect_callback E c)"
  unfolding iotx_mc_reconnect_callback_def
  by (intro vcg_pairs vcg; ((drule stab)+)?; simp add: stable_def)
lemmas reconnect_callback_ok [vcg] = stable_single [OF reconnect_callback_stable]

lemma disconnect_callback_stable:
  assumes [simp]: "handlers_stable E"
  shows "ok (stable c) (iotx_mc_disconnect_callback E c)"
  unfolding iotx_mc_disconnect_callback_def
  by (intro vcg_pairs vcg; ((drule stab)+)?; simp add: stable_def)
lemmas disconnect_callback_ok [vcg] = stable_single [OF disconnect_callback_stable]

lemma keepalive_stable:
  assumes [simp]: "handlers_stable E"
  shows "ok (stable c) (iotx_mc_keepalive E c)"
  unfolding iotx_mc_keepalive_def
  by (intro vcg_pairs vcg; ((drule stab)+)?; simp add: stable_def)
lemmas keepalive_ok [vcg] = stable_single [OF keepalive_stable]

lemma MQTTDisconnect_stable:
  shows "ok (\<lambda>(r, c'). stable c c') (MQTTDisconnect E c)"
  unfolding MQTTDisconnect_def
  by (intro vcg_pairs vcg; ((drule stab)+)?; simp add: stable_def)
lemmas MQTTDisconnect_ok [vcg] = stable_pair [OF MQTTDisconnect_stable]

lemma mc_disconnect_stable:
  shows "ok (\<lambda>(r, c'). stable c c') (iotx_mc_disconnect E c)"
  unfolding iotx_mc_disconnect_def
  by (intro vcg_pairs vcg; ((drule stab)+)?; simp add: stable_def)
lemmas mc_disconnect_ok [vcg] = stable_pair [OF mc_disconnect_stable]

subsection \<open>Publishing and subscribing\<close>

definition pend_ok :: "iotx_mc_pub_info_t list \<Rightarrow> bool" where
  "pend_ok ns \<longleftrightarrow> length ns \<le> 20 \<and> list_all pub_node_ok ns"

lemma mc_inv_pend: "mc_inv (c\<lparr>list_pub_wait_ack := ns\<rparr>) \<longleftrightarrow> mc_inv (c\<lparr>list_pub_wait_ack := []\<rparr>) \<and> pend_ok ns"
  "mc_inv c \<longleftrightarrow> mc_inv (c\<lparr>list_pub_wait_ack := []\<rparr>) \<and> pend_ok (list_pub_wait_ack c)"
  by (auto simp: mc_inv_def pend_ok_def)

lemma mc_inv_set_pend [simp]: "mc_inv c \<Longrightarrow> pend_ok ns \<Longrightarrow> mc_inv (c\<lparr>list_pub_wait_ack := ns\<rparr>)"
  by (auto simp: mc_inv_def pend_ok_def)

lemma mc_inv_pend_ok: "mc_inv c \<Longrightarrow> pend_ok (list_pub_wait_ack c)"
  by (auto simp: mc_inv_def pend_ok_def)

lemma pend_ok_simps [simp]:
  "pend_ok []"
  "mc_inv c \<Longrightarrow> pend_ok (butlast (list_pub_wait_ack c))"
  "mc_inv c \<Longrightarrow> pend_ok (map (\<lambda>n. if msg_id n = i then n\<lparr>node_state := s\<rparr> else n) (list_pub_wait_ack c))"
  by (auto simp: pend_ok_def mc_inv_def list_all_iff pub_node_ok_def dest: in_set_butlastD)

lemma mc_inv_packet_id [simp]:
  "mc_inv c \<Longrightarrow> i \<le> 65535 \<Longrightarrow> mc_inv (c\<lparr>packet_id := i\<rparr>)"
  by (simp add: mc_inv_def)

lemma push_stable: "ok (\<lambda>(r, c'). stable c c') (iotx_mc_push_pubInfo_to E len msgId c)"
proof -
  have "pub_node_ok n" if "ptr_block b len = Some (node_buf n)" "0 \<le> len" "len \<le> uint (w :: u32)"
    "node_len n = word_of_int len" for n b w
  proof -
    have "len < 2 ^ 32" using that(3) uint_lt2p [of w] by simp
    then have "uint (node_len n) = len" using that(2,4) by (simp add: uint_word_of_int)
    moreover have "int (length (node_buf n)) = len" using that(1,2)
      by (auto simp: ptr_block_def rd_block_def split: if_splits option.splits dest!: sym [of _ "node_buf n"])
    ultimately show ?thesis by (simp add: pub_node_ok_def)
  qed
  then show ?thesis
    by (auto simp: iotx_mc_push_pubInfo_to_def ok_def bind_eq_Some_conv Let_def stable_def mc_inv_def
        HAL_Malloc_def timer_defs HAL_UptimeMs_def not_le not_less split: if_splits prod.splits)
qed
lemmas push_ok [vcg] = stable_pair [OF push_stable]

lemma mask_stable:
  shows "ok (\<lambda>(r, c'). stable c c') (iotx_mc_mask_pubInfo_from i c)"
  unfolding iotx_mc_mask_pubInfo_from_def
  by (intro vcg_pairs vcg; ((drule stab)+)?; simp add: stable_def)
lemmas mask_ok [vcg] = stable_pair [OF mask_stable]

lemma MQTTRePublish_stable:
  shows "ok (\<lambda>(r, c'). stable c c') (MQTTRePublish E buf len c)"
  unfolding MQTTRePublish_def
  by (intro vcg_pairs vcg; ((drule stab)+)?; simp add: stable_def)
lemmas MQTTRePublish_ok [vcg] = stable_pair [OF MQTTRePublish_stable]

lemma pub_info_loop_stable:
  "ok (\<lambda>c'. held c' = held c \<and> (mc_inv c \<and> pend_ok (passed @ ns) \<longrightarrow> mc_inv c')) (pub_info_loop E passed ns c)"
proof (induction ns arbitrary: passed c)
  case Nil
  then show ?case by simp
next
  case (Cons node rest)
  have [vcg]: "(\<And>c'. held c' = held c1 \<Longrightarrow> (mc_inv c1 \<and> pend_ok (ps @ rest) \<longrightarrow> mc_inv c') \<Longrightarrow> P c') \<Longrightarrow>
      ok P (pub_info_loop E ps rest c1)" for P ps c1
    using Cons.IH [of c1 ps] by (auto simp: ok_def)
  have p: "pend_ok (passed @ node # rest) \<Longrightarrow> pend_ok (passed @ rest)"
    "pend_ok (passed @ node # rest) \<Longrightarrow> pend_ok (passed @ node\<lparr>pub_start_time := t\<rparr> # rest)" for t
    by (auto simp: pend_ok_def pub_node_ok_def)
  show ?case unfolding pub_info_loop.simps
    by (intro vcg_pairs vcg; ((drule stab)+)?; simp add: stable_def p)
qed

lemma PubInfoProc_stable: "ok (\<lambda>(r, c'). stable c c') (MQTTPubInfoProc E c)"
proof -
  have [vcg]: "(\<And>c'. held c' = held c1 \<Longrightarrow> (mc_inv c1 \<longrightarrow> mc_inv c') \<Longrightarrow> P c') \<Longrightarrow>
      ok P (pub_info_loop E [] (list_pub_wait_ack c1) c1)" for P c1
    using pub_info_loop_stable [of c1 "[]" "list_pub_wait_ack c1" E] mc_inv_pend_ok [of c1] by (auto simp: ok_def)
  show ?thesis unfolding MQTTPubInfoProc_def
    by (intro vcg_pairs vcg; ((drule stab)+)?; simp add: stable_def)
qed
lemmas PubInfoProc_ok [vcg] = stable_pair [OF PubInfoProc_stable]
lemma ok_any: "(\<And>x. P x) \<Longrightarrow> ok P m"
  by (simp add: ok_def)

lemmas topic_hits_ok [vcg] = ok_any [of _ "topic_hits t n" for t n]
lemmas remove_hits_ok [vcg] = ok_any [of _ "remove_hits t n" for t n]

lemma MQTTPublish_stable:
  shows "ok (\<lambda>(r, c'). stable c c') (MQTTPublish E tn tm c)"
  unfolding MQTTPublish_def
  by (intro vcg_pairs vcg; ((drule stab)+)?; simp add: stable_def)
lemmas MQTTPublish_ok [vcg] = stable_pair [OF MQTTPublish_stable]

lemma MQTTPuback_stable:
  shows "ok (\<lambda>(r, c'). stable c c') (MQTTPuback E i ty c)"
  unfolding MQTTPuback_def
  by (intro vcg_pairs vcg; ((drule stab)+)?; simp add: stable_def)
lemmas MQTTPuback_ok [vcg] = stable_pair [OF MQTTPuback_stable]

lemma add_handle_stable:
  shows "ok (stable c) (add_handle h c)"
  unfolding add_handle_def
  by (intro vcg_pairs vcg; ((drule stab)+)?; simp add: stable_def)
lemmas add_handle_ok [vcg] = stable_single [OF add_handle_stable]

lemma MQTTSubscribe_stable:
  shows "ok (\<lambda>(r, c'). stable c c') (MQTTSubscribe E tf q i f x c)"
  unfolding MQTTSubscribe_def
  by (intro vcg_pairs vcg; ((drule stab)+)?; simp add: stable_def)
lemmas MQTTSubscribe_ok [vcg] = stable_pair [OF MQTTSubscribe_stable]

lemma MQTTUnsubscribe_stable:
  shows "ok (\<lambda>(r, c'). stable c c') (MQTTUnsubscribe E tf i c)"
  unfolding MQTTUnsubscribe_def
  by (intro vcg_pairs vcg; ((drule stab)+)?; simp add: stable_def)
lemmas MQTTUnsubscribe_ok [vcg] = stable_pair [OF MQTTUnsubscribe_stable]

lemma next_packetid_range: "i \<le> 65535 \<Longrightarrow> (i :: u32) \<noteq> 65535 \<Longrightarrow> i + 1 \<le> 65535"
  by unat_arith

lemma mc_inv_next_id [simp]:
  "mc_inv c \<Longrightarrow> packet_id c \<noteq> 65535 \<Longrightarrow> mc_inv (c\<lparr>packet_id := packet_id c + 1\<rparr>)"
  by (simp add: mc_inv_def next_packetid_range)

lemma next_packetid_stable:
  shows "ok (\<lambda>(r, c'). stable c c') (iotx_mc_get_next_packetid c)"
  unfolding iotx_mc_get_next_packetid_def
  by (intro vcg_pairs vcg; ((drule stab)+)?; simp add: stable_def)
lemmas next_packetid_ok [vcg] = stable_pair [OF next_packetid_stable]


subsection \<open>Received packets\<close>

lemma handle_PUBACK_stable:
  assumes [simp]: "handlers_stable E"
  shows "ok (\<lambda>(r, c'). stable c c') (iotx_mc_handle_recv_PUBACK E c)"
  unfolding iotx_mc_handle_recv_PUBACK_def
  by (intro vcg_pairs vcg ok_any; ((drule stab)+)?; simp add: stable_def)
lemmas handle_PUBACK_ok [vcg] = stable_pair [OF handle_PUBACK_stable]

lemma event_handle_sub_stable:
  shows "ok (stable c) (iotx_mqtt_event_handle_sub ev i c)"
  unfolding iotx_mqtt_event_handle_sub_def
  by (intro vcg_pairs vcg ok_any; ((drule stab)+)?; simp add: stable_def)
lemmas event_handle_sub_ok [vcg] = stable_single [OF event_handle_sub_stable]

lemma handle_SUBACK_stable:
  assumes [simp]: "handlers_stable E"
  shows "ok (\<lambda>(r, c'). stable c c') (iotx_mc_handle_recv_SUBACK E c)"
  unfolding iotx_mc_handle_recv_SUBACK_def
  by (intro vcg_pairs vcg ok_any; ((drule stab)+)?; simp add: stable_def)
lemmas handle_SUBACK_ok [vcg] = stable_pair [OF handle_SUBACK_stable]

lemma deliver_loop_stable:
  "deliver_loop E t m cur fl c = Some r \<Longrightarrow> handlers_stable E \<Longrightarrow> stable c (snd r)"
proof (induct rule: deliver_loop.raw_induct [rotated, consumes 1, case_names step])
  case (step deliver_loop E t m cur fl c r)
  note [simp] = step(3)
  have [vcg]: "(\<And>r. stable c (snd r) \<Longrightarrow> P r) \<Longrightarrow> ok P (deliver_loop E t m cur fl c)" for P t m cur fl c
    using step(1,3) by (auto simp: ok_def)
  have "ok (\<lambda>r. stable c (snd r)) (Some r)"
    unfolding step(2) [symmetric]
    by (intro vcg_pairs vcg ok_any; ((drule stab)+)?; simp add: stable_def insert_absorb)
  then show ?case by simp
qed

lemma deliver_loop_ok [vcg]:
  "handlers_stable E \<Longrightarrow> (\<And>r c'. stable c c' \<Longrightarrow> P (r, c')) \<Longrightarrow> ok P (deliver_loop E t m cur fl c)"
  by (auto simp: ok_def dest: deliver_loop_stable)

lemma deliver_message_stable:
  assumes [simp]: "handlers_stable E"
  shows "ok (stable c) (iotx_mc_deliver_message E tn m c)"
  unfolding iotx_mc_deliver_message_def
  by (intro vcg_pairs vcg ok_any; ((drule stab)+)?; simp add: stable_def)
lemmas deliver_message_ok [vcg] = stable_single [OF deliver_message_stable]

lemma handle_PUBLISH_stable:
  assumes [simp]: "handlers_stable E"
  shows "ok (\<lambda>(r, c'). stable c c') (iotx_mc_handle_recv_PUBLISH E c)"
  unfolding iotx_mc_handle_recv_PUBLISH_def
  by (intro vcg_pairs vcg ok_any; ((drule stab)+)?; simp add: stable_def)
lemmas handle_PUBLISH_ok [vcg] = stable_pair [OF handle_PUBLISH_stable]

lemma handle_UNSUBACK_stable:
  assumes [simp]: "handlers_stable E"
  shows "ok (\<lambda>(r, c'). stable c c') (iotx_mc_handle_recv_UNSUBACK E c)"
  unfolding iotx_mc_handle_recv_UNSUBACK_def
  by (intro vcg_pairs vcg ok_any; ((drule stab)+)?; simp add: stable_def)
lemmas handle_UNSUBACK_ok [vcg] = stable_pair [OF handle_UNSUBACK_stable]

subsection \<open>The cycle\<close>

lemma cycle_dispatch_stable:
  assumes [simp]: "handlers_stable E"
  shows "ok (\<lambda>(r, c'). stable c c') (cycle_dispatch E ty c)"
  unfolding cycle_dispatch_def
  by (intro vcg_pairs vcg; ((drule stab)+)?; simp add: stable_def)
lemmas cycle_dispatch_ok [vcg] = stable_pair [OF cycle_dispatch_stable]

lemma mc_cycle_stable:
  assumes [simp]: "handlers_stable E"
  shows "ok (\<lambda>(r, c'). stable c c') (iotx_mc_cycle E timer c)"
  unfolding iotx_mc_cycle_def
  by (intro vcg_pairs vcg ok_any; ((drule stab)+)?; simp add: stable_def)
lemmas mc_cycle_ok [vcg] = stable_pair [OF mc_cycle_stable]

lemma cycle_loop_stable:
  "cycle_loop E timer c = Some c' \<Longrightarrow> handlers_stable E \<Longrightarrow> stable c c'"
proof (induct rule: cycle_loop.raw_induct [rotated, consumes 1, case_names step])
  case (step cycle_loop E timer c c')
  note [simp] = step(3)
  have [vcg]: "(\<And>c'. stable c c' \<Longrightarrow> P c') \<Longrightarrow> ok P (cycle_loop E timer c)" for P timer c
    using step(1,3) by (auto simp: ok_def)
  have "ok (stable c) (Some c')"
    unfolding step(2) [symmetric]
    by (intro vcg_pairs vcg; ((drule stab)+)?; simp add: stable_def)
  then show ?case by simp
qed

lemma cycle_loop_ok [vcg]:
  "handlers_stable E \<Longrightarrow> (\<And>c'. stable c c' \<Longrightarrow> P c') \<Longrightarrow> ok P (cycle_loop E timer c)"
  by (auto simp: ok_def dest: cycle_loop_stable)

lemma mqtt_cycle_stable:
  assumes [simp]: "handlers_stable E"
  shows "ok (stable c) (mqtt_cycle E c)"
  unfolding mqtt_cycle_def
  by (intro vcg_pairs vcg; ((drule stab)+)?; simp add: stable_def)
lemmas mqtt_cycle_ok [vcg] = stable_single [OF mqtt_cycle_stable]

lemma yield_stable:
  assumes [simp]: "handlers_stable E"
  shows "ok (\<lambda>(r, c'). stable c c') (wrapper_mqtt_yield E ms c)"
  unfolding wrapper_mqtt_yield_def
  by (intro vcg_pairs vcg; ((drule stab)+)?; simp add: stable_def)
lemmas yield_ok [vcg] = stable_pair [OF yield_stable]

subsection \<open>The requests of the application\<close>

lemma mc_inv_no_buffers [simp]: "mc_inv c \<Longrightarrow> mc_inv (c\<lparr>buf_send := None, buf_read := None\<rparr>)"
  by (simp add: mc_inv_def)

lemma set_disconnected_stable:
  shows "ok (stable c) (set_disconnected_if b c)"
  unfolding set_disconnected_if_def
  by (intro vcg_pairs vcg; ((drule stab)+)?; simp add: stable_def)
lemmas set_disconnected_ok [vcg] = stable_single [OF set_disconnected_stable]

lemma subscribe_stable:
  shows "ok (\<lambda>(r, c'). stable c c') (wrapper_mqtt_subscribe E tf q f x c)"
  unfolding wrapper_mqtt_subscribe_def
  by (intro vcg_pairs vcg ok_any; ((drule stab)+)?; simp add: stable_def)
lemmas subscribe_ok [vcg] = stable_pair [OF subscribe_stable]

lemma unsubscribe_stable:
  shows "ok (\<lambda>(r, c'). stable c c') (wrapper_mqtt_unsubscribe E tf c)"
  unfolding wrapper_mqtt_unsubscribe_def
  by (intro vcg_pairs vcg ok_any; ((drule stab)+)?; simp add: stable_def)
lemmas unsubscribe_ok [vcg] = stable_pair [OF unsubscribe_stable]

lemma publish_stable:
  shows "ok (\<lambda>(r, c'). stable c c') (wrapper_mqtt_publish E tn tm c)"
  unfolding wrapper_mqtt_publish_def
  by (intro vcg_pairs vcg ok_any; ((drule stab)+)?; simp add: stable_def)
lemmas publish_ok [vcg] = stable_pair [OF publish_stable]

lemma release_stable:
  shows "ok (\<lambda>(r, c'). stable c c') (wrapper_mqtt_release E c)"
  unfolding wrapper_mqtt_release_def iotx_mc_pub_wait_list_deinit_def
  by (intro vcg_pairs vcg; ((drule stab)+)?; simp add: stable_def)

lemma sync_scan_stable [stab]: "sync_scan ret subed c = (r, c') \<Longrightarrow> stable c c'"
  by (auto simp: sync_scan_def stable_def split: list.split_asm if_split_asm)

lemma subscribe_sync_loop_stable:
  "subscribe_sync_loop E tf q f x timer ret subed c = Some r \<Longrightarrow> handlers_stable E \<Longrightarrow> stable c (snd r)"
proof (induct rule: subscribe_sync_loop.raw_induct [rotated, consumes 1, case_names step])
  case (step subscribe_sync_loop E tf q f x timer ret subed c r)
  note [simp] = step(3)
  have [vcg]: "(\<And>r. stable c (snd r) \<Longrightarrow> P r) \<Longrightarrow> ok P (subscribe_sync_loop E tf q f x timer ret subed c)"
    for P q timer ret subed c
    using step(1,3) by (auto simp: ok_def)
  have "ok (\<lambda>r. stable c (snd r)) (Some r)"
    unfolding step(2) [symmetric]
    by (intro vcg_pairs vcg; ((drule stab)+)?; simp add: stable_def)
  then show ?case by simp
qed

lemma subscribe_sync_loop_ok [vcg]:
  "handlers_stable E \<Longrightarrow> (\<And>r c'. stable c c' \<Longrightarrow> P (r, c')) \<Longrightarrow>
    ok P (subscribe_sync_loop E tf q f x timer ret subed c)"
  by (auto simp: ok_def dest: subscribe_sync_loop_stable)

lemma subscribe_sync_stable:
  assumes [simp]: "handlers_stable E"
  shows "ok (\<lambda>(r, c'). stable c c') (wrapper_mqtt_subscribe_sync E tf q f x ms c)"
  unfolding wrapper_mqtt_subscribe_sync_def
  by (intro vcg_pairs vcg; ((drule stab)+)?; simp add: stable_def)
lemmas subscribe_sync_ok [vcg] = stable_pair [OF subscribe_sync_stable]

subsection \<open>Construction\<close>

lemma set_connect_params_rc [simp]: "fst (iotx_mc_set_connect_params p c) = 0"
  by (simp add: iotx_mc_set_connect_params_def Let_def)

lemma init_body_inv:
  assumes "iotx_mc_init_body p c = (rc, st, c')"
  shows "held c' = held c \<and> locks c' = locks c \<and>
    (rc = 0 \<and> packet_id c = 0 \<and> buf_send c = None \<and> buf_read c = None \<longrightarrow>
      mc_inv c' \<and> st = IOTX_MC_STATE_INITIALIZED)"
  using assms
  by (auto simp: iotx_mc_init_body_def iotx_mc_set_connect_params_def Let_def iotx_net_init_def
      iotx_mc_pub_wait_list_init_def mc_inv_def backoff_steps_def not_less split: if_splits)

lemma create_lock_frame:
  "create_lock E m c = (b, c') \<Longrightarrow> held c' = held c \<and> packet_id c' = packet_id c \<and> buf_send c' = buf_send c
    \<and> buf_read c' = buf_read c \<and> locks c' = (if b then insert m (locks c) else locks c)"
  by (auto simp: create_lock_def HAL_MutexCreate_def split: if_splits)

lemma create_locks_frame:
  "create_locks E ms c = (b, c') \<Longrightarrow> held c' = held c \<and> packet_id c' = packet_id c \<and> buf_send c' = buf_send c
    \<and> buf_read c' = buf_read c \<and> locks c \<subseteq> locks c' \<and> locks c' \<subseteq> set ms \<union> locks c \<and> (b \<longrightarrow> locks c' = set ms \<union> locks c)"
proof (induction ms arbitrary: c)
  case (Cons m ms)
  obtain b1 c1 where m: "create_lock E m c = (b1, c1)" by (cases "create_lock E m c")
  show ?case using Cons.prems Cons.IH [of c1] create_lock_frame [OF m]
    by (auto simp: m split: if_splits)
qed simp

abbreviation all_locks :: "mutex set" where
  "all_locks \<equiv> {LockGeneric, LockListPub, LockYield, LockWriteBuf, LockReadBuf}"

text \<open>What a constructed client is like, and what a failed construction leaves behind.\<close>

lemma iotx_mc_init_result:
  assumes "iotx_mc_init E p c = Some (rc, c')" and "packet_id c = 0" "buf_send c = None" "buf_read c = None"
    and "locks c = {}"
  shows "held c' = held c \<and>
    (rc = 0 \<longrightarrow> mc_inv c' \<and> client_state c' = IOTX_MC_STATE_INITIALIZED \<and> locks c' = all_locks) \<and>
    (rc \<noteq> 0 \<longrightarrow> locks c' \<subseteq> {LockGeneric})"
proof (cases "p_write_buf_size p = 0 \<or> p_read_buf_size p = 0")
  case True
  then show ?thesis using assms by (auto simp: iotx_mc_init_def)
next
  case False
  obtain b c1 where g: "create_lock E LockGeneric c = (b, c1)" by (cases "create_lock E LockGeneric c")
  obtain b2 c2 where l: "create_locks E [LockListPub, LockYield, LockWriteBuf, LockReadBuf] c1 = (b2, c2)"
    by (cases "create_locks E [LockListPub, LockYield, LockWriteBuf, LockReadBuf] c1")
  obtain rc3 st c3 where r: "iotx_mc_init_body p c2 = (rc3, st, c3)" by (cases "iotx_mc_init_body p c2")
  show ?thesis
    using assms False create_lock_frame [OF g] create_locks_frame [OF l] init_body_inv [OF r]
    by (auto simp: iotx_mc_init_def g l r Let_def bind_eq_Some_conv iotx_mc_set_client_state_def hal_defs
        simp del: create_locks.simps split: if_splits)
qed

lemma wrapper_mqtt_init_inv:
  assumes "wrapper_mqtt_init E p h = Some (True, c)"
  shows "mc_inv c \<and> held c = held h \<and> client_state c = IOTX_MC_STATE_INITIALIZED \<and> locks c = all_locks"
proof -
  obtain b h1 where m: "HAL_Malloc E 1 h = (b, h1)" by (cases "HAL_Malloc E 1 h")
  then have h: "held h1 = held h" by (auto simp: HAL_Malloc_def)
  from assms obtain rc where i: "iotx_mc_init E p (zero_client h1) = Some (rc, c)" "rc = 0"
    by (auto simp: wrapper_mqtt_init_def m Let_def bind_eq_Some_conv split: if_splits)
  show ?thesis
    using iotx_mc_init_result [OF i(1)] i(2) h by (simp add: zero_client_def)
qed

subsection \<open>Reachable states\<close>

text \<open>One call of the application, with its arguments and its result left open.\<close>

inductive api_step :: "'e mqtt_environment_scheme \<Rightarrow> iotx_mc_client_t \<Rightarrow> iotx_mc_client_t \<Rightarrow> bool" for E where
  connect: "wrapper_mqtt_connect E c = Some (rc, c') \<Longrightarrow> api_step E c c'"
| yield: "wrapper_mqtt_yield E ms c = Some (rc, c') \<Longrightarrow> api_step E c c'"
| subscribe: "wrapper_mqtt_subscribe E tf q f x c = Some (rc, c') \<Longrightarrow> api_step E c c'"
| subscribe_sync: "wrapper_mqtt_subscribe_sync E tf q f x ms c = Some (rc, c') \<Longrightarrow> api_step E c c'"
| unsubscribe: "wrapper_mqtt_unsubscribe E tf c = Some (rc, c') \<Longrightarrow> api_step E c c'"
| publish: "wrapper_mqtt_publish E tn tm c = Some (rc, c') \<Longrightarrow> api_step E c c'"
| check_state: "wrapper_mqtt_check_state c = Some (b, c') \<Longrightarrow> api_step E c c'"

inductive reachable :: "'e mqtt_environment_scheme \<Rightarrow> iotx_mqtt_param_t \<Rightarrow> hal \<Rightarrow> iotx_mc_client_t \<Rightarrow> bool"
  for E p h where
  start: "wrapper_mqtt_init E p h = Some (True, c) \<Longrightarrow> reachable E p h c"
| step: "reachable E p h c \<Longrightarrow> api_step E c c' \<Longrightarrow> reachable E p h c'"

inductive_cases api_stepE: "api_step E c c'"

lemma api_step_stable:
  assumes "api_step E c c'" and E: "handlers_stable E"
  shows "stable c c'"
  using assms(1)
proof cases
  case connect then show ?thesis using wrapper_connect_stable [OF E, of c] by (auto dest: okD)
next
  case yield then show ?thesis using yield_stable [OF E, of c] by (fastforce dest: okD)
next
  case subscribe then show ?thesis using okD [OF subscribe_stable] by fastforce
next
  case subscribe_sync then show ?thesis using okD [OF subscribe_sync_stable [OF E]] by fastforce
next
  case unsubscribe then show ?thesis using okD [OF unsubscribe_stable] by fastforce
next
  case publish then show ?thesis using okD [OF publish_stable] by fastforce
next
  case check_state then show ?thesis using okD [OF check_state_stable] by fastforce
qed

lemma reachable_inv:
  assumes "reachable E p h c" and "handlers_stable E"
  shows "mc_inv c \<and> held c = held h"
  using assms(1)
proof induction
  case (start c)
  then show ?case using wrapper_mqtt_init_inv by blast
next
  case (step c c')
  then show ?case using api_step_stable [OF step.hyps(2) assms(2)] by (simp add: stable_def)
qed


text \<open>
  An application whose one event handler publishes on the topic ``/a/bc'' whenever it is called, and
  the parameters of its client.
\<close>

definition sample_message :: iotx_mqtt_topic_info_t where
  "sample_message = \<lparr>ti_packet_id = 0, ti_qos = 1, ti_dup = 0, ti_retain = 0, ti_topic_len = 0,
     ti_payload_len = 2, ti_ptopic = None, ti_payload = Some (str ''hi'')\<rparr>"

definition publishing_env :: mqtt_environment where
  "publishing_env = environment.extend sample_env
     \<lparr>env_handler = (\<lambda>f ctx m c.
        map_option snd (wrapper_mqtt_publish sample_env (Some (str ''/a/bc'')) sample_message c))\<rparr>"

definition sample_param :: iotx_mqtt_param_t where
  "sample_param = \<lparr>p_port = 1883, p_host = Some (str ''host''), p_client_id = Some (str ''id''),
     p_username = Some (str ''u''), p_password = Some (str ''pw''), p_pub_key = None, p_clean_session = 1,
     p_request_timeout_ms = 2000, p_keepalive_interval_ms = 60000, p_write_buf_size = 1024,
     p_read_buf_size = 1024, p_handle_event = \<lparr>h_fp = Some 0, pcontext = 0\<rparr>\<rparr>"

lemma publishing_env_stable: "handlers_stable publishing_env"
  by (auto simp: handlers_stable_def publishing_env_def environment.defs
      dest!: okD [OF publish_stable])

lemma sample_init: "\<exists>c. wrapper_mqtt_init E sample_param hal_start = Some (True, c)" if "\<And>n s. env_malloc E n s" "\<And>n. env_mutex E n"
proof -
  show ?thesis
    by (simp add: wrapper_mqtt_init_def sample_param_def iotx_mc_init_def create_lock_def hal_defs zero_client_def that
        hal_start_def Let_def iotx_mc_init_body_def iotx_mc_set_connect_params_def iotx_net_init_def
        iotx_mc_pub_wait_list_init_def iotx_mc_set_client_state_def case_prod_unfold)
qed

text \<open>
  C1: whatever the application calls in whatever order, and whatever the network, the allocator and
  the clock do: between calls no mutex is held, the request timeout and the keep-alive interval are
  in their ranges, the packet id fits in 16 bits, the reconnect interval is one of the doubling
  steps, at most 20 messages wait for an acknowledgement, each with a copy of exactly its length,
  and a buffer that exists has its recorded size; provided the event handlers only act like calls
  of the library.
\<close>

theorem client_invariant:
  assumes "reachable E p h c" and "handlers_stable E" and "held h = {}"
  shows "mc_inv c \<and> held c = {}"
  using reachable_inv [OF assms(1,2)] assms(3) by simp

theorem client_invariant_witness:
  "\<exists>c. reachable publishing_env sample_param hal_start c \<and> mc_inv c \<and> held c = {}"
proof -
  obtain c where "wrapper_mqtt_init publishing_env sample_param hal_start = Some (True, c)"
    using sample_init [of publishing_env] by (auto simp: publishing_env_def sample_env_def environment.defs)
  then have r: "reachable publishing_env sample_param hal_start c" by (rule start)
  from client_invariant [OF r publishing_env_stable] show ?thesis
    using r by (auto simp: hal_start_def)
qed

end
