(* ===== verification/MqttExchange.thy ===== *)
theory MqttExchange
  imports MqttInvariant
begin

text \<open>
  Whole packets on the network: what \<open>iotx_mc_send_packet\<close> has written when it succeeds or fails,
  that it returns on a clock that keeps running, what \<open>iotx_mc_read_packet\<close> has read, and that no
  answer of the network makes it read or write outside its buffer.
\<close>

subsection \<open>What the code relies on in the network\<close>

text \<open>A write reports at most the bytes it was given; a read stores as many bytes as it reports.\<close>

definition writes_ok :: "'e environment_scheme \<Rightarrow> bool" where
  "writes_ok E = (\<forall>n d t. env_write E n d t \<le> int (length d))"

definition reads_ok :: "'e environment_scheme \<Rightarrow> bool" where
  "reads_ok E = (\<forall>n len t. case env_read E n len t of (rc, bs) \<Rightarrow> (0 \<le> len \<longrightarrow> rc \<le> len) \<and> length bs = nat rc)"

text \<open>
  A clock that keeps running: its readings are milliseconds, never go back, grow beyond any bound
  (in 64 bits they wrap, as the code's casts to 32 bits do) and follow each other within three days.
\<close>

definition running_clock :: "'e environment_scheme \<Rightarrow> bool" where
  "running_clock E =
     (\<exists>T. (\<forall>i. env_uptime E i = word_of_nat (T i) \<and> T i \<le> T (Suc i) \<and> T (Suc i) \<le> T i + 2 ^ 28) \<and> (\<forall>m. \<exists>i. m \<le> T i))"

lemma steady_clock:
  assumes "\<And>i. env_uptime E i = word_of_nat (k * i)" and "0 < k" "k \<le> 2 ^ 28"
  shows "running_clock E"
proof -
  have "\<exists>i. m \<le> k * i" for m using assms(2) by (intro exI [of _ m]) simp
  then show ?thesis unfolding running_clock_def
    using assms by (intro exI [of _ "\<lambda>i. k * i"]) simp
qed

text \<open>Whatever the timer, three readings in a row find it expired.\<close>

lemma first_after:
  fixes T :: "nat \<Rightarrow> nat"
  assumes step: "\<And>i. T i \<le> T (Suc i)" "\<And>i. T (Suc i) \<le> T i + 2 ^ 28" and "\<exists>i. d \<le> T i" and "T n \<le> d"
  shows "\<exists>N \<ge> n. d \<le> T N \<and> T N \<le> d + 2 ^ 28"
proof -
  obtain j where j: "d \<le> T j" using assms(3) by blast
  have "T j \<le> T (max j n)" using lift_Suc_mono_le [of T j "max j n"] step(1) by simp
  then have ex: "n \<le> max j n \<and> d \<le> T (max j n)" using j by simp
  define N where "N = (LEAST i. n \<le> i \<and> d \<le> T i)"
  have N: "n \<le> N" "d \<le> T N" using LeastI [of "\<lambda>i. n \<le> i \<and> d \<le> T i", OF ex] by (simp_all add: N_def)
  have "T N \<le> d + 2 ^ 28"
  proof (cases "N = n")
    case False
    then obtain k where k: "N = Suc k" "n \<le> k" using N(1) by (cases N) auto
    then have "\<not> d \<le> T k" using not_less_Least [of k "\<lambda>i. n \<le> i \<and> d \<le> T i"] by (simp add: N_def)
    then show ?thesis using step(2) [of k] k(1) by simp
  qed (use assms(4) in simp)
  then show ?thesis using N by blast
qed

lemma running_clock_passes:
  assumes "running_clock E"
  shows "\<exists>N \<ge> n. \<forall>i. N \<le> i \<and> i \<le> N + 2 \<longrightarrow> (ucast (env_uptime E i) :: u32) - time timer < 0xFFFFFFFF div 2"
proof -
  obtain T where T: "\<And>i. env_uptime E i = word_of_nat (T i)" "\<And>i. T i \<le> T (Suc i)" "\<And>i. T (Suc i) \<le> T i + 2 ^ 28"
    "\<And>m. \<exists>i. m \<le> T i"
    using assms by (auto simp: running_clock_def)
  define d where "d = T n + unat (time timer - word_of_nat (T n))"
  have d: "word_of_nat d = time timer" by (simp add: d_def)
  obtain N where N: "n \<le> N" "d \<le> T N" "T N \<le> d + 2 ^ 28"
    using first_after [of T d n] T(2-4) by (auto simp: d_def)
  have "(ucast (env_uptime E i) :: u32) - time timer < 0xFFFFFFFF div 2" if "N \<le> i" "i \<le> N + 2" for i
  proof -
    have "i = N \<or> i = Suc N \<or> i = Suc (Suc N)" using that by auto
    then have i: "d \<le> T i" "T i \<le> d + 3 * 2 ^ 28" using N T(2,3) [of N] T(2,3) [of "Suc N"] by auto
    have "(ucast (env_uptime E i) :: u32) - time timer = word_of_nat (T i - d)"
      using i(1) by (simp add: T(1) ucast_u64_of_nat of_nat_diff flip: d)
    moreover have "unat (word_of_nat (T i - d) :: u32) = T i - d"
      using i(2) by (simp only: unat_of_nat) simp
    ultimately show ?thesis using i by (simp add: word_less_nat_alt)
  qed
  then show ?thesis using N(1) by blast
qed

lemma reads_okD:
  assumes "reads_ok E" "env_read E n len t = (rc, bs)"
  shows "0 \<le> len \<Longrightarrow> rc \<le> len" "length bs = nat rc"
proof -
  have "case env_read E n len t of (rc, bs) \<Rightarrow> (0 \<le> len \<longrightarrow> rc \<le> len) \<and> length bs = nat rc"
    using assms(1) by (simp add: reads_ok_def)
  then show "0 \<le> len \<Longrightarrow> rc \<le> len" "length bs = nat rc" using assms(2) by auto
qed

lemma sample_env_network [simp]: "writes_ok sample_env" "reads_ok sample_env"
  by (auto simp: writes_ok_def reads_ok_def sample_env_def)

subsection \<open>Sending\<close>

lemma time_frame [frame]:
  "utils_time_is_expired E timer s = (b, s') \<Longrightarrow> s' = s\<lparr>n_uptime := Suc (n_uptime s)\<rparr>"
  "time_left_or_1 E timer s = (t, s') \<Longrightarrow> \<exists>k. s' = s\<lparr>n_uptime := k\<rparr> \<and> n_uptime s < k \<and> k \<le> n_uptime s + 2"
  by (auto simp: timer_defs HAL_UptimeMs_def time_left_or_1_def split: prod.splits if_splits)

lemma send_loop_written:
  "send_loop E buf len timer sent c = Some r \<Longrightarrow> writes_ok E \<Longrightarrow> 0 \<le> sent \<Longrightarrow> sent \<le> len \<Longrightarrow>
     len \<le> int (length buf) \<Longrightarrow>
     sent \<le> fst r \<and> fst r \<le> len \<and>
     written (effects (snd r)) = written (effects c) @ take (nat (fst r - sent)) (drop (nat sent) buf)"
proof (induct rule: send_loop.raw_induct [rotated, consumes 1, case_names step])
  case (step send_loop E buf len timer sent c r)
  show ?case
  proof (cases "sent < len \<and> \<not> fst (utils_time_is_expired E timer c)")
    case False
    then have "r = (sent, c) \<or> r = (sent, snd (utils_time_is_expired E timer c))"
      using step(2) by (auto split: prod.splits if_splits)
    then show ?thesis using step(4-6)
      by (auto simp: utils_time_is_expired_def HAL_UptimeMs_def)
  next
    case True
    obtain c1 where e: "utils_time_is_expired E timer c = (False, c1)"
      using True by (cases "utils_time_is_expired E timer c") auto
    obtain t c2 where l: "time_left_or_1 E timer c1 = (t, c2)" by (cases "time_left_or_1 E timer c1")
    define d where "d = take (nat (len - sent)) (drop (nat sent) buf)"
    have ld: "length d = nat (len - sent)" using step(4-6) by (simp add: d_def)
    obtain rc c3 where w: "net_write E d t c2 = (rc, c3)" by (cases "net_write E d t c2")
    have eff: "effects c3 = effects c @ [NetWrite (take (nat rc) d)]"
      using time_frame(1) [OF e] time_frame(2) [OF l] w by (auto simp: net_write_def Let_def)
    have rc: "rc \<le> len - sent"
      using w ld step(3,5) unfolding net_write_def Let_def writes_ok_def
      by (metis fst_conv int_nat_eq diff_ge_0_iff_ge)
    have rd: "rd_block buf (nat sent) (nat (len - sent)) = Some d"
      using step(4-6) by (simp add: d_def)
    show ?thesis
    proof (cases "rc < 0")
      case True
      then have "r = (sent, c3)" using step(2) \<open>sent < len \<and> _\<close> by (simp add: e l rd w)
      then show ?thesis using True step(4,5) eff by simp
    next
      case False
      then have r: "send_loop E buf len timer (sent + rc) c3 = Some r"
        using step(2) \<open>sent < len \<and> _\<close> by (simp add: e l rd w)
      have n: "nat (sent + rc) = nat sent + nat rc" using False step(4) by simp
      have ih: "sent + rc \<le> fst r \<and> fst r \<le> len \<and>
          written (effects (snd r)) = written (effects c3) @ take (nat (fst r - (sent + rc))) (drop (nat sent + nat rc) buf)"
        using step(1) [OF r step(3)] False rc step(4,6) by (simp add: n)
      have "nat (fst r - sent) = nat rc + nat (fst r - (sent + rc))" using ih False by arith
      moreover have "take (nat rc) d = take (nat rc) (drop (nat sent) buf)" using rc by (simp add: d_def min_def)
      ultimately show ?thesis
        using ih eff False by (simp add: take_add add.commute)
    qed
  qed
qed


lemma send_loop_returns:
  assumes N: "\<And>n. N \<le> n \<Longrightarrow> n \<le> N + 2 \<Longrightarrow> (ucast (env_uptime E n) :: u32) - time timer < 0xFFFFFFFF div 2"
    and E: "writes_ok E" and len: "len \<le> int (length buf)"
  shows "0 \<le> sent \<Longrightarrow> sent \<le> len \<Longrightarrow> n_uptime c \<le> N + 2 \<Longrightarrow> \<exists>r. send_loop E buf len timer sent c = Some r"
proof (induction "N + 3 - n_uptime c" arbitrary: sent c rule: less_induct)
  case less
  show ?case
  proof (cases "sent < len \<and> \<not> fst (utils_time_is_expired E timer c)")
    case False
    then show ?thesis by (subst send_loop.simps) (auto split: prod.split)
  next
    case True
    obtain c1 where e: "utils_time_is_expired E timer c = (False, c1)"
      using True by (cases "utils_time_is_expired E timer c") auto
    have early: "n_uptime c < N"
      using e N [of "n_uptime c"] less.prems(3) by (force simp: utils_time_is_expired_def HAL_UptimeMs_def)
    obtain t c2 where l: "time_left_or_1 E timer c1 = (t, c2)" by (cases "time_left_or_1 E timer c1")
    define d where "d = take (nat (len - sent)) (drop (nat sent) buf)"
    have rd: "rd_block buf (nat sent) (nat (len - sent)) = Some d" and ld: "int (length d) = len - sent"
      using less.prems len by (simp_all add: d_def)
    obtain rc c3 where w: "net_write E d t c2 = (rc, c3)" by (cases "net_write E d t c2")
    have rc: "rc \<le> len - sent"
      using w E unfolding net_write_def Let_def writes_ok_def by (metis fst_conv ld)
    have c3: "n_uptime c < n_uptime c3" "n_uptime c3 \<le> n_uptime c + 3"
      using time_frame(1) [OF e] time_frame(2) [OF l] w by (auto simp: net_write_def Let_def)
    then have "N + 3 - n_uptime c3 < N + 3 - n_uptime c" using early by simp
    then have "\<exists>r. send_loop E buf len timer (sent + rc) c3 = Some r" if "0 \<le> rc"
      using less.hyps [of c3 "sent + rc"] that rc less.prems early c3 by simp
    then show ?thesis using True
      by (subst send_loop.simps) (auto simp: e l rd w not_less)
  qed
qed

text \<open>
  C15: a packet is sent exactly.  On a clock that keeps running, and whatever the timer and the
  network, \<open>iotx_mc_send_packet\<close> returns; what the network has accepted then is a prefix of the packet,
  appended to what it had accepted before, and the result is \<open>SUCCESS_RETURN\<close> if and only if that
  prefix is the whole packet.
\<close>

theorem send_packet_exact:
  assumes "writes_ok E" and "running_clock E" and "0 \<le> len" and "len \<le> int (length buf)"
  shows "\<exists>rc c' n. iotx_mc_send_packet E (Some buf) len timer c = Some (rc, c') \<and> int n \<le> len \<and>
    written (effects c') = written (effects c) @ take n buf \<and>
    rc = (if int n = len then SUCCESS_RETURN else MQTT_NETWORK_ERROR)"
proof -
  obtain sent c' where s: "send_loop E buf len timer 0 c = Some (sent, c')"
    using running_clock_passes [OF assms(2), of "n_uptime c" timer] send_loop_returns [of _ E timer len buf 0 c] assms
    by fastforce
  have "0 \<le> sent \<and> sent \<le> len \<and> written (effects c') = written (effects c) @ take (nat sent) buf"
    using send_loop_written [OF s assms(1)] assms(3,4) by simp
  then show ?thesis using s
    by (intro exI [of _ "if sent = len then 0 else -14"] exI [of _ c'] exI [of _ "nat sent"])
      (auto simp: iotx_mc_send_packet_def)
qed

text \<open>A clock that advances by 900 ms with every reading, and a network that takes one byte at a time.\<close>

definition slow_env :: environment where
  "slow_env = sample_env\<lparr>env_uptime := (\<lambda>n. word_of_nat (900 * n)), env_write := (\<lambda>n d t. min 1 (int (length d)))\<rparr>"

declare send_loop.simps [code]

theorem send_packet_exact_witness:
  "writes_ok slow_env \<and> running_clock slow_env \<and>
   (\<exists>rc c' n. iotx_mc_send_packet slow_env (Some [1, 2, 3]) 3 \<lparr>time = 2000\<rparr> (zero_client hal_start) = Some (rc, c')
      \<and> written (effects c') = take n [1, 2, 3]) \<and>
   map_option (\<lambda>(rc, c'). (rc, effects c')) (iotx_mc_send_packet slow_env (Some [1, 2, 3]) 3 \<lparr>time = 2000\<rparr> (zero_client hal_start))
     = Some (MQTT_NETWORK_ERROR, [NetWrite [1]])"
proof -
  have "writes_ok slow_env" by (auto simp: writes_ok_def slow_env_def)
  moreover have "running_clock slow_env"
    by (rule steady_clock [of _ 900]) (simp_all add: slow_env_def)
  moreover have "map_option (\<lambda>(rc, c'). (rc, effects c'))
      (iotx_mc_send_packet slow_env (Some [1, 2, 3]) 3 \<lparr>time = 2000\<rparr> (zero_client hal_start)) =
    Some (MQTT_NETWORK_ERROR, [NetWrite [1]])"
    by code_simp
  ultimately show ?thesis
    using send_packet_exact [of slow_env 3 "[1, 2, 3]" "\<lparr>time = 2000\<rparr>" "zero_client hal_start"]
    by (auto simp: zero_client_def hal_start_def)
qed


subsection \<open>Receiving\<close>

text \<open>The network answers the reads from number \<open>n\<close> on with one packet, in the pieces the code asks for.\<close>

definition delivers_packet :: "'e environment_scheme \<Rightarrow> nat \<Rightarrow> byte \<Rightarrow> byte list \<Rightarrow> bool" where
  "delivers_packet E n h payload =
     (let enc = MQTTPacket_encode (int (length payload)) in
      (\<forall>t. env_read E n 1 t = (1, [h])) \<and>
      (\<forall>i<length enc. \<forall>t. env_read E (n + 1 + i) 1 t = (1, [enc ! i])) \<and>
      (\<forall>t. env_read E (n + 1 + length enc) (int (length payload)) t = (int (length payload), payload)))"

lemma decode_packet_reads:
  assumes "0 \<le> n" and "len + length (MQTTPacket_encode n) \<le> 4"
    and "\<And>i t. i < length (MQTTPacket_encode n) \<Longrightarrow>
      env_read E (n_read c + i) 1 t = (1, [MQTTPacket_encode n ! i])"
  shows "decode_packet_loop E tm len mult v c =
    Some (int (len + length (MQTTPacket_encode n)), v + n * mult,
      c\<lparr>n_read := n_read c + length (MQTTPacket_encode n)\<rparr>)"
  using assms
proof (induction n arbitrary: len mult v c rule: encode_induct)
  case (small n)
  note d = digit_uint [OF small(1,2)]
  have "env_read E (n_read c) 1 t = (1, [word_of_int n])" for t
    using small(4) [of 0] small(1,2) by (simp add: encode_unfold)
  then show ?case using small(1-3) d
    by (simp add: encode_unfold decode_packet_loop.simps [of _ _ len] net_read_def digit_bits)
next
  case (large n)
  let ?d = "word_of_int (n mod 128) :: byte"
  let ?e = "MQTTPacket_encode (n div 128)"
  have d: "?d < 128" "uint ?d = n mod 128" using digit_uint [of "n mod 128"] by auto
  have enc: "MQTTPacket_encode n = (?d OR 0x80) # ?e" using large by (simp add: encode_unfold)
  have len: "\<not> 4 < Suc len" using large.prems enc length_encode_pos [of "n div 128"] by simp
  have r: "env_read E (n_read c) 1 t = (1, [?d OR 0x80])" for t
    using large.prems(2) [of 0 t] enc by simp
  have rest: "env_read E (n_read (c\<lparr>n_read := Suc (n_read c)\<rparr>) + i) 1 t = (1, [?e ! i])" if "i < length ?e" for i t
    using large.prems(2) [of "Suc i" t] enc that by simp
  have "n mod 128 * mult + n div 128 * (mult * 128) = n * mult"
    by (metis (no_types) distrib_right mult.assoc mult.commute mod_div_mult_eq)
  then show ?case
    using large.IH [of "Suc len" "c\<lparr>n_read := Suc (n_read c)\<rparr>" "mult * 128" "v + n mod 128 * mult"]
      large.prems enc d len rest
    by (simp add: decode_packet_loop.simps [of _ _ len] net_read_def r digit_bits Let_def)
qed

lemma time_left_eq: "\<exists>t u. time_left_or_1 E timer s = (t, s\<lparr>n_uptime := u\<rparr>)"
  by (auto simp: timer_defs HAL_UptimeMs_def time_left_or_1_def split: prod.splits)

lemma alloc_recv_eq:
  fixes c :: iotx_mc_client_t
  assumes "\<And>n s. env_malloc E n s" and "0 \<le> len" "len < 2 ^ 31"
    and "buf_ok (buf_read c) (buf_size_read c)"
  defines "N \<equiv> min (unat (buf_size_read_max c)) (8 + nat len)"
  shows "\<exists>b w. alloc_recv_buffer E len c =
      Some (0, c\<lparr>n_malloc := Suc (n_malloc c), buf_read := Some b, buf_size_read := w\<rparr>)
    \<and> length b = N \<and> unat w = N
    \<and> (\<forall>old. buf_read c = Some old \<longrightarrow> (\<forall>j \<le> length old. j \<le> N \<longrightarrow> take j b = take j old))"
proof -
  have u: "unat (word_of_int (8 + len) :: u32) = 8 + nat len"
  proof -
    have "(8 + len) mod 4294967296 = 8 + len" using assms(2,3) by simp
    then have "uint (word_of_int (8 + len) :: u32) = 8 + len" by (simp only: uint_word_of_int) simp
    then have "nat (uint (word_of_int (8 + len) :: u32)) = 8 + nat len" using assms(2) by simp
    then show ?thesis by (simp only: nat_uint_eq)
  qed
  define w where "w = (if buf_size_read_max c < word_of_int (8 + len) then buf_size_read_max c else word_of_int (8 + len))"
  have w: "unat w = N"
    using u by (auto simp: w_def N_def word_less_nat_alt)
  show ?thesis
  proof (cases "buf_read c")
    case None
    have "alloc_recv_buffer E len c = Some (0, c\<lparr>n_malloc := Suc (n_malloc c),
        buf_read := Some (replicate N 0), buf_size_read := w\<rparr>)"
      unfolding alloc_recv_buffer_def Let_def w_def [symmetric] using None assms(1) w
      by (simp add: HAL_Malloc_def)
    then show ?thesis using None w by (intro exI) auto
  next
    case (Some old)
    let ?n = "unat (min (buf_size_read c) w)"
    have n: "?n \<le> length old" "?n \<le> N" "?n = min (length old) N"
      using assms(4) Some w by (auto simp: min_def word_le_nat_alt)
    have "alloc_recv_buffer E len c = Some (0, c\<lparr>n_malloc := Suc (n_malloc c),
        buf_read := Some (take ?n old @ replicate (N - ?n) 0), buf_size_read := w\<rparr>)"
      unfolding alloc_recv_buffer_def Let_def w_def [symmetric] using Some assms(1) w n(1)
      by (simp add: HAL_Malloc_def)
    then show ?thesis using Some n w by (intro exI) auto
  qed
qed


lemma wr_block_Some [simp]:
  "off + length bs \<le> length b \<Longrightarrow> wr_block (Some b) off bs = Some (Some (take off b @ bs @ drop (off + length bs) b))"
  by (simp add: wr_block_def)

lemma read_into_eq:
  assumes "buf_read c = Some b" and "off + length bs \<le> length b" and "env_read E (n_read c) (int (length bs)) t = (rc, bs)"
  shows "read_into E off (int (length bs)) t c =
    Some (rc, c\<lparr>n_read := Suc (n_read c), buf_read := Some (take off b @ bs @ drop (off + length bs) b)\<rparr>)"
  using assms by (simp add: read_into_def net_read_def)

lemma read_packet_receives_lemma:
  fixes c :: iotx_mc_client_t and h :: byte and payload :: "byte list"
  defines "L \<equiv> length payload"
  defines "packet \<equiv> h # MQTTPacket_encode (int L) @ payload"
  assumes del: "delivers_packet E (n_read c) h payload" and mem: "\<And>n s. env_malloc E n s"
    and c: "LockReadBuf \<notin> held c" "buf_read c = None"
    and small: "L < 268435456" "length packet \<le> unat (buf_size_read_max c)"
  shows "\<exists>u m b w. iotx_mc_read_packet E timer pt c = Some ((0, Some (MQTT_HEADER_GET_TYPE h)),
      c\<lparr>n_uptime := u, n_malloc := m, n_read := n_read c + 1 + length (MQTTPacket_encode (int L)) + 1,
        buf_read := Some b, buf_size_read := w\<rparr>) \<and>
    take (length packet) b = packet \<and> length b = unat w \<and>
    (length packet < length b \<longrightarrow> b ! length packet = 0)"
proof -
  define enc where "enc = MQTTPacket_encode (int L)"
  define k where "k = length enc"
  have k: "1 \<le> k" "k \<le> 4" using length_encode_le [of "int L" 3] small(1)
    by (simp_all add: k_def enc_def Suc_le_eq)
  have lp: "length packet = 1 + k + L" by (simp add: packet_def k_def enc_def L_def)
  define c0 where "c0 = c\<lparr>held := insert LockReadBuf (held c)\<rparr>"
  have lock: "HAL_MutexLock LockReadBuf c = Some c0" using c(1) by (simp add: HAL_MutexLock_def c0_def)
  define N where "N = min (unat (buf_size_read_max c)) 8"
  have kN: "1 + k \<le> N" using small(2) lp k by (simp add: N_def)
  obtain b0 w0 c1 where a: "alloc_recv_buffer E 0 c0 = Some (0, c1)"
    and c1: "c1 = c0\<lparr>n_malloc := Suc (n_malloc c), buf_read := Some b0, buf_size_read := w0\<rparr>"
    and b0: "length b0 = N" "unat w0 = N"
    using alloc_recv_eq [OF mem, of 0 c0] c(2) by (auto simp: N_def c0_def)
  obtain t1 u1 where t1: "time_left_or_1 E timer c1 = (t1, c1\<lparr>n_uptime := u1\<rparr>)" using time_left_eq by blast
  define b1 where "b1 = h # drop 1 b0"
  define c2 where "c2 = c1\<lparr>n_uptime := u1, n_read := Suc (n_read c), buf_read := Some b1\<rparr>"
  have r1: "read_into E 0 1 t1 (c1\<lparr>n_uptime := u1\<rparr>) = Some (1, c2)"
    using read_into_eq [of "c1\<lparr>n_uptime := u1\<rparr>" b0 0 "[h]" E t1 1] del kN b0
    by (simp add: delivers_packet_def Let_def c0_def c1 c2_def b1_def)
  obtain t2 u2 where t2: "time_left_or_1 E timer c2 = (t2, c2\<lparr>n_uptime := u2\<rparr>)" using time_left_eq by blast
  define c3 where "c3 = c2\<lparr>n_uptime := u2, n_read := Suc (n_read c) + k\<rparr>"
  have d: "iotx_mc_decode_packet E t2 (c2\<lparr>n_uptime := u2\<rparr>) = Some (int k, int L, c3)"
    using decode_packet_reads [of "int L" 0 E "c2\<lparr>n_uptime := u2\<rparr>" t2 1 0] del k
    by (simp add: iotx_mc_decode_packet_def delivers_packet_def Let_def enc_def k_def L_def c2_def c3_def)
  define b2 where "b2 = h # enc @ drop (1 + k) b0"
  have w2: "wr_block (buf_read c3) 1 enc = Some (Some b2)"
    using kN b0 by (simp add: k_def c3_def c2_def b2_def b1_def)
  define c4 where "c4 = c3\<lparr>buf_read := Some b2\<rparr>"
  have b2: "length b2 = N" "take (1 + k) b2 = h # enc" using b0 kN by (simp_all add: b2_def k_def)
  have ok4: "buf_ok (buf_read c4) (buf_size_read c4)"
    using b0(2) b2(1) by (simp add: c4_def c3_def c2_def c1)
  obtain b3 w3 c5 where a3: "alloc_recv_buffer E (int L + (1 + int k)) c4 = Some (0, c5)"
    and c5: "c5 = c4\<lparr>n_malloc := Suc (Suc (n_malloc c)), buf_read := Some b3, buf_size_read := w3\<rparr>"
    and b3: "length b3 = unat w3" "1 + k + L \<le> length b3" "take (1 + k) b3 = h # enc"
  proof -
    have max: "buf_size_read_max c4 = buf_size_read_max c" "n_malloc c4 = Suc (n_malloc c)"
      by (simp_all add: c4_def c3_def c2_def c1 c0_def)
    obtain b w where "alloc_recv_buffer E (int L + (1 + int k)) c4 =
        Some (0, c4\<lparr>n_malloc := Suc (Suc (n_malloc c)), buf_read := Some b, buf_size_read := w\<rparr>)"
      and b: "length b = min (unat (buf_size_read_max c)) (8 + nat (int L + (1 + int k)))"
      "unat w = length b" "\<forall>j\<le>length b2. j \<le> length b \<longrightarrow> take j b = take j b2"
      using alloc_recv_eq [OF mem _ _ ok4, of "int L + (1 + int k)"] small(1) k
      by (auto simp: max) (auto simp: c4_def)
    moreover have "1 + k + L \<le> length b" using b(1) small(2) lp by simp
    ultimately show ?thesis using that b2 kN by simp
  qed
  obtain t5 u5 where t5: "time_left_or_1 E timer c5 = (t5, c5\<lparr>n_uptime := u5\<rparr>)" using time_left_eq by blast
  define b5 where "b5 = h # enc @ payload @ drop (1 + k + L) b3"
  define c6 where "c6 = c5\<lparr>n_uptime := u5, n_read := Suc (Suc (n_read c + k)), buf_read := Some b5\<rparr>"
  have n5: "n_read c5 = Suc (n_read c + k)" "buf_read c5 = Some b3" "buf_size_read c5 = w3"
    by (simp_all add: c5 c4_def c3_def)
  have r5: "read_into E (1 + k) (int L) t5 (c5\<lparr>n_uptime := u5\<rparr>) = Some (int L, c6)"
    using read_into_eq [of "c5\<lparr>n_uptime := u5\<rparr>" b3 "1 + k" payload E t5 "int L"] del b3 n5
    by (simp add: delivers_packet_def Let_def enc_def [symmetric] k_def [symmetric] L_def [symmetric] c6_def b5_def add.assoc)
  define b6 where "b6 = (if 1 + k + L < length b3 then h # enc @ payload @ 0 # drop (2 + k + L) b3 else b5)"
  have w6: "(if 1 + int k + int L < uint w3 then wr_block (Some b5) (1 + k + L) [0] else Some (Some b5)) = Some (Some b6)"
  proof -
    have "int (unat w3) = uint w3" by simp
    then have u: "uint w3 = int (length b3)" using b3(1) by simp
    have v: "(1 + int k + int L < int (length b3)) = (1 + k + L < length b3)" by linarith
    show ?thesis using b3(2) unfolding u v
      by (auto simp: wr_block_def k_def L_def b5_def b6_def add.commute)
  qed
  have big: "\<not> uint w3 < int L + (1 + int k)"
  proof -
    have "int (unat w3) = uint w3" by simp
    then show ?thesis using b3(1,2) by linarith
  qed
  have n6: "buf_read c6 = Some b5" "buf_size_read c6 = w3" "LockReadBuf \<in> held c6" "held c6 - {LockReadBuf} = held c"
    using c(1) n5 by (simp_all add: c6_def c5 c4_def c3_def c2_def c1 c0_def)
  have rd: "rd8 b5 0 = Some h" by (simp add: b5_def)
  have res: "iotx_mc_read_packet E timer pt c = Some ((0, Some (MQTT_HEADER_GET_TYPE h)), c6\<lparr>buf_read := Some b6, held := held c\<rparr>)"
    unfolding iotx_mc_read_packet_def using k
    apply (simp add: lock a t1 r1 t2 d enc_def [symmetric] w2 k_def [symmetric] c4_def [symmetric]
        w2 [unfolded One_nat_def])
    apply (simp add: a3)
    apply (simp add: Let_def n5 big t5 nat_add_distrib r5 [simplified] n6 rd)
    using w6 n6 by (auto simp: unlock_return_def HAL_MutexUnlock_def split: if_splits)
  have c6: "c6\<lparr>buf_read := Some b6, held := held c\<rparr> =
      c\<lparr>n_uptime := u5, n_malloc := Suc (Suc (n_malloc c)), n_read := n_read c + 1 + k + 1,
        buf_read := Some b6, buf_size_read := w3\<rparr>"
    by (simp add: c6_def c5 c4_def c3_def c2_def c1 c0_def)
  have "take (length packet) b6 = packet \<and> length b6 = unat w3 \<and> (length packet < length b6 \<longrightarrow> b6 ! length packet = 0)"
  proof -
    have "packet = h # enc @ payload" by (simp add: packet_def enc_def)
    then show ?thesis using b3(2) unfolding lp b3(1) [symmetric]
      by (auto simp: b6_def b5_def k_def L_def nth_append)
  qed
  then show ?thesis using res [unfolded c6 k_def enc_def] by blast
qed


text \<open>
  C14: a packet on the wire is read exactly.  When the network delivers a header byte, the encoding of
  a length below 2 ^ 28 and that many bytes, and the read buffer may grow to hold them,
  \<open>iotx_mc_read_packet\<close> returns success with the packet's type, the buffer starts with exactly these
  bytes (followed by a zero byte if there is room), one read was made for each piece, and nothing
  else of the client has changed except the counters of the platform.
\<close>

theorem read_packet_receives:
  fixes c :: iotx_mc_client_t and h :: byte and payload :: "byte list"
  assumes "delivers_packet E (n_read c) h payload" and "\<And>n s. env_malloc E n s"
    and "LockReadBuf \<notin> held c" and "buf_read c = None" and "length payload < 268435456"
    and "length (h # MQTTPacket_encode (int (length payload)) @ payload) \<le> unat (buf_size_read_max c)"
  shows "\<exists>u m b w. iotx_mc_read_packet E timer pt c = Some ((SUCCESS_RETURN, Some (MQTT_HEADER_GET_TYPE h)),
      c\<lparr>n_uptime := u, n_malloc := m,
        n_read := n_read c + 1 + length (MQTTPacket_encode (int (length payload))) + 1,
        buf_read := Some b, buf_size_read := w\<rparr>) \<and>
    take (length (h # MQTTPacket_encode (int (length payload)) @ payload)) b =
      h # MQTTPacket_encode (int (length payload)) @ payload \<and> length b = unat w \<and>
    (length (h # MQTTPacket_encode (int (length payload)) @ payload) < length b \<longrightarrow>
      b ! length (h # MQTTPacket_encode (int (length payload)) @ payload) = 0)"
  using assms by (rule read_packet_receives_lemma)

text \<open>A broker that sends PUBACK for the packet id 7.\<close>

definition puback_env :: environment where
  "puback_env = sample_env\<lparr>env_read := (\<lambda>n len t.
     if n = 0 then (1, [0x40]) else if n = 1 then (1, [2]) else if n = 2 then (2, [0, 7]) else (0, []))\<rparr>"

definition puback_client :: iotx_mc_client_t where
  "puback_client = (zero_client hal_start)\<lparr>buf_size_read_max := 64\<rparr>"

theorem read_packet_receives_witness:
  "\<exists>c' b. iotx_mc_read_packet (environment.extend puback_env \<lparr>env_handler = (\<lambda>f x m c. Some c)\<rparr>)
       \<lparr>time = 2000\<rparr> None puback_client = Some ((0, Some PUBACK), c') \<and>
     buf_read c' = Some b \<and> take 4 b = [0x40, 2, 0, 7]"
proof -
  let ?E = "environment.extend puback_env \<lparr>env_handler = (\<lambda>f x m c. Some c)\<rparr>"
  have "delivers_packet ?E 0 0x40 [0, 7]"
    by (simp add: delivers_packet_def encode_unfold puback_env_def sample_env_def environment.defs)
  moreover have "env_malloc ?E n s" for n s by (simp add: puback_env_def sample_env_def environment.defs)
  moreover have "n_read puback_client = 0" "held puback_client = {}" "buf_read puback_client = None"
    "buf_size_read_max puback_client = 64"
    by (simp_all add: puback_client_def zero_client_def hal_start_def)
  moreover have "MQTT_HEADER_GET_TYPE 0x40 = PUBACK" by (simp add: header_defs)
  ultimately obtain u m n b w where
    r: "iotx_mc_read_packet ?E \<lparr>time = 2000\<rparr> None puback_client = Some ((0, Some PUBACK),
      puback_client\<lparr>n_uptime := u, n_malloc := m, n_read := n, buf_read := Some b, buf_size_read := w\<rparr>)"
    and b: "take (length [0x40, 2, 0, 7 :: byte]) b = [0x40, 2, 0, 7]"
    using read_packet_receives [of ?E puback_client "0x40" "[0, 7]" "\<lparr>time = 2000\<rparr>" None]
    by (auto simp: encode_2)
  have "take 4 b = [0x40, 2, 0, 7]" using b by (simp add: numeral_eq_Suc)
  then show ?thesis using r by simp
qed


subsection \<open>No read or write outside the receive buffer\<close>

text \<open>The client \<open>c\<close> holds a receive buffer of \<open>n\<close> bytes, and is otherwise like \<open>c0\<close>.\<close>

definition receiving :: "iotx_mc_client_t \<Rightarrow> nat \<Rightarrow> iotx_mc_client_t \<Rightarrow> bool" where
  "receiving c0 n c \<longleftrightarrow> held c = held c0 \<and> buf_size_read_max c = buf_size_read_max c0 \<and>
     unat (buf_size_read c) = n \<and> (\<exists>b. buf_read c = Some b \<and> length b = n)"

lemma receiving_simps [simp]:
  "receiving c0 n (c\<lparr>n_uptime := u\<rparr>) = receiving c0 n c" "receiving c0 n (c\<lparr>n_malloc := u\<rparr>) = receiving c0 n c"
  "receiving c0 n (c\<lparr>n_read := u\<rparr>) = receiving c0 n c"
  by (simp_all add: receiving_def)

lemma returns_bindI: "returns Q m \<Longrightarrow> (\<And>x. Q x \<Longrightarrow> returns P (f x)) \<Longrightarrow> returns P (Option.bind m f)"
  by (auto simp: returns_def)

named_theorems safe \<open>rules that split a goal about an operation returning along its program text\<close>

lemma returns_if [safe]: "(b \<Longrightarrow> returns P x) \<Longrightarrow> (\<not> b \<Longrightarrow> returns P y) \<Longrightarrow> returns P (if b then x else y)"
  by simp

lemma returns_case_prod [safe]: "(\<And>a b. x = (a, b) \<Longrightarrow> returns P (f a b)) \<Longrightarrow> returns P (case x of (a, b) \<Rightarrow> f a b)"
  by (cases x) simp

lemma returns_case_prod_app [safe]:
  "(\<And>a b. x = (a, b) \<Longrightarrow> returns P (f a b y)) \<Longrightarrow> returns P ((case x of (a, b) \<Rightarrow> f a b) y)"
  by (cases x) simp

lemma returns_bind_if [safe]:
  "(b \<Longrightarrow> returns P (Option.bind m f)) \<Longrightarrow> (\<not> b \<Longrightarrow> returns P (Option.bind m' f)) \<Longrightarrow>
    returns P (Option.bind (if b then m else m') f)"
  by simp

lemma returns_bind_Some [safe]: "returns P (f x) \<Longrightarrow> returns P (Option.bind (Some x) f)"
  by simp

lemma returns_SomeI [safe]: "P x \<Longrightarrow> returns P (Some x)"
  by simp

lemma alloc_recv_returns:
  assumes "buf_ok (buf_read c) (buf_size_read c)" "0 \<le> len" "len < 2 ^ 31" "held c = held c0"
    "buf_size_read_max c = buf_size_read_max c0"
  shows "returns (\<lambda>(rc, c'). if rc < 0 then held c' = held c0
      else receiving c0 (min (unat (buf_size_read_max c)) (8 + nat len)) c') (alloc_recv_buffer E len c)"
proof -
  let ?E = "E\<lparr>env_malloc := \<lambda>n s. True\<rparr>"
  define w where "w = (if buf_size_read_max c < word_of_int (8 + len) then buf_size_read_max c else word_of_int (8 + len))"
  show ?thesis
  proof (cases "env_malloc E (n_malloc c) (uint w)")
    case True
    then have m: "alloc_recv_buffer E len c = alloc_recv_buffer ?E len c"
      unfolding alloc_recv_buffer_def Let_def w_def [symmetric] by (simp add: HAL_Malloc_def)
    show ?thesis unfolding m
      using alloc_recv_eq [of ?E len c] assms by (fastforce simp: receiving_def)
  next
    case False
    then have "alloc_recv_buffer E len c = Some (-1014, c\<lparr>n_malloc := Suc (n_malloc c)\<rparr>)"
      unfolding alloc_recv_buffer_def Let_def w_def [symmetric] by (simp add: HAL_Malloc_def)
    then show ?thesis using assms by simp
  qed
qed

lemma read_into_returns:
  assumes "reads_ok E" "receiving c0 n c" "0 \<le> len" "off + nat len \<le> n"
  shows "returns (\<lambda>(rc, c'). receiving c0 n c') (read_into E off len tm c)"
proof -
  obtain b where b: "buf_read c = Some b" "length b = n" using assms(2) by (auto simp: receiving_def)
  obtain rc bs where r: "env_read E (n_read c) len tm = (rc, bs)" by (cases "env_read E (n_read c) len tm")
  then show ?thesis using assms(2-4) b
    by (auto simp: read_into_def net_read_def wr_block_def receiving_def)
qed

lemma decode_packet_returns:
  assumes E: "reads_ok E"
  shows "0 \<le> v \<Longrightarrow> v < 128 ^ len \<Longrightarrow> mult = 128 ^ len \<Longrightarrow>
    returns (\<lambda>(rc, v, c'). (0 \<le> rc \<longrightarrow> 0 \<le> v \<and> v < 268435456) \<and> (\<forall>c0 n. receiving c0 n c \<longrightarrow> receiving c0 n c'))
      (decode_packet_loop E tm len mult v c)"
proof (induction "4 - len" arbitrary: len mult v c)
  case 0
  then have "4 < Suc len" by simp
  then show ?case by (auto simp: decode_packet_loop.simps [of _ _ len])
next
  case (Suc k)
  then have len: "len < 4" by simp
  obtain rc bs where r: "env_read E (n_read c) 1 (if tm = 0 then 1 else tm) = (rc, bs)"
    by (cases "env_read E (n_read c) 1 (if tm = 0 then 1 else tm)")
  show ?case
  proof (cases "rc = 1")
    case False
    then show ?thesis using len r
      by (auto simp: decode_packet_loop.simps [of _ _ len] net_read_def)
  next
    case True
    then have "length bs = 1" using reads_okD(2) [OF E r] by simp
    then obtain i where bs: "bs = [i]" by (cases bs) auto
    let ?v = "v + uint (i AND 127) * mult"
    let ?c = "c\<lparr>n_read := Suc (n_read c)\<rparr>"
    have "uint (i AND 127) \<le> 127" using word_and_le1 [of i 127] by (simp add: word_le_def)
    then have "uint (i AND 127) * mult \<le> 127 * mult" using Suc.prems(3) by (intro mult_right_mono) auto
    moreover have "0 \<le> uint (i AND 127) * mult" using Suc.prems(3) by simp
    ultimately have "0 \<le> ?v" "?v < mult + 127 * mult" using Suc.prems by linarith+
    then have v: "0 \<le> ?v" "?v < 128 ^ Suc len" using Suc.prems(3) by simp_all
    have "(128::int) ^ Suc len \<le> 128 ^ 4" using len by (intro power_increasing) auto
    then have v4: "?v < 268435456" using v(2) by simp
    have "returns (\<lambda>(rc, v, c'). (0 \<le> rc \<longrightarrow> 0 \<le> v \<and> v < 268435456) \<and> (\<forall>c0 n. receiving c0 n ?c \<longrightarrow> receiving c0 n c'))
      (decode_packet_loop E tm (Suc len) (mult * 128) ?v ?c)"
      using Suc.hyps v Suc.prems(3) by (intro Suc.hyps(1)) auto
    then show ?thesis using len r True bs v(1) v4
      by (auto simp: Let_def decode_packet_loop.simps [of _ _ len] net_read_def)
  qed
qed


lemma unlock_returns [safe]: "LockReadBuf \<in> held c \<Longrightarrow> P (r, c\<lparr>held := held c - {LockReadBuf}\<rparr>) \<Longrightarrow>
    returns P (unlock_return LockReadBuf r c)"
  by (simp add: unlock_return_def HAL_MutexUnlock_def)

lemma unlock_bind_returns [safe]:
  "m \<in> held c \<Longrightarrow> returns P (f (c\<lparr>held := held c - {m}\<rparr>)) \<Longrightarrow> returns P (Option.bind (HAL_MutexUnlock m c) f)"
  by (simp add: HAL_MutexUnlock_def)

lemma receiving_step:
  "time_left_or_1 E timer c = (t, c') \<Longrightarrow> \<forall>c0 n. receiving c0 n c' = receiving c0 n c"
  "HAL_Malloc E sz c = (al, c') \<Longrightarrow> \<forall>c0 n. receiving c0 n c' = receiving c0 n c"
  "net_read E len tm c = (r, c') \<Longrightarrow> \<forall>c0 n. receiving c0 n c' = receiving c0 n c"
  by (auto dest!: time_frame(2) simp: HAL_Malloc_def net_read_def split: prod.splits)

lemma receiving_held: "receiving c0 n c \<Longrightarrow> LockReadBuf \<in> held c0 \<Longrightarrow> LockReadBuf \<in> held c"
  by (simp add: receiving_def)

definition handlers_return :: "'e mqtt_environment_scheme \<Rightarrow> bool" where
  "handlers_return E = (\<forall>f ctx m c. env_handler E f ctx m c \<noteq> None)"

lemma call_handler_returns: "handlers_return E \<Longrightarrow> returns (\<lambda>_. True) (call_handler E h m c)"
  by (cases "h_fp h") (fastforce simp: handlers_return_def call_handler_def returns_def bind_eq_Some_conv)+

lemma read_overflow_returns:
  assumes E: "reads_ok E" "handlers_return E" and c: "receiving c0 n c" "LockReadBuf \<in> held c0"
    and len: "0 \<le> len" "len \<le> int n"
  shows "returns (\<lambda>_. True) (read_packet_overflow E timer pt len rem c)"
proof -
  have n: "uint (buf_size_read c) = int n" using c(1) by (auto simp: receiving_def)
  have [simp]: "nat len + nat (int n - len) \<le> n" using len by arith
  note [safe] = returns_bindI [OF read_into_returns [OF E(1), of c0 n]] returns_bindI [OF call_handler_returns [OF E(2)]]
  show ?thesis
    unfolding read_packet_overflow_def Let_def n
    by (intro safe; ((drule receiving_step)+)?; simp add: c len receiving_held [OF _ c(2)])
qed


lemma receiving_ok: "receiving c0 n c \<Longrightarrow> buf_ok (buf_read c) (buf_size_read c)"
  by (auto simp: receiving_def)

lemma wr_block_returns:
  "receiving c0 n c \<Longrightarrow> off + length bs \<le> n \<Longrightarrow>
    returns (\<lambda>b. receiving c0 n (c\<lparr>buf_read := b\<rparr>)) (wr_block (buf_read c) off bs)"
  by (auto simp: receiving_def)

lemma read_body_returns:
  assumes E: "reads_ok E" "handlers_return E" and c: "receiving c0 n c" "LockReadBuf \<in> held c0"
    and n: "2 \<le> n" "int n = int M \<or> rem + len \<le> int n" "len \<le> int M" and len: "0 \<le> len" "0 \<le> rem" "len \<le> 5" "5 \<le> M"
  shows "returns (\<lambda>_. True)
    (if 0 < rem \<and> uint (buf_size_read c) < rem + len then read_packet_overflow E timer pt len rem c
     else case time_left_or_1 E timer c of (left_t, c) \<Rightarrow>
       do { (rc, c) \<leftarrow> read_into E (nat len) rem left_t c;
            (if 0 < rem \<and> rc < 0 then unlock_return LockReadBuf (-14, pt) c
             else if 0 < rem \<and> rc \<noteq> rem then unlock_return LockReadBuf (-1, pt) c
             else do {
               header \<leftarrow> rd8 (read_bytes c) 0;
               b \<leftarrow> (if len + rem < uint (buf_size_read c)
                     then wr_block (buf_read c) (nat (len + rem)) [0] else Some (buf_read c));
               unlock_return LockReadBuf (0, Some (MQTT_HEADER_GET_TYPE header)) (c\<lparr>buf_read := b\<rparr>) }) })"
proof -
  have sz: "uint (buf_size_read c) = int n" if "receiving c0 n c" for c using that by (auto simp: receiving_def)
  have hd: "\<exists>x. rd8 (read_bytes c) 0 = Some x" if "receiving c0 n c" for c
    using that n(1) by (auto simp: receiving_def rd8_def)
  note h = receiving_held [OF _ c(2)]
  show ?thesis
  proof (cases "0 < rem \<and> int n < rem + len")
    case True
    then have "len \<le> int n" using n by auto
    then show ?thesis using True read_overflow_returns [OF E c len(1)] by (simp add: sz [OF c(1)])
  next
    case False
    have fits: "nat len + nat rem \<le> n" using False n len by auto
    obtain t c1 where t: "time_left_or_1 E timer c = (t, c1)" by (cases "time_left_or_1 E timer c")
    then have c1: "receiving c0 n c1" using receiving_step(1) [OF t] c(1) by simp
    obtain rc c2 where r: "read_into E (nat len) rem t c1 = Some (rc, c2)" and c2: "receiving c0 n c2"
      using read_into_returns [OF E(1) c1 len(2) fits, of t] by (auto simp: returns_def)
    obtain x where x: "rd8 (read_bytes c2) 0 = Some x" using hd [OF c2] by blast
    have "returns (\<lambda>b. receiving c0 n (c2\<lparr>buf_read := b\<rparr>))
       (if len + rem < int n then wr_block (buf_read c2) (nat (len + rem)) [0] else Some (buf_read c2))"
      using wr_block_returns [OF c2, of "nat (len + rem)" "[0]"] len c2 by (auto simp: receiving_def)
    then show ?thesis using False c2
      by (auto simp: t r x sz [OF c(1)] sz [OF c2] h intro!: safe elim!: returns_bindI)
  qed
qed


lemma read_rest_returns:
  assumes E: "reads_ok E" "handlers_return E" and c: "receiving c0 n c" "LockReadBuf \<in> held c0"
    and n: "n = min M 8" "5 \<le> M" "M = unat (buf_size_read_max c0)"
    and rem: "0 \<le> rem" "rem < 268435456"
  shows "returns (\<lambda>_. True)
    (do { b \<leftarrow> wr_block (buf_read c) 1 (MQTTPacket_encode rem);
          let c = c\<lparr>buf_read := b\<rparr>;
          let len = 1 + int (length (MQTTPacket_encode rem));
          (rc, c) \<leftarrow> alloc_recv_buffer E (rem + len) c;
          (if rc < 0 then unlock_return LockReadBuf (-1, pt) c
           else if 0 < rem \<and> uint (buf_size_read c) < rem + len then read_packet_overflow E timer pt len rem c
           else case time_left_or_1 E timer c of (left_t, c) \<Rightarrow>
             do { (rc, c) \<leftarrow> read_into E (nat len) rem left_t c;
                  (if 0 < rem \<and> rc < 0 then unlock_return LockReadBuf (-14, pt) c
                   else if 0 < rem \<and> rc \<noteq> rem then unlock_return LockReadBuf (-1, pt) c
                   else do {
                     header \<leftarrow> rd8 (read_bytes c) 0;
                     b \<leftarrow> (if len + rem < uint (buf_size_read c)
                           then wr_block (buf_read c) (nat (len + rem)) [0] else Some (buf_read c));
                     unlock_return LockReadBuf (0, Some (MQTT_HEADER_GET_TYPE header)) (c\<lparr>buf_read := b\<rparr>) }) }) })"
proof -
  define k where "k = length (MQTTPacket_encode rem)"
  have k: "1 \<le> k" "k \<le> 4" using length_encode_le [of rem 3] rem by (simp_all add: k_def Suc_le_eq)
  have fits: "1 + k \<le> n" using n(1,2) k by auto
  obtain b where w: "wr_block (buf_read c) 1 (MQTTPacket_encode rem) = Some b" and c1: "receiving c0 n (c\<lparr>buf_read := b\<rparr>)"
    using wr_block_returns [OF c(1), of 1 "MQTTPacket_encode rem"] fits by (auto simp: returns_def k_def)
  let ?c1 = "c\<lparr>buf_read := b\<rparr>"
  have m1: "held ?c1 = held c0" "buf_size_read_max ?c1 = buf_size_read_max c0" using c1 by (auto simp: receiving_def)
  obtain rc c2 where a: "alloc_recv_buffer E (rem + (1 + int k)) ?c1 = Some (rc, c2)"
    and c2: "rc < 0 \<longrightarrow> held c2 = held c0"
      "\<not> rc < 0 \<longrightarrow> receiving c0 (min M (8 + nat (rem + (1 + int k)))) c2"
    using alloc_recv_returns [OF receiving_ok [OF c1] _ _ m1, of "rem + (1 + int k)" E] rem k m1(2) n(3)
    by (auto simp: returns_def split: if_splits)
  show ?thesis
  proof (cases "rc < 0")
    case True
    then show ?thesis using c2(1) c(2)
      unfolding w Option.bind_lunit Let_def k_def [symmetric] a prod.case
      by (simp add: unlock_return_def HAL_MutexUnlock_def)
  next
    case False
    then have c2': "receiving c0 (min M (8 + nat (rem + (1 + int k)))) c2" using c2(2) by simp
    have body: "2 \<le> min M (8 + nat (rem + (1 + int k)))"
      "int (min M (8 + nat (rem + (1 + int k)))) = int M \<or>
        rem + (1 + int k) \<le> int (min M (8 + nat (rem + (1 + int k))))"
      "1 + int k \<le> int M" "0 \<le> 1 + int k" "1 + int k \<le> 5"
      using n(2) k rem by auto
    show ?thesis
      unfolding w Option.bind_lunit Let_def k_def [symmetric] a prod.case if_not_P [OF False]
      using read_body_returns [OF E c2' c(2) body(1-4) rem(1) body(5) n(2)] by simp
  qed
qed

lemma read_packet_returns:
  assumes E: "reads_ok E" "handlers_return E" and c: "LockReadBuf \<notin> held c"
    and b: "buf_ok (buf_read c) (buf_size_read c)" "5 \<le> buf_size_read_max c"
  shows "returns (\<lambda>_. True) (iotx_mc_read_packet E timer pt c)"
proof -
  define c0 where "c0 = c\<lparr>held := insert LockReadBuf (held c)\<rparr>"
  define M where "M = unat (buf_size_read_max c0)"
  have M: "5 \<le> M" using b(2) by (simp add: M_def word_le_nat_alt c0_def)
  have lock: "HAL_MutexLock LockReadBuf c = Some c0" using c by (simp add: HAL_MutexLock_def c0_def)
  have c0: "LockReadBuf \<in> held c0" by (simp add: c0_def)
  note h = receiving_held [OF _ c0]
  have b0: "buf_ok (buf_read c0) (buf_size_read c0)" using b by (simp add: c0_def)
  have a0: "returns (\<lambda>(rc, c'). if rc < 0 then held c' = held c0 else receiving c0 (min M 8) c') (alloc_recv_buffer E 0 c0)"
    using alloc_recv_returns [OF b0 _ _ refl refl, of 0 E] by (simp add: M_def cong: if_cong)
  have d: "returns (\<lambda>(rc, v, c'). (0 \<le> rc \<longrightarrow> 0 \<le> v \<and> v < 268435456) \<and> (\<forall>c0 n. receiving c0 n c \<longrightarrow> receiving c0 n c'))
      (iotx_mc_decode_packet E t c)" for t c
    using decode_packet_returns [OF E(1), of 0 0 1 c t] by (simp add: iotx_mc_decode_packet_def)
  show ?thesis
  proof -
    obtain rc1 c1 where a: "alloc_recv_buffer E 0 c0 = Some (rc1, c1)"
      and c1: "if rc1 < 0 then held c1 = held c0 else receiving c0 (min M 8) c1"
      using a0 by (auto simp: returns_def)
    show ?thesis
    proof (cases "rc1 < 0")
      case True
      then show ?thesis using c1 c0
        unfolding iotx_mc_read_packet_def lock Option.bind_lunit a by (auto intro!: safe)
    next
      case False
      then have c1: "receiving c0 (min M 8) c1" using c1 by simp
      obtain t1 c2 where t1: "time_left_or_1 E timer c1 = (t1, c2)" by (cases "time_left_or_1 E timer c1")
      have c2: "receiving c0 (min M 8) c2" using receiving_step(1) [OF t1] c1 by simp
      obtain rc3 c3 where r: "read_into E 0 1 t1 c2 = Some (rc3, c3)" and c3: "receiving c0 (min M 8) c3"
        using read_into_returns [OF E(1) c2, of 1 0 t1] M by (auto simp: returns_def)
      obtain t3 c4 where t3: "time_left_or_1 E timer c3 = (t3, c4)" by (cases "time_left_or_1 E timer c3")
      have c4: "receiving c0 (min M 8) c4" using receiving_step(1) [OF t3] c3 by simp
      obtain rc5 v c5 where dd: "iotx_mc_decode_packet E t3 c4 = Some (rc5, v, c5)"
        and v: "0 \<le> rc5 \<Longrightarrow> 0 \<le> v \<and> v < 268435456" and c5: "receiving c0 (min M 8) c5"
        using d [of c4 t3] c4 by (auto simp: returns_def)
      show ?thesis
        unfolding iotx_mc_read_packet_def lock Option.bind_lunit a prod.case if_not_P [OF False] Let_def t1 r t3 dd
        using read_rest_returns [OF E c5 c0 refl M M_def, of v pt timer, unfolded Let_def] v
        by (intro returns_if unlock_returns receiving_held [OF c3 c0] receiving_held [OF c5 c0]) auto
    qed
  qed
qed


text \<open>
  C13: receiving is memory safe.  Whatever the network answers (time-outs, errors, short reads, an
  unfinished or over-long length, a packet larger than the buffer), whatever the allocator gives and
  whatever the clock shows, \<open>iotx_mc_read_packet\<close> returns: it never reads or writes outside the
  buffer and the loop over the length bytes ends; provided the read buffer may grow to 5 bytes, a
  read stores as many bytes as it reports, and the event handlers return.
\<close>

theorem read_packet_safe:
  assumes "reads_ok E" and "handlers_return E" and "LockReadBuf \<notin> held c"
    and "buf_ok (buf_read c) (buf_size_read c)" and "5 \<le> buf_size_read_max c"
  shows "iotx_mc_read_packet E timer pt c \<noteq> None"
  using read_packet_returns [OF assms] by (auto simp: returns_def)

text \<open>A network that answers every read with bytes 0xFF, so that the length never ends.\<close>

definition hostile_env :: environment where
  "hostile_env = sample_env\<lparr>env_read := (\<lambda>n len t. (int (nat len), replicate (nat len) 0xFF))\<rparr>"

theorem read_packet_safe_witness:
  "iotx_mc_read_packet (environment.extend hostile_env \<lparr>env_handler = (\<lambda>f x m c. Some c)\<rparr>)
     \<lparr>time = 2000\<rparr> None puback_client \<noteq> None"
  by (rule read_packet_safe)
    (auto simp: reads_ok_def handlers_return_def hostile_env_def sample_env_def environment.defs
      puback_client_def zero_client_def hal_start_def)

text \<open>
  With a read buffer of at most 4 bytes receiving is not memory safe, although \<open>iotx_mc_init\<close>
  refuses only a size of 0: a packet whose length takes as many bytes as the whole buffer makes the
  code write the length past the end of the buffer.
\<close>

theorem small_read_buffer_overruns:
  assumes "delivers_packet E (n_read c) h payload" and "\<And>n s. env_malloc E n s"
    and "LockReadBuf \<notin> held c" and "buf_read c = None" and "length payload < 268435456"
    and "0 < buf_size_read_max c"
    and "unat (buf_size_read_max c) \<le> length (MQTTPacket_encode (int (length payload)))"
  shows "iotx_mc_read_packet E timer pt c = None"
proof -
  define L where "L = length payload"
  define k where "k = length (MQTTPacket_encode (int L))"
  have k: "1 \<le> k" "k \<le> 4" using length_encode_le [of "int L" 3] assms(5)
    by (simp_all add: k_def L_def Suc_le_eq)
  define c0 where "c0 = c\<lparr>held := insert LockReadBuf (held c)\<rparr>"
  have lock: "HAL_MutexLock LockReadBuf c = Some c0" using assms(3) by (simp add: HAL_MutexLock_def c0_def)
  define N where "N = min (unat (buf_size_read_max c)) 8"
  have "0 < unat (buf_size_read_max c)" using assms(6) by (simp add: word_less_nat_alt)
  then have N: "1 \<le> N" "N < 1 + k" using assms(7) by (auto simp: N_def k_def L_def)
  obtain b0 w0 c1 where a: "alloc_recv_buffer E 0 c0 = Some (0, c1)"
    and c1: "c1 = c0\<lparr>n_malloc := Suc (n_malloc c), buf_read := Some b0, buf_size_read := w0\<rparr>"
    and b0: "length b0 = N"
    using alloc_recv_eq [OF assms(2), of 0 c0] assms(4) by (auto simp: N_def c0_def)
  obtain t1 u1 where t1: "time_left_or_1 E timer c1 = (t1, c1\<lparr>n_uptime := u1\<rparr>)" using time_left_eq by blast
  define c2 where "c2 = c1\<lparr>n_uptime := u1, n_read := Suc (n_read c), buf_read := Some (h # drop 1 b0)\<rparr>"
  have r1: "read_into E 0 1 t1 (c1\<lparr>n_uptime := u1\<rparr>) = Some (1, c2)"
    using read_into_eq [of "c1\<lparr>n_uptime := u1\<rparr>" b0 0 "[h]" E t1 1] assms(1) N b0
    by (simp add: delivers_packet_def Let_def c0_def c1 c2_def)
  obtain t2 u2 where t2: "time_left_or_1 E timer c2 = (t2, c2\<lparr>n_uptime := u2\<rparr>)" using time_left_eq by blast
  define c3 where "c3 = c2\<lparr>n_uptime := u2, n_read := Suc (n_read c) + k\<rparr>"
  have d: "iotx_mc_decode_packet E t2 (c2\<lparr>n_uptime := u2\<rparr>) = Some (int k, int L, c3)"
    using decode_packet_reads [of "int L" 0 E "c2\<lparr>n_uptime := u2\<rparr>" t2 1 0] assms(1) k
    by (simp add: iotx_mc_decode_packet_def delivers_packet_def Let_def k_def L_def c2_def c3_def)
  have w: "wr_block (buf_read c3) (Suc 0) (MQTTPacket_encode (int L)) = None"
    using N b0 by (simp add: wr_block_def c3_def c2_def k_def)
  show ?thesis
    unfolding iotx_mc_read_packet_def using k
    by (simp add: lock a t1 r1 t2 d w)
qed

theorem small_read_buffer_overruns_witness:
  "iotx_mc_read_packet (environment.extend puback_env \<lparr>env_handler = (\<lambda>f x m c. Some c)\<rparr>)
     \<lparr>time = 2000\<rparr> None (puback_client\<lparr>buf_size_read_max := 1\<rparr>) = None"
  by (rule small_read_buffer_overruns [of _ _ "0x40" "[0, 7]"])
    (auto simp: delivers_packet_def encode_2 puback_env_def sample_env_def environment.defs
      puback_client_def zero_client_def hal_start_def)

end
