(* ===== verification/IdSource.thy ===== *)
theory IdSource
  imports Prelude
begin

text \<open>
  The contract of the generators of message identifiers (\<open>iotx_mc_get_next_packetid\<close> of MQTT,
  \<open>CoAPMessageId_gen\<close> of CoAP): identifiers are never zero and fit in their range.  A generator that
  counts through its whole range also repeats no identifier before all others were used.
\<close>

fun draw :: "('s \<Rightarrow> ('i \<times> 's) option) \<Rightarrow> nat \<Rightarrow> 's \<Rightarrow> ('i list \<times> 's) option" where
  "draw gen 0 s = Some ([], s)"
| "draw gen (Suc n) s = do { (i, s) \<leftarrow> gen s; (is, s) \<leftarrow> draw gen n s; Some (i # is, s) }"

locale id_source =
  fixes gen :: "'s \<Rightarrow> ('i \<times> 's) option" and val :: "'i \<Rightarrow> nat" and inv :: "'s \<Rightarrow> bool" and N :: nat
  assumes range: "inv s \<Longrightarrow> gen s = Some (i, s') \<Longrightarrow> 0 < val i \<and> val i \<le> N"
    and keeps: "inv s \<Longrightarrow> gen s = Some (i, s') \<Longrightarrow> inv s'"
begin

lemma draw_range:
  "draw gen n s = Some (is, s') \<Longrightarrow> inv s \<Longrightarrow>
     inv s' \<and> length is = n \<and> (\<forall>i \<in> set is. 0 < val i \<and> val i \<le> N)"
proof (induction n arbitrary: s "is")
  case (Suc n)
  then obtain i s1 js where i: "gen s = Some (i, s1)" "draw gen n s1 = Some (js, s')" "is = i # js"
    by (auto simp: bind_eq_Some_conv)
  show ?case
    using Suc.IH [OF i(2) keeps [OF Suc.prems(2) i(1)]] range [OF Suc.prems(2) i(1)] i(3) by simp
qed simp

end

locale cyclic_ids = id_source +
  fixes cur :: "'s \<Rightarrow> nat"
  assumes step: "inv s \<Longrightarrow> gen s = Some (i, s') \<Longrightarrow> val i = cur s mod N + 1 \<and> cur s' = val i"
begin

lemma draw_nth:
  "draw gen n s = Some (is, s') \<Longrightarrow> inv s \<Longrightarrow> k < n \<Longrightarrow> val (is ! k) = (cur s + k) mod N + 1"
proof (induction n arbitrary: s "is" k)
  case (Suc n)
  then obtain i s1 js where i: "gen s = Some (i, s1)" "draw gen n s1 = Some (js, s')" "is = i # js"
    by (auto simp: bind_eq_Some_conv)
  note st = step [OF Suc.prems(2) i(1)]
  show ?case
  proof (cases k)
    case 0 then show ?thesis using st i(3) by simp
  next
    case (Suc j)
    have "val (js ! j) = (cur s1 + j) mod N + 1"
      using Suc.IH [OF i(2) keeps [OF Suc.prems(2) i(1)]] Suc.prems(3) Suc by simp
    also have "(cur s1 + j) mod N = (cur s + k) mod N"
      using st Suc by (metis Suc_eq_plus1 add.assoc add_Suc_right mod_add_left_eq plus_1_eq_Suc)
    finally show ?thesis using i(3) Suc by simp
  qed
qed simp

lemma draw_distinct:
  assumes "draw gen n s = Some (is, s')" and "inv s" and "n \<le> N"
  shows "distinct (map val is)"
proof -
  have len: "length is = n" using draw_range [OF assms(1,2)] by simp
  have "val (is ! j) \<noteq> val (is ! k)" if "j < k" "k < n" for j k
  proof
    assume "val (is ! j) = val (is ! k)"
    then have "(cur s + j) mod N = (cur s + k) mod N"
      using draw_nth [OF assms(1,2)] that by simp
    then have "N dvd (cur s + k) - (cur s + j)"
      using that by (metis add_le_cancel_left less_imp_le mod_eq_dvd_iff_nat)
    then show False using that assms(3) using nat_dvd_not_less [of "k - j" N] by auto
  qed
  then show ?thesis
    by (simp add: distinct_conv_nth len) (metis linorder_neqE_nat)
qed

end

end
