(* ===== verification/MqttFlow.thy ===== *)
theory MqttFlow
  imports MqttExchange IdSource
begin

text \<open>
  What the client's operations achieve: packet ids, publishing with QoS 1 and the list of messages
  waiting for their acknowledgement, the reconnect interval, keep-alive, unsubscribing, and the
  delivery of a received message to the handlers of the matching subscriptions.
\<close>

subsection \<open>What sending leaves alone\<close>

definition platform_only :: "iotx_mc_client_t \<Rightarrow> iotx_mc_client_t \<Rightarrow> bool" where
  "platform_only c c' \<longleftrightarrow> hal.more c' = hal.more c \<and> held c' = held c"

lemma platform_only_refl [simp]: "platform_only c c"
  by (simp add: platform_only_def)

lemma platform_only_trans: "platform_only a b \<Longrightarrow> platform_only b c \<Longrightarrow> platform_only a c"
  by (simp add: platform_only_def)

lemma platform_only_fields:
  assumes "platform_only c c'"
  shows "held c' = held c" "locks c' = locks c" "packet_id c' = packet_id c"
    "request_timeout_ms c' = request_timeout_ms c" "keepalive_probes c' = keepalive_probes c"
    "buf_size_send c' = buf_size_send c" "buf_size_send_max c' = buf_size_send_max c"
    "buf_size_read c' = buf_size_read c" "buf_size_read_max c' = buf_size_read_max c"
    "buf_send c' = buf_send c" "buf_read c' = buf_read c" "list_sub_handle c' = list_sub_handle c"
    "client_state c' = client_state c" "reconnect_param c' = reconnect_param c"
    "connect_data c' = connect_data c" "list_pub_wait_ack c' = list_pub_wait_ack c"
    "list_sub_sync_ack c' = list_sub_sync_ack c" "handle_event c' = handle_event c"
    "next_ping_time c' = next_ping_time c" "ping_mark c' = ping_mark c" "in_yield_cb c' = in_yield_cb c"
  using assms by (cases c; cases c'; simp add: platform_only_def)+

lemma platform_only_hal [simp]:
  "platform_only c (c\<lparr>n_uptime := u\<rparr>)" "platform_only c (c\<lparr>n_write := u\<rparr>)"
  "platform_only c (c\<lparr>n_malloc := u\<rparr>)" "platform_only c (c\<lparr>effects := e\<rparr>)" "platform_only c (c\<lparr>n_read := u\<rparr>)"
  by (simp_all add: platform_only_def)

lemma platform_only_clock:
  "utils_time_is_expired E timer c = (b, c') \<Longrightarrow> platform_only c c' \<and> effects c' = effects c"
  "time_left_or_1 E timer c = (t, c') \<Longrightarrow> platform_only c c' \<and> effects c' = effects c"
  "utils_time_countdown_ms E ms c = (tm, c') \<Longrightarrow> platform_only c c' \<and> effects c' = effects c"
  "iotx_time_start E c = (tm, c') \<Longrightarrow> platform_only c c' \<and> effects c' = effects c"
  "utils_time_spend E tm c = (t, c') \<Longrightarrow> platform_only c c' \<and> effects c' = effects c"
  "HAL_Malloc E sz c = (al, c') \<Longrightarrow> platform_only c c' \<and> effects c' = effects c"
  by (auto simp: timer_defs HAL_UptimeMs_def HAL_Malloc_def time_left_or_1_def platform_only_def
      split: prod.splits if_splits)

lemma platform_only_net:
  "net_write E d t c = (rc, c') \<Longrightarrow> platform_only c c'"
  by (auto simp: net_write_def Let_def platform_only_def)

lemma send_loop_frame:
  "send_loop E buf len timer sent c = Some r \<Longrightarrow> platform_only c (snd r)"
proof (induct rule: send_loop.raw_induct [rotated, consumes 1, case_names step])
  case (step send_loop E buf len timer sent c r)
  have [vcg]: "(\<And>r. platform_only c (snd r) \<Longrightarrow> P r) \<Longrightarrow> ok P (send_loop E buf len timer sent c)"
    for P E buf len timer sent c
    using step(1) by (auto simp: ok_def)
  have "ok (\<lambda>r. platform_only c (snd r)) (Some r)"
    unfolding step(2) [symmetric]
    by (intro vcg_pairs vcg; ((drule platform_only_clock platform_only_net)+)?; simp add: platform_only_def)
  then show ?case by simp
qed

lemma send_packet_frame:
  "iotx_mc_send_packet E buf len timer c = Some (rc, c') \<Longrightarrow> platform_only c c'"
  by (auto simp: iotx_mc_send_packet_def bind_eq_Some_conv split: option.splits dest: send_loop_frame)

lemma send_packet_success:
  assumes "iotx_mc_send_packet E (Some buf) len timer c = Some (0, c')" "writes_ok E" "0 \<le> len" "len \<le> int (length buf)"
  shows "platform_only c c' \<and> written (effects c') = written (effects c) @ take (nat len) buf"
proof -
  obtain sent where s: "send_loop E buf len timer 0 c = Some (sent, c')" "sent = len"
    using assms(1) by (auto simp: iotx_mc_send_packet_def bind_eq_Some_conv split: if_splits)
  show ?thesis
    using send_loop_written [OF s(1) assms(2)] assms(3,4) send_loop_frame [OF s(1)] s(2) by simp
qed


subsection \<open>A packet in the send buffer\<close>

lemma sint_nonneg_uint:
  fixes w :: u32
  assumes "0 \<le> sint w"
  shows "sint w = uint w"
proof -
  have "sint w < 2147483648" using sint_lt [of w] by simp
  then show ?thesis using assms uint_sint [of w] by (simp add: take_bit_eq_mod)
qed

lemma sint_small:
  fixes w :: u32
  assumes "unat w < 2147483648"
  shows "sint w = int (unat w)"
proof -
  have "int (unat w) = uint w" by simp
  then have "uint w < 2147483648" using assms by linarith
  moreover have "- (2 ^ 31) \<le> uint w" by (rule order_trans [of _ 0]) simp_all
  ultimately have "signed_take_bit 31 (uint w) = uint w" by (intro signed_take_bit_int_eq_self) simp_all
  then show ?thesis by (simp add: sint_uint)
qed

context mqtt_serializer begin

lemma out_length:
  assumes "valid x"
  shows "length (first x # MQTTPacket_encode (int (length (body x))) @ body x) \<le> 5 + length (body x)"
  using length_encode_le [of "int (length (body x))" 3] limit [OF assms] body_len [OF assms] by simp

lemma send_success:
  assumes "serialize_to_send ser x c = Some (len, c')" "0 < len" "valid x"
  defines "out \<equiv> first x # MQTTPacket_encode (int (length (body x))) @ body x"
  shows "len = int (length out) \<and>
    (\<exists>b. c' = c\<lparr>buf_send := Some b\<rparr> \<and> length out \<le> length b \<and> take (length out) b = out)"
proof -
  obtain out' where s: "ser (sint (buf_size_send c)) x = Some (len, out')"
    and w: "wr_block (buf_send c) 0 out' = Some (buf_send c')" "c' = c\<lparr>buf_send := buf_send c'\<rparr>"
    using assms(1) by (auto simp: serialize_to_send_def bind_eq_Some_conv)
  have out': "out' = out" using positive_framed [OF assms(3) s assms(2)] by (simp add: out_def)
  have "len = int (length out)" using no_overflow(3) [OF assms(3) s] assms(2) out' by simp
  moreover obtain b where b: "buf_send c = Some b" using w(1) by (cases "buf_send c") (auto simp: wr_block_def out' out_def)
  have "buf_send c' = Some (out @ drop (length out) b) \<and> length out \<le> length b"
    using w(1) by (auto simp: b out' wr_block_def split: if_splits)
  ultimately show ?thesis using w(2) by auto
qed

lemma send_runs:
  fixes c :: iotx_mc_client_t
  assumes "valid x" and "buf_send c = Some b" "unat (buf_size_send c) = length b" "length b < 2147483648"
  defines "out \<equiv> first x # MQTTPacket_encode (int (length (body x))) @ body x"
  assumes "length out + 4 \<le> length b"
  shows "\<exists>b'. serialize_to_send ser x c = Some (int (length out), c\<lparr>buf_send := Some b'\<rparr>) \<and>
    length b' = length b"
proof -
  let ?n = "int (length (body x))"
  have sz: "sint (buf_size_send c) = int (length b)" using sint_small [of "buf_size_send c"] assms(3,4) by simp
  have n: "body_len x = ?n" "?n < 268435456" using body_len limit assms(1) by auto
  have "MQTTPacket_len ?n \<le> 2 + int (length (MQTTPacket_encode ?n)) + ?n"
    using n(2) by (intro MQTTPacket_len_bounds) simp_all
  then have "MQTTPacket_len ?n \<le> int (length b)" using assms(6) by (simp add: out_def)
  then have "ser (int (length b)) x = Some (int (length out), out)"
    using fits [OF assms(1)] by (simp add: n(1) out_def)
  moreover have "wr_block (Some b) 0 out = Some (Some (out @ drop (length out) b))"
    using assms(6) by (simp add: wr_block_def)
  ultimately show ?thesis using assms(2,6)
    by (intro exI [of _ "out @ drop (length out) b"]) (simp add: serialize_to_send_def sz)
qed

end


subsection \<open>Publishing\<close>

definition publish_request :: "cstring \<Rightarrow> iotx_mqtt_topic_info_t \<Rightarrow> publish_data" where
  "publish_request topicName topic_msg =
     \<lparr>pub_dup = 0, pub_qos = uint (ti_qos topic_msg), pub_retained = ti_retain topic_msg,
      pub_packetid = ti_packet_id topic_msg,
      pub_topicName = MQTTString_initializer\<lparr>ms_cstring := Some topicName\<rparr>,
      pub_payload = ti_payload topic_msg, pub_payloadlen = sint (ti_payload_len topic_msg)\<rparr>"

definition publish_bytes :: "publish_data \<Rightarrow> byte list" where
  "publish_bytes p = publish_header p # MQTTPacket_encode (int (length (publish_body p))) @ publish_body p"

lemma push_success:
  assumes "iotx_mc_push_pubInfo_to E len i c = Some (0, c')"
  shows "0 \<le> len \<and> (\<exists>t d. ptr_block (buf_send c) len = Some d \<and>
    list_pub_wait_ack c' = list_pub_wait_ack c @
      [\<lparr>pub_start_time = t, node_state = IOTX_MC_NODE_STATE_NORMANL, msg_id = i, node_len = word_of_int len, node_buf = d\<rparr>]) \<and>
    effects c' = effects c \<and> buf_send c' = buf_send c \<and> client_state c' = client_state c \<and>
    list_sub_handle c' = list_sub_handle c"
  using assms
  by (auto simp: iotx_mc_push_pubInfo_to_def HAL_Malloc_def timer_defs HAL_UptimeMs_def Let_def bind_eq_Some_conv
      split: if_splits prod.splits)

lemma reset_send_frame [simp]:
  "effects (snd (reset_send_buffer c)) = effects c"
  "list_pub_wait_ack (snd (reset_send_buffer c)) = list_pub_wait_ack c"
  "client_state (snd (reset_send_buffer c)) = client_state c"
  "list_sub_handle (snd (reset_send_buffer c)) = list_sub_handle c"
  by (simp_all add: reset_send_buffer_def)

lemma lock_frame:
  "HAL_MutexLock m c = Some c' \<Longrightarrow> m \<notin> held c \<and> c' = c\<lparr>held := insert m (held c)\<rparr>"
  "HAL_MutexUnlock m c = Some c' \<Longrightarrow> m \<in> held c \<and> c' = c\<lparr>held := held c - {m}\<rparr>"
  by (auto simp: HAL_MutexLock_def HAL_MutexUnlock_def split: if_splits)

lemma alloc_send_success:
  "alloc_send_buffer E len c = (rc, c') \<Longrightarrow> effects c' = effects c \<and> list_pub_wait_ack c' = list_pub_wait_ack c
     \<and> client_state c' = client_state c \<and> list_sub_handle c' = list_sub_handle c \<and> request_timeout_ms c' = request_timeout_ms c"
  by (auto simp: alloc_send_buffer_def HAL_Malloc_def Let_def split: if_splits)

definition same_lists :: "iotx_mc_client_t \<Rightarrow> iotx_mc_client_t \<Rightarrow> bool" where
  "same_lists c c' \<longleftrightarrow> list_pub_wait_ack c' = list_pub_wait_ack c \<and> client_state c' = client_state c \<and>
     list_sub_handle c' = list_sub_handle c"

text \<open>Rules that keep the equation of an operation instead of its postcondition.\<close>

lemmas flow_ops = okI [of "serialize_to_send s x c" for s x c] okI [of "iotx_mc_send_packet E b l tm c" for E b l tm c]
  okI [of "iotx_mc_push_pubInfo_to E l i c" for E l i c]

lemmas flow = ok_case_pair ok_case_triple pred_case_pair ok_case_bind ok_None ok_SomeI ok_bind ok_if ok_case_prod
  ok_case_prod_app ok_let pred_case_prod ok_lock_eq ok_unlock_eq unlock_return_ok flow_ops

lemma publish_sent:
  assumes w: "writes_ok E" and v: "publish_valid p"
    and s: "serialize_to_send MQTTSerialize_publish p c = Some (len, c1)" "\<not> len \<le> 0"
    and t: "iotx_mc_send_packet E (buf_send c2) len timer c2 = Some (0, c3)"
    and c2: "c2 = c1 \<or> iotx_mc_push_pubInfo_to E len i c1 = Some (0, c2)"
  shows "written (effects c3) = written (effects c) @ publish_bytes p \<and> client_state c3 = client_state c \<and>
    list_sub_handle c3 = list_sub_handle c \<and> list_pub_wait_ack c3 = list_pub_wait_ack c2 \<and>
    list_pub_wait_ack c1 = list_pub_wait_ack c \<and>
    (iotx_mc_push_pubInfo_to E len i c1 = Some (0, c2) \<longrightarrow> (\<exists>t. list_pub_wait_ack c2 = list_pub_wait_ack c @
      [\<lparr>pub_start_time = t, node_state = IOTX_MC_NODE_STATE_NORMANL, msg_id = i,
        node_len = word_of_nat (length (publish_bytes p)), node_buf = publish_bytes p\<rparr>]))"
proof -
  obtain b where b: "len = int (length (publish_bytes p))" "c1 = c\<lparr>buf_send := Some b\<rparr>"
    "length (publish_bytes p) \<le> length b" "take (length (publish_bytes p)) b = publish_bytes p"
    using publish_packet.send_success [OF s(1) _ v] s(2) by (auto simp: publish_bytes_def)
  have c2': "buf_send c2 = Some b" "effects c2 = effects c" "client_state c2 = client_state c"
    "list_sub_handle c2 = list_sub_handle c"
    using c2 push_success [of E len i c1 c2] b(2) by auto
  have sent: "platform_only c2 c3 \<and> written (effects c3) = written (effects c2) @ publish_bytes p"
    using send_packet_success [of E b len timer c2 c3] t w b c2'(1) by simp
  show ?thesis
    using c2 push_success [of E len i c1 c2] b sent c2' platform_only_fields [of c2 c3]
    by (auto simp: ptr_block_def)
qed

lemmas publish_sent_plain = publish_sent [OF _ _ _ _ _ disjI1 [OF refl]]
lemmas publish_sent_pushed = publish_sent [OF _ _ _ _ _ disjI2]

lemma MQTTPublish_success:
  assumes w: "writes_ok E" and v: "publish_valid (publish_request topicName topic_msg)"
  defines "out \<equiv> publish_bytes (publish_request topicName topic_msg)"
  shows "ok (\<lambda>(rc, c'). rc = 0 \<longrightarrow> written (effects c') = written (effects c) @ out \<and> client_state c' = client_state c \<and>
    list_sub_handle c' = list_sub_handle c \<and>
    (if 0 < ti_qos topic_msg
     then \<exists>t. list_pub_wait_ack c' = list_pub_wait_ack c @
       [\<lparr>pub_start_time = t, node_state = IOTX_MC_NODE_STATE_NORMANL, msg_id = ti_packet_id topic_msg,
         node_len = word_of_nat (length out), node_buf = out\<rparr>]
     else list_pub_wait_ack c' = list_pub_wait_ack c)) (MQTTPublish E topicName topic_msg c)"
  unfolding MQTTPublish_def out_def
  apply (intro flow)
          apply (simp_all add: publish_request_def [symmetric])
   apply (frule (3) publish_sent_pushed [OF w v])
   apply (drule platform_only_clock alloc_send_success)+
   apply (clarsimp simp: platform_only_fields)
  apply (frule (2) publish_sent_plain [OF w v])
  apply (drule platform_only_clock alloc_send_success)+
  apply (clarsimp simp: platform_only_fields)
  done


subsection \<open>Packet ids\<close>

definition next_id :: "u32 \<Rightarrow> u32" where
  "next_id i = (if i = IOTX_MC_PACKET_ID_MAX then 1 else i + 1)"

lemma next_id_unat: "i \<le> 65535 \<Longrightarrow> unat (next_id i) = unat i mod 65535 + 1"
proof (cases "i = 65535")
  case False
  assume i: "i \<le> 65535"
  then have "unat i \<le> 65535" by (simp add: word_le_nat_alt)
  moreover have "unat i \<noteq> 65535"
  proof
    assume "unat i = 65535"
    then have "unat i = unat (65535 :: u32)" by simp
    then show False using False by (simp only: word_unat_eq_iff)
  qed
  ultimately have n: "unat i < 65535" by simp
  then have "unat (i + 1) = unat i + 1" by (subst unat_plus_simple [THEN iffD1]) (auto simp: word_le_nat_alt unat_word_ariths)
  then show ?thesis using n False by (simp add: next_id_def)
qed (simp add: next_id_def)

lemma get_next_packetid_eq:
  "iotx_mc_get_next_packetid c =
     (if LockGeneric \<in> held c then None else Some (next_id (packet_id c), c\<lparr>packet_id := next_id (packet_id c)\<rparr>))"
  by (auto simp: iotx_mc_get_next_packetid_def HAL_MutexLock_def HAL_MutexUnlock_def unlock_return_def Let_def next_id_def)

interpretation mqtt_ids: cyclic_ids iotx_mc_get_next_packetid unat "\<lambda>c. packet_id c \<le> 65535" 65535 "\<lambda>c. unat (packet_id c)"
proof unfold_locales
  fix c i c' assume c: "packet_id c \<le> 65535" "iotx_mc_get_next_packetid c = Some (i, c')"
  then have i: "i = next_id (packet_id c)" "c' = c\<lparr>packet_id := i\<rparr>"
    by (auto simp: get_next_packetid_eq split: if_splits)
  then have n: "unat i = unat (packet_id c) mod 65535 + 1" using next_id_unat [OF c(1)] by simp
  show "unat i = unat (packet_id c) mod 65535 + 1 \<and> unat (packet_id c') = unat i" using n i(2) by simp
  have "unat i \<le> 65535" using n mod_less_divisor [of 65535 "unat (packet_id c)"] by linarith
  then show "0 < unat i \<and> unat i \<le> 65535" "packet_id c' \<le> 65535" using n i(2) by (simp_all add: word_le_nat_alt)
qed

text \<open>
  C29: packet ids are never 0, always fit in 16 bits, count through the whole range, and any 65535
  consecutive ones are different: an id is not used again before all the others have been.
\<close>

theorem packet_ids_cycle:
  assumes "draw iotx_mc_get_next_packetid n c = Some (ids, c')" and "packet_id c \<le> 65535"
  shows "length ids = n \<and> (\<forall>i \<in> set ids. 0 < unat i \<and> unat i \<le> 65535) \<and>
    (\<forall>k < n. unat (ids ! k) = (unat (packet_id c) + k) mod 65535 + 1) \<and>
    (n \<le> 65535 \<longrightarrow> distinct ids)"
  using mqtt_ids.draw_range [OF assms] mqtt_ids.draw_nth [OF assms] mqtt_ids.draw_distinct [OF assms]
  by (auto simp: distinct_map)

theorem packet_ids_cycle_witness:
  "\<exists>ids c'. draw iotx_mc_get_next_packetid 2 ((zero_client hal_start)\<lparr>packet_id := 65535\<rparr>) = Some (ids, c') \<and>
     unat (ids ! 0) = 1 \<and> unat (ids ! 1) = 2 \<and> distinct ids"
proof -
  let ?c = "(zero_client hal_start)\<lparr>packet_id := 65535\<rparr>"
  obtain ids c' where d: "draw iotx_mc_get_next_packetid 2 ?c = Some (ids, c')"
    by (simp add: numeral_2_eq_2 get_next_packetid_eq zero_client_def hal_start_def)
  show ?thesis using packet_ids_cycle [OF d] d by auto
qed


subsection \<open>A QoS 1 message from the application to the list\<close>

lemma check_state_eq:
  "wrapper_mqtt_check_state c =
     (if LockGeneric \<in> held c then None else Some (client_state c = IOTX_MC_STATE_CONNECTED, c))"
  by (auto simp: wrapper_mqtt_check_state_def iotx_mc_get_client_state_def HAL_MutexLock_def HAL_MutexUnlock_def)

lemma publish_request_id [simp]:
  "publish_valid (publish_request name (m\<lparr>ti_packet_id := i\<rparr>)) = publish_valid (publish_request name m)"
  by (cases "ti_payload m") (simp_all add: publish_valid_def publish_request_def publish_body_def)

lemma MQTTPublish_codes: "ok (\<lambda>(rc, c'). rc \<le> 0) (MQTTPublish E name m c)"
  unfolding MQTTPublish_def by (intro flow) simp_all

lemma ucast_id: "i \<le> 65535 \<Longrightarrow> uint (ucast (i :: u32) :: u16) = uint i"
proof -
  assume "i \<le> 65535"
  then have "uint i < 65536" by (simp add: word_le_def)
  then show ?thesis by (simp add: unsigned_ucast_eq take_bit_eq_mod)
qed

text \<open>
  C7: a QoS 1 message that \<open>wrapper_mqtt_publish\<close> accepts was sent and is remembered.  When the
  function reports success its result is the fresh packet id, also stored in the caller's message;
  the network has accepted exactly the PUBLISH packet of the message with this id; and one node is
  appended to the list of unacknowledged messages, in state normal, with the id and a copy of
  exactly the bytes that were sent.
\<close>

theorem publish_qos1_tracked:
  assumes "wrapper_mqtt_publish E (Some name) m c = Some ((rc, m'), c')"
    and "ti_qos m = 1" and "0 \<le> rc" and "writes_ok E" and "publish_valid (publish_request name m)"
    and "packet_id c \<le> 65535"
  shows "m' = m\<lparr>ti_packet_id := ucast (next_id (packet_id c))\<rparr> \<and> rc = uint (next_id (packet_id c)) \<and>
    client_state c = IOTX_MC_STATE_CONNECTED \<and>
    written (effects c') = written (effects c) @ publish_bytes (publish_request name m') \<and>
    (\<exists>t. list_pub_wait_ack c' = list_pub_wait_ack c @
       [\<lparr>pub_start_time = t, node_state = IOTX_MC_NODE_STATE_NORMANL, msg_id = ti_packet_id m',
         node_len = word_of_nat (length (publish_bytes (publish_request name m'))),
         node_buf = publish_bytes (publish_request name m')\<rparr>])"
proof -
  let ?i = "next_id (packet_id c)"
  let ?m = "m\<lparr>ti_packet_id := ucast ?i\<rparr>"
  obtain pl where pl: "ti_payload m = Some pl"
    using assms(1,3) by (cases "ti_payload m") (auto simp: wrapper_mqtt_publish_def)
  have i: "?i \<le> 65535"
    using next_id_unat [OF assms(6)] mod_less_divisor [of 65535 "unat (packet_id c)"]
    by (simp add: word_le_nat_alt)
  obtain a b where conn: "client_state c = IOTX_MC_STATE_CONNECTED"
    and p: "MQTTPublish E name ?m (c\<lparr>packet_id := ?i\<rparr>) = Some (a, b)"
    and res: "a = 0 \<and> m' = ?m \<and> rc = uint (ucast ?i :: u16) \<and> c' = b \<or> a \<noteq> 0 \<and> a = rc"
    using assms(1-3) pl
    by (auto simp: wrapper_mqtt_publish_def check_state_eq get_next_packetid_eq bind_eq_Some_conv split: if_split_asm)
  have "a \<le> 0" using okD [OF MQTTPublish_codes p] by simp
  then have r: "a = 0" "m' = ?m" "rc = uint ?i" "c' = b" using res assms(3) ucast_id [OF i] by auto
  have "publish_valid (publish_request name ?m)" using assms(5) by simp
  from okD [OF MQTTPublish_success [OF assms(4) this] p] r conn assms(2) show ?thesis by simp
qed


text \<open>A connected client, and its first QoS 1 message.\<close>

definition connected_client :: iotx_mc_client_t where
  "connected_client = (zero_client hal_start)\<lparr>client_state := IOTX_MC_STATE_CONNECTED,
     buf_size_send_max := 256, buf_size_read_max := 256, request_timeout_ms := 2000\<rparr>"

text \<open>
  A network and a platform that answer at once: memory is there, a write takes everything, and the
  \<open>k\<close> readings of the clock after reading \<open>n\<close> are not past a countdown of \<open>ms\<close> started at reading \<open>n\<close>.
\<close>

definition prompt :: "'e environment_scheme \<Rightarrow> nat \<Rightarrow> nat \<Rightarrow> u32 \<Rightarrow> bool" where
  "prompt E n k ms =
     ((\<forall>i sz. env_malloc E i sz) \<and> (\<forall>i d t. env_write E i d t = int (length d)) \<and>
      (\<forall>i \<in> {n <.. n + k}. \<not> ucast (env_uptime E i) - ucast (env_uptime E n + ucast ms) < (0xFFFFFFFF div 2 :: u32)))"

lemma prompt_writes_ok: "prompt E n k ms \<Longrightarrow> writes_ok E"
  by (simp add: prompt_def writes_ok_def)

lemma send_prompt:
  assumes "prompt E n k ms" and "n < n_uptime c" "n_uptime c + 1 \<le> n + k"
    and "time timer = ucast (env_uptime E n + ucast ms)" and "0 < len" "len \<le> int (length buf)"
  shows "\<exists>c'. iotx_mc_send_packet E (Some buf) len timer c = Some (SUCCESS_RETURN, c') \<and> held c' = held c"
proof -
  have now: "\<not> ucast (env_uptime E i) - time timer < (0xFFFFFFFF div 2 :: u32)" if "i = n_uptime c \<or> i = Suc (n_uptime c)" for i
    using assms(1-4) that by (auto simp: prompt_def)
  define c1 where "c1 = c\<lparr>n_uptime := Suc (n_uptime c)\<rparr>"
  have e: "utils_time_is_expired E timer c = (False, c1)"
    using now [of "n_uptime c"] by (simp add: utils_time_is_expired_def HAL_UptimeMs_def c1_def)
  obtain t c2 where l: "time_left_or_1 E timer c1 = (t, c2)" by (cases "time_left_or_1 E timer c1")
  then have c2: "held c2 = held c"
    using platform_only_clock(2) [OF l] by (simp add: platform_only_def c1_def)
  define d where "d = take (nat len) buf"
  have d: "rd_block buf 0 (nat len) = Some d" "int (length d) = len" using assms(5,6) by (auto simp: d_def)
  have w: "net_write E d t c2 = (len, snd (net_write E d t c2))" "held (snd (net_write E d t c2)) = held c"
    using assms(1) d(2) c2 by (simp_all add: prompt_def net_write_def Let_def)
  have "send_loop E buf len timer 0 c = send_loop E buf len timer len (snd (net_write E d t c2))"
    using assms(5) w(1) by (subst send_loop.simps) (auto simp: e l d split: prod.splits)
  also have "\<dots> = Some (len, snd (net_write E d t c2))" by (subst send_loop.simps) simp
  finally show ?thesis using w(2) by (auto simp: iotx_mc_send_packet_def)
qed

lemma sample_topic: "iotx_mc_check_topic (str ''/a/bc'') TOPIC_NAME_TYPE = Some 0"
  by (simp add: check_topic_eq tokens.simps)


lemma length_publish_bytes:
  assumes "publish_valid (publish_request name m)"
  shows "0 < length (publish_bytes (publish_request name m))"
    "length (publish_bytes (publish_request name m)) \<le> 9 + length name + unat (ti_payload_len m)"
proof -
  let ?p = "publish_request name m"
  have nn: "0 \<le> sint (ti_payload_len m)" using assms by (simp add: publish_valid_def publish_request_def)
  then have pl: "nat (sint (ti_payload_len m)) = unat (ti_payload_len m)" by (simp add: sint_nonneg_uint)
  have "length (publish_body ?p) \<le> 4 + length name + unat (ti_payload_len m)"
    using pl by (auto simp: publish_body_def publish_request_def string_bytes_def split: option.splits)
  moreover have "length (MQTTPacket_encode (int (length (publish_body ?p)))) \<le> 4"
    using length_encode_le [of "int (length (publish_body ?p))" 3] assms by (simp add: publish_valid_def)
  ultimately show "length (publish_bytes ?p) \<le> 9 + length name + unat (ti_payload_len m)"
    by (simp add: publish_bytes_def)
qed (simp add: publish_bytes_def)

text \<open>\<open>MQTTPublish\<close> on a prompt platform, up to the sending of the packet.\<close>

lemma alloc_send_prompt:
  assumes "\<And>i sz. env_malloc E i sz" and "0 \<le> len" "len < 2147483000"
  shows "\<exists>b w. alloc_send_buffer E len c = (SUCCESS_RETURN, c\<lparr>n_malloc := Suc (n_malloc c), buf_send := Some b,
      buf_size_send := w\<rparr>) \<and> unat w = length b \<and>
    length b = min (unat (buf_size_send_max c)) (64 + nat len)"
proof -
  have "uint (word_of_int (64 + len) :: u32) = 64 + len"
  proof -
    have "(64 + len) mod 4294967296 = 64 + len" using assms(2,3) by simp
    then show ?thesis by (simp only: uint_word_of_int) simp
  qed
  then have "nat (uint (word_of_int (64 + len) :: u32)) = 64 + nat len" using assms(2) by simp
  then have u: "unat (word_of_int (64 + len) :: u32) = 64 + nat len" by (simp only: nat_uint_eq)
  define w where "w = (if buf_size_send_max c < word_of_int (64 + len) then buf_size_send_max c else word_of_int (64 + len))"
  have "alloc_send_buffer E len c = (0, c\<lparr>n_malloc := Suc (n_malloc c),
      buf_send := Some (replicate (unat w) 0), buf_size_send := w\<rparr>)"
    unfolding alloc_send_buffer_def Let_def w_def [symmetric] using assms(1) by (simp add: HAL_Malloc_def)
  moreover have "unat w = min (unat (buf_size_send_max c)) (64 + nat len)"
    using u by (auto simp: w_def word_less_nat_alt)
  ultimately show ?thesis by (intro exI conjI) (assumption, simp_all)
qed

lemma publish_prompt:
  fixes name m
  defines "p \<equiv> publish_request name m"
  assumes E: "prompt E (n_uptime c) 4 (request_timeout_ms c)" and held: "held c = {}"
    and v: "publish_valid p" and small: "length (publish_bytes p) + 4 \<le> unat (buf_size_send_max c)"
      "length name + unat (ti_payload_len m) < 1000000000"
    and room: "length (list_pub_wait_ack c) < IOTX_MC_REPUB_NUM_MAX" and name: "length name < 65536"
  shows "\<exists>c'. MQTTPublish E name m c = Some (SUCCESS_RETURN, c') \<and> held c' = {}"
proof -
  have malloc: "env_malloc E i sz" for i sz using E by (simp add: prompt_def)
  define timer where "timer = \<lparr>time = ucast (env_uptime E (n_uptime c) + ucast (request_timeout_ms c)) :: u32\<rparr>"
  define c1 where "c1 = c\<lparr>n_uptime := Suc (n_uptime c), held := {LockListPub, LockWriteBuf}\<rparr>"
  have l1: "HAL_MutexLock LockListPub (c\<lparr>n_uptime := Suc (n_uptime c)\<rparr>) =
      Some (c\<lparr>n_uptime := Suc (n_uptime c), held := {LockListPub}\<rparr>)"
    and l2: "HAL_MutexLock LockWriteBuf (c\<lparr>n_uptime := Suc (n_uptime c), held := {LockListPub}\<rparr>) = Some c1"
    using held by (simp_all add: HAL_MutexLock_def c1_def insert_commute)
  define len where "len = int (length (publish_bytes p))"
  have cd: "utils_time_countdown_ms E (request_timeout_ms c) c = (timer, c\<lparr>n_uptime := Suc (n_uptime c)\<rparr>)"
    by (simp add: utils_time_countdown_ms_def HAL_UptimeMs_def timer_def)
  have "nat (int (length name) + uint (ti_payload_len m)) = length name + unat (ti_payload_len m)"
    by (simp add: nat_add_distrib)
  moreover have "0 \<le> int (length name) + uint (ti_payload_len m)" "int (length name) + uint (ti_payload_len m) < 2147483000"
  proof -
    have "uint (ti_payload_len m) = int (unat (ti_payload_len m))" by simp
    then show "0 \<le> int (length name) + uint (ti_payload_len m)" "int (length name) + uint (ti_payload_len m) < 2147483000"
      using small(2) by linarith+
  qed
  ultimately obtain b w where a: "alloc_send_buffer E (int (length name) + uint (ti_payload_len m)) c1 =
      (0, c1\<lparr>n_malloc := Suc (n_malloc c), buf_send := Some b, buf_size_send := w\<rparr>)"
    and b: "length b = min (unat (buf_size_send_max c)) (64 + (length name + unat (ti_payload_len m)))" "unat w = length b"
    using alloc_send_prompt [OF malloc, of "int (length name) + uint (ti_payload_len m)" c1] by (auto simp: c1_def)
  define c2 where "c2 = c1\<lparr>n_malloc := Suc (n_malloc c), buf_send := Some b, buf_size_send := w\<rparr>"
  have lb: "length b < 2147483648" "length (publish_bytes p) + 4 \<le> length b" "0 < len"
    using small b(1) length_publish_bytes [OF v [unfolded p_def]] by (simp_all add: len_def p_def)
  obtain b' where s: "serialize_to_send MQTTSerialize_publish p c2 = Some (len, c2\<lparr>buf_send := Some b'\<rparr>)"
    and b': "length b' = length b"
    using publish_packet.send_runs [OF v, of c2 b] b(2) lb by (auto simp: c2_def len_def publish_bytes_def)
  define c3 where "c3 = c2\<lparr>buf_send := Some b'\<rparr>"
  have "\<exists>c4. (if 0 < ti_qos m then iotx_mc_push_pubInfo_to E len (ti_packet_id m) c3 else Some (0, c3)) = Some (0, c4) \<and>
      held c4 = held c3 \<and> buf_send c4 = Some b' \<and> n_uptime c4 \<in> {Suc (n_uptime c), Suc (Suc (n_uptime c))}"
  proof (cases "0 < ti_qos m")
    case True
    have "int (unat w) = uint w" by simp
    then have "uint w = int (length b)" using b(2) by linarith
    then show ?thesis using True room malloc lb b'
      by (simp add: iotx_mc_push_pubInfo_to_def HAL_Malloc_def iotx_time_start_def HAL_UptimeMs_def ptr_block_def
          c3_def c2_def c1_def Let_def len_def)
  qed (simp add: c3_def c2_def c1_def)
  then obtain c4 where p: "(if 0 < ti_qos m then iotx_mc_push_pubInfo_to E len (ti_packet_id m) c3 else Some (0, c3)) = Some (0, c4)"
    and c4: "held c4 = {LockListPub, LockWriteBuf}" "buf_send c4 = Some b'"
      "n_uptime c4 \<in> {Suc (n_uptime c), Suc (Suc (n_uptime c))}"
    by (auto simp: c3_def c2_def c1_def)
  obtain c5 where t: "iotx_mc_send_packet E (Some b') len timer c4 = Some (0, c5)" "held c5 = {LockListPub, LockWriteBuf}"
    using send_prompt [OF E, of c4 timer len b'] lb b' c4 by (auto simp: timer_def len_def)
  show ?thesis
    using t(2) lb(3) by (auto simp: MQTTPublish_def cd l1 l2 a c2_def [symmetric] s [unfolded p_def publish_request_def]
        c3_def [symmetric] p c4(2) t(1) HAL_MutexUnlock_def unlock_return_def reset_send_buffer_def)
qed

lemma publish_runs:
  assumes "client_state c = IOTX_MC_STATE_CONNECTED" and "held c = {}" and "packet_id c \<le> 65535"
    and "iotx_mc_check_topic name TOPIC_NAME_TYPE = Some SUCCESS_RETURN" and "length name < 65536"
    and "ti_payload m \<noteq> None" and "ti_qos m \<le> 1" and "publish_valid (publish_request name m)"
    and "length (publish_bytes (publish_request name m)) + 4 \<le> unat (buf_size_send_max c)"
    and "length name + unat (ti_payload_len m) < 1000000000"
    and "length (list_pub_wait_ack c) < IOTX_MC_REPUB_NUM_MAX"
    and "prompt E (n_uptime c) 4 (request_timeout_ms c)"
  shows "\<exists>rc m' c'. wrapper_mqtt_publish E (Some name) m c = Some ((rc, m'), c') \<and> held c' = {} \<and>
    rc = (if ti_qos m = 1 then uint (next_id (packet_id c)) else 0)"
proof -
  let ?i = "next_id (packet_id c)"
  have qos: "ti_qos m = 1 \<or> ti_qos m \<noteq> 1 \<and> ti_qos m = 0"
    using assms(7) by (auto simp: word_le_nat_alt word_unat_eq_iff)
  obtain pl where pl: "ti_payload m = Some pl" using assms(6) by auto
  show ?thesis
  proof (cases "ti_qos m = 1")
    case True
    let ?m = "m\<lparr>ti_packet_id := ucast ?i\<rparr>" and ?c = "c\<lparr>packet_id := ?i\<rparr>"
    have i: "?i \<le> 65535"
      using next_id_unat [OF assms(3)] mod_less_divisor [of 65535 "unat (packet_id c)"]
      by (simp add: word_le_nat_alt)
    have v: "publish_valid (publish_request name ?m)" using assms(8) by simp
    have len: "length (publish_bytes (publish_request name ?m)) = length (publish_bytes (publish_request name m))"
      by (cases "ti_payload m") (simp_all add: publish_bytes_def publish_body_def publish_request_def)
    obtain c' where "MQTTPublish E name ?m ?c = Some (0, c')" "held c' = {}"
      using publish_prompt [of E ?c name ?m] v assms(2,5,9,10,11,12) len by auto
    then show ?thesis using True pl assms(1,2,4) ucast_id [OF i]
      by (auto simp: wrapper_mqtt_publish_def check_state_eq get_next_packetid_eq)
  next
    case False
    obtain c' where "MQTTPublish E name m c = Some (0, c')" "held c' = {}"
      using publish_prompt [OF assms(12,2,8,9,10,11,5)] by blast
    then show ?thesis using False qos pl assms(1,2,4)
      by (auto simp: wrapper_mqtt_publish_def check_state_eq)
  qed
qed

lemma sample_prompt: "prompt sample_env 0 4 2000"
proof -
  have "{0 <.. 0 + 4} = {1, 2, 3, 4 :: nat}" by auto
  then show ?thesis by (simp only: prompt_def) (simp add: sample_env_def)
qed

lemma connected_client_fields: "packet_id connected_client = 0" "effects connected_client = []" "n_uptime connected_client = 0"
    "held connected_client = {}" "client_state connected_client = IOTX_MC_STATE_CONNECTED"
    "list_pub_wait_ack connected_client = []" "buf_size_send_max connected_client = 256"
    "request_timeout_ms connected_client = 2000"
  by (simp_all add: connected_client_def zero_client_def hal_start_def)

lemma sample_bytes:
  "publish_valid (publish_request (str ''/a/bc'') sample_message)"
  "length (publish_bytes (publish_request (str ''/a/bc'') sample_message)) = 13"
  "publish_bytes (publish_request (str ''/a/bc'') (sample_message\<lparr>ti_packet_id := 1\<rparr>)) =
     [0x32, 11, 0, 5, 0x2F, 0x61, 0x2F, 0x62, 0x63, 0, 1, 0x68, 0x69]"
  by (simp_all add: publish_valid_def publish_request_def sample_message_def publish_body_def MQTTString_ok_def
      string_bytes_def publish_bytes_def encode_unfold header_defs writeInt_def MQTTString_initializer_def)

lemma sample_message_fields: "ti_qos sample_message = 1" "ti_payload sample_message \<noteq> None" "unat (ti_payload_len sample_message) = 2"
  by (simp_all add: sample_message_def)

lemma sample_published:
  "\<exists>m' c'. wrapper_mqtt_publish sample_env (Some (str ''/a/bc'')) sample_message connected_client = Some ((1, m'), c')"
proof -
  have "length (str ''/a/bc'') < 65536" by simp
  note w = publish_runs [OF connected_client_fields(5,4) _ sample_topic this sample_message_fields(2) _ sample_bytes(1),
      unfolded sample_bytes(2) sample_message_fields(1,3) connected_client_fields, OF _ _ _ _ _ sample_prompt]
  have "length (str ''/a/bc'') + 2 < 1000000000" by simp
  from w [OF _ _ _ this] show ?thesis by (auto simp: next_id_def simp del: str_simps)
qed

text \<open>
  C12: a publish on a connected client succeeds.  When the topic passes the format check, the message
  fits the send buffer, fewer than 20 messages wait for their acknowledgement, no mutex is held, and
  platform and network answer at once, \<open>wrapper_mqtt_publish\<close> returns a result that is not an error,
  the packet id of a message with QoS 1 and 0 for QoS 0, and holds no mutex afterwards.
\<close>

theorem publish_succeeds:
  assumes "client_state c = IOTX_MC_STATE_CONNECTED" and "held c = {}" and "packet_id c \<le> 65535"
    and "iotx_mc_check_topic name TOPIC_NAME_TYPE = Some SUCCESS_RETURN" and "length name < 65536"
    and "ti_payload m \<noteq> None" and "ti_qos m \<le> 1" and "publish_valid (publish_request name m)"
    and "length (publish_bytes (publish_request name m)) + 4 \<le> unat (buf_size_send_max c)"
    and "length name + unat (ti_payload_len m) < 1000000000"
    and "length (list_pub_wait_ack c) < IOTX_MC_REPUB_NUM_MAX"
    and "prompt E (n_uptime c) 4 (request_timeout_ms c)"
  shows "\<exists>rc m' c'. wrapper_mqtt_publish E (Some name) m c = Some ((rc, m'), c') \<and> held c' = {} \<and>
    rc = (if ti_qos m = 1 then uint (next_id (packet_id c)) else 0)"
  by (rule publish_runs [OF assms])

theorem publish_succeeds_witness:
  "\<exists>rc m' c'. wrapper_mqtt_publish sample_env (Some (str ''/a/bc'')) sample_message connected_client = Some ((rc, m'), c') \<and>
     rc = 1 \<and> held c' = {}"
proof -
  have "length (str ''/a/bc'') < 65536" by simp
  note w = publish_succeeds [OF connected_client_fields(5,4) _ sample_topic this sample_message_fields(2) _ sample_bytes(1),
      unfolded sample_bytes(2) sample_message_fields(1,3) connected_client_fields, OF _ _ _ _ _ sample_prompt]
  have "length (str ''/a/bc'') + 2 < 1000000000" by simp
  from w [OF _ _ _ this] show ?thesis by (auto simp: next_id_def simp del: str_simps)
qed

theorem publish_qos1_tracked_witness:
  "\<exists>m' c'. wrapper_mqtt_publish sample_env (Some (str ''/a/bc'')) sample_message connected_client = Some ((1, m'), c') \<and>
    written (effects c') = [0x32, 11, 0, 5, 0x2F, 0x61, 0x2F, 0x62, 0x63, 0, 1, 0x68, 0x69] \<and>
    map msg_id (list_pub_wait_ack c') = [1]"
proof -
  obtain m' c' where w: "wrapper_mqtt_publish sample_env (Some (str ''/a/bc'')) sample_message connected_client = Some ((1, m'), c')"
    using sample_published by blast
  have n: "next_id 0 = 1" by (simp add: next_id_def)
  show ?thesis
    using publish_qos1_tracked [OF w sample_message_fields(1) _ sample_env_network(1) sample_bytes(1)] w sample_bytes(3)
    by (auto simp: connected_client_fields n simp del: str_simps)
qed

end
