(* ===== verification/MqttPending.thy ===== *)
theory MqttPending
  imports MqttFlow "HOL-Library.Sublist"
begin

text \<open>
  The list of unacknowledged QoS 1 messages of \<open>mqtt/iotx_mqtt_client.c\<close> as a queue: publishing a
  message, marking it when its PUBACK arrives and the pass that sends again what is overdue implement
  the operations of an abstract queue of pairs of packet id and packet bytes.  A publish that fails,
  also one whose packet was stored already and could not be sent, leaves the queue as it was.  The
  contract is the locale \<open>outbox\<close>.
\<close>

subsection \<open>The abstract queue\<close>

datatype ('i, 'd) outbox_event = Accepted 'i 'd | Refused | Acked 'i | Resent | Other

fun outbox_apply :: "('i, 'd) outbox_event \<Rightarrow> ('i \<times> 'd) list \<Rightarrow> ('i \<times> 'd) list" where
  "outbox_apply (Accepted i d) q = q @ [(i, d)]"
| "outbox_apply Refused q = q"
| "outbox_apply (Acked i) q = filter (\<lambda>(j, d). j \<noteq> i) q"
| "outbox_apply Resent q = q"
| "outbox_apply Other q = q"

fun trace :: "('e \<Rightarrow> 's \<Rightarrow> 's \<Rightarrow> bool) \<Rightarrow> 'e list \<Rightarrow> 's \<Rightarrow> 's \<Rightarrow> bool" where
  "trace does [] s s' = (s' = s)"
| "trace does (e # es) s s' = (\<exists>s1. does e s s1 \<and> trace does es s1 s')"

lemma trace_append: "trace does (es @ fs) s s' \<longleftrightarrow> (\<exists>s1. trace does es s s1 \<and> trace does fs s1 s')"
  by (induction es arbitrary: s) auto

locale outbox =
  fixes does :: "('i, 'd) outbox_event \<Rightarrow> 's \<Rightarrow> 's \<Rightarrow> bool" and queue :: "'s \<Rightarrow> ('i \<times> 'd) list"
  assumes simulates: "does e s s' \<Longrightarrow> queue s' = outbox_apply e (queue s)"
begin

lemma trace_queue: "trace does es s s' \<Longrightarrow> queue s' = fold outbox_apply es (queue s)"
  by (induction es arbitrary: s) (auto dest: simulates)

lemma stays:
  "trace does es s s' \<Longrightarrow> (i, d) \<in> set (queue s) \<Longrightarrow> Acked i \<notin> set es \<Longrightarrow> (i, d) \<in> set (queue s')"
proof (induction es arbitrary: s)
  case (Cons e es)
  then obtain s1 where s1: "does e s s1" "trace does es s1 s'" by auto
  have "(i, d) \<in> set (outbox_apply e (queue s))" using Cons.prems(2,3) by (cases e) auto
  then show ?case using Cons.IH [OF s1(2)] simulates [OF s1(1)] Cons.prems(3) by simp
qed simp

lemma gone:
  "trace does es s s' \<Longrightarrow> i \<notin> fst ` set (queue s) \<Longrightarrow> (\<And>d. Accepted i d \<notin> set es) \<Longrightarrow> i \<notin> fst ` set (queue s')"
proof (induction es arbitrary: s)
  case (Cons e es)
  then obtain s1 where s1: "does e s s1" "trace does es s1 s'" by auto
  have "i \<notin> fst ` set (outbox_apply e (queue s))" using Cons.prems(2,3) by (cases e) auto
  then show ?case using Cons.IH [OF s1(2)] simulates [OF s1(1)] Cons.prems(3) by simp
qed simp

lemma acked:
  assumes "trace does (es @ Acked i # fs) s s'" and "\<And>d. Accepted i d \<notin> set fs"
  shows "i \<notin> fst ` set (queue s')"
proof -
  obtain s1 s2 where s: "does (Acked i) s1 s2" "trace does fs s2 s'" using assms(1) by (auto simp: trace_append)
  show ?thesis using gone [OF s(2), of i] simulates [OF s(1)] assms(2) by fastforce
qed

end

subsection \<open>The list of the client\<close>

definition live :: "iotx_mc_pub_info_t list \<Rightarrow> (u16 \<times> byte list) list" where
  "live nodes = map (\<lambda>n. (msg_id n, node_buf n)) (filter (\<lambda>n. node_state n \<noteq> IOTX_MC_NODE_STATE_INVALID) nodes)"

lemma live_simps [simp]:
  "live [] = []" "live (xs @ ys) = live xs @ live ys"
  "live (n # ns) = (if node_state n = IOTX_MC_NODE_STATE_INVALID then live ns else (msg_id n, node_buf n) # live ns)"
  by (simp_all add: live_def)

lemma live_mask:
  "live (map (\<lambda>n. if msg_id n = i then n\<lparr>node_state := IOTX_MC_NODE_STATE_INVALID\<rparr> else n) ns) =
    filter (\<lambda>(j, d). j \<noteq> i) (live ns)"
  by (induction ns) auto

lemma republish_frame:
  "MQTTRePublish E buf len c = Some (rc, c') \<Longrightarrow> platform_only c c'"
  by (auto simp: MQTTRePublish_def utils_time_countdown_ms_def HAL_UptimeMs_def HAL_MutexLock_def HAL_MutexUnlock_def
      unlock_return_def bind_eq_Some_conv platform_only_def dest!: send_packet_frame split: if_splits)

text \<open>One pass: nothing that is still waiting is dropped, and what was acknowledged goes.\<close>

lemma pub_info_loop_live:
  "ok (\<lambda>c'. live (list_pub_wait_ack c') = live (passed @ nodes)) (pub_info_loop E passed nodes c)"
proof (induction nodes arbitrary: passed c)
  case (Cons n ns)
  have [vcg]: "(\<And>c'. live (list_pub_wait_ack c') = live (passed' @ ns) \<Longrightarrow> P c') \<Longrightarrow> ok P (pub_info_loop E passed' ns c)"
    for passed' c P
    using Cons.IH [of passed' c] by (auto simp: ok_def)
  show ?case
    unfolding pub_info_loop.simps by (intro vcg_pairs vcg; simp)
qed simp

lemma pub_info_loop_drops:
  "ok (\<lambda>c'. client_state c' = IOTX_MC_STATE_DISCONNECTED \<or>
     (\<forall>n \<in> set (list_pub_wait_ack c'). n \<in> set passed \<or> node_state n \<noteq> IOTX_MC_NODE_STATE_INVALID)) (pub_info_loop E passed nodes c)"
proof (induction nodes arbitrary: passed c)
  case (Cons n ns)
  have [vcg]: "(\<And>c'. client_state c' = IOTX_MC_STATE_DISCONNECTED \<or>
      (\<forall>n \<in> set (list_pub_wait_ack c'). n \<in> set passed' \<or> node_state n \<noteq> IOTX_MC_NODE_STATE_INVALID) \<Longrightarrow> P c') \<Longrightarrow>
      ok P (pub_info_loop E passed' ns c)"
    for passed' c P
    using Cons.IH [of passed' c] by (auto simp: ok_def)
  have [vcg]: "(\<And>c'. client_state c' = st \<Longrightarrow> P c') \<Longrightarrow> ok P (iotx_mc_set_client_state st c)" for st c P
    by (simp add: iotx_mc_set_client_state_def HAL_MutexLock_def HAL_MutexUnlock_def)
  show ?case
    unfolding pub_info_loop.simps by (intro vcg_pairs vcg; auto)
qed simp

text \<open>A publish stores its packet when it succeeds, and leaves the list as it was when it fails.\<close>

lemma publish_packet_stored:
  assumes s: "serialize_to_send MQTTSerialize_publish p c = Some (len, c1)"
    and p: "iotx_mc_push_pubInfo_to E len i c1 = Some (0, c2)"
    and t: "iotx_mc_send_packet E (buf_send c2) len timer c2 = Some (rc, c3)" and "0 < len"
  shows "butlast (list_pub_wait_ack c3) = list_pub_wait_ack c \<and>
    (rc = 0 \<and> writes_ok E \<longrightarrow> (\<exists>t d. list_pub_wait_ack c3 = list_pub_wait_ack c @
       [\<lparr>pub_start_time = t, node_state = IOTX_MC_NODE_STATE_NORMANL, msg_id = i, node_len = word_of_int len, node_buf = d\<rparr>] \<and>
       written (effects c3) = written (effects c) @ d))"
proof -
  have c1: "effects c1 = effects c" "list_pub_wait_ack c1 = list_pub_wait_ack c"
    using s by (auto simp: serialize_to_send_def bind_eq_Some_conv)
  obtain tm d where d: "0 \<le> len" "ptr_block (buf_send c1) len = Some d" "list_pub_wait_ack c2 = list_pub_wait_ack c @
      [\<lparr>pub_start_time = tm, node_state = IOTX_MC_NODE_STATE_NORMANL, msg_id = i, node_len = word_of_int len, node_buf = d\<rparr>]"
    "effects c2 = effects c" "buf_send c2 = buf_send c1"
    using push_success [OF p] c1 by auto
  obtain b where b: "buf_send c2 = Some b" "len \<le> int (length b)" "d = take (nat len) b"
    using d(2,5) assms(4) by (cases "buf_send c1") (auto simp: ptr_block_def rd_block_def split: if_splits)
  have "list_pub_wait_ack c3 = list_pub_wait_ack c2" using send_packet_frame [OF t] by (simp add: platform_only_fields)
  moreover have "written (effects c3) = written (effects c) @ d" if "rc = 0" "writes_ok E"
    using send_packet_success [of E b len timer c2 c3] t that b d(1,4) by simp
  ultimately show ?thesis using d(3) by auto
qed

lemma publish_packet_plain:
  assumes "serialize_to_send MQTTSerialize_publish p c = Some (len, c1)"
    and "iotx_mc_send_packet E (buf_send c1) len timer c1 = Some (rc, c3)"
  shows "list_pub_wait_ack c3 = list_pub_wait_ack c"
  using assms(1) send_packet_frame [OF assms(2)]
  by (auto simp: serialize_to_send_def bind_eq_Some_conv platform_only_fields)

lemma publish_push_fails:
  assumes "iotx_mc_push_pubInfo_to E len i c = Some (rc, c')" and "rc \<noteq> 0"
  shows "list_pub_wait_ack c' = list_pub_wait_ack c"
  using assms
  by (auto simp: iotx_mc_push_pubInfo_to_def HAL_Malloc_def timer_defs HAL_UptimeMs_def Let_def bind_eq_Some_conv
      split: if_splits prod.splits)

lemma serialize_list:
  "serialize_to_send s x c = Some (len, c') \<Longrightarrow> list_pub_wait_ack c' = list_pub_wait_ack c"
  by (auto simp: serialize_to_send_def bind_eq_Some_conv)

lemma MQTTPublish_list:
  "ok (\<lambda>(rc, c'). if rc = SUCCESS_RETURN \<and> 0 < ti_qos topic_msg
     then writes_ok E \<longrightarrow> (\<exists>t len d. list_pub_wait_ack c' = list_pub_wait_ack c @
         [\<lparr>pub_start_time = t, node_state = IOTX_MC_NODE_STATE_NORMANL, msg_id = ti_packet_id topic_msg,
           node_len = len, node_buf = d\<rparr>] \<and> written (effects c') = written (effects c) @ d)
     else list_pub_wait_ack c' = list_pub_wait_ack c) (MQTTPublish E topicName topic_msg c)"
  unfolding MQTTPublish_def
  apply (intro flow; simp; (drule platform_only_clock alloc_send_success)+; clarsimp simp: platform_only_fields not_le)
  subgoal by (rule serialize_list [THEN trans])
  subgoal by (drule serialize_list, drule (1) publish_push_fails, simp)
  subgoal by (frule (2) publish_packet_stored, simp, fastforce)
  subgoal by (frule (2) publish_packet_stored, simp, fastforce)
  subgoal by (frule (1) publish_packet_plain, simp)
  subgoal by (frule (1) publish_packet_plain, simp)
  done

text \<open>
  The events of the queue on the client.  \<open>Accepted i d\<close>: a publish with QoS 1 and packet id \<open>i\<close> that
  returned success, \<open>d\<close> what the network took in it.  \<open>Refused\<close>: a publish that returned an error, at
  whatever point, or one of QoS 0.  \<open>Other\<close> is any work that leaves the list alone.
\<close>

definition pub_does :: "'e environment_scheme \<Rightarrow> (u16, byte list) outbox_event \<Rightarrow> iotx_mc_client_t \<Rightarrow> iotx_mc_client_t \<Rightarrow> bool" where
  "pub_does E e c c' =
     (case e of
        Accepted i d \<Rightarrow> \<exists>name m. MQTTPublish E name m c = Some (SUCCESS_RETURN, c') \<and> 0 < ti_qos m \<and> ti_packet_id m = i \<and>
          written (effects c') = written (effects c) @ d
      | Refused \<Rightarrow> \<exists>name m rc. MQTTPublish E name m c = Some (rc, c') \<and> (rc \<noteq> SUCCESS_RETURN \<or> ti_qos m = 0)
      | Acked i \<Rightarrow> \<exists>rc. iotx_mc_mask_pubInfo_from i c = Some (rc, c')
      | Resent \<Rightarrow> \<exists>rc. MQTTPubInfoProc E c = Some (rc, c')
      | Other \<Rightarrow> list_pub_wait_ack c' = list_pub_wait_ack c)"

lemma accepted_simulates:
  assumes "pub_does E (Accepted i d) c c'" and "writes_ok E"
  shows "live (list_pub_wait_ack c') = live (list_pub_wait_ack c) @ [(i, d)]"
proof -
  obtain name m where p: "MQTTPublish E name m c = Some (SUCCESS_RETURN, c')" "0 < ti_qos m" "ti_packet_id m = i"
    "written (effects c') = written (effects c) @ d"
    using assms(1) by (auto simp: pub_does_def)
  from okD [OF MQTTPublish_list p(1)] p(2-4) assms(2) show ?thesis by auto
qed

lemma refused_simulates:
  "pub_does E Refused c c' \<Longrightarrow> list_pub_wait_ack c' = list_pub_wait_ack c"
  by (auto simp: pub_does_def dest!: okD [OF MQTTPublish_list] split: if_splits)

interpretation pending: outbox "\<lambda>e c c'. writes_ok E \<and> pub_does E e c c'" "\<lambda>c. live (list_pub_wait_ack c)" for E
proof unfold_locales
  fix e c c' assume d: "writes_ok E \<and> pub_does E e c c'"
  show "live (list_pub_wait_ack c') = outbox_apply e (live (list_pub_wait_ack c))"
  proof (cases e)
    case (Accepted i x)
    then show ?thesis using d accepted_simulates [of E i x c c'] by simp
  next
    case Refused
    then show ?thesis using d refused_simulates [of E c c'] by simp
  next
    case (Acked i)
    then show ?thesis using d
      by (auto simp: pub_does_def iotx_mc_mask_pubInfo_from_def HAL_MutexLock_def HAL_MutexUnlock_def unlock_return_def
          bind_eq_Some_conv live_mask split: if_splits)
  next
    case Resent
    then show ?thesis using d
      by (auto simp: pub_does_def MQTTPubInfoProc_def HAL_MutexLock_def HAL_MutexUnlock_def unlock_return_def
          bind_eq_Some_conv split: if_splits dest!: okD [OF pub_info_loop_live])
  qed (use d in \<open>simp add: pub_does_def\<close>)
qed

subsection \<open>What a pass sends\<close>

lemma republish_result:
  assumes "MQTTRePublish E buf len c = Some (rc, c')" and "writes_ok E" "0 \<le> len" "len \<le> int (length buf)"
  shows "rc = MQTT_NETWORK_ERROR \<or> rc = SUCCESS_RETURN \<and> written (effects c') = written (effects c) @ take (nat len) buf"
  using assms(1)
  by (auto simp: MQTTRePublish_def utils_time_countdown_ms_def HAL_UptimeMs_def HAL_MutexLock_def HAL_MutexUnlock_def
      unlock_return_def bind_eq_Some_conv split: if_splits dest!: send_packet_success [OF _ assms(2-4)])

lemma get_state_eq:
  "(\<And>c'. c' = c \<Longrightarrow> P (client_state c, c')) \<Longrightarrow> ok P (iotx_mc_get_client_state c)"
  by (auto simp: iotx_mc_get_client_state_def HAL_MutexLock_def HAL_MutexUnlock_def ok_def bind_eq_Some_conv
      split: if_splits)

lemma sends_skip:
  "subseq s xs \<Longrightarrow> \<exists>s'. subseq s' (x # xs) \<and> concat s = concat s'"
  by (intro exI [of _ s]) auto

lemma sends_one:
  "subseq s xs \<Longrightarrow> \<exists>s'. subseq s' (x # xs) \<and> x @ concat s = concat s'"
  by (intro exI [of _ "x # s"]) auto

lemma pub_info_loop_sends:
  assumes E: "writes_ok E"
  shows "\<forall>n \<in> set nodes. pub_node_ok n \<Longrightarrow>
    ok (\<lambda>c'. client_state c' = IOTX_MC_STATE_DISCONNECTED \<and> client_state c \<noteq> IOTX_MC_STATE_DISCONNECTED \<or>
      (\<exists>sent. subseq sent (map snd (live nodes)) \<and> written (effects c') = written (effects c) @ concat sent))
    (pub_info_loop E passed nodes c)"
proof (induction nodes arbitrary: passed c)
  case (Cons n ns)
  let ?post = "\<lambda>ns c c'. client_state c' = IOTX_MC_STATE_DISCONNECTED \<and> client_state c \<noteq> IOTX_MC_STATE_DISCONNECTED \<or>
      (\<exists>sent. subseq sent (map snd (live ns)) \<and> written (effects c') = written (effects c) @ concat sent)"
  have rest: "(\<And>c'. ?post ns c c' \<Longrightarrow> P c') \<Longrightarrow> ok P (pub_info_loop E passed' ns c)"
    for passed' c P
    using Cons.IH [of c passed'] Cons.prems by (auto simp: ok_def)
  have set: "(\<And>c'. client_state c' = st \<Longrightarrow> P c') \<Longrightarrow> ok P (iotx_mc_set_client_state st c)" for st c P
    by (simp add: iotx_mc_set_client_state_def HAL_MutexLock_def HAL_MutexUnlock_def)
  have send: "(\<And>rc c'. platform_only c c' \<Longrightarrow> rc = MQTT_NETWORK_ERROR \<or> rc = SUCCESS_RETURN \<and>
        written (effects c') = written (effects c) @ node_buf n \<Longrightarrow> P (rc, c')) \<Longrightarrow>
      ok P (MQTTRePublish E (node_buf n) (uint (node_len n)) c)" for c P
  proof (rule okI, clarify)
    fix rc c' assume P: "\<And>rc c'. platform_only c c' \<Longrightarrow> rc = MQTT_NETWORK_ERROR \<or> rc = SUCCESS_RETURN \<and>
        written (effects c') = written (effects c) @ node_buf n \<Longrightarrow> P (rc, c')"
      and r: "MQTTRePublish E (node_buf n) (uint (node_len n)) c = Some (rc, c')"
    have l: "uint (node_len n) = int (length (node_buf n))" using Cons.prems by (simp add: pub_node_ok_def)
    show "P (rc, c')"
      using P [OF republish_frame [OF r]] republish_result [OF r E] by (simp add: l)
  qed
  show ?case
    unfolding pub_info_loop.simps 
    by (intro flow get_state_eq rest set send; (drule platform_only_clock)?; (drule platform_only_clock)?)
      (auto simp: platform_only_fields intro: sends_skip sends_one)
qed (simp add: exI [of _ "[]"])

subsection \<open>Properties\<close>

text \<open>
  C5: the list of unacknowledged messages is a queue.  Through any sequence of publishes, those that
  succeed and those that fail, acknowledgements, passes of \<open>MQTTPubInfoProc\<close> and other work, the
  messages in the list that are not marked as acknowledged are exactly those of the abstract queue: a
  QoS 1 message whose publish succeeded is there, with the bytes that were sent, until an
  acknowledgement of its id, and not after it; a publish that fails leaves nothing behind, the packet
  that \<open>MQTTPublish\<close> had stored before it could not send it included.  The list is emptied only by
  \<open>wrapper_mqtt_release\<close>, which ends the life of the client.
\<close>

theorem pending_until_acked:
  assumes "trace (pub_does E) (es @ Accepted i d # fs) c c'" and "writes_ok E"
  shows "live (list_pub_wait_ack c') = fold outbox_apply (es @ Accepted i d # fs) (live (list_pub_wait_ack c)) \<and>
    (Acked i \<notin> set fs \<longrightarrow> (i, d) \<in> set (live (list_pub_wait_ack c'))) \<and>
    ((\<exists>gs hs. fs = gs @ Acked i # hs \<and> (\<forall>x. Accepted i x \<notin> set hs)) \<longrightarrow>
      i \<notin> fst ` set (live (list_pub_wait_ack c')))"
proof -
  let ?does = "\<lambda>e c c'. writes_ok E \<and> pub_does E e c c'"
  have t: "trace ?does (es @ Accepted i d # fs) c c'" using assms by simp
  then obtain s1 s2 where s: "?does (Accepted i d) s1 s2" "trace ?does fs s2 c'"
    by (auto simp: trace_append)
  have "(i, d) \<in> set (live (list_pub_wait_ack s2))" using pending.simulates [OF s(1)] by simp
  then have "Acked i \<notin> set fs \<longrightarrow> (i, d) \<in> set (live (list_pub_wait_ack c'))"
    using pending.stays [OF s(2)] by blast
  moreover have "(\<exists>gs hs. fs = gs @ Acked i # hs \<and> (\<forall>x. Accepted i x \<notin> set hs)) \<longrightarrow>
      i \<notin> fst ` set (live (list_pub_wait_ack c'))"
    using pending.acked [of E _ i _ s2 c'] s(2) by blast
  ultimately show ?thesis using pending.trace_queue [OF t] by blast
qed

text \<open>A network that takes what it is given, the second time excepted: the second publish fails.\<close>

definition flaky_env :: environment where
  "flaky_env = sample_env\<lparr>env_write := (\<lambda>n d t. if n = 1 then -1 else int (length d))\<rparr>"

definition flaky_run :: "(iotx_mc_client_t \<times> iotx_mc_client_t \<times> iotx_mc_client_t) option" where
  "flaky_run = do {
     (rc, c1) \<leftarrow> MQTTPublish flaky_env (str ''/a/bc'') (sample_message\<lparr>ti_packet_id := 1\<rparr>) connected_client;
     (rc', c2) \<leftarrow> MQTTPublish flaky_env (str ''/a/bc'') (sample_message\<lparr>ti_packet_id := 2\<rparr>) c1;
     (rc'', c3) \<leftarrow> MQTTPubInfoProc flaky_env c2;
     if rc = SUCCESS_RETURN \<and> rc' = MQTT_NETWORK_ERROR \<and> effects c2 = effects c1 @ [NetWrite []] then Some (c1, c2, c3) else None }"

lemma flaky_run_sends:
  "map_option (\<lambda>(c1, c2, c3). written (effects c1)) flaky_run =
     Some [0x32, 11, 0, 5, 0x2F, 0x61, 0x2F, 0x62, 0x63, 0, 1, 0x68, 0x69]"
  by code_simp

theorem pending_until_acked_witness:
  "\<exists>c1 c2 c3. flaky_run = Some (c1, c2, c3) \<and>
     live (list_pub_wait_ack c3) = [(1, [0x32, 11, 0, 5, 0x2F, 0x61, 0x2F, 0x62, 0x63, 0, 1, 0x68, 0x69])]"
proof -
  let ?d = "[0x32, 11, 0, 5, 0x2F, 0x61, 0x2F, 0x62, 0x63, 0, 1, 0x68, 0x69]"
  obtain c1 c2 c3 where run: "flaky_run = Some (c1, c2, c3)" "written (effects c1) = ?d"
    using flaky_run_sends by auto
  have c1: "MQTTPublish flaky_env (str ''/a/bc'') (sample_message\<lparr>ti_packet_id := 1\<rparr>) connected_client = Some (SUCCESS_RETURN, c1)"
    and c2: "MQTTPublish flaky_env (str ''/a/bc'') (sample_message\<lparr>ti_packet_id := 2\<rparr>) c1 = Some (MQTT_NETWORK_ERROR, c2)"
    and c3: "\<exists>rc. MQTTPubInfoProc flaky_env c2 = Some (rc, c3)"
    using run(1) by (auto simp: flaky_run_def bind_eq_Some_conv split: if_splits)
  have "pub_does flaky_env (Accepted 1 ?d) connected_client c1"
    using run(2) c1 sample_message_fields(1)
    by (simp add: pub_does_def connected_client_fields)
      (intro exI [of _ "str ''/a/bc''"] exI [of _ "sample_message\<lparr>ti_packet_id := 1\<rparr>"], simp)
  moreover have "pub_does flaky_env Refused c1 c2" using c2 by (fastforce simp: pub_does_def)
  moreover have "pub_does flaky_env Resent c2 c3" using c3 by (simp add: pub_does_def)
  ultimately have t: "trace (pub_does flaky_env) ([] @ Accepted 1 ?d # [Refused, Resent]) connected_client c3" by auto
  have "writes_ok flaky_env" by (auto simp: flaky_env_def writes_ok_def)
  from pending_until_acked [OF t this] run(1) show ?thesis by (auto simp: connected_client_fields)
qed

text \<open>
  C6: a pass over the unacknowledged messages loses none of them, and repeats only what is in them:
  the messages not yet acknowledged are the same, in the same order, before and after; either the
  pass went through, then the bytes the network has accepted are the packets of some of these
  messages, whole and in order, or the client is disconnected; and unless it is disconnected, no
  acknowledged message is left in the list.
\<close>

theorem resend_pass:
  assumes "MQTTPubInfoProc E c = Some (rc, c')" and "writes_ok E" and "mc_inv c"
  shows "live (list_pub_wait_ack c') = live (list_pub_wait_ack c) \<and>
    (client_state c' = IOTX_MC_STATE_DISCONNECTED \<and> client_state c \<noteq> IOTX_MC_STATE_DISCONNECTED \<or>
     (\<exists>sent. subseq sent (map snd (live (list_pub_wait_ack c))) \<and>
       written (effects c') = written (effects c) @ concat sent)) \<and>
    (client_state c' = IOTX_MC_STATE_DISCONNECTED \<or>
     (\<forall>n \<in> set (list_pub_wait_ack c'). node_state n \<noteq> IOTX_MC_NODE_STATE_INVALID))"
proof -
  have nodes: "\<forall>n \<in> set (list_pub_wait_ack c). pub_node_ok n"
    using assms(3) by (simp add: mc_inv_def list_all_iff)
  obtain c1 c2 where l: "c1 = c\<lparr>held := insert LockListPub (held c)\<rparr>" "pub_info_loop E [] (list_pub_wait_ack c) c1 = Some c2"
    "c' = c2\<lparr>held := held c2 - {LockListPub}\<rparr>"
    using assms(1) by (auto simp: MQTTPubInfoProc_def HAL_MutexLock_def HAL_MutexUnlock_def unlock_return_def
        bind_eq_Some_conv split: if_splits)
  show ?thesis
    using okD [OF pub_info_loop_live l(2)] okD [OF pub_info_loop_drops l(2)]
      okD [OF pub_info_loop_sends [OF assms(2) nodes] l(2)] l(1,3) by simp
qed

lemma republish_prompt:
  assumes "prompt E (n_uptime c) 3 (request_timeout_ms c)" and "LockWriteBuf \<notin> held c" and "buf \<noteq> []"
  shows "\<exists>c'. MQTTRePublish E buf (int (length buf)) c = Some (0, c') \<and> platform_only c c'"
proof -
  define c1 where "c1 = c\<lparr>n_uptime := Suc (n_uptime c), held := insert LockWriteBuf (held c)\<rparr>"
  obtain c2 where s: "iotx_mc_send_packet E (Some buf) (int (length buf))
      \<lparr>time = ucast (env_uptime E (n_uptime c) + ucast (request_timeout_ms c))\<rparr> c1 = Some (0, c2)"
    "held c2 = held c1"
    using send_prompt [OF assms(1), of c1 "\<lparr>time = ucast (env_uptime E (n_uptime c) + ucast (request_timeout_ms c))\<rparr>"
        "int (length buf)" buf] assms(3) by (auto simp: c1_def)
  have "MQTTRePublish E buf (int (length buf)) c = Some (0, c2\<lparr>held := held c\<rparr>)"
    using s assms(2)
    by (simp add: MQTTRePublish_def utils_time_countdown_ms_def HAL_UptimeMs_def HAL_MutexLock_def c1_def
        HAL_MutexUnlock_def unlock_return_def)
  then show ?thesis using republish_frame by blast
qed

text \<open>A client with an acknowledged message and one that has waited for 10 seconds.\<close>

definition waiting_client :: iotx_mc_client_t where
  "waiting_client = connected_client\<lparr>n_uptime := 1000, connect_data := MQTTPacket_connectData_initializer,
     reconnect_param := \<lparr>reconnect_next_time = \<lparr>time = 0\<rparr>, reconnect_time_interval_ms = 1000\<rparr>,
     list_pub_wait_ack :=
      [\<lparr>pub_start_time = \<lparr>time = 0\<rparr>, node_state = IOTX_MC_NODE_STATE_INVALID, msg_id = 5, node_len = 1, node_buf = [9]\<rparr>,
       \<lparr>pub_start_time = \<lparr>time = 0\<rparr>, node_state = IOTX_MC_NODE_STATE_NORMANL, msg_id = 6, node_len = 2, node_buf = [0x32, 1]\<rparr>]\<rparr>"

lemma waiting_client_pass:
  "\<exists>c'. MQTTPubInfoProc sample_env waiting_client = Some (0, c')"
proof -
  define c1 where "c1 = waiting_client\<lparr>n_uptime := 1001, held := {LockListPub}\<rparr>"
  have "{1001 <.. 1001 + 3} = {1002, 1003, 1004 :: nat}" by auto
  then have "prompt sample_env 1001 3 2000" by (simp only: prompt_def) (simp add: sample_env_def)
  then obtain c2 where r: "MQTTRePublish sample_env [0x32, 1] 2 c1 = Some (0, c2)" "platform_only c1 c2"
    using republish_prompt [of sample_env c1 "[0x32, 1]"]
    by (auto simp: c1_def waiting_client_def connected_client_def zero_client_def hal_start_def)
  have "c1 = waiting_client\<lparr>n_uptime := 1001, held := {LockListPub}\<rparr>" by (rule c1_def)
  then show ?thesis using r
    by (auto simp: MQTTPubInfoProc_def waiting_client_def connected_client_def zero_client_def hal_start_def
        HAL_MutexLock_def HAL_MutexUnlock_def unlock_return_def iotx_mc_get_client_state_def utils_time_spend_def
        HAL_UptimeMs_def sample_env_def Let_def iotx_time_start_def platform_only_fields)
qed

theorem resend_pass_witness:
  "\<exists>c'. MQTTPubInfoProc sample_env waiting_client = Some (0, c') \<and>
     live (list_pub_wait_ack c') = [(6, [0x32, 1])]"
proof -
  obtain c' where p: "MQTTPubInfoProc sample_env waiting_client = Some (0, c')" using waiting_client_pass by blast
  have "mc_inv waiting_client"
    by (simp add: mc_inv_def waiting_client_def connected_client_def zero_client_def hal_start_def backoff_steps_def
        pub_node_ok_def MQTTPacket_connectData_initializer_def)
  from resend_pass [OF p sample_env_network(1) this] p show ?thesis
    by (auto simp: waiting_client_def)
qed

end
