(* ===== verification/MqttReconnect.thy ===== *)
theory MqttReconnect
  imports MqttPending
begin

text \<open>
  Losing and regaining the connection: what connecting keeps of the client (its subscriptions and
  its unacknowledged messages), when the client counts as connected, the three attempts to reach the
  broker, the intervals between reconnects, and noticing a silent broker.
\<close>

subsection \<open>What connecting keeps\<close>

definition session :: "iotx_mc_client_t \<Rightarrow> _" where
  "session c = (packet_id c, request_timeout_ms c, keepalive_probes c, ping_mark c, buf_size_send_max c,
     buf_size_read_max c, list_sub_handle c, client_state c, reconnect_param c, connect_data c,
     list_pub_wait_ack c, list_sub_sync_ack c, handle_event c)"

definition kept :: "iotx_mc_client_t \<Rightarrow> iotx_mc_client_t \<Rightarrow> bool" where
  "kept c c' \<longleftrightarrow> session c' = session c"

lemma session_simps [simp]:
  "session (c\<lparr>n_uptime := n\<rparr>) = session c" "session (c\<lparr>n_malloc := n\<rparr>) = session c"
  "session (c\<lparr>n_read := n\<rparr>) = session c" "session (c\<lparr>n_write := n\<rparr>) = session c"
  "session (c\<lparr>n_connect := n\<rparr>) = session c" "session (c\<lparr>effects := e\<rparr>) = session c"
  "session (c\<lparr>held := h\<rparr>) = session c" "session (c\<lparr>buf_send := b\<rparr>) = session c"
  "session (c\<lparr>buf_read := b\<rparr>) = session c" "session (c\<lparr>buf_size_send := s\<rparr>) = session c"
  "session (c\<lparr>buf_size_read := s\<rparr>) = session c" "session (c\<lparr>in_yield_cb := i\<rparr>) = session c"
  "session (c\<lparr>next_ping_time := t\<rparr>) = session c"
  "session (snd (reset_send_buffer c)) = session c" "session (snd (reset_recv_buffer c)) = session c"
  "session (net_disconnect c) = session c" "session (HAL_SleepMs ms c) = session c"
  by (simp_all add: session_def reset_send_buffer_def reset_recv_buffer_def net_disconnect_def HAL_SleepMs_def)

lemma session_state: "session c = session d \<Longrightarrow> session (c\<lparr>client_state := s\<rparr>) = session (d\<lparr>client_state := s\<rparr>)"
  by (simp add: session_def)

lemma sessionD:
  assumes "kept c c'"
  shows "packet_id c' = packet_id c" "request_timeout_ms c' = request_timeout_ms c"
    "list_sub_handle c' = list_sub_handle c" "client_state c' = client_state c"
    "reconnect_param c' = reconnect_param c" "list_pub_wait_ack c' = list_pub_wait_ack c"
  using assms by (simp_all add: kept_def session_def)

definition handlers_keep :: "'e mqtt_environment_scheme \<Rightarrow> bool" where
  "handlers_keep E = (\<forall>f ctx m c c'. env_handler E f ctx m c = Some c' \<longrightarrow> kept c c')"

lemma kept_refl [simp]: "kept c c" by (simp add: kept_def)
lemma kept_trans: "kept a b \<Longrightarrow> kept b c \<Longrightarrow> kept a c" by (simp add: kept_def)

named_theorems keep \<open>rules that split a goal about what an operation keeps along its program text\<close>

lemmas [keep] = ok_case_pair ok_case_triple pred_case_pair ok_case_bind ok_None ok_SomeI ok_bind ok_if ok_case_prod
  ok_case_prod_app ok_let pred_case_prod ok_lock_eq ok_unlock_eq unlock_return_ok ok_case_option ok_case_sum
  ok_wr_block ok_rd8 ok_rd_block ok_deserialize

lemma kept_pair: "ok (\<lambda>(r, c'). kept c c') m \<Longrightarrow> (\<And>r c'. kept c c' \<Longrightarrow> P (r, c')) \<Longrightarrow> ok P m"
  by (auto simp: ok_def)

lemma kept_clock:
  "utils_time_is_expired E timer c = (b, c') \<Longrightarrow> kept c c'"
  "time_left_or_1 E timer c = (t, c') \<Longrightarrow> kept c c'"
  "utils_time_countdown_ms E ms c = (tm, c') \<Longrightarrow> kept c c'"
  "HAL_Malloc E sz c = (al, c') \<Longrightarrow> kept c c'"
  "net_connect E c = (rc, c') \<Longrightarrow> kept c c'"
  "alloc_send_buffer E len c = (rc, c') \<Longrightarrow> kept c c'"
  "net_read E n ms c = (bs, c') \<Longrightarrow> kept c c'"
  by (auto simp: net_read_def timer_defs HAL_UptimeMs_def HAL_Malloc_def time_left_or_1_def kept_def net_connect_def
      alloc_send_buffer_def Let_def split: prod.splits if_splits)

lemma send_packet_keep [keep]:
  "(\<And>rc c'. kept c c' \<Longrightarrow> P (rc, c')) \<Longrightarrow> ok P (iotx_mc_send_packet E buf len timer c)"
  by (auto simp: ok_def kept_def session_def platform_only_fields dest!: send_packet_frame)

lemma serialize_keep [keep]:
  "(\<And>len c'. kept c c' \<Longrightarrow> P (len, c')) \<Longrightarrow> ok P (serialize_to_send ser x c)"
  by (auto simp: ok_def serialize_to_send_def bind_eq_Some_conv kept_def)

lemma alloc_recv_keep [keep]:
  "(\<And>rc c'. kept c c' \<Longrightarrow> P (rc, c')) \<Longrightarrow> ok P (alloc_recv_buffer E len c)"
  by (auto simp: ok_def alloc_recv_buffer_def HAL_Malloc_def kept_def Let_def bind_eq_Some_conv
      split: if_split_asm option.split_asm)

lemma call_handler_keep [keep]:
  assumes "handlers_keep E" and "\<And>r c'. kept c c' \<Longrightarrow> P (r, c')"
  shows "ok P (call_handler E hdl m c)"
proof -
  have "kept c (c'\<lparr>in_yield_cb := 0\<rparr>)" if "env_handler E f x m (c\<lparr>in_yield_cb := 1\<rparr>) = Some c'" for f x c'
    using assms(1) that unfolding handlers_keep_def by (fastforce simp: kept_def)
  then show ?thesis using assms(2) by (auto simp: ok_def call_handler_def bind_eq_Some_conv split: option.split_asm)
qed

lemma read_into_keep [keep]:
  assumes "\<And>rc c'. kept c c' \<Longrightarrow> P (rc, c')"
  shows "ok P (read_into E off len tm c)"
proof -
  have "ok (\<lambda>(r, c'). kept c c') (read_into E off len tm c)"
    unfolding read_into_def by (intro keep; ((drule kept_clock)+)?; simp add: kept_def)
  then show ?thesis using assms by (rule kept_pair)
qed

lemma decode_loop_keep: "ok (\<lambda>(r, v, c'). kept c c') (decode_packet_loop E tm len mult v c)"
proof (induction E tm len mult v c rule: decode_packet_loop.induct)
  case (1 E tm len mult v c)
  obtain rc bs c1 where r: "net_read E 1 (if tm = 0 then 1 else tm) c = ((rc, bs), c1)"
    by (metis prod.exhaust)
  then have st: "kept c c1" by (auto simp: net_read_def kept_def split: prod.splits)
  have ih: "ok (\<lambda>(r, v, c'). kept c1 c')
      (decode_packet_loop E tm (Suc len) (mult * 128) (v + uint (i AND 127) * mult) c1)"
    if "\<not> 4 < Suc len" "rc = 1" "bs = i # bs'" "i AND 128 \<noteq> 0" for i bs'
    using 1 [OF that(1) r [symmetric] refl _ _ that(3) refl that(4)] that(2) by simp
  show ?case
    using r st ih by (subst decode_packet_loop.simps) (auto simp: ok_def Let_def split: list.split intro: kept_trans)
qed

lemma decode_keep [keep]: "(\<And>rc v c'. kept c c' \<Longrightarrow> P (rc, v, c')) \<Longrightarrow> ok P (iotx_mc_decode_packet E tm c)"
  using decode_loop_keep [of c E tm 0 1 0] by (auto simp: iotx_mc_decode_packet_def ok_def)

lemma read_overflow_keep [keep]:
  assumes [simp]: "handlers_keep E" and "\<And>r c'. kept c c' \<Longrightarrow> P (r, c')"
  shows "ok P (read_packet_overflow E timer pt len rem c)"
proof -
  have "ok (\<lambda>(r, c'). kept c c') (read_packet_overflow E timer pt len rem c)"
    unfolding read_packet_overflow_def by (intro vcg_pairs keep; ((drule kept_clock)+)?; simp add: kept_def)
  then show ?thesis using assms(2) by (rule kept_pair)
qed

lemma read_packet_keep [keep]:
  assumes [simp]: "handlers_keep E" and "\<And>r c'. kept c c' \<Longrightarrow> P (r, c')"
  shows "ok P (iotx_mc_read_packet E timer pt c)"
proof -
  have "ok (\<lambda>(r, c'). kept c c') (iotx_mc_read_packet E timer pt c)"
    unfolding iotx_mc_read_packet_def by (intro vcg_pairs keep; ((drule kept_clock)+)?; simp add: kept_def)
  then show ?thesis using assms(2) by (rule kept_pair)
qed

lemma locked_reset_keep [keep]:
  "(\<And>c'. kept c c' \<Longrightarrow> P c') \<Longrightarrow> ok P (locked_reset_recv_buffer c)"
  by (auto simp: locked_reset_recv_buffer_def HAL_MutexLock_def HAL_MutexUnlock_def ok_def kept_def reset_recv_buffer_def
      bind_eq_Some_conv split: if_splits)

lemma handle_CONNACK_keep [keep]:
  "(\<And>r c'. kept c c' \<Longrightarrow> P (r, c')) \<Longrightarrow> ok P (iotx_mc_handle_recv_CONNACK c)"
  unfolding iotx_mc_handle_recv_CONNACK_def by (intro vcg_pairs keep) simp

lemma wait_connack_loop_keep:
  assumes [simp]: "handlers_keep E"
  shows "ok (\<lambda>(r, c'). kept c c') (wait_connack_loop E timer n pt c)"
proof (induction "11 - n" arbitrary: n pt c rule: less_induct)
  case less
  have rest: "\<not> 10 < Suc n \<Longrightarrow> (\<And>r c'. kept c1 c' \<Longrightarrow> P (r, c')) \<Longrightarrow> ok P (wait_connack_loop E timer (Suc n) pt1 c1)" for P pt1 c1
    using less [of "Suc n" c1 pt1] by (auto simp: ok_def)
  show ?case
    apply (subst wait_connack_loop.simps)
    by (intro vcg_pairs rest keep; ((drule kept_clock)+)?; simp add: kept_def)
qed

lemma wait_CONNACK_keep [keep]:
  assumes "handlers_keep E" and "\<And>r c'. kept c c' \<Longrightarrow> P (r, c')"
  shows "ok P (iotx_mc_wait_CONNACK E c)"
proof -
  obtain tm c1 where t: "utils_time_countdown_ms E (request_timeout_ms c) c = (tm, c1)" by fastforce
  have "kept c c1" using kept_clock(3) [OF t] .
  then show ?thesis using wait_connack_loop_keep [OF assms(1), of c1 tm 0 "Some 0"] assms(2)
    by (auto simp: iotx_mc_wait_CONNACK_def t ok_def dest: kept_trans)
qed

lemma MQTTConnect_keep [keep]:
  assumes "\<And>r c'. kept c c' \<Longrightarrow> r \<noteq> MQTT_CONNECT_BLOCK \<Longrightarrow> P (r, c')"
  shows "ok P (MQTTConnect E c)"
proof -
  have "ok (\<lambda>(r, c'). kept c c' \<and> r \<noteq> MQTT_CONNECT_BLOCK) (MQTTConnect E c)"
    unfolding MQTTConnect_def by (intro vcg_pairs keep; ((drule kept_clock)+)?; simp add: kept_def)
  then show ?thesis using assms by (auto simp: ok_def)
qed

text \<open>The handshake: an early return is an error.\<close>

lemma mqtt_connect_loop_keep:
  assumes [simp]: "handlers_keep E"
  shows "ok (\<lambda>(r, c'). kept c c' \<and> r \<noteq> Inl SUCCESS_RETURN \<and> r \<noteq> Inl MQTT_CONNECT_BLOCK) (mqtt_connect_loop E n c)"
proof (induction "9 - n" arbitrary: n c rule: less_induct)
  case less
  have rest: "Suc n < 9 \<Longrightarrow> (\<And>r c'. kept c1 c' \<Longrightarrow> r \<noteq> Inl SUCCESS_RETURN \<and> r \<noteq> Inl MQTT_CONNECT_BLOCK \<Longrightarrow> P (r, c')) \<Longrightarrow>
      ok P (mqtt_connect_loop E (Suc n) c1)" for P c1
    using less [of "Suc n" c1] by (auto simp: ok_def)
  show ?case
    apply (subst mqtt_connect_loop.simps)
    by (intro vcg_pairs rest keep; ((drule kept_clock)+)?; simp add: kept_def)
qed

lemma mqtt_connect_result:
  assumes "mqtt_connect E c = Some (rc, c')" and "handlers_keep E"
  shows "rc \<noteq> MQTT_CONNECT_BLOCK \<and>
    (if rc = SUCCESS_RETURN
     then client_state c' = IOTX_MC_STATE_CONNECTED \<and> kept (c\<lparr>client_state := IOTX_MC_STATE_CONNECTED\<rparr>) c'
     else kept c c')"
proof -
  obtain r c1 where l: "mqtt_connect_loop E 1 c = Some (r, c1)"
    using assms(1) by (auto simp: mqtt_connect_def bind_eq_Some_conv)
  have k: "kept c c1" "r \<noteq> Inl SUCCESS_RETURN" "r \<noteq> Inl MQTT_CONNECT_BLOCK"
    using okD [OF mqtt_connect_loop_keep [OF assms(2)] l] by simp_all
  show ?thesis
    using assms(1) k
    by (auto simp: mqtt_connect_def l [simplified] iotx_mc_set_client_state_def HAL_MutexLock_def HAL_MutexUnlock_def
        utils_time_countdown_ms_def HAL_UptimeMs_def kept_def intro: session_state split: sum.splits if_splits)
qed

lemma mqtt_connect_ping:
  assumes "mqtt_connect E c = Some (SUCCESS_RETURN, c')" and "handlers_keep E"
  shows "\<exists>n. time (next_ping_time c') = ucast (env_uptime E n + ucast (keepalive_ms c))"
proof -
  obtain r c1 where l: "mqtt_connect_loop E 1 c = Some (r, c1)"
    using assms(1) by (auto simp: mqtt_connect_def bind_eq_Some_conv)
  have k: "kept c c1" "r \<noteq> Inl SUCCESS_RETURN"
    using okD [OF mqtt_connect_loop_keep [OF assms(2)] l] by simp_all
  then have "keepalive_ms c1 = keepalive_ms c" by (simp add: kept_def session_def keepalive_ms_def)
  then show ?thesis
    using assms(1) k(2)
    by (auto simp: mqtt_connect_def l [simplified] iotx_mc_set_client_state_def HAL_MutexLock_def HAL_MutexUnlock_def
        utils_time_countdown_ms_def HAL_UptimeMs_def keepalive_ms_def split: sum.splits if_splits)
qed

subsection \<open>Connecting\<close>

text \<open>The three attempts: those that fail, and what they leave in the order of the effects.\<close>

definition failed_attempts :: "'e environment_scheme \<Rightarrow> nat \<Rightarrow> nat list" where
  "failed_attempts E n = takeWhile (\<lambda>i. env_connect E i \<noteq> SUCCESS_RETURN) [n, n + 1, n + 2]"

lemma tcp_connect_eq:
  "snd (tcp_connect_loop E 3 1 c) =
     (let failed = failed_attempts E (n_connect c) in
      c\<lparr>n_connect := n_connect c + min 3 (length failed + 1),
        effects := effects c @ concat (map (\<lambda>i. [NetConnect (env_connect E i), NetDisconnect, SleepMs 1000]) failed)
          @ (if length failed < 3 then [NetConnect SUCCESS_RETURN] else [])\<rparr>)"
  by (simp add: tcp_connect_loop.simps [of E 3 "Suc 0"] tcp_connect_loop.simps [of E 3 "Suc (Suc 0)"]
      tcp_connect_loop.simps [of E 3 "Suc (Suc (Suc 0))"]
      net_connect_def net_disconnect_def HAL_SleepMs_def failed_attempts_def Let_def)

lemma tcp_connect_keep: "kept c (snd (tcp_connect_loop E 3 1 c))"
  unfolding tcp_connect_eq by (simp add: Let_def kept_def)

lemma wrapper_connect_result:
  assumes "wrapper_mqtt_connect E c = Some (rc, c')" and "handlers_keep E"
  shows "rc \<noteq> MQTT_CONNECT_BLOCK \<and>
    (if rc = SUCCESS_RETURN
     then client_state c' = IOTX_MC_STATE_CONNECTED \<and> kept (c\<lparr>client_state := IOTX_MC_STATE_CONNECTED\<rparr>) c'
     else kept c c')"
proof -
  define c1 where "c1 = snd (tcp_connect_loop E 3 1 c)"
  have m: "mqtt_connect E c1 = Some (rc, c')"
    using assms(1) by (simp add: wrapper_mqtt_connect_def c1_def case_prod_beta)
  have "kept c c1" using tcp_connect_keep by (simp add: c1_def)
  then show ?thesis using mqtt_connect_result [OF m assms(2)]
    by (auto simp: kept_def intro: session_state split: if_splits)
qed

text \<open>
  \<open>wrapper_mqtt_connect\<close> makes at most three attempts to reach the broker, each failed one followed
  by a disconnect and a pause of a second, and stops at the first success; the handshake follows
  in any case, also when all three have failed.
\<close>

theorem three_connect_attempts:
  "wrapper_mqtt_connect E c = mqtt_connect E
     (c\<lparr>n_connect := n_connect c + min 3 (length (failed_attempts E (n_connect c)) + 1),
        effects := effects c
          @ concat (map (\<lambda>i. [NetConnect (env_connect E i), NetDisconnect, SleepMs 1000]) (failed_attempts E (n_connect c)))
          @ (if length (failed_attempts E (n_connect c)) < 3 then [NetConnect SUCCESS_RETURN] else [])\<rparr>)"
  using tcp_connect_eq [of E c] by (simp add: wrapper_mqtt_connect_def case_prod_beta Let_def)

lemma wrapper_connect_ping:
  assumes "wrapper_mqtt_connect E c = Some (SUCCESS_RETURN, c')" and "handlers_keep E"
  shows "\<exists>n. time (next_ping_time c') = ucast (env_uptime E n + ucast (keepalive_ms c))"
proof -
  define c1 where "c1 = snd (tcp_connect_loop E 3 1 c)"
  have m: "mqtt_connect E c1 = Some (SUCCESS_RETURN, c')"
    using assms(1) by (simp add: wrapper_mqtt_connect_def c1_def case_prod_beta)
  have "keepalive_ms c1 = keepalive_ms c"
    using tcp_connect_keep [of c E] by (simp add: c1_def kept_def session_def keepalive_ms_def)
  then show ?thesis using mqtt_connect_ping [OF m assms(2)] by simp
qed

text \<open>
  C26: connecting changes nothing of what the application has asked for.  Whether it succeeds or not,
  the subscriptions and their handlers, the unacknowledged messages, the acknowledgements still
  awaited, the packet id, the parameters the client was made with (the data of its CONNECT packet
  with client id, user name, password and keep-alive interval, the time-out of requests, the limits
  of the buffers, the event handler), the counter of unanswered probes and the interval and time of
  reconnecting are afterwards what they were.  The state of the client is that of a connected one
  exactly when the result is success, and what it was otherwise; on success the next ping is due one
  keep-alive interval after a reading of the clock.  The event handler, which is called when a packet
  does not fit the read buffer, is assumed to leave all this alone.
\<close>

theorem connect_keeps_session:
  assumes "wrapper_mqtt_connect E c = Some (rc, c')" and "handlers_keep E"
  shows "list_sub_handle c' = list_sub_handle c \<and> list_pub_wait_ack c' = list_pub_wait_ack c \<and>
    list_sub_sync_ack c' = list_sub_sync_ack c \<and> packet_id c' = packet_id c \<and>
    connect_data c' = connect_data c \<and> request_timeout_ms c' = request_timeout_ms c \<and>
    buf_size_send_max c' = buf_size_send_max c \<and> buf_size_read_max c' = buf_size_read_max c \<and>
    handle_event c' = handle_event c \<and> keepalive_probes c' = keepalive_probes c \<and> ping_mark c' = ping_mark c \<and>
    reconnect_param c' = reconnect_param c \<and>
    client_state c' = (if rc = SUCCESS_RETURN then IOTX_MC_STATE_CONNECTED else client_state c) \<and>
    (rc = SUCCESS_RETURN \<longrightarrow> (\<exists>n. time (next_ping_time c') = ucast (env_uptime E n + ucast (keepalive_ms c))))"
proof -
  have "session c' = session (if rc = SUCCESS_RETURN then c\<lparr>client_state := IOTX_MC_STATE_CONNECTED\<rparr> else c)"
    using wrapper_connect_result [OF assms] by (auto simp: kept_def)
  moreover have "rc = SUCCESS_RETURN \<Longrightarrow> \<exists>n. time (next_ping_time c') = ucast (env_uptime E n + ucast (keepalive_ms c))"
    using wrapper_connect_ping assms by blast
  ultimately show ?thesis by (auto simp: session_def split: if_splits)
qed

subsection \<open>The interval between attempts\<close>

text \<open>An attempt to reconnect was due, was made, and failed.\<close>

definition reconnect_failed :: "'e mqtt_environment_scheme \<Rightarrow> iotx_mc_client_t \<Rightarrow> iotx_mc_client_t \<Rightarrow> bool" where
  "reconnect_failed E c c' \<longleftrightarrow>
     fst (utils_time_is_expired E (reconnect_next_time (reconnect_param c)) c) \<and>
     (\<exists>rc. iotx_mc_handle_reconnect E c = Some (rc, c') \<and> rc \<noteq> SUCCESS_RETURN)"

lemma reconnect_failed_step:
  assumes "reconnect_failed E c c'" and "handlers_keep E"
  shows "reconnect_time_interval_ms (reconnect_param c') = next_interval (reconnect_time_interval_ms (reconnect_param c)) \<and>
    (\<exists>n. time (reconnect_next_time (reconnect_param c')) =
       ucast (env_uptime E n + ucast (min 60000 (reconnect_time_interval_ms (reconnect_param c'))))) \<and>
    list_sub_handle c' = list_sub_handle c \<and> list_pub_wait_ack c' = list_pub_wait_ack c \<and> client_state c' = client_state c"
proof -
  obtain c1 where e: "utils_time_is_expired E (reconnect_next_time (reconnect_param c)) c = (True, c1)"
    using assms(1) by (cases "utils_time_is_expired E (reconnect_next_time (reconnect_param c)) c") (simp add: reconnect_failed_def)
  obtain rc where h: "iotx_mc_handle_reconnect E c = Some (rc, c')" "rc \<noteq> SUCCESS_RETURN"
    using assms(1) by (auto simp: reconnect_failed_def)
  obtain rc2 c2 where w: "wrapper_mqtt_connect E (net_disconnect c1) = Some (rc2, c2)"
    using h by (auto simp: iotx_mc_handle_reconnect_def e iotx_mc_attempt_reconnect_def bind_eq_Some_conv)
  have rc2: "rc2 \<noteq> SUCCESS_RETURN"
    using h by (auto simp: iotx_mc_handle_reconnect_def e iotx_mc_attempt_reconnect_def w bind_eq_Some_conv split: if_splits)
  have "kept c1 c2" "rc2 \<noteq> MQTT_CONNECT_BLOCK"
    using wrapper_connect_result [OF w assms(2)] rc2 by (simp_all add: kept_def)
  then have k: "kept c c2" using kept_clock(1) [OF e] by (blast intro: kept_trans)
  have "c' = (case utils_time_countdown_ms E (min 60000 (next_interval (reconnect_time_interval_ms (reconnect_param c2))))
         (c2\<lparr>reconnect_param := (reconnect_param c2)\<lparr>reconnect_time_interval_ms :=
            next_interval (reconnect_time_interval_ms (reconnect_param c2))\<rparr>\<rparr>) of (t, c) \<Rightarrow>
       c\<lparr>reconnect_param := (reconnect_param c)\<lparr>reconnect_next_time := t\<rparr>\<rparr>)"
    using h(1) rc2 \<open>rc2 \<noteq> MQTT_CONNECT_BLOCK\<close>
    by (auto simp: iotx_mc_handle_reconnect_def e iotx_mc_attempt_reconnect_def w Let_def min_def not_less
        split: prod.splits if_splits)
  then show ?thesis using sessionD [OF k]
    by (auto simp: utils_time_countdown_ms_def HAL_UptimeMs_def)
qed

lemma next_interval_pow:
  "(next_interval ^^ k) 1000 = (if k \<le> 6 then 1000 * 2 ^ k else 60000)"
proof (induction k)
  case (Suc k)
  show ?case
  proof (cases "k < 6")
    case True
    then have "k \<in> {0, 1, 2, 3, 4, 5}" by auto
    then show ?thesis using Suc by (auto simp: next_interval_def)
  next
    case False
    then show ?thesis using Suc by (auto simp: next_interval_def)
  qed
qed simp

text \<open>
  C27: reconnecting backs off.  After \<open>k\<close> failed attempts, starting from the minimum, the interval is
  1000 times 2 to the \<open>k\<close> milliseconds for \<open>k\<close> up to 6 (the last value, 64000, is beyond the maximum) and
  60000 from then on; the next attempt is due this long, but not more than 60000 ms, after a reading
  of the clock; and through all of them the subscriptions, the unacknowledged messages and the
  state of the client are kept.
\<close>

theorem reconnect_backoff:
  assumes "(reconnect_failed E ^^ k) c c'" and "handlers_keep E"
    and "reconnect_time_interval_ms (reconnect_param c) = 1000"
  shows "reconnect_time_interval_ms (reconnect_param c') = (if k \<le> 6 then 1000 * 2 ^ k else 60000) \<and>
    (0 < k \<longrightarrow> (\<exists>n. time (reconnect_next_time (reconnect_param c')) =
       ucast (env_uptime E n + ucast (min 60000 (if k \<le> 6 then 1000 * 2 ^ k else 60000 :: u32))))) \<and>
    list_sub_handle c' = list_sub_handle c \<and> list_pub_wait_ack c' = list_pub_wait_ack c \<and> client_state c' = client_state c"
proof -
  have iv: "reconnect_time_interval_ms (reconnect_param c') = (next_interval ^^ k) 1000 \<and>
    (0 < k \<longrightarrow> (\<exists>n. time (reconnect_next_time (reconnect_param c')) =
       ucast (env_uptime E n + ucast (min 60000 ((next_interval ^^ k) 1000))))) \<and>
    list_sub_handle c' = list_sub_handle c \<and> list_pub_wait_ack c' = list_pub_wait_ack c \<and> client_state c' = client_state c"
    using assms(1)
  proof (induction k arbitrary: c')
    case 0
    then show ?case using assms(3) by simp
  next
    case (Suc k)
    then obtain c1 where c1: "(reconnect_failed E ^^ k) c c1" "reconnect_failed E c1 c'" by auto
    show ?case using Suc.IH [OF c1(1)] reconnect_failed_step [OF c1(2) assms(2)] by auto
  qed
  then show ?thesis unfolding next_interval_pow .
qed

text \<open>A platform without memory: no attempt succeeds.\<close>

definition starved_env :: mqtt_environment where
  "starved_env = environment.extend (sample_env\<lparr>env_malloc := (\<lambda>n sz. False)\<rparr>) \<lparr>env_handler = (\<lambda>f x m c. Some c)\<rparr>"

definition lost_client :: iotx_mc_client_t where
  "lost_client = connected_client\<lparr>client_state := IOTX_MC_STATE_DISCONNECTED_RECONNECTING,
     reconnect_param := \<lparr>reconnect_next_time = \<lparr>time = 0\<rparr>, reconnect_time_interval_ms = 1000\<rparr>\<rparr>"

lemma lost_client_fields:
  "held lost_client = {}" "n_connect lost_client = 0" "n_uptime lost_client = 0"
  "reconnect_time_interval_ms (reconnect_param lost_client) = 1000"
  by (simp_all add: lost_client_def connected_client_def zero_client_def hal_start_def)

lemma starved_keep: "handlers_keep starved_env"
  by (simp add: handlers_keep_def starved_env_def environment.defs)

lemma starved_refused:
  assumes "held c = {}"
  shows "\<exists>c'. wrapper_mqtt_connect starved_env c = Some (-1, c')"
proof -
  have fails: "\<exists>c'. MQTTConnect starved_env c = Some (-1, c')" if "held c = {}" for c
    using that by (simp add: MQTTConnect_def HAL_MutexLock_def HAL_MutexUnlock_def alloc_send_buffer_def HAL_Malloc_def
        starved_env_def environment.defs Let_def)
  obtain rc c1 where t: "tcp_connect_loop starved_env 3 1 c = (rc, c1)" by fastforce
  then have "held c1 = {}" using tcp_connect_eq [of starved_env c] assms by (simp add: Let_def)
  then obtain c' where "MQTTConnect starved_env c1 = Some (-1, c')" using fails by blast
  then show ?thesis using t by (simp add: wrapper_mqtt_connect_def mqtt_connect_def mqtt_connect_loop.simps)
qed

theorem reconnect_backoff_witness:
  "\<exists>c'. (reconnect_failed starved_env ^^ 1) lost_client c' \<and> reconnect_time_interval_ms (reconnect_param c') = 2000"
proof -
  have "\<exists>c'. reconnect_failed starved_env lost_client c'"
  proof -
    obtain c1 where e: "utils_time_is_expired starved_env (reconnect_next_time (reconnect_param lost_client)) lost_client = (True, c1)"
      "held c1 = {}"
      by (simp add: utils_time_is_expired_def HAL_UptimeMs_def lost_client_fields starved_env_def sample_env_def environment.defs)
        (simp add: lost_client_def connected_client_def zero_client_def hal_start_def)
    then obtain c' where "wrapper_mqtt_connect starved_env (net_disconnect c1) = Some (-1, c')"
      using starved_refused [of "net_disconnect c1"] by (auto simp: net_disconnect_def)
    then show ?thesis using e
      by (simp add: reconnect_failed_def iotx_mc_handle_reconnect_def iotx_mc_attempt_reconnect_def Let_def
          utils_time_countdown_ms_def HAL_UptimeMs_def)
  qed
  then obtain c' where "(reconnect_failed starved_env ^^ 1) lost_client c'" by auto
  from reconnect_backoff [OF this starved_keep lost_client_fields(4)] this show ?thesis by auto
qed

text \<open>A broker that accepts, and a client that lost its connection with a subscription and a message pending.\<close>

definition accepting_env :: mqtt_environment where
  "accepting_env = environment.extend (sample_env\<lparr>env_read := (\<lambda>n len t.
     if n = 0 then (1, [0x20]) else if n = 1 then (1, [2]) else if n = 2 then (2, [0, 0]) else (0, []))\<rparr>)
     \<lparr>env_handler = (\<lambda>f x m c. Some c)\<rparr>"

definition resuming_client :: iotx_mc_client_t where
  "resuming_client = lost_client\<lparr>packet_id := 6,
     connect_data := MQTTPacket_connectData_initializer\<lparr>clientID := MQTTString_initializer\<lparr>ms_cstring := Some (str ''dev'')\<rparr>,
       keepAliveInterval := 60\<rparr>,
     list_sub_handle := [\<lparr>th_addr = 1, handle = \<lparr>h_fp = Some 1, pcontext = 0\<rparr>, topic_filter = str ''/a/+''\<rparr>],
     list_pub_wait_ack :=
      [\<lparr>pub_start_time = \<lparr>time = 0\<rparr>, node_state = IOTX_MC_NODE_STATE_NORMANL, msg_id = 6, node_len = 2, node_buf = [0x32, 1]\<rparr>]\<rparr>"

lemma resuming_connects:
  "map_option fst (wrapper_mqtt_connect accepting_env resuming_client) = Some SUCCESS_RETURN"
  by code_simp

theorem connect_keeps_session_witness:
  "\<exists>c'. wrapper_mqtt_connect accepting_env resuming_client = Some (SUCCESS_RETURN, c') \<and>
     client_state c' = IOTX_MC_STATE_CONNECTED \<and> client_state resuming_client \<noteq> IOTX_MC_STATE_CONNECTED \<and>
     map topic_filter (list_sub_handle c') = [str ''/a/+''] \<and> map msg_id (list_pub_wait_ack c') = [6] \<and>
     packet_id c' = 6 \<and> keepAliveInterval (connect_data c') = 60"
proof -
  obtain c' where w: "wrapper_mqtt_connect accepting_env resuming_client = Some (SUCCESS_RETURN, c')"
    using resuming_connects by auto
  have "handlers_keep accepting_env" by (simp add: handlers_keep_def accepting_env_def environment.defs)
  from connect_keeps_session [OF w this] w show ?thesis
    by (simp add: resuming_client_def) (simp add: lost_client_def)
qed

subsection \<open>A silent broker\<close>

lemma pingreq_serialized:
  assumes "serialize_to_send (\<lambda>n _. MQTTSerialize_pingreq n) () c = Some (len, c')" and "\<not> len \<le> 0"
  shows "len = 2 \<and> (\<exists>b. c' = c\<lparr>buf_send := Some ([0xC0, 0] @ b)\<rparr>)"
proof -
  obtain out b where o: "MQTTSerialize_pingreq (sint (buf_size_send c)) = Some (len, out)"
    "wr_block (buf_send c) 0 out = Some b" "c' = c\<lparr>buf_send := b\<rparr>"
    using assms(1) by (auto simp: serialize_to_send_def bind_eq_Some_conv)
  have "len = 2 \<and> out = [0xC0, 0]" using o(1) assms(2)
    by (auto simp: MQTTSerialize_pingreq_def MQTTSerialize_zero_def Let_def encode_unfold header_defs writeChar_def split: if_splits)
  then show ?thesis using o(2,3) by (cases "buf_send c") (auto simp: wr_block_def split: if_splits)
qed

lemma alloc_send_frame:
  "alloc_send_buffer E len c = (rc, c') \<Longrightarrow>
    effects c' = effects c \<and> held c' = held c \<and> next_ping_time c' = next_ping_time c \<and> session c' = session c"
  by (auto simp: alloc_send_buffer_def HAL_Malloc_def Let_def split: if_splits)

lemma countdown_frame:
  "utils_time_countdown_ms E ms c = (tm, c') \<Longrightarrow>
    effects c' = effects c \<and> held c' = held c \<and> next_ping_time c' = next_ping_time c \<and> session c' = session c"
  by (auto simp: utils_time_countdown_ms_def HAL_UptimeMs_def)

lemma platform_only_session: "platform_only c c' \<Longrightarrow> session c' = session c"
  by (simp add: session_def platform_only_fields)

lemma keepalive_sent:
  assumes "writes_ok E"
  shows "ok (\<lambda>(rc, c'). rc = SUCCESS_RETURN \<longrightarrow> written (effects c') = written (effects c) @ [0xC0, 0] \<and> session c' = session c \<and>
    next_ping_time c' = next_ping_time c \<and> held c' = held c) (MQTTKeepalive E c)"
  unfolding MQTTKeepalive_def
  apply (intro flow)
      apply (simp_all)
  apply (frule (1) pingreq_serialized)
  apply (drule alloc_send_frame countdown_frame)+
  apply clarsimp
  apply (drule send_packet_success [OF _ assms], simp_all)
  apply (auto simp: platform_only_fields platform_only_session reset_send_buffer_def)
  done

text \<open>
  Keep-alive.  When the client is connected and the ping time has come, a successful
  \<open>iotx_mc_keepalive_sub\<close> has sent exactly a PINGREQ, has set the next ping time one keep-alive
  interval after a reading of the clock, and has counted one more probe without an answer.
\<close>

theorem ping_counted:
  assumes "iotx_mc_keepalive_sub E c = Some (SUCCESS_RETURN, c')" and "writes_ok E"
    and "client_state c = IOTX_MC_STATE_CONNECTED"
    and "fst (utils_time_is_expired E (next_ping_time c) c)"
  shows "written (effects c') = written (effects c) @ [0xC0, 0] \<and>
    keepalive_probes c' = keepalive_probes c + 1 \<and> ping_mark c' = 1 \<and>
    (\<exists>n. time (next_ping_time c') = ucast (env_uptime E n + ucast (keepalive_ms c))) \<and>
    client_state c' = IOTX_MC_STATE_CONNECTED"
proof -
  obtain c1 where e: "utils_time_is_expired E (next_ping_time c) c = (True, c1)"
    using assms(4) by (cases "utils_time_is_expired E (next_ping_time c) c") auto
  obtain t c2 where t: "utils_time_countdown_ms E (keepalive_ms c1) c1 = (t, c2)" by fastforce
  have f: "kept c c1" "effects c1 = effects c" "kept c1 c2" "effects c2 = effects c"
    "time t = ucast (env_uptime E (n_uptime c1) + ucast (keepalive_ms c1))"
    using kept_clock(1) [OF e] kept_clock(3) [OF t] e t
    by (auto simp: utils_time_is_expired_def utils_time_countdown_ms_def HAL_UptimeMs_def)
  have km: "keepalive_ms c1 = keepalive_ms c" using f(1) by (simp add: kept_def session_def keepalive_ms_def)
  obtain rc c3 where k: "MQTTKeepalive E (c2\<lparr>next_ping_time := t\<rparr>) = Some (rc, c3)"
    using assms(1,3) by (auto simp: iotx_mc_keepalive_sub_def check_state_eq e t bind_eq_Some_conv split: if_splits)
  have rc: "rc = 0" and c': "c' = c3\<lparr>ping_mark := 1, keepalive_probes := keepalive_probes c3 + 1\<rparr>"
    using assms(1,3)
    by (auto simp: iotx_mc_keepalive_sub_def check_state_eq e t k bind_eq_Some_conv HAL_MutexLock_def
        HAL_MutexUnlock_def unlock_return_def split: if_splits)
  have "written (effects c3) = written (effects c) @ [0xC0, 0]" "session c3 = session c" "next_ping_time c3 = t"
    using okD [OF keepalive_sent [OF assms(2)] k] rc f by (simp_all add: kept_def)
  then show ?thesis using c' f(5) km assms(3) by (auto simp: session_def)
qed

lemma silent_read:
  assumes "\<And>n len tm. env_read E n len tm = (0, [])"
  shows "ok (\<lambda>((r, pt'), c'). kept c c' \<and> (r = SUCCESS_RETURN \<longrightarrow> pt' = Some 0)) (iotx_mc_read_packet E timer pt c)"
proof -
  have silent: "(\<And>c'. kept c1 c' \<Longrightarrow> ok P (f 0 c')) \<Longrightarrow> ok P (do { (rc, c) \<leftarrow> read_into E off len tm c1; f rc c })" for P f off len tm c1
  proof (rule ok_bind, rule okI, clarify)
    fix rc c' assume P: "\<And>c'. kept c1 c' \<Longrightarrow> ok P (f 0 c')" and r: "read_into E off len tm c1 = Some (rc, c')"
    then have "rc = 0 \<and> kept c1 c'"
      using assms by (auto simp: read_into_def net_read_def bind_eq_Some_conv kept_def split: if_splits)
    then show "ok P (f rc c')" using P by simp
  qed
  show ?thesis
    unfolding iotx_mc_read_packet_def
    by (intro vcg_pairs silent keep; ((drule kept_clock)+)?; simp add: kept_def)
qed

text \<open>
  C31: a silent broker is noticed.  With two probes unanswered, a cycle in which the network has nothing to
  read leaves the client disconnected and the counter at zero, so that the next
  \<open>iotx_mc_keepalive\<close> starts to reconnect.
\<close>

theorem silent_broker_disconnects:
  assumes "iotx_mc_cycle E timer c = Some (rc, c')" and "client_state c = IOTX_MC_STATE_CONNECTED"
    and "1 < keepalive_probes c" and "\<And>n len tm. env_read E n len tm = (0, [])"
  shows "client_state c' = IOTX_MC_STATE_DISCONNECTED \<and> keepalive_probes c' = 0"
proof -
  define c1 where "c1 = c\<lparr>client_state := IOTX_MC_STATE_DISCONNECTED, keepalive_probes := 0\<rparr>"
  have held: "LockGeneric \<notin> held c"
    using assms(1) by (auto simp: iotx_mc_cycle_def iotx_mc_get_client_state_def HAL_MutexLock_def split: if_splits)
  obtain r pt c2 where r: "iotx_mc_read_packet E timer None c1 = Some ((r, pt), c2)"
    using assms(1-3) held
    by (auto simp: iotx_mc_cycle_def iotx_mc_get_client_state_def iotx_mc_set_client_state_def c1_def
        HAL_MutexLock_def HAL_MutexUnlock_def bind_eq_Some_conv split: if_splits)
  have k: "kept c1 c2" and pt: "r = 0 \<Longrightarrow> pt = Some 0"
    using okD [OF silent_read [OF assms(4)] r] by simp_all
  have s2: "client_state c2 = IOTX_MC_STATE_DISCONNECTED" "keepalive_probes c2 = 0"
    using k by (simp_all add: kept_def session_def c1_def)
  have reset: "client_state c3 = client_state c2 \<and> keepalive_probes c3 = keepalive_probes c2"
    if "locked_reset_recv_buffer c2 = Some c3" for c3
    using that by (auto simp: locked_reset_recv_buffer_def HAL_MutexLock_def HAL_MutexUnlock_def reset_recv_buffer_def
        bind_eq_Some_conv split: if_splits)
  show ?thesis
    using assms(1-3) held pt s2 reset r
    by (auto simp: iotx_mc_cycle_def iotx_mc_get_client_state_def iotx_mc_set_client_state_def c1_def
        HAL_MutexLock_def HAL_MutexUnlock_def bind_eq_Some_conv split: if_splits)
qed

subsection \<open>Instances\<close>

lemma keepalive_prompt:
  assumes E: "prompt E (n_uptime c) 3 1000" and held: "LockWriteBuf \<notin> held c" and room: "6 \<le> buf_size_send_max c"
  shows "\<exists>c'. MQTTKeepalive E c = Some (SUCCESS_RETURN, c') \<and> held c' = held c"
proof -
  define timer where "timer = \<lparr>time = ucast (env_uptime E (n_uptime c) + ucast (1000 :: u32)) :: u32\<rparr>"
  define c1 where "c1 = c\<lparr>n_uptime := Suc (n_uptime c), held := insert LockWriteBuf (held c)\<rparr>"
  have cd: "utils_time_countdown_ms E 1000 c = (timer, c\<lparr>n_uptime := Suc (n_uptime c)\<rparr>)"
    by (simp add: utils_time_countdown_ms_def HAL_UptimeMs_def timer_def)
  have malloc: "env_malloc E i sz" for i sz using E by (simp add: prompt_def)
  obtain b w where a: "alloc_send_buffer E 0 c1 =
      (0, c1\<lparr>n_malloc := Suc (n_malloc c1), buf_send := Some b, buf_size_send := w\<rparr>)"
    and b: "unat w = length b" "length b = min (unat (buf_size_send_max c1)) 64"
    using alloc_send_prompt [OF malloc, of 0 c1] by auto
  have "6 \<le> unat (buf_size_send_max c)" using room by (simp add: word_le_nat_alt)
  then have lb: "6 \<le> length b" "length b \<le> 64" using b(2) by (auto simp: c1_def)
  define c2 where "c2 = c1\<lparr>n_malloc := Suc (n_malloc c1), buf_send := Some b, buf_size_send := w\<rparr>"
  have "sint w = int (length b)" using sint_small [of w] b lb by simp
  then have s: "serialize_to_send (\<lambda>n _. MQTTSerialize_pingreq n) () c2 = Some (2, c2\<lparr>buf_send := Some ([0xC0, 0] @ drop 2 b)\<rparr>)"
    using lb by (simp add: serialize_to_send_def MQTTSerialize_pingreq_def MQTTSerialize_zero_def Let_def encode_unfold
        header_defs writeChar_def c2_def wr_block_def numeral_2_eq_2)
  obtain c3 where t: "iotx_mc_send_packet E (Some ([0xC0, 0] @ drop 2 b)) 2 timer
      (c2\<lparr>buf_send := Some ([0xC0, 0] @ drop 2 b)\<rparr>) = Some (0, c3)" "held c3 = insert LockWriteBuf (held c)"
    using send_prompt [OF E, of "c2\<lparr>buf_send := Some ([0xC0, 0] @ drop 2 b)\<rparr>" timer 2 "[0xC0, 0] @ drop 2 b"]
    by (auto simp: timer_def c2_def c1_def)
  have l: "HAL_MutexLock LockWriteBuf (c\<lparr>n_uptime := Suc (n_uptime c)\<rparr>) = Some c1"
    using held by (simp add: HAL_MutexLock_def c1_def)
  show ?thesis using t held
    by (auto simp: MQTTKeepalive_def cd l a c2_def [symmetric] s HAL_MutexUnlock_def unlock_return_def reset_send_buffer_def)
qed

theorem ping_counted_witness:
  "\<exists>c'. iotx_mc_keepalive_sub sample_env connected_client = Some (SUCCESS_RETURN, c') \<and>
     written (effects c') = [0xC0, 0] \<and> keepalive_probes c' = 1"
proof -
  have fields: "keepalive_probes connected_client = 0" "next_ping_time connected_client = \<lparr>time = 0\<rparr>"
    "keepAliveInterval (connect_data connected_client) = 0"
    by (simp_all add: connected_client_def zero_client_def)
  have "{2 <.. 2 + 3} = {3, 4, 5 :: nat}" by auto
  then have "prompt sample_env 2 3 1000" by (simp only: prompt_def) (simp add: sample_env_def)
  then have "prompt sample_env (Suc (Suc 0)) 3 1000" by (simp only: numeral_2_eq_2)
  then obtain c3 where k: "MQTTKeepalive sample_env (connected_client\<lparr>n_uptime := Suc (Suc 0), next_ping_time := \<lparr>time = 10\<rparr>\<rparr>) = Some (0, c3)"
    "held c3 = {}"
    using keepalive_prompt [of sample_env "connected_client\<lparr>n_uptime := Suc (Suc 0), next_ping_time := \<lparr>time = 10\<rparr>\<rparr>"]
    by (auto simp: connected_client_fields)
  have x: "utils_time_is_expired sample_env \<lparr>time = 0\<rparr> connected_client = (True, connected_client\<lparr>n_uptime := Suc 0\<rparr>)"
    by (simp add: utils_time_is_expired_def HAL_UptimeMs_def sample_env_def connected_client_fields)
  have cd: "utils_time_countdown_ms sample_env (keepalive_ms (connected_client\<lparr>n_uptime := Suc 0\<rparr>)) (connected_client\<lparr>n_uptime := Suc 0\<rparr>) =
      (\<lparr>time = 10\<rparr>, connected_client\<lparr>n_uptime := Suc (Suc 0)\<rparr>)"
    by (simp add: utils_time_countdown_ms_def HAL_UptimeMs_def sample_env_def keepalive_ms_def fields)
  have "\<exists>c'. iotx_mc_keepalive_sub sample_env connected_client = Some (SUCCESS_RETURN, c')"
    by (simp add: iotx_mc_keepalive_sub_def check_state_eq connected_client_fields fields x cd k HAL_MutexLock_def
        HAL_MutexUnlock_def unlock_return_def)
  then obtain c' where r: "iotx_mc_keepalive_sub sample_env connected_client = Some (SUCCESS_RETURN, c')" by blast
  have e: "fst (utils_time_is_expired sample_env (next_ping_time connected_client) connected_client)"
    by (simp add: fields utils_time_is_expired_def HAL_UptimeMs_def sample_env_def connected_client_fields)
  from ping_counted [OF r sample_env_network(1) connected_client_fields(5) e] r show ?thesis
    by (auto simp: connected_client_fields fields)
qed

theorem silent_broker_disconnects_witness:
  "\<exists>rc c'. iotx_mc_cycle (environment.extend sample_env \<lparr>env_handler = (\<lambda>f x m c. Some c)\<rparr>) \<lparr>time = 2000\<rparr>
       (connected_client\<lparr>keepalive_probes := 2\<rparr>) = Some (rc, c') \<and> client_state c' = IOTX_MC_STATE_DISCONNECTED"
proof -
  let ?E = "environment.extend sample_env \<lparr>env_handler = (\<lambda>f x m c. Some c)\<rparr>"
  have "\<exists>rc c'. iotx_mc_cycle ?E \<lparr>time = 2000\<rparr> (connected_client\<lparr>keepalive_probes := 2\<rparr>) = Some (rc, c')"
    by (simp add: iotx_mc_cycle_def iotx_mc_get_client_state_def iotx_mc_set_client_state_def HAL_MutexLock_def
        HAL_MutexUnlock_def connected_client_def zero_client_def hal_start_def iotx_mc_read_packet_def alloc_recv_buffer_def
        HAL_Malloc_def sample_env_def environment.defs time_left_or_1_def iotx_time_left_def utils_time_is_expired_def
        HAL_UptimeMs_def read_into_def net_read_def unlock_return_def locked_reset_recv_buffer_def
        reset_recv_buffer_def Let_def)
  then obtain rc c' where r: "iotx_mc_cycle ?E \<lparr>time = 2000\<rparr> (connected_client\<lparr>keepalive_probes := 2\<rparr>) = Some (rc, c')" by blast
  have "env_read ?E n len tm = (0, [])" for n len tm by (simp add: sample_env_def environment.defs)
  from silent_broker_disconnects [OF r _ _ this] r show ?thesis by (auto simp: connected_client_fields)
qed

end
