(* ===== verification/MqttDelivery.thy ===== *)
theory MqttDelivery
  imports MqttReconnect
begin

text \<open>
  From a received message to the application: \<open>iotx_mc_deliver_message\<close> against the plain
  specification ``call the handler of every matching subscription, in order'', what goes wrong when a
  handler removes the subscription being served, and the list of subscriptions under
  \<open>MQTTSubscribe\<close> and \<open>MQTTUnsubscribe\<close>.
\<close>

subsection \<open>The subscriptions a message is for\<close>

text \<open>A topic as \<open>MQTTDeserialize_publish\<close> leaves it: length and pointer into the receive buffer.\<close>

definition received_topic :: "cstring \<Rightarrow> byte list \<Rightarrow> MQTTString" where
  "received_topic name rest =
     \<lparr>ms_cstring = None, lenstring = \<lparr>ls_len = int (length name), ls_data = Some (name @ rest)\<rparr>\<rparr>"

definition hits :: "cstring \<Rightarrow> iotx_mc_topic_handle_t \<Rightarrow> bool" where
  "hits name n \<longleftrightarrow> topic_filter n = name \<or> topic_matched_loop (topic_filter n) name"

lemma topic_hits_eq [simp]: "topic_hits (received_topic name rest) n = Some (hits name n)"
  by (auto simp: topic_hits_def MQTTPacket_equals_def received_topic_def hits_def iotx_mc_is_topic_matched_def
      ptr_block_def)

fun call_all ::
  "'e mqtt_environment_scheme \<Rightarrow> iotx_mqtt_event_msg_t \<Rightarrow> iotx_mc_topic_handle_t list \<Rightarrow> iotx_mc_client_t \<Rightarrow>
     iotx_mc_client_t option" where
  "call_all E m [] c = Some c"
| "call_all E m (n # ns) c = do { (_, c) \<leftarrow> call_handler E (handle n) m c; call_all E m ns c }"

text \<open>The specification: every matching subscription in order, the default handler if there is none.\<close>

definition deliver_spec ::
  "'e mqtt_environment_scheme \<Rightarrow> iotx_mqtt_event_msg_t \<Rightarrow> cstring \<Rightarrow> iotx_mc_client_t \<Rightarrow> iotx_mc_client_t option" where
  "deliver_spec E m name c =
     (let targets = filter (\<lambda>n. hits name n \<and> h_fp (handle n) \<noteq> None) (list_sub_handle c) in
      if targets \<noteq> [] then call_all E m targets c
      else if h_fp (handle_event c) \<noteq> None
      then do { (_, c) \<leftarrow> call_handler E (handle_event c) m c; Some c } else Some c)"

definition handlers_leave_subscriptions :: "'e mqtt_environment_scheme \<Rightarrow> bool" where
  "handlers_leave_subscriptions E \<longleftrightarrow> (\<forall>f ctx m c c'. env_handler E f ctx m c = Some c' \<longrightarrow>
     list_sub_handle c' = list_sub_handle c \<and> held c' = held c)"

lemma call_handler_leaves:
  assumes "handlers_leave_subscriptions E" and "call_handler E h m c = Some (r, c')"
  shows "list_sub_handle c' = list_sub_handle c \<and> held c' = held c"
proof -
  have "list_sub_handle c1 = list_sub_handle c \<and> held c1 = held c"
    if "env_handler E f x m (c\<lparr>in_yield_cb := 1\<rparr>) = Some c1" for f x c1
    using assms(1) that unfolding handlers_leave_subscriptions_def by fastforce
  then show ?thesis using assms(2) by (auto simp: call_handler_def bind_eq_Some_conv split: option.split_asm)
qed

subsection \<open>Walking along the list\<close>

lemma node_at_append:
  "th_addr n \<notin> th_addr ` set pre \<Longrightarrow> node_at (th_addr n) (pre @ n # ns) = Some n"
  by (induction pre) (auto simp: node_at_def)

lemma node_after_append:
  "th_addr n \<notin> th_addr ` set pre \<Longrightarrow>
    node_after (th_addr n) (pre @ n # ns) = Some (case ns of [] \<Rightarrow> None | m # _ \<Rightarrow> Some (th_addr m))"
proof (induction pre)
  case Nil
  then show ?case by (cases ns) auto
next
  case (Cons p pre)
  then show ?case by (cases pre) auto
qed

abbreviation first_addr :: "iotx_mc_topic_handle_t list \<Rightarrow> nat option" where
  "first_addr ns \<equiv> (case ns of [] \<Rightarrow> None | n # _ \<Rightarrow> Some (th_addr n))"

definition locked :: "iotx_mc_client_t \<Rightarrow> iotx_mc_client_t" where
  "locked c = c\<lparr>held := insert LockGeneric (held c)\<rparr>"

lemma locked_facts [simp]:
  "list_sub_handle (locked c) = list_sub_handle c" "handle_event (locked c) = handle_event c"
  "LockGeneric \<notin> held c \<Longrightarrow> HAL_MutexUnlock LockGeneric (locked c) = Some c"
  "LockGeneric \<notin> held c \<Longrightarrow> HAL_MutexLock LockGeneric c = Some (locked c)"
  by (simp_all add: locked_def HAL_MutexLock_def HAL_MutexUnlock_def)

lemma deliver_loop_eq:
  assumes E: "handlers_leave_subscriptions E"
  shows "list_sub_handle c = pre @ ns \<Longrightarrow> distinct (map th_addr (list_sub_handle c)) \<Longrightarrow> LockGeneric \<notin> held c \<Longrightarrow>
    deliver_loop E (received_topic name rest) tm (first_addr ns) flag (locked c) =
      (let targets = filter (\<lambda>n. hits name n \<and> h_fp (handle n) \<noteq> None) ns in
       do { c' \<leftarrow> call_all E \<lparr>event_type = IOTX_MQTT_EVENT_PUBLISH_RECEIVED, msg = TopicArg tm\<rparr> targets c;
            Some (flag \<or> targets \<noteq> [], locked c') })"
proof (induction ns arbitrary: pre flag c)
  case Nil
  then show ?case by (simp add: deliver_loop.simps)
next
  case (Cons n ns)
  let ?m = "\<lparr>event_type = IOTX_MQTT_EVENT_PUBLISH_RECEIVED, msg = TopicArg tm\<rparr>"
  have addr: "th_addr n \<notin> th_addr ` set pre" using Cons.prems(1,2) by auto
  have at: "node_at (th_addr n) (list_sub_handle c) = Some n"
    and after: "node_after (th_addr n) (list_sub_handle c) = Some (first_addr ns)"
    using node_at_append [OF addr] node_after_append [OF addr] Cons.prems(1) by simp_all
  have next_hit: "deliver_loop E (received_topic name rest) tm (first_addr ns) fl (locked c1) =
      (let targets = filter (\<lambda>n. hits name n \<and> h_fp (handle n) \<noteq> None) ns in
       do { c' \<leftarrow> call_all E ?m targets c1; Some (fl \<or> targets \<noteq> [], locked c') })"
    if "list_sub_handle c1 = list_sub_handle c" "held c1 = held c" for c1 fl
    using Cons.IH [of c1 "pre @ [n]" fl] Cons.prems that by simp
  show ?case
  proof (cases "hits name n \<and> h_fp (handle n) \<noteq> None")
    case False
    then show ?thesis using next_hit [of c flag] Cons.prems(3)
      by (simp add: deliver_loop.simps [of _ _ _ "Some (th_addr n)"] at after)
  next
    case True
    show ?thesis
    proof (cases "call_handler E (handle n) ?m c")
      case None
      then show ?thesis using True Cons.prems(3)
        by (simp add: deliver_loop.simps [of _ _ _ "Some (th_addr n)"] at Let_def)
    next
      case (Some rc)
      obtain r c1 where c1: "call_handler E (handle n) ?m c = Some (r, c1)" using Some by (cases rc) auto
      have "list_sub_handle c1 = list_sub_handle c" "held c1 = held c" using call_handler_leaves [OF E c1] by auto
      then show ?thesis using True Cons.prems(3) next_hit [of c1 True] after
        by (simp add: deliver_loop.simps [of _ _ _ "Some (th_addr n)"] at c1 Let_def)
    qed
  qed
qed

definition received :: "iotx_mqtt_topic_info_t \<Rightarrow> cstring \<Rightarrow> byte list \<Rightarrow> iotx_mqtt_event_msg_t" where
  "received m name rest = \<lparr>event_type = IOTX_MQTT_EVENT_PUBLISH_RECEIVED,
     msg = TopicArg (m\<lparr>ti_ptopic := Some (name @ rest), ti_topic_len := word_of_int (int (length name))\<rparr>)\<rparr>"

lemma deliver_message_eq:
  assumes "handlers_leave_subscriptions E" and "distinct (map th_addr (list_sub_handle c))" and "LockGeneric \<notin> held c"
  shows "iotx_mc_deliver_message E (received_topic name rest) m c = deliver_spec E (received m name rest) name c"
proof -
  let ?t = "filter (\<lambda>n. hits name n \<and> h_fp (handle n) \<noteq> None) (list_sub_handle c)"
  let ?tm = "m\<lparr>ti_ptopic := Some (name @ rest), ti_topic_len := word_of_int (int (length name))\<rparr>"
  have leaves: "call_all E ev ns c = Some c' \<Longrightarrow> held c' = held c" for ev ns c c'
    by (induction ns arbitrary: c) (auto simp: bind_eq_Some_conv dest: call_handler_leaves [OF assms(1)])
  have loop: "deliver_loop E (received_topic name rest) ?tm (first_addr (list_sub_handle c)) False (locked c) =
      do { c' \<leftarrow> call_all E (received m name rest) ?t c; Some (?t \<noteq> [], locked c') }"
    using deliver_loop_eq [OF assms(1), of c "[]" "list_sub_handle c" name rest ?tm False] assms(2,3)
    by (simp add: Let_def received_def)
  have eq: "iotx_mc_deliver_message E (received_topic name rest) m c =
      do { c' \<leftarrow> call_all E (received m name rest) ?t c;
           (if ?t = [] \<and> h_fp (handle_event c') \<noteq> None
            then do { (_, c) \<leftarrow> call_handler E (handle_event c') (received m name rest) c'; Some c } else Some c') }"
  proof (cases "call_all E (received m name rest) ?t c")
    case None
    then show ?thesis using loop assms(3)
      by (simp add: iotx_mc_deliver_message_def received_topic_def)
  next
    case (Some c1)
    then have "LockGeneric \<notin> held c1" using leaves assms(3) by simp
    then show ?thesis using Some loop assms(3)
      by (auto simp: iotx_mc_deliver_message_def received_topic_def received_def)
  qed
  show ?thesis unfolding eq deliver_spec_def Let_def
    by (cases "?t = []") (simp_all del: filter_empty_conv filter_False)
qed

text \<open>
  C2: a received message reaches exactly the handlers it is for.  When handlers leave the subscriptions
  alone, \<open>iotx_mc_deliver_message\<close>, which unlocks the list around every call and walks along the list as
  it is after the call, is the specification: the handlers of the subscriptions whose filter is the
  topic or matches it are called once each, in the order of the list, each on the state the one before left;
  the default handler is called if there is none.
\<close>

theorem deliver_refines_spec:
  assumes "handlers_leave_subscriptions E" and "distinct (map th_addr (list_sub_handle c))" and "LockGeneric \<notin> held c"
  shows "iotx_mc_deliver_message E (received_topic name rest) m c = deliver_spec E (received m name rest) name c"
  by (rule deliver_message_eq [OF assms])

text \<open>An application whose handlers count their calls in the packet id, and its subscriptions.\<close>

definition counting_env :: mqtt_environment where
  "counting_env = environment.extend sample_env \<lparr>env_handler = (\<lambda>f x m c. Some (c\<lparr>ping_mark := 10 * ping_mark c + int f\<rparr>))\<rparr>"

definition subscription :: "nat \<Rightarrow> string \<Rightarrow> nat \<Rightarrow> iotx_mc_topic_handle_t" where
  "subscription a f fp = \<lparr>th_addr = a, handle = \<lparr>h_fp = Some fp, pcontext = 0\<rparr>, topic_filter = str f\<rparr>"

definition subscribed_client :: iotx_mc_client_t where
  "subscribed_client = connected_client\<lparr>list_sub_handle :=
     [subscription 1 ''/a/+'' 1, subscription 2 ''/b'' 2, subscription 3 ''/a/x'' 3]\<rparr>"

theorem deliver_refines_spec_witness:
  "\<exists>c'. iotx_mc_deliver_message counting_env (received_topic (str ''/a/x'') []) sample_message subscribed_client = Some c' \<and>
     ping_mark c' = 13"
proof -
  have "handlers_leave_subscriptions counting_env"
    by (simp add: handlers_leave_subscriptions_def counting_env_def environment.defs)
  then have eq: "iotx_mc_deliver_message counting_env (received_topic (str ''/a/x'') []) sample_message subscribed_client =
      deliver_spec counting_env (received sample_message (str ''/a/x'') []) (str ''/a/x'') subscribed_client"
    by (rule deliver_refines_spec)
      (simp_all add: subscribed_client_def subscription_def connected_client_def zero_client_def hal_start_def)
  have "\<exists>c'. deliver_spec counting_env (received sample_message (str ''/a/x'') []) (str ''/a/x'') subscribed_client = Some c' \<and>
      ping_mark c' = 13"
    by (simp add: deliver_spec_def subscribed_client_def subscription_def hits_def call_handler_def counting_env_def
        environment.defs connected_client_def zero_client_def)
  then show ?thesis unfolding eq .
qed

text \<open>
  C35: a handler must not remove the subscription it serves.  If the handler of the first subscription, which
  the message matches, returns a client that no longer has this subscription (as after an
  \<open>wrapper_mqtt_unsubscribe\<close> that removed it), \<open>iotx_mc_deliver_message\<close> goes on with the successor
  of a freed node.
\<close>

theorem unsubscribing_handler_use_after_free:
  assumes "list_sub_handle c = n # ns" and "hits name n" and "LockGeneric \<notin> held c"
    and "call_handler E (handle n) (received m name rest) c = Some (r, d)" and "h_fp (handle n) \<noteq> None"
    and "th_addr n \<notin> th_addr ` set (list_sub_handle d)" and "LockGeneric \<notin> held d"
  shows "iotx_mc_deliver_message E (received_topic name rest) m c = None"
proof -
  have "node_after a ms = None" if "a \<notin> th_addr ` set ms" for a ms
    using that by (induction a ms rule: node_after.induct) auto
  then have after: "node_after (th_addr n) (list_sub_handle d) = None" using assms(6) by blast
  have "deliver_loop E (received_topic name rest) (m\<lparr>ti_ptopic := Some (name @ rest), ti_topic_len := word_of_int (int (length name))\<rparr>)
      (Some (th_addr n)) False (locked c) = None"
    using assms after by (subst deliver_loop.simps) (simp add: node_at_def received_def)
  then show ?thesis using assms(1,3)
    by (simp add: iotx_mc_deliver_message_def received_topic_def)
qed

definition unsubscribing_env :: mqtt_environment where
  "unsubscribing_env = environment.extend sample_env \<lparr>env_handler = (\<lambda>f x m c. Some (c\<lparr>list_sub_handle := []\<rparr>))\<rparr>"

theorem unsubscribing_handler_use_after_free_witness:
  "iotx_mc_deliver_message unsubscribing_env (received_topic (str ''/a/x'') []) sample_message subscribed_client = None"
  by (rule unsubscribing_handler_use_after_free [where n = "subscription 1 ''/a/+'' 1" and r = 0
        and d = "subscribed_client\<lparr>list_sub_handle := [], in_yield_cb := 0\<rparr>"])
    (simp_all add: subscribed_client_def subscription_def hits_def call_handler_def unsubscribing_env_def
      environment.defs connected_client_def zero_client_def hal_start_def)

subsection \<open>One exchange with the network\<close>

context mqtt_serializer begin

lemma exchange_success:
  assumes "serialize_to_send ser x c1 = Some (len, c2)" "\<not> len \<le> 0" "iotx_mc_send_packet E (buf_send c2) len timer c2 = Some (0, c3)"
    and "writes_ok E" "valid x"
  shows "written (effects c3) = written (effects c1) @ first x # MQTTPacket_encode (int (length (body x))) @ body x \<and>
    session c3 = session c1 \<and> held c3 = held c1"
proof -
  define out where "out = first x # MQTTPacket_encode (int (length (body x))) @ body x"
  obtain b where b: "len = int (length out)" "c2 = c1\<lparr>buf_send := Some b\<rparr>" "length out \<le> length b" "take (length out) b = out"
    using send_success [OF assms(1) _ assms(5)] assms(2) unfolding out_def [symmetric] by auto
  have "platform_only c2 c3 \<and> written (effects c3) = written (effects c2) @ out"
    using send_packet_success [of E b len timer c2 c3] assms(2-4) b by simp
  then show ?thesis using b unfolding out_def [symmetric] by (auto simp: platform_only_session platform_only_fields)
qed

end

lemma malloc_frame:
  "HAL_Malloc E sz c = (al, c') \<Longrightarrow> effects c' = effects c \<and> held c' = held c \<and> session c' = session c"
  by (auto simp: HAL_Malloc_def)

lemma send_frame:
  "iotx_mc_send_packet E buf len timer c = Some (rc, c') \<Longrightarrow> session c' = session c"
  by (rule platform_only_session [OF send_packet_frame])

lemma serialize_frame:
  "serialize_to_send ser x c = Some (len, c') \<Longrightarrow> session c' = session c"
  by (auto simp: serialize_to_send_def bind_eq_Some_conv)

lemma session_subs: "session c' = session c \<Longrightarrow> list_sub_handle c' = list_sub_handle c"
  by (simp add: session_def)

subsection \<open>Unsubscribing\<close>

lemma remove_hits_eq:
  "remove_hits (received_topic name rest) ns = Some (filter (\<lambda>n. \<not> hits name n) ns)"
  by (induction ns) auto

lemma plain_matches_itself:
  "{plus_sign, hash_sign} \<inter> set f = {} \<Longrightarrow> topic_matched_loop f name \<longleftrightarrow> f = name"
  by (induction f name rule: topic_matched_loop.induct) auto

definition unsubscribe_bytes :: "cstring \<Rightarrow> u32 \<Rightarrow> byte list" where
  "unsubscribe_bytes tf i =
     (let u = (0, ucast i, 1, [MQTTString_initializer\<lparr>ms_cstring := Some tf\<rparr>]) in
      0xA2 # MQTTPacket_encode (int (length (unsubscribe_body u))) @ unsubscribe_body u)"

lemma ok_remove_hits: "P (filter (\<lambda>n. \<not> hits name n) ns) \<Longrightarrow> ok P (remove_hits (received_topic name rest) ns)"
  by (simp add: remove_hits_eq)

text \<open>The terminating zero is counted, so what is removed are the filters that match the topic and a zero byte.\<close>

lemma unsubscribe_result:
  assumes E: "writes_ok E" and v: "unsubscribe_valid (0, ucast i, 1, [MQTTString_initializer\<lparr>ms_cstring := Some tf\<rparr>])"
  shows "ok (\<lambda>(rc, c'). (rc = SUCCESS_RETURN \<longrightarrow> written (effects c') = written (effects c) @ unsubscribe_bytes tf i) \<and>
      (if rc = SUCCESS_RETURN
       then list_sub_handle c' = filter (\<lambda>n. \<not> hits (tf @ [0]) n) (list_sub_handle c)
       else list_sub_handle c' = list_sub_handle c)) (MQTTUnsubscribe E tf i c)"
proof -
  have topic: "\<lparr>ms_cstring = None, lenstring = \<lparr>ls_len = int (length tf) + 1, ls_data = Some (tf @ [0])\<rparr>\<rparr> = received_topic (tf @ [0]) []"
    by (simp add: received_topic_def)
  show ?thesis
    unfolding MQTTUnsubscribe_def topic
    apply (intro flow ok_remove_hits; clarsimp)
         apply (((drule countdown_frame malloc_frame alloc_send_frame serialize_frame send_frame)+, rule session_subs, simp)+)
    apply (drule unsubscribe_packet.exchange_success [OF _ _ _ E v], assumption, assumption)
    apply (drule countdown_frame malloc_frame alloc_send_frame)+
    apply (simp add: unsubscribe_bytes_def Let_def header_defs)
    apply (rule arg_cong [OF session_subs])
    apply simp
    done
qed

subsection \<open>Subscribing\<close>

definition sub_key :: "iotx_mc_topic_handle_t \<Rightarrow> cstring \<times> nat option \<times> nat" where
  "sub_key n = (topic_filter n, h_fp (handle n), pcontext (handle n))"

lemma identical_iff: "iotx_mc_check_handle_is_identical n m = 0 \<longleftrightarrow> sub_key n = sub_key m"
  by (auto simp: iotx_mc_check_handle_is_identical_def iotx_mc_check_handle_is_identical_ex_def sub_key_def)

lemma add_handle_eq:
  "(\<And>c'. LockGeneric \<notin> held c \<Longrightarrow> c' = c\<lparr>held := held c - {LockGeneric}, list_sub_handle := (if sub_key h \<in> sub_key ` set (list_sub_handle c)
      then list_sub_handle c else list_sub_handle c @ [h])\<rparr> \<Longrightarrow> P c') \<Longrightarrow> ok P (add_handle h c)"
  by (auto simp: add_handle_def ok_def identical_iff list_ex_iff HAL_MutexLock_def HAL_MutexUnlock_def bind_eq_Some_conv
      image_iff Let_def split: if_splits) (metis, metis)

abbreviation subscribe_request :: "cstring \<Rightarrow> int \<Rightarrow> u32 \<Rightarrow> subscribe_data" where
  "subscribe_request tf qos i \<equiv> \<lparr>sub_dup = 0, sub_packetid = ucast i, sub_count = 1,
     sub_topicFilters = [MQTTString_initializer\<lparr>ms_cstring := Some tf\<rparr>], sub_requestedQoSs = [qos]\<rparr>"

definition subscribe_bytes :: "cstring \<Rightarrow> int \<Rightarrow> u32 \<Rightarrow> byte list" where
  "subscribe_bytes tf qos i =
     (let s = subscribe_request tf qos i in 0x82 # MQTTPacket_encode (int (length (subscribe_body s))) @ subscribe_body s)"

lemma subscribe_result:
  assumes E: "writes_ok E" and v: "subscribe_valid (subscribe_request tf qos i)"
  shows "ok (\<lambda>(rc, c').
      if rc = SUCCESS_RETURN
      then written (effects c') = written (effects c) @ subscribe_bytes tf qos i \<and>
        list_sub_handle c' = (if (tf, Some fp, ctx) \<in> sub_key ` set (list_sub_handle c) then list_sub_handle c
          else list_sub_handle c @ [\<lparr>th_addr = n_malloc c, handle = \<lparr>h_fp = Some fp, pcontext = ctx\<rparr>, topic_filter = tf\<rparr>])
      else list_sub_handle c' = list_sub_handle c) (MQTTSubscribe E tf qos i fp ctx c)"
proof -
  have addr: "n_malloc c1 = n_malloc c" if "utils_time_countdown_ms E ms c = (tm, c1)" for ms tm c1
    using that by (auto simp: utils_time_countdown_ms_def HAL_UptimeMs_def)
  show ?thesis
    unfolding MQTTSubscribe_def
    apply (intro flow add_handle_eq; clarsimp)
        apply (((drule countdown_frame malloc_frame alloc_send_frame serialize_frame send_frame)+, rule session_subs, simp)+)
    apply (drule subscribe_packet.exchange_success [OF _ _ _ E v], assumption, assumption)
    apply (frule addr, (drule countdown_frame malloc_frame alloc_send_frame)+)
    apply (clarsimp dest!: session_subs)
    apply (simp add: subscribe_bytes_def Let_def header_defs sub_key_def)
    done
qed

subsection \<open>Requests on a prompt platform\<close>

context mqtt_serializer begin

lemma exchange_prompt:
  assumes E: "prompt E n k ms" and now: "n < n_uptime c" "n_uptime c + 1 \<le> n + k"
    and timer: "time timer = ucast (env_uptime E n + ucast ms)" and v: "valid x"
    and len: "0 \<le> len" "len < 2147483000"
    and room: "9 + length (body x) \<le> min (unat (buf_size_send_max c)) (64 + nat len)"
  shows "\<exists>c1 ln c2 c3. alloc_send_buffer E len c = (0, c1) \<and> serialize_to_send ser x c1 = Some (ln, c2) \<and> 0 < ln \<and>
    iotx_mc_send_packet E (buf_send c2) ln timer c2 = Some (0, c3) \<and> held c3 = held c \<and> n_malloc c1 = Suc (n_malloc c)"
proof -
  define out where "out = first x # MQTTPacket_encode (int (length (body x))) @ body x"
  have malloc: "env_malloc E i sz" for i sz using E by (simp add: prompt_def)
  obtain b w where a: "alloc_send_buffer E len c = (0, c\<lparr>n_malloc := Suc (n_malloc c), buf_send := Some b, buf_size_send := w\<rparr>)"
    and b: "unat w = length b" "length b = min (unat (buf_size_send_max c)) (64 + nat len)"
    using alloc_send_prompt [OF malloc len] by blast
  have lb: "length out + 4 \<le> length b" "0 < length out" "length b < 2147483648"
    using out_length [OF v] room b(2) len(2) by (auto simp: out_def)
  define c1 where "c1 = c\<lparr>n_malloc := Suc (n_malloc c), buf_send := Some b, buf_size_send := w\<rparr>"
  obtain b' where s: "serialize_to_send ser x c1 = Some (int (length out), c1\<lparr>buf_send := Some b'\<rparr>)" "length b' = length b"
    using send_runs [OF v, of c1 b] b(1) lb unfolding out_def [symmetric] by (auto simp: c1_def)
  obtain c3 where t: "iotx_mc_send_packet E (Some b') (int (length out)) timer (c1\<lparr>buf_send := Some b'\<rparr>) = Some (0, c3)"
      "held c3 = held c"
    using send_prompt [OF E, of "c1\<lparr>buf_send := Some b'\<rparr>" timer "int (length out)" b'] now timer lb s(2)
    by (auto simp: c1_def)
  show ?thesis using a s t lb(2) unfolding c1_def [symmetric]
    by (intro exI [of _ c1] exI [of _ "int (length out)"] exI [of _ "c1\<lparr>buf_send := Some b'\<rparr>"] exI [of _ c3])
      (simp add: c1_def)
qed

end

lemma unsubscribe_prompt:
  assumes E: "prompt E (n_uptime c) 3 (request_timeout_ms c)" and held: "held c = {}" and v: "unsubscribe_valid (0, ucast i, 1, [MQTTString_initializer\<lparr>ms_cstring := Some tf\<rparr>])"
    and room: "9 + length (unsubscribe_body (0, ucast i, 1, [MQTTString_initializer\<lparr>ms_cstring := Some tf\<rparr>])) \<le> min (unat (buf_size_send_max c)) (64 + length tf)"
      "length tf < 2147483000"
  shows "\<exists>c'. MQTTUnsubscribe E tf i c = Some (0, c')"
proof -
  define timer where "timer = \<lparr>time = ucast (env_uptime E (n_uptime c) + ucast (request_timeout_ms c)) :: u32\<rparr>"
  have malloc: "env_malloc E i sz" for i sz using E by (simp add: prompt_def)
  have cd: "utils_time_countdown_ms E (request_timeout_ms c) c = (timer, c\<lparr>n_uptime := Suc (n_uptime c)\<rparr>)"
    by (simp add: utils_time_countdown_ms_def HAL_UptimeMs_def timer_def)
  define c0 where "c0 = c\<lparr>n_uptime := Suc (n_uptime c), n_malloc := Suc (Suc (n_malloc c)), held := {LockWriteBuf}\<rparr>"
  have l: "HAL_MutexLock LockWriteBuf (c\<lparr>n_uptime := Suc (n_uptime c), n_malloc := Suc (Suc (n_malloc c))\<rparr>) = Some c0"
    using held by (simp add: HAL_MutexLock_def c0_def)
  obtain c1 ln c2 c3 where x: "alloc_send_buffer E (int (length tf)) c0 = (0, c1)"
    "serialize_to_send MQTTSerialize_unsubscribe (0, ucast i, 1, [MQTTString_initializer\<lparr>ms_cstring := Some tf\<rparr>]) c1 = Some (ln, c2)" "0 < ln"
    "iotx_mc_send_packet E (buf_send c2) ln timer c2 = Some (0, c3)" "held c3 = {LockWriteBuf}"
    using unsubscribe_packet.exchange_prompt [OF E, of c0 timer _ "int (length tf)"] v room
    by (fastforce simp: c0_def timer_def)
  have topic: "\<lparr>ms_cstring = None, lenstring = \<lparr>ls_len = int (length tf) + 1, ls_data = Some (tf @ [0])\<rparr>\<rparr> = received_topic (tf @ [0]) []"
    by (simp add: received_topic_def)
  have "\<not> ln \<le> 0" using x(3) by simp
  with held x(5) show ?thesis
    by (simp add: MQTTUnsubscribe_def cd HAL_Malloc_def malloc l x(1,2,4) Let_def topic remove_hits_eq HAL_MutexLock_def [of LockGeneric]
        HAL_MutexUnlock_def unlock_return_def reset_send_buffer_def del: locked_facts)
qed

subsection \<open>Properties of the subscription list\<close>

text \<open>
  C32: a successful \<open>MQTTSubscribe\<close> has sent exactly the SUBSCRIBE packet of the filter, and afterwards the
  list has one entry for the filter, handler and context: the one that was there, or a new one at the end.
  A list without duplicates stays without; a failed call changes nothing in the list.
\<close>

theorem subscribe_registers:
  assumes "MQTTSubscribe E tf qos i fp ctx c = Some (rc, c')" and "writes_ok E"
    and "subscribe_valid (subscribe_request tf qos i)"
  shows "(rc = SUCCESS_RETURN \<longrightarrow> written (effects c') = written (effects c) @ subscribe_bytes tf qos i \<and>
      (tf, Some fp, ctx) \<in> sub_key ` set (list_sub_handle c')) \<and>
    (rc \<noteq> SUCCESS_RETURN \<longrightarrow> list_sub_handle c' = list_sub_handle c) \<and>
    (\<exists>new. list_sub_handle c' = list_sub_handle c @ new) \<and>
    (distinct (map sub_key (list_sub_handle c)) \<longrightarrow> distinct (map sub_key (list_sub_handle c')))"
  using okD [OF subscribe_result [OF assms(2,3)] assms(1)]
  by (auto simp: sub_key_def split: if_splits)

text \<open>
  C34: unsubscribing removes the wrong subscriptions.  \<open>MQTTUnsubscribe\<close> sends the UNSUBSCRIBE packet of the
  filter, but compares the filters in the list with the topic and its terminating zero byte: the
  subscription of a filter without wildcards is never removed, and what is removed are the filters with wildcards
  that match the longer topic.
\<close>

theorem unsubscribe_keeps_plain_filter:
  assumes "MQTTUnsubscribe E tf i c = Some (SUCCESS_RETURN, c')" and "writes_ok E"
    and "unsubscribe_valid (0, ucast i, 1, [MQTTString_initializer\<lparr>ms_cstring := Some tf\<rparr>])"
    and "0 \<notin> set tf" and "\<forall>n \<in> set (list_sub_handle c). 0 \<notin> set (topic_filter n)"
  shows "written (effects c') = written (effects c) @ unsubscribe_bytes tf i \<and>
    list_sub_handle c' = filter (\<lambda>n. \<not> topic_matched_loop (topic_filter n) (tf @ [0])) (list_sub_handle c) \<and>
    (\<forall>n \<in> set (list_sub_handle c). {plus_sign, hash_sign} \<inter> set (topic_filter n) = {} \<longrightarrow> n \<in> set (list_sub_handle c'))"
proof -
  have r: "written (effects c') = written (effects c) @ unsubscribe_bytes tf i"
    "list_sub_handle c' = filter (\<lambda>n. \<not> hits (tf @ [0]) n) (list_sub_handle c)"
    using okD [OF unsubscribe_result [OF assms(2,3)] assms(1)] by simp_all
  have hit: "hits (tf @ [0]) n \<longleftrightarrow> topic_matched_loop (topic_filter n) (tf @ [0])" if "n \<in> set (list_sub_handle c)" for n
    using assms(5) that by (auto simp: hits_def)
  have plain: "\<not> topic_matched_loop (topic_filter n) (tf @ [0])"
    if "n \<in> set (list_sub_handle c)" "{plus_sign, hash_sign} \<inter> set (topic_filter n) = {}" for n
    using plain_matches_itself [OF that(2), of "tf @ [0]"] assms(5) that(1) by auto
  have "list_sub_handle c' = filter (\<lambda>n. \<not> topic_matched_loop (topic_filter n) (tf @ [0])) (list_sub_handle c)"
    using r(2) hit by (auto intro: filter_cong)
  then show ?thesis using r(1) plain by auto
qed

lemma sample_prompt3: "prompt sample_env 0 3 2000"
  using sample_prompt by (simp add: prompt_def)

theorem unsubscribe_keeps_plain_filter_witness:
  "\<exists>c'. MQTTUnsubscribe sample_env (str ''/a/x'') 7 subscribed_client = Some (SUCCESS_RETURN, c') \<and>
     map th_addr (list_sub_handle c') = [2, 3]"
proof -
  have v: "unsubscribe_valid (0, ucast (7 :: u32), 1, [MQTTString_initializer\<lparr>ms_cstring := Some (str ''/a/x'')\<rparr>])"
    "length (unsubscribe_body (0, ucast (7 :: u32), 1, [MQTTString_initializer\<lparr>ms_cstring := Some (str ''/a/x'')\<rparr>])) = 8"
    by (simp_all add: unsubscribe_valid_def unsubscribe_body_def MQTTString_ok_def string_bytes_def
        MQTTString_initializer_def writeInt_def)
  have f: "n_uptime subscribed_client = 0" "request_timeout_ms subscribed_client = 2000" "held subscribed_client = {}"
    "buf_size_send_max subscribed_client = 256"
    by (simp_all add: subscribed_client_def connected_client_fields)
  obtain c' where r: "MQTTUnsubscribe sample_env (str ''/a/x'') 7 subscribed_client = Some (SUCCESS_RETURN, c')"
    using unsubscribe_prompt [of sample_env subscribed_client 7 "str ''/a/x''"] v sample_prompt3 f by auto
  have "list_sub_handle c' = filter (\<lambda>n. \<not> topic_matched_loop (topic_filter n) (str ''/a/x'' @ [0])) (list_sub_handle subscribed_client)"
    using unsubscribe_keeps_plain_filter [OF r sample_env_network(1) v(1)]
    by (auto simp: subscribed_client_def subscription_def)
  then show ?thesis using r by (auto simp: subscribed_client_def subscription_def)
qed

lemma subscribe_prompt:
  assumes E: "prompt E (n_uptime c) 3 (request_timeout_ms c)" and held: "held c = {}" and v: "subscribe_valid (subscribe_request tf qos i)"
    and room: "9 + length (subscribe_body (subscribe_request tf qos i)) \<le> min (unat (buf_size_send_max c)) (64 + length tf)"
      "length tf < 2147483000"
  shows "\<exists>c'. MQTTSubscribe E tf qos i fp ctx c = Some (0, c')"
proof -
  define timer where "timer = \<lparr>time = ucast (env_uptime E (n_uptime c) + ucast (request_timeout_ms c)) :: u32\<rparr>"
  have malloc: "env_malloc E i sz" for i sz using E by (simp add: prompt_def)
  have cd: "utils_time_countdown_ms E (request_timeout_ms c) c = (timer, c\<lparr>n_uptime := Suc (n_uptime c)\<rparr>)"
    by (simp add: utils_time_countdown_ms_def HAL_UptimeMs_def timer_def)
  define c0 where "c0 = c\<lparr>n_uptime := Suc (n_uptime c), n_malloc := Suc (Suc (n_malloc c)), held := {LockWriteBuf}\<rparr>"
  have l: "HAL_MutexLock LockWriteBuf (c\<lparr>n_uptime := Suc (n_uptime c), n_malloc := Suc (Suc (n_malloc c))\<rparr>) = Some c0"
    using held by (simp add: HAL_MutexLock_def c0_def)
  obtain c1 ln c2 c3 where x: "alloc_send_buffer E (int (length tf)) c0 = (0, c1)"
    "serialize_to_send MQTTSerialize_subscribe (subscribe_request tf qos i) c1 = Some (ln, c2)" "0 < ln"
    "iotx_mc_send_packet E (buf_send c2) ln timer c2 = Some (0, c3)" "held c3 = {LockWriteBuf}"
    using subscribe_packet.exchange_prompt [OF E, of c0 timer _ "int (length tf)"] v room
    by (fastforce simp: c0_def timer_def)
  have "\<not> ln \<le> 0" using x(3) by simp
  with held x(5) show ?thesis
    by (simp add: MQTTSubscribe_def cd HAL_Malloc_def malloc l x(1,2,4) Let_def add_handle_def HAL_MutexLock_def [of LockGeneric]
        HAL_MutexUnlock_def unlock_return_def reset_send_buffer_def del: locked_facts)
qed

theorem subscribe_registers_witness:
  "\<exists>c'. MQTTSubscribe sample_env (str ''/c'') 1 7 4 0 subscribed_client = Some (SUCCESS_RETURN, c') \<and>
     (str ''/c'', Some 4, 0) \<in> sub_key ` set (list_sub_handle c')"
proof -
  have v: "subscribe_valid (subscribe_request (str ''/c'') 1 7)"
    "length (subscribe_body (subscribe_request (str ''/c'') 1 7)) = 7"
    by (simp_all add: subscribe_valid_def subscribe_body_def MQTTString_ok_def string_bytes_def
        MQTTString_initializer_def writeInt_def)
  have f: "n_uptime subscribed_client = 0" "request_timeout_ms subscribed_client = 2000" "held subscribed_client = {}"
    "buf_size_send_max subscribed_client = 256"
    by (simp_all add: subscribed_client_def connected_client_fields)
  obtain c' where r: "MQTTSubscribe sample_env (str ''/c'') 1 7 4 0 subscribed_client = Some (SUCCESS_RETURN, c')"
    using subscribe_prompt [where E = sample_env and c = subscribed_client and tf = "str ''/c''" and i = 7 and qos = 1 and fp = 4 and ctx = 0] v sample_prompt3 f by auto
  show ?thesis using subscribe_registers [OF r sample_env_network(1) v(1)] r by auto
qed

end
