(* ===== verification/CoapMessage.thy ===== *)
theory CoapMessage
  imports Prelude
begin

text \<open>
  The CoAP message and the operations on it: \<open>coap_server/iotx_coap_internal.h\<close> and
  \<open>coap_server/CoAPPacket/CoAPMessage_common.c\<close>.  The bit fields of the header are words of their
  width.  A pointer to bytes is \<open>None\<close> when it is NULL and otherwise the bytes from it to the end
  of the object it points into; \<open>deref\<close> reads through it.  The message itself is always a local
  variable of the caller, so its checks against NULL never apply and are left out.
\<close>

subsection \<open>Constants\<close>

abbreviation (input) COAP_MSG_MAX_TOKEN_LEN :: nat where "COAP_MSG_MAX_TOKEN_LEN \<equiv> 8"
abbreviation (input) COAP_MSG_MAX_OPTION_NUM :: nat where "COAP_MSG_MAX_OPTION_NUM \<equiv> 12"
abbreviation (input) COAP_MSG_MAX_PATH_LEN :: nat where "COAP_MSG_MAX_PATH_LEN \<equiv> 128"
abbreviation (input) COAP_MSG_MAX_PDU_LEN :: nat where "COAP_MSG_MAX_PDU_LEN \<equiv> 1280"

abbreviation (input) COAP_OPTION_OBSERVE :: u16 where "COAP_OPTION_OBSERVE \<equiv> 6"
abbreviation (input) COAP_OPTION_URI_PATH :: u16 where "COAP_OPTION_URI_PATH \<equiv> 11"
abbreviation (input) COAP_OPTION_CONTENT_FORMAT :: u16 where "COAP_OPTION_CONTENT_FORMAT \<equiv> 12"
abbreviation (input) COAP_OPTION_MAXAGE :: u16 where "COAP_OPTION_MAXAGE \<equiv> 14"
abbreviation (input) COAP_OPTION_ACCEPT :: u16 where "COAP_OPTION_ACCEPT \<equiv> 17"

abbreviation (input) COAP_CT_APP_JSON :: u32 where "COAP_CT_APP_JSON \<equiv> 50"

abbreviation (input) COAP_MESSAGE_TYPE_CON :: "2 word" where "COAP_MESSAGE_TYPE_CON \<equiv> 0"
abbreviation (input) COAP_MESSAGE_TYPE_NON :: "2 word" where "COAP_MESSAGE_TYPE_NON \<equiv> 1"
abbreviation (input) COAP_MESSAGE_TYPE_ACK :: "2 word" where "COAP_MESSAGE_TYPE_ACK \<equiv> 2"
abbreviation (input) COAP_MESSAGE_TYPE_RST :: "2 word" where "COAP_MESSAGE_TYPE_RST \<equiv> 3"

abbreviation (input) COAP_SUCCESS :: int where "COAP_SUCCESS \<equiv> 0"
abbreviation (input) COAP_ERROR_INVALID_PARAM :: int where "COAP_ERROR_INVALID_PARAM \<equiv> 257"
abbreviation (input) COAP_ERROR_NULL :: int where "COAP_ERROR_NULL \<equiv> 258"
abbreviation (input) COAP_ERROR_MALLOC :: int where "COAP_ERROR_MALLOC \<equiv> 259"
abbreviation (input) COAP_ERROR_INVALID_LENGTH :: int where "COAP_ERROR_INVALID_LENGTH \<equiv> 260"
abbreviation (input) COAP_ERROR_DATA_SIZE :: int where "COAP_ERROR_DATA_SIZE \<equiv> 261"
abbreviation (input) COAP_ERROR_NOT_FOUND :: int where "COAP_ERROR_NOT_FOUND \<equiv> 263"
abbreviation (input) COAP_ERROR_WRITE_FAILED :: int where "COAP_ERROR_WRITE_FAILED \<equiv> 266"
abbreviation (input) COAP_ERROR_UNSUPPORTED :: int where "COAP_ERROR_UNSUPPORTED \<equiv> 269"
abbreviation (input) COAP_ERROR_OBJ_ALREADY_EXIST :: int where "COAP_ERROR_OBJ_ALREADY_EXIST \<equiv> 270"

abbreviation (input) COAP_MSG_CODE_EMPTY_MESSAGE :: byte where "COAP_MSG_CODE_EMPTY_MESSAGE \<equiv> 0"
abbreviation (input) COAP_MSG_CODE_GET :: byte where "COAP_MSG_CODE_GET \<equiv> 1"
abbreviation (input) COAP_MSG_CODE_POST :: byte where "COAP_MSG_CODE_POST \<equiv> 2"
abbreviation (input) COAP_MSG_CODE_205_CONTENT :: byte where "COAP_MSG_CODE_205_CONTENT \<equiv> 0x45"
abbreviation (input) COAP_MSG_CODE_404_NOT_FOUND :: byte where "COAP_MSG_CODE_404_NOT_FOUND \<equiv> 0x84"
abbreviation (input) COAP_MSG_CODE_405_METHOD_NOT_ALLOWED :: byte where
  "COAP_MSG_CODE_405_METHOD_NOT_ALLOWED \<equiv> 0x85"

subsection \<open>Data\<close>

type_synonym pointer = "byte list option"

definition deref :: "pointer \<Rightarrow> nat \<Rightarrow> byte list option" where
  "deref p n = (case p of None \<Rightarrow> if n = 0 then Some [] else None | Some bs \<Rightarrow> rd_block bs 0 n)"

record CoAPMsgHeader =
  h_version :: "2 word"
  h_type :: "2 word"
  h_tokenlen :: "4 word"
  h_code :: byte
  h_msgid :: u16

record CoAPMsgOption =
  opt_num :: u16
  opt_len :: u16
  opt_val :: pointer

record CoAPMessage =
  header :: CoAPMsgHeader
  token :: "byte list"
  options :: "CoAPMsgOption list"
  optcount :: byte
  optdelta :: byte
  payloadlen :: u16
  payload :: pointer
  handler :: "nat option"
  user :: "nat option"
  keep :: int

text \<open>\<open>options[i]\<close>, read and written within the array.\<close>

definition option_at :: "CoAPMessage \<Rightarrow> nat \<Rightarrow> CoAPMsgOption option" where
  "option_at m i = (if i < length (options m) then Some (options m ! i) else None)"

definition no_option :: CoAPMsgOption where
  "no_option = \<lparr>opt_num = 0, opt_len = 0, opt_val = None\<rparr>"

text \<open>\<open>CoAPMessage_init\<close> also serves for the \<open>memset\<close> of a received message, where the header is
  zero as well.\<close>

definition zero_message :: CoAPMessage where
  "zero_message = \<lparr>header = \<lparr>h_version = 0, h_type = 0, h_tokenlen = 0, h_code = 0, h_msgid = 0\<rparr>,
     token = replicate COAP_MSG_MAX_TOKEN_LEN 0, options = replicate COAP_MSG_MAX_OPTION_NUM no_option,
     optcount = 0, optdelta = 0, payloadlen = 0, payload = None, handler = None, user = None, keep = 0\<rparr>"

definition CoAPMessage_init :: CoAPMessage where
  "CoAPMessage_init = zero_message\<lparr>header :=
     \<lparr>h_version = 1, h_type = COAP_MESSAGE_TYPE_ACK, h_tokenlen = 0,
      h_code = COAP_MSG_CODE_EMPTY_MESSAGE, h_msgid = 0\<rparr>\<rparr>"

definition CoAPMessage_destory :: "CoAPMessage \<Rightarrow> CoAPMessage" where
  "CoAPMessage_destory m = m\<lparr>options := map (\<lambda>opt. opt\<lparr>opt_val := None\<rparr>) (options m)\<rparr>"

subsection \<open>Setters\<close>

definition CoAPMessageId_set :: "CoAPMessage \<Rightarrow> u16 \<Rightarrow> CoAPMessage" where
  "CoAPMessageId_set m i = m\<lparr>header := (header m)\<lparr>h_msgid := i\<rparr>\<rparr>"

definition CoAPMessageType_set :: "CoAPMessage \<Rightarrow> byte \<Rightarrow> int \<times> CoAPMessage" where
  "CoAPMessageType_set m t =
     (if t \<noteq> 0 \<and> t \<noteq> 1 \<and> t \<noteq> 2 \<and> t \<noteq> 3 then (COAP_ERROR_INVALID_PARAM, m)
      else (COAP_SUCCESS, m\<lparr>header := (header m)\<lparr>h_type := ucast t\<rparr>\<rparr>))"

definition CoAPMessageCode_set :: "CoAPMessage \<Rightarrow> byte \<Rightarrow> CoAPMessage" where
  "CoAPMessageCode_set m c = m\<lparr>header := (header m)\<lparr>h_code := c\<rparr>\<rparr>"

definition CoAPMessageCode_get :: "CoAPMessage \<Rightarrow> byte" where
  "CoAPMessageCode_get m = h_code (header m)"

definition CoAPMessageToken_set :: "CoAPMessage \<Rightarrow> pointer \<Rightarrow> byte \<Rightarrow> (int \<times> CoAPMessage) option" where
  "CoAPMessageToken_set m tok tokenlen =
     (if tok = None then Some (COAP_ERROR_NULL, m)
      else if of_nat COAP_MSG_MAX_TOKEN_LEN < tokenlen then Some (COAP_ERROR_INVALID_LENGTH, m)
      else do {
        bs \<leftarrow> deref tok (unat tokenlen);
        Some (COAP_SUCCESS, m\<lparr>token := bs @ drop (unat tokenlen) (token m),
                              header := (header m)\<lparr>h_tokenlen := ucast tokenlen\<rparr>\<rparr>) })"

definition CoAPMessageUserData_set :: "CoAPMessage \<Rightarrow> nat option \<Rightarrow> int \<times> CoAPMessage" where
  "CoAPMessageUserData_set m u =
     (if u = None then (COAP_ERROR_NULL, m) else (COAP_SUCCESS, m\<lparr>user := u\<rparr>))"

definition CoAPMessageKeep_Set :: "CoAPMessage \<Rightarrow> int \<Rightarrow> int \<times> CoAPMessage" where
  "CoAPMessageKeep_Set m k =
     (if k < 0 then (COAP_ERROR_NULL, m) else (COAP_SUCCESS, m\<lparr>keep := k\<rparr>))"

definition CoAPMessagePayload_set :: "CoAPMessage \<Rightarrow> pointer \<Rightarrow> u16 \<Rightarrow> int \<times> CoAPMessage" where
  "CoAPMessagePayload_set m p n =
     (if 0 < n \<and> p = None then (COAP_ERROR_NULL, m)
      else (COAP_SUCCESS, m\<lparr>payload := p, payloadlen := n\<rparr>))"

definition CoAPMessageHandler_set :: "CoAPMessage \<Rightarrow> nat option \<Rightarrow> CoAPMessage" where
  "CoAPMessageHandler_set m h = m\<lparr>handler := h\<rparr>"

subsection \<open>Options\<close>

text \<open>
  The number an option is stored with is its distance to the number added before it; that number is
  kept in \<open>optdelta\<close>, a byte.  \<open>mem\<close> says whether \<open>coap_malloc\<close> returned memory.
\<close>

definition put_option :: "CoAPMessage \<Rightarrow> u16 \<Rightarrow> u16 \<Rightarrow> pointer \<Rightarrow> CoAPMessage option" where
  "put_option m optnum len val =
     (let i = unat (optcount m) in
      if i < length (options m)
      then Some (m\<lparr>options := (options m)[i := \<lparr>opt_num = optnum - ucast (optdelta m), opt_len = len, opt_val = val\<rparr>],
                   optdelta := ucast optnum, optcount := optcount m + 1\<rparr>)
      else None)"

definition CoAPStrOption_add ::
  "bool \<Rightarrow> CoAPMessage \<Rightarrow> u16 \<Rightarrow> pointer \<Rightarrow> u16 \<Rightarrow> (int \<times> CoAPMessage) option" where
  "CoAPStrOption_add mem m optnum data datalen =
     (if of_nat COAP_MSG_MAX_OPTION_NUM \<le> optcount m then Some (COAP_ERROR_INVALID_PARAM, m)
      else if \<not> mem then
        (let i = unat (optcount m) in
         if i < length (options m)
         then Some (COAP_ERROR_MALLOC, m\<lparr>options := (options m)[i := (options m ! i)
                      \<lparr>opt_num := optnum - ucast (optdelta m), opt_len := datalen\<rparr>]\<rparr>)
         else None)
      else do {
        bs \<leftarrow> deref data (unat datalen);
        m \<leftarrow> put_option m optnum datalen (Some bs);
        Some (COAP_SUCCESS, m) })"

text \<open>The search of the first option with a number, which all readers share.\<close>

fun find_option :: "CoAPMessage \<Rightarrow> u16 \<Rightarrow> nat \<Rightarrow> nat \<Rightarrow> CoAPMsgOption option option" where
  "find_option m optnum index 0 = Some None"
| "find_option m optnum index (Suc n) = do {
     opt \<leftarrow> option_at m index;
     if opt_num opt = optnum then Some (Some opt) else find_option m optnum (Suc index) n }"

text \<open>\<open>datalen\<close> is the capacity of \<open>data\<close> before and the length of the value after; the result
  has the value.\<close>

definition CoAPStrOption_get :: "CoAPMessage \<Rightarrow> u16 \<Rightarrow> u16 \<Rightarrow> (int \<times> byte list \<times> u16) option" where
  "CoAPStrOption_get m optnum datalen = do {
     r \<leftarrow> find_option m optnum 0 (unat (optcount m));
     case r of
       None \<Rightarrow> Some (COAP_ERROR_NOT_FOUND, [], datalen)
     | Some opt \<Rightarrow>
         if opt_len opt \<le> datalen then do {
           bs \<leftarrow> deref (opt_val opt) (unat (opt_len opt));
           Some (COAP_SUCCESS, bs, opt_len opt) }
         else Some (COAP_ERROR_INVALID_LENGTH, [], datalen) }"

definition uint_bytes :: "u32 \<Rightarrow> byte list" where
  "uint_bytes data =
     (if data = 0 then []
      else if data \<le> 255 then [ucast data]
      else if data \<le> 65535 then [ucast (drop_bit 8 (data AND 0xFF00)), ucast (data AND 0x00FF)]
      else [ucast (drop_bit 24 (data AND 0xFF000000)), ucast (drop_bit 16 (data AND 0x00FF0000)),
            ucast (drop_bit 8 (data AND 0x0000FF00)), ucast (data AND 0x000000FF)])"

definition CoAPUintOption_add :: "bool \<Rightarrow> CoAPMessage \<Rightarrow> u16 \<Rightarrow> u32 \<Rightarrow> (int \<times> CoAPMessage) option" where
  "CoAPUintOption_add mem m optnum data =
     (if of_nat COAP_MSG_MAX_OPTION_NUM \<le> optcount m then Some (COAP_ERROR_INVALID_PARAM, m)
      else do {
        m \<leftarrow> put_option m optnum (word_of_nat (length (uint_bytes data)))
               (if data = 0 \<or> \<not> mem then None else Some (uint_bytes data));
        Some (COAP_SUCCESS, m) })"

text \<open>The value is combined with what \<open>*data\<close> held before.\<close>

definition uint_value :: "byte list \<Rightarrow> u32 \<Rightarrow> u32" where
  "uint_value bs data =
     (case bs of
        [a] \<Rightarrow> data OR ucast a
      | [a, b] \<Rightarrow> data OR push_bit 8 (ucast a) OR ucast b
      | [a, b, c] \<Rightarrow> data OR push_bit 16 (ucast a) OR push_bit 8 (ucast b) OR ucast c
      | [a, b, c, d] \<Rightarrow> data OR push_bit 24 (ucast a) OR push_bit 16 (ucast b) OR push_bit 8 (ucast c) OR ucast d
      | _ \<Rightarrow> 0)"

definition CoAPUintOption_get :: "CoAPMessage \<Rightarrow> u16 \<Rightarrow> u32 \<Rightarrow> (int \<times> u32) option" where
  "CoAPUintOption_get m optnum data = do {
     r \<leftarrow> find_option m optnum 0 (unat (optcount m));
     case r of
       None \<Rightarrow> Some (COAP_ERROR_NOT_FOUND, data)
     | Some opt \<Rightarrow>
         if 1 \<le> opt_len opt \<and> opt_len opt \<le> 4 then do {
           bs \<leftarrow> deref (opt_val opt) (unat (opt_len opt));
           Some (COAP_SUCCESS, uint_value bs data) }
         else Some (COAP_SUCCESS, 0) }"

definition CoAPOption_present :: "CoAPMessage \<Rightarrow> u16 \<Rightarrow> int option" where
  "CoAPOption_present m optnum = do {
     r \<leftarrow> find_option m optnum 0 (unat (optcount m));
     Some (if r = None then COAP_ERROR_NOT_FOUND else COAP_SUCCESS) }"

end
