(* ===== verification/CoapPacket.thy ===== *)
theory CoapPacket
  imports CoapMessage
begin

text \<open>
  \<open>coap_server/CoAPPacket/CoAPSerialize_common.c\<close> and \<open>CoAPDeserialize_common.c\<close>.  A serializer
  writes into the object \<open>buf\<close> from offset \<open>p\<close> on and returns the object; a write outside it is
  \<open>None\<close>.  The deserializer reads from \<open>buf\<close>, the bytes from its argument to the end of the object,
  which may be longer than the datagram.
\<close>

subsection \<open>Serialization\<close>

definition CoAPSerialize_Header :: "CoAPMessage \<Rightarrow> byte list \<Rightarrow> nat \<Rightarrow> u16 \<Rightarrow> (u16 \<times> byte list) option" where
  "CoAPSerialize_Header msg buf p buflen =
     (if buflen < 4 then Some (0, buf)
      else do {
        buf \<leftarrow> wr_bytes buf p
          [(push_bit 6 (ucast (h_version (header msg)) AND 0x3)
              OR push_bit 4 (ucast (h_type (header msg)) AND 0x3))
             OR (ucast (h_tokenlen (header msg)) AND 0x0F),
           h_code (header msg),
           ucast (drop_bit 8 (h_msgid (header msg) AND 0xFF00)),
           ucast (h_msgid (header msg) AND 0x00FF)];
        Some (4, buf) })"

definition CoAPSerialize_Token :: "CoAPMessage \<Rightarrow> byte list \<Rightarrow> nat \<Rightarrow> u16 \<Rightarrow> (u16 \<times> byte list) option" where
  "CoAPSerialize_Token msg buf p buflen =
     (let tokenlen = ucast (h_tokenlen (header msg)) :: u16 in
      if buflen < tokenlen then Some (0, buf)
      else do {
        bs \<leftarrow> rd_block (token msg) 0 (unat tokenlen);
        buf \<leftarrow> wr_bytes buf p bs;
        Some (tokenlen, buf) })"

text \<open>The four bits that stand for a number or a length, and the bytes that follow for a large one.\<close>

definition opt_nibble :: "u16 \<Rightarrow> byte" where
  "opt_nibble n = (if 269 \<le> n then 14 else if 13 \<le> n then 13 else ucast n)"

definition opt_ext :: "u16 \<Rightarrow> byte list" where
  "opt_ext n =
     (if 269 \<le> n then [ucast (drop_bit 8 ((n - 269) AND 0xFF00)), ucast ((n - 269) AND 0x00FF)]
      else if 13 \<le> n then [ucast (n - 13)] else [])"

definition option_head :: "CoAPMsgOption \<Rightarrow> byte list" where
  "option_head opt =
     [push_bit 4 (opt_nibble (opt_num opt)) OR (opt_nibble (opt_len opt) AND 0x0F)]
     @ opt_ext (opt_num opt) @ opt_ext (opt_len opt)"

definition CoAPSerialize_Option :: "CoAPMsgOption \<Rightarrow> byte list \<Rightarrow> nat \<Rightarrow> (u16 \<times> byte list) option" where
  "CoAPSerialize_Option opt buf p = do {
     buf \<leftarrow> wr_bytes buf p (option_head opt);
     val \<leftarrow> deref (opt_val opt) (unat (opt_len opt));
     buf \<leftarrow> wr_bytes buf (p + length (option_head opt)) val;
     Some (word_of_nat (length (option_head opt) + length val), buf) }"

fun serialize_options_loop ::
  "CoAPMessage \<Rightarrow> byte list \<Rightarrow> nat \<Rightarrow> nat \<Rightarrow> nat \<Rightarrow> u16 \<Rightarrow> (u16 \<times> byte list) option" where
  "serialize_options_loop msg buf p i 0 count = Some (count, buf)"
| "serialize_options_loop msg buf p i (Suc n) count = do {
     opt \<leftarrow> option_at msg i;
     (len, buf) \<leftarrow> CoAPSerialize_Option opt buf (p + unat count);
     if 0 < len then serialize_options_loop msg buf p (Suc i) n (count + len) else Some (0, buf) }"

definition CoAPSerialize_Options :: "CoAPMessage \<Rightarrow> byte list \<Rightarrow> nat \<Rightarrow> u16 \<Rightarrow> (u16 \<times> byte list) option" where
  "CoAPSerialize_Options msg buf p buflen = serialize_options_loop msg buf p 0 (unat (optcount msg)) 0"

definition CoAPSerialize_OptionLen :: "CoAPMsgOption \<Rightarrow> u16" where
  "CoAPSerialize_OptionLen opt =
     (let len = 1;
          len = (if 269 \<le> opt_num opt then len + 2 else if 13 \<le> opt_num opt then len + 1 else len);
          len = (if 269 \<le> opt_len opt then len + 2 else if 13 \<le> opt_len opt then len + 1 else len)
      in len + opt_len opt)"

fun options_len_loop :: "CoAPMessage \<Rightarrow> nat \<Rightarrow> nat \<Rightarrow> u16 \<Rightarrow> u16 option" where
  "options_len_loop msg i 0 count = Some count"
| "options_len_loop msg i (Suc n) count = do {
     opt \<leftarrow> option_at msg i;
     let len = CoAPSerialize_OptionLen opt;
     if 0 < len then options_len_loop msg (Suc i) n (count + len) else Some 0 }"

definition CoAPSerialize_OptionsLen :: "CoAPMessage \<Rightarrow> u16 option" where
  "CoAPSerialize_OptionsLen msg = options_len_loop msg 0 (unat (optcount msg)) 0"

text \<open>The payload's buffer length is an \<open>int\<close> here.\<close>

definition CoAPSerialize_Payload :: "CoAPMessage \<Rightarrow> byte list \<Rightarrow> nat \<Rightarrow> int \<Rightarrow> (int \<times> byte list) option" where
  "CoAPSerialize_Payload msg buf p buflen =
     (if uint (payloadlen msg) + 1 > buflen then Some (0, buf)
      else if 0 < payloadlen msg \<and> payload msg \<noteq> None then do {
        bs \<leftarrow> deref (payload msg) (unat (payloadlen msg));
        buf \<leftarrow> wr_bytes buf p (0xFF # bs);
        Some (uint (payloadlen msg) + 1, buf) }
      else Some (0, buf))"

definition CoAPSerialize_MessageLength :: "CoAPMessage \<Rightarrow> u16 option" where
  "CoAPSerialize_MessageLength msg = do {
     let msglen = 4 + ucast (h_tokenlen (header msg));
     n \<leftarrow> CoAPSerialize_OptionsLen msg;
     let msglen = msglen + n;
     Some (if 0 < payloadlen msg then msglen + payloadlen msg + 1 else msglen) }"

definition CoAPSerialize_Message :: "CoAPMessage \<Rightarrow> byte list option \<Rightarrow> u16 \<Rightarrow> (int \<times> byte list option) option" where
  "CoAPSerialize_Message msg buf buflen =
     (case buf of None \<Rightarrow> Some (COAP_ERROR_INVALID_PARAM, None)
      | Some buf \<Rightarrow> do {
          let p = 0;
          let remlen = buflen;
          (count, buf) \<leftarrow> CoAPSerialize_Header msg buf p remlen;
          let p = p + unat count;
          let remlen = remlen - count;
          (count, buf) \<leftarrow> CoAPSerialize_Token msg buf p remlen;
          let p = p + unat count;
          let remlen = remlen - count;
          (count, buf) \<leftarrow> CoAPSerialize_Options msg buf p remlen;
          let p = p + unat count;
          let remlen = remlen - count;
          (count, buf) \<leftarrow> CoAPSerialize_Payload msg buf p (uint remlen);
          let remlen = remlen - word_of_int count;
          Some (uint buflen - uint remlen, Some buf) })"

subsection \<open>Deserialization\<close>

definition CoAPDeserialize_Header :: "CoAPMessage \<Rightarrow> byte list \<Rightarrow> (int \<times> CoAPMessage) option" where
  "CoAPDeserialize_Header msg buf = do {
     b0 \<leftarrow> rd8 buf 0;
     b1 \<leftarrow> rd8 buf 1;
     b2 \<leftarrow> rd8 buf 2;
     b3 \<leftarrow> rd8 buf 3;
     Some (4, msg\<lparr>header := \<lparr>h_version = ucast (drop_bit 6 b0 AND 0x03), h_type = ucast (drop_bit 4 b0 AND 0x03),
                             h_tokenlen = ucast (b0 AND 0x0F), h_code = b1,
                             h_msgid = push_bit 8 (ucast b2) + ucast b3\<rparr>\<rparr>) }"

definition CoAPDeserialize_Token :: "CoAPMessage \<Rightarrow> byte list \<Rightarrow> nat \<Rightarrow> (int \<times> CoAPMessage) option" where
  "CoAPDeserialize_Token msg buf p = do {
     let n = unat (h_tokenlen (header msg));
     bs \<leftarrow> rd_block buf p n;
     tok \<leftarrow> wr_bytes (token msg) 0 bs;
     Some (int n, msg\<lparr>token := tok\<rparr>) }"

text \<open>
  The extended form of a number or a length: the value, to which the caller's \<open>base\<close> is already
  added, and the offset behind it.
\<close>

definition read_ext :: "byte list \<Rightarrow> nat \<Rightarrow> byte \<Rightarrow> u16 \<Rightarrow> (u16 \<times> nat) option" where
  "read_ext buf p nibble base =
     (if nibble = 13 then do { b \<leftarrow> rd8 buf p; Some (base + (13 + ucast b), p + 1) }
      else if nibble = 14 then do {
        b \<leftarrow> rd8 buf p;
        b' \<leftarrow> rd8 buf (p + 1);
        Some (base + 269 + push_bit 8 (ucast b) + ucast b', p + 2) }
      else Some (base + ucast nibble, p))"

definition CoAPDeserialize_Option :: "byte list \<Rightarrow> nat \<Rightarrow> u16 \<Rightarrow> (int \<times> CoAPMsgOption \<times> u16) option" where
  "CoAPDeserialize_Option buf p predeltas = do {
     b \<leftarrow> rd8 buf p;
     (num, q) \<leftarrow> read_ext buf (p + 1) (drop_bit 4 (b AND 0xF0)) predeltas;
     (len, q) \<leftarrow> read_ext buf q (b AND 0x0F) 0;
     Some (int (q - p) + uint len, \<lparr>opt_num = num, opt_len = len, opt_val = Some (drop q buf)\<rparr>, num) }"

text \<open>The options are stored from index 0 on, without a check against the size of the array; a store
  behind its end has no defined result.\<close>

function deserialize_options_loop ::
  "byte list \<Rightarrow> int \<Rightarrow> CoAPMessage \<Rightarrow> nat \<Rightarrow> int \<Rightarrow> nat \<Rightarrow> u16 \<Rightarrow> (nat \<times> CoAPMessage) option" where
  "deserialize_options_loop buf buflen msg index count p optdeltas =
     (if count < buflen then do {
        b \<leftarrow> rd8 buf p;
        if b = 0xFF then Some (p, msg)
        else do {
          (n, opt, optdeltas) \<leftarrow> CoAPDeserialize_Option buf p optdeltas;
          let len = (word_of_int n :: u16);
          if length (options msg) \<le> index then None
          else deserialize_options_loop buf buflen
                 (msg\<lparr>options := (options msg)[index := opt], optcount := optcount msg + 1\<rparr>)
                 (Suc index) (count + uint len) (p + unat len) optdeltas } }
      else Some (p, msg))"
  by pat_completeness auto
termination
  by (relation "measure (\<lambda>(buf, buflen, msg, index, count, p, d). length (options msg) - index)") auto

declare deserialize_options_loop.simps [simp del]

definition CoAPDeserialize_Options :: "CoAPMessage \<Rightarrow> byte list \<Rightarrow> nat \<Rightarrow> int \<Rightarrow> (int \<times> CoAPMessage) option" where
  "CoAPDeserialize_Options msg buf p buflen = do {
     (q, msg) \<leftarrow> deserialize_options_loop buf buflen (msg\<lparr>optcount := 0\<rparr>) 0 0 p 0;
     Some (int (q - p), msg) }"

definition CoAPDeserialize_Payload :: "CoAPMessage \<Rightarrow> byte list \<Rightarrow> nat \<Rightarrow> int \<Rightarrow> (int \<times> CoAPMessage) option" where
  "CoAPDeserialize_Payload msg buf p buflen = do {
     b \<leftarrow> rd8 buf p;
     if b = 0xFF
     then Some (buflen, msg\<lparr>payloadlen := word_of_int (buflen - 1), payload := Some (drop (p + 1) buf)\<rparr>)
     else Some (0, msg) }"

definition CoAPDeserialize_Message :: "CoAPMessage \<Rightarrow> byte list option \<Rightarrow> int \<Rightarrow> (int \<times> CoAPMessage) option" where
  "CoAPDeserialize_Message msg buf buflen =
     (case buf of None \<Rightarrow> Some (COAP_ERROR_INVALID_PARAM, msg)
      | Some buf \<Rightarrow>
          if buflen < 4 then Some (COAP_ERROR_INVALID_LENGTH, msg)
          else do {
            (count, msg) \<leftarrow> CoAPDeserialize_Header msg buf;
            let p = nat count;
            let remlen = buflen - count;
            (count, msg) \<leftarrow> CoAPDeserialize_Token msg buf p;
            let p = p + nat count;
            let remlen = remlen - count;
            (count, msg) \<leftarrow> CoAPDeserialize_Options msg buf p remlen;
            let p = p + nat count;
            let remlen = remlen - count;
            (count, msg) \<leftarrow> CoAPDeserialize_Payload msg buf p remlen;
            Some (COAP_SUCCESS, msg) })"
subsection \<open>The bytes of a message\<close>

text \<open>What the serializer is to produce, without positions: the reference it is compared with.\<close>

definition option_data :: "CoAPMsgOption \<Rightarrow> byte list" where
  "option_data opt = (case opt_val opt of None \<Rightarrow> [] | Some bs \<Rightarrow> take (unat (opt_len opt)) bs)"

definition option_bytes :: "CoAPMsgOption \<Rightarrow> byte list" where
  "option_bytes opt = option_head opt @ option_data opt"

abbreviation options_bytes :: "CoAPMsgOption list \<Rightarrow> byte list" where
  "options_bytes os \<equiv> concat (map option_bytes os)"

definition used_options :: "CoAPMessage \<Rightarrow> CoAPMsgOption list" where
  "used_options m = take (unat (optcount m)) (options m)"

definition header_bytes :: "CoAPMsgHeader \<Rightarrow> byte list" where
  "header_bytes h = [push_bit 6 (ucast (h_version h)) OR push_bit 4 (ucast (h_type h)) OR ucast (h_tokenlen h),
     h_code h, ucast (drop_bit 8 (h_msgid h)), ucast (h_msgid h)]"

definition payload_bytes :: "CoAPMessage \<Rightarrow> byte list" where
  "payload_bytes m = (case payload m of None \<Rightarrow> [] | Some bs \<Rightarrow> take (unat (payloadlen m)) bs)"

definition message_bytes :: "CoAPMessage \<Rightarrow> byte list" where
  "message_bytes m = header_bytes (header m) @ take (unat (h_tokenlen (header m))) (token m)
     @ options_bytes (used_options m) @ (if payloadlen m = 0 then [] else 0xFF # payload_bytes m)"

text \<open>
  A message can be sent when its arrays have their size, its token and its options fit in them,
  its pointers reach as far as their lengths say, and its size is representable.
\<close>

definition option_valid :: "CoAPMsgOption \<Rightarrow> bool" where
  "option_valid opt = (deref (opt_val opt) (unat (opt_len opt)) \<noteq> None)"

definition message_ok :: "CoAPMessage \<Rightarrow> bool" where
  "message_ok m = (length (token m) = COAP_MSG_MAX_TOKEN_LEN \<and> length (options m) = COAP_MSG_MAX_OPTION_NUM
     \<and> unat (h_tokenlen (header m)) \<le> COAP_MSG_MAX_TOKEN_LEN \<and> unat (optcount m) \<le> COAP_MSG_MAX_OPTION_NUM
     \<and> list_all option_valid (used_options m)
     \<and> (0 < payloadlen m \<longrightarrow> payload m \<noteq> None \<and> deref (payload m) (unat (payloadlen m)) \<noteq> None))"

definition sendable :: "CoAPMessage \<Rightarrow> bool" where
  "sendable m = (message_ok m \<and> length (message_bytes m) < 65536)"

subsection \<open>One option\<close>

lemma opt_nibble_less: "opt_nibble n < 15"
proof (cases "13 \<le> n")
  case False
  then have "uint n < 13" by (simp add: word_le_def)
  then have "uint (ucast n :: byte) < 13" by (simp add: uint_up_ucast unsigned_ucast_eq take_bit_int_eq_self)
  then show ?thesis using False by (auto simp: opt_nibble_def word_less_def)
qed (simp add: opt_nibble_def)

lemma option_head_byte:
  "drop_bit 4 ((push_bit 4 (opt_nibble a) OR (opt_nibble b AND 0x0F)) AND 0xF0) = opt_nibble a"
  "(push_bit 4 (opt_nibble a) OR (opt_nibble b AND 0x0F)) AND 0x0F = opt_nibble b"
proof -
  have "opt_nibble n < 16" for n
    using opt_nibble_less [of n] by (simp add: word_less_def)
  note bits = byte_lt_16_bits [OF this]
  show "drop_bit 4 ((push_bit 4 (opt_nibble a) OR (opt_nibble b AND 0x0F)) AND 0xF0) = opt_nibble a"
    "(push_bit 4 (opt_nibble a) OR (opt_nibble b AND 0x0F)) AND 0x0F = opt_nibble b"
    using bits [of a] bits [of b] by (simp_all add: byte_bits_eq_iff bit_simps)
qed

lemma option_head_not_marker: "push_bit 4 (opt_nibble a) OR (opt_nibble b AND 0x0F) \<noteq> 0xFF"
proof
  assume "push_bit 4 (opt_nibble a) OR (opt_nibble b AND 0x0F) = 0xFF"
  then have "opt_nibble b = 0xFF AND 0x0F" using option_head_byte(2) [of a b] by simp
  then show False using opt_nibble_less [of b] by simp
qed
lemma ucast_u16_byte:
  assumes "n < 256"
  shows "ucast (ucast (n :: u16) :: byte) = n"
proof (rule bit_word_eqI)
  fix k assume "k < LENGTH(16)"
  show "bit (ucast (ucast n :: byte) :: u16) k = bit n k"
    using word_small_bit [of n 8 k] assms by (cases "k < 8") (auto simp: bit_simps word_less_def)
qed

lemma u16_bytes: "push_bit 8 (ucast (ucast (drop_bit 8 (n AND 0xFF00)) :: byte)) + ucast (ucast (n AND 0x00FF) :: byte) = (n :: u16)"
proof -
  have "push_bit 8 (ucast (ucast (drop_bit 8 (n AND 0xFF00)) :: byte)) + ucast (ucast (n AND 0x00FF) :: byte)
    = push_bit 8 (ucast (ucast (drop_bit 8 (n AND 0xFF00)) :: byte)) OR (ucast (ucast (n AND 0x00FF) :: byte) :: u16)"
    by (rule disjunctive_add) (auto simp: bit_simps)
  also have "\<dots> = n"
  proof (rule bit_word_eqI)
    fix k assume "k < LENGTH(16)"
    then have "k \<in> {0, 1, 2, 3, 4, 5, 6, 7, 8, 9, 10, 11, 12, 13, 14, 15}" by simp presburger
    then show "bit (push_bit 8 (ucast (ucast (drop_bit 8 (n AND 0xFF00)) :: byte))
        OR (ucast (ucast (n AND 0x00FF) :: byte) :: u16)) k = bit n k"
      by (elim insertE emptyE) (simp_all add: bit_simps)
  qed
  finally show ?thesis .
qed

lemma read_ext_back:
  "read_ext (pre @ opt_ext n @ rest) (length pre) (opt_nibble n) base
     = Some (base + n, length pre + length (opt_ext n))"
proof -
  consider "269 \<le> n" | "13 \<le> n" "\<not> 269 \<le> n" | "\<not> 13 \<le> n" by blast
  then show ?thesis
  proof cases
    case 1
    let ?hi = "ucast (drop_bit 8 ((n - 269) AND 0xFF00)) :: byte" and ?lo = "ucast ((n - 269) AND 0x00FF) :: byte"
    have "read_ext (pre @ [?hi, ?lo] @ rest) (length pre) 14 base
            = Some (base + 269 + (push_bit 8 (ucast ?hi) + ucast ?lo), length pre + 2)"
      by (simp add: read_ext_def nth_append add.assoc)
    then show ?thesis using 1 unfolding u16_bytes by (simp add: opt_ext_def opt_nibble_def)
  next
    case 2
    then have "n - 13 < 256" by (simp add: word_le_def word_less_def uint_sub_if')
    then show ?thesis using 2 by (simp add: read_ext_def opt_ext_def opt_nibble_def ucast_u16_byte)
  next
    case 3
    then have small: "uint n < 13" by (simp add: word_le_def)
    then have "uint (ucast n :: byte) < 13"
      by (simp add: unsigned_ucast_eq unsigned_take_bit_eq take_bit_int_eq_self)
    then have "ucast n \<noteq> (13::byte)" "ucast n \<noteq> (14::byte)" by auto
    moreover have "n < 256" "\<not> 269 \<le> n" using small by (simp_all add: word_less_def word_le_def)
    ultimately show ?thesis using 3
      by (simp add: read_ext_def opt_ext_def opt_nibble_def ucast_u16_byte)
  qed
qed
lemma deserialize_option_back:
  "CoAPDeserialize_Option (pre @ option_head opt @ rest) (length pre) d
     = Some (int (length (option_head opt)) + uint (opt_len opt),
             \<lparr>opt_num = d + opt_num opt, opt_len = opt_len opt, opt_val = Some rest\<rparr>, d + opt_num opt)"
proof -
  define b where "b = push_bit 4 (opt_nibble (opt_num opt)) OR (opt_nibble (opt_len opt) AND 0x0F)"
  let ?e = "opt_ext (opt_num opt)" and ?f = "opt_ext (opt_len opt)"
  have head: "option_head opt = b # ?e @ ?f" by (simp add: option_head_def b_def)
  have nibbles: "drop_bit 4 (b AND 0xF0) = opt_nibble (opt_num opt)" "b AND 0x0F = opt_nibble (opt_len opt)"
    unfolding b_def by (rule option_head_byte)+
  have "read_ext (pre @ b # ?e @ ?f @ rest) (Suc (length pre)) (opt_nibble (opt_num opt)) d
          = Some (d + opt_num opt, Suc (length pre) + length ?e)"
    using read_ext_back [of "pre @ [b]" "opt_num opt" "?f @ rest" d] by simp
  moreover have "read_ext (pre @ b # ?e @ ?f @ rest) (Suc (length pre) + length ?e) (opt_nibble (opt_len opt)) 0
          = Some (opt_len opt, Suc (length pre) + length ?e + length ?f)"
    using read_ext_back [of "pre @ b # ?e" "opt_len opt" rest 0] by simp
  ultimately show ?thesis
    by (simp add: CoAPDeserialize_Option_def head nibbles nibbles [simplified] del: drop_bit_and)
qed
lemma option_data_length: "option_valid opt \<Longrightarrow> length (option_data opt) = unat (opt_len opt)"
  by (auto simp: option_valid_def option_data_def deref_def rd_block_def split: option.splits if_splits)

lemma option_deref: "option_valid opt \<Longrightarrow> deref (opt_val opt) (unat (opt_len opt)) = Some (option_data opt)"
  by (auto simp: option_valid_def option_data_def deref_def rd_block_def split: option.splits if_splits)

lemma option_bytes_marker: "\<exists>b bs. option_bytes opt = b # bs \<and> b \<noteq> 0xFF"
  using option_head_not_marker by (auto simp: option_bytes_def option_head_def)

lemma option_bytes_pos [simp]: "0 < length (option_bytes opt)" "option_bytes opt \<noteq> []"
  using option_bytes_marker [of opt] by auto

subsection \<open>All options\<close>

text \<open>What the receiver stores for options sent with relative numbers.\<close>

fun received :: "u16 \<Rightarrow> CoAPMsgOption list \<Rightarrow> byte list \<Rightarrow> CoAPMsgOption list" where
  "received d [] rest = []"
| "received d (opt # os) rest =
     \<lparr>opt_num = d + opt_num opt, opt_len = opt_len opt, opt_val = Some (option_data opt @ options_bytes os @ rest)\<rparr>
     # received (d + opt_num opt) os rest"

lemma length_received [simp]: "length (received d os rest) = length os"
  by (induction d os rest rule: received.induct) auto

lemma splice_at_Cons:
  "i < length xs \<Longrightarrow> splice_at (xs[i := y]) (Suc i) ys = splice_at xs i (y # ys)"
  by (simp add: splice_at_def take_Suc_conv_app_nth)

lemma deserialize_options_loop_back:
  assumes "list_all option_valid os" and "\<forall>opt \<in> set os. length (option_bytes opt) < 65536"
    and "index + length os \<le> length (options msg)"
    and "count + int (length (options_bytes os)) \<le> buflen"
    and "count + int (length (options_bytes os)) = buflen \<or> (\<exists>rest'. rest = 0xFF # rest')"
  shows "deserialize_options_loop (pre @ options_bytes os @ rest) buflen msg index count (length pre) d
    = Some (length pre + length (options_bytes os),
            msg\<lparr>options := splice_at (options msg) index (received d os rest),
                optcount := optcount msg + of_nat (length os)\<rparr>)"
  using assms
proof (induction os arbitrary: pre msg index count d)
  case Nil
  then show ?case by (subst deserialize_options_loop.simps) auto
next
  case (Cons opt os)
  let ?n = "length (option_bytes opt)"
  let ?rest = "option_data opt @ options_bytes os @ rest"
  let ?opt = "\<lparr>opt_num = d + opt_num opt, opt_len = opt_len opt, opt_val = Some ?rest\<rparr>"
  let ?msg = "msg\<lparr>options := (options msg)[index := ?opt], optcount := optcount msg + 1\<rparr>"
  let ?buf = "pre @ options_bytes (opt # os) @ rest"
  obtain b bs where b: "option_bytes opt = b # bs" "b \<noteq> 0xFF" using option_bytes_marker by blast
  have n: "int (length (option_head opt)) + uint (opt_len opt) = int ?n"
    using Cons.prems(1) by (simp add: option_bytes_def option_data_length)
  have buf: "?buf = pre @ option_head opt @ ?rest" by (simp add: option_bytes_def)
  have opt: "CoAPDeserialize_Option ?buf (length pre) d = Some (int ?n, ?opt, d + opt_num opt)"
    unfolding buf deserialize_option_back n ..
  have len: "uint (word_of_int (int ?n) :: u16) = int ?n" "unat (word_of_int (int ?n) :: u16) = ?n"
    using Cons.prems(2) by (simp_all add: take_bit_nat_eq_self unsigned_of_nat)
  have "deserialize_options_loop ?buf buflen msg index count (length pre) d
    = deserialize_options_loop ?buf buflen ?msg (Suc index) (count + int ?n) (length pre + ?n) (d + opt_num opt)"
    using Cons.prems(3,4) b(2) option_bytes_pos(1) [of opt] len
    by (subst deserialize_options_loop.simps) (use opt b(1) in \<open>simp add: nth_append\<close>)
  also have "\<dots> = Some (length (pre @ option_bytes opt) + length (options_bytes os),
      ?msg\<lparr>options := splice_at (options ?msg) (Suc index) (received (d + opt_num opt) os rest),
           optcount := optcount ?msg + of_nat (length os)\<rparr>)"
    using Cons.IH [of "Suc index" ?msg "count + int ?n" "pre @ option_bytes opt" "d + opt_num opt"] Cons.prems
    by (simp add: add.assoc)
  finally show ?case
    using Cons.prems(3) by (simp add: splice_at_Cons algebra_simps)
qed
lemma serialize_option_eq:
  assumes "option_valid opt" and "p + length (option_bytes opt) \<le> length buf"
  shows "CoAPSerialize_Option opt buf p
    = Some (of_nat (length (option_bytes opt)), splice_at buf p (option_bytes opt))"
  using assms by (simp add: CoAPSerialize_Option_def option_deref option_bytes_def splice_at_append)

lemma option_len_eq:
  "option_valid opt \<Longrightarrow> CoAPSerialize_OptionLen opt = of_nat (length (option_bytes opt))"
  by (simp add: CoAPSerialize_OptionLen_def option_bytes_def option_head_def opt_ext_def option_data_length)

lemma nonzero_u16: "0 < n \<Longrightarrow> n < 65536 \<Longrightarrow> (0 :: u16) < word_of_nat n"
  by (simp add: word_less_nat_alt unsigned_of_nat take_bit_nat_eq_self)

lemma unat_add_of_nat:
  "unat (c :: u16) + n < 65536 \<Longrightarrow> unat (c + of_nat n) = unat c + n"
  by (simp add: unat_word_ariths unsigned_of_nat take_bit_nat_eq_self)

lemma take_drop_Suc:
  "i < length xs \<Longrightarrow> take (Suc n) (drop i xs) = xs ! i # take n (drop (Suc i) xs)"
  by (simp add: Cons_nth_drop_Suc [symmetric])

lemma serialize_options_loop_eq:
  assumes "i + n \<le> length (options msg)" and "list_all option_valid (take n (drop i (options msg)))"
    and "unat count + length (options_bytes (take n (drop i (options msg)))) < 65536"
    and "p + unat count + length (options_bytes (take n (drop i (options msg)))) \<le> length buf"
  shows "serialize_options_loop msg buf p i n count
    = Some (count + of_nat (length (options_bytes (take n (drop i (options msg))))),
            splice_at buf (p + unat count) (options_bytes (take n (drop i (options msg)))))"
  using assms
proof (induction n arbitrary: i count buf)
  case (Suc n)
  let ?opt = "options msg ! i"
  let ?os = "take n (drop (Suc i) (options msg))"
  let ?n = "length (option_bytes ?opt)"
  have i: "i < length (options msg)" using Suc.prems(1) by simp
  note prems = Suc.prems [unfolded take_drop_Suc [OF i], simplified]
  have c: "unat (count + of_nat ?n) = unat count + ?n" using prems by (intro unat_add_of_nat) simp
  have "(0 :: u16) < of_nat ?n" using prems by (intro nonzero_u16) auto
  then have "serialize_options_loop msg buf p i (Suc n) count
      = serialize_options_loop msg (splice_at buf (p + unat count) (option_bytes ?opt)) p (Suc i) n (count + of_nat ?n)"
    using prems i by (simp add: option_at_def serialize_option_eq)
  also have "\<dots> = Some (count + of_nat ?n + of_nat (length (options_bytes ?os)),
      splice_at (splice_at buf (p + unat count) (option_bytes ?opt)) (p + (unat count + ?n)) (options_bytes ?os))"
    using Suc.IH [of "Suc i" "count + of_nat ?n" "splice_at buf (p + unat count) (option_bytes ?opt)"] prems c
    by (simp add: add.assoc)
  finally show ?case
    using prems by (simp add: take_drop_Suc [OF i] add.assoc splice_at_append [symmetric])
qed simp

lemma options_len_loop_eq:
  assumes "i + n \<le> length (options msg)" and "list_all option_valid (take n (drop i (options msg)))"
    and "unat count + length (options_bytes (take n (drop i (options msg)))) < 65536"
  shows "options_len_loop msg i n count
    = Some (count + of_nat (length (options_bytes (take n (drop i (options msg))))))"
  using assms
proof (induction n arbitrary: i count)
  case (Suc n)
  let ?opt = "options msg ! i"
  let ?n = "length (option_bytes ?opt)"
  have i: "i < length (options msg)" using Suc.prems(1) by simp
  note prems = Suc.prems [unfolded take_drop_Suc [OF i], simplified]
  have c: "unat (count + of_nat ?n) = unat count + ?n" using prems by (intro unat_add_of_nat) simp
  have "(0 :: u16) < of_nat ?n" using prems by (intro nonzero_u16) auto
  then show ?case
    using Suc.IH [of "Suc i" "count + of_nat ?n"] prems i c
    by (simp add: option_at_def option_len_eq take_drop_Suc [OF i] add.assoc)
qed simp
subsection \<open>The whole message\<close>

lemma length_message_bytes:
  assumes "message_ok m"
  shows "length (message_bytes m) = 4 + unat (h_tokenlen (header m)) + length (options_bytes (used_options m))
    + (if payloadlen m = 0 then 0 else unat (payloadlen m) + 1)"
  using assms unfolding message_bytes_def message_ok_def
  by (auto simp: header_bytes_def payload_bytes_def deref_def rd_block_def min_def word_neq_0_conv
           split: option.splits if_splits)

lemma ucast_4_16: "unat (ucast (w :: 4 word) :: u16) = unat w"
  by (simp add: unsigned_ucast_eq take_bit_nat_eq_self order_less_trans [OF unsigned_less])

lemma message_length_eq:
  assumes "sendable m"
  shows "CoAPSerialize_MessageLength m = Some (of_nat (length (message_bytes m)))"
proof -
  have m: "message_ok m" "length (message_bytes m) < 65536" using assms by (auto simp: sendable_def)
  have "CoAPSerialize_OptionsLen m = Some (of_nat (length (options_bytes (used_options m))))"
    using options_len_loop_eq [of 0 "unat (optcount m)" m 0] m length_message_bytes [OF m(1)]
    by (simp add: CoAPSerialize_OptionsLen_def message_ok_def used_options_def)
  then show ?thesis
    using length_message_bytes [OF m(1)]
    by (auto simp: CoAPSerialize_MessageLength_def word_neq_0_conv ucast_4_16 [symmetric] simp flip: ucast_4_16)
qed

lemma serialize_header_eq:
  assumes "4 \<le> length buf" and "4 \<le> buflen"
  shows "CoAPSerialize_Header m buf 0 buflen = Some (4, splice_at buf 0 (header_bytes (header m)))"
proof -
  have m: "(0x3 :: byte) = mask 2" "(0x0F :: byte) = mask 4" by (simp_all add: mask_eq_exp_minus_1)
  have "(ucast (v :: 2 word) AND 0x3 :: byte) = ucast v" for v
    unfolding m by (rule bit_word_eqI) (auto simp: bit_simps dest: bit_imp_le_length)
  moreover have "(ucast (t :: 4 word) AND 0x0F :: byte) = ucast t" for t
    unfolding m by (rule bit_word_eqI) (auto simp: bit_simps dest: bit_imp_le_length)
  moreover have "(ucast (drop_bit 8 (i AND 0xFF00)) :: byte) = ucast (drop_bit 8 i)"
    and "(ucast (i AND 0x00FF) :: byte) = ucast i" for i :: u16
    by (simp_all add: byte_bits_eq_iff bit_simps)
  ultimately show ?thesis
    using assms by (simp add: CoAPSerialize_Header_def header_bytes_def or.assoc linorder_not_less)
qed
lemma message_serialized_lemma:
  assumes "sendable m" and "length buf = length (message_bytes m)"
  shows "CoAPSerialize_Message m (Some buf) (of_nat (length (message_bytes m)))
    = Some (int (length (message_bytes m)), Some (message_bytes m))"
proof -
  have m: "message_ok m" "length (message_bytes m) < 65536" using assms by (auto simp: sendable_def)
  define t where "t = unat (h_tokenlen (header m))"
  define os where "os = length (options_bytes (used_options m))"
  define q where "q = (if payloadlen m = 0 then 0 else unat (payloadlen m) + 1)"
  have N: "length (message_bytes m) = 4 + t + os + q"
    using length_message_bytes [OF m(1)] by (simp add: t_def os_def q_def)
  have tl: "ucast (h_tokenlen (header m)) = (of_nat t :: u16)" "t \<le> 8" "t \<le> length (token m)"
    using m(1) by (simp_all add: t_def message_ok_def unsigned_ucast_eq)
  let ?tok = "take t (token m)" and ?opts = "options_bytes (used_options m)"
  let ?pay = "if payloadlen m = 0 then [] else 0xFF # payload_bytes m"
  let ?h = "header_bytes (header m)"
  define L where "L = (of_nat (length (message_bytes m)) :: u16)"
  have small: "unat (of_nat k :: u16) = k" if "k \<le> 4 + t + os + q" for k
    using that m(2) N by (simp add: unsigned_of_nat take_bit_nat_eq_self)
  have L: "L - 4 = of_nat (t + os + q)" "L - 4 - of_nat t = of_nat (os + q)"
    "L - 4 - of_nat t - of_nat os = of_nat q"
    unfolding L_def N by simp_all
  have len: "length ?h = 4" "length ?tok = t" "length ?opts = os" "length ?pay = q" "length buf = 4 + t + os + q"
    "?h @ ?tok @ ?opts @ ?pay = message_bytes m"
    using N tl assms(2) by (simp_all add: header_bytes_def message_bytes_def t_def os_def)
  have "4 \<le> L" using small [of "4 + t + os + q"] unfolding L_def N by (simp add: word_le_nat_alt del: of_nat_add)
  then have "CoAPSerialize_Header m buf 0 L = Some (4, splice_at buf 0 ?h)"
    by (intro serialize_header_eq) (simp_all add: len)
  moreover have "CoAPSerialize_Token m (splice_at buf 0 ?h) 4 (L - 4)
      = Some (of_nat t, splice_at buf 0 (?h @ ?tok))"
  proof -
    have "\<not> L - 4 < of_nat t"
      using small [of t] small [of "t + os + q"] unfolding L by (simp add: word_less_nat_alt del: of_nat_add)
    moreover have "wr_bytes (splice_at buf 0 ?h) 4 ?tok = Some (splice_at buf 0 (?h @ ?tok))"
      using len(1,2,5) splice_at_append [of 0 ?h ?tok buf] by simp
    moreover have "rd_block (token m) 0 t = Some ?tok" using tl(3) by simp
    ultimately show ?thesis using small [of t] by (simp add: CoAPSerialize_Token_def tl(1))
  qed
  moreover have "CoAPSerialize_Options m (splice_at buf 0 (?h @ ?tok)) (4 + t) (L - 4 - of_nat t)
      = Some (of_nat os, splice_at buf 0 (?h @ ?tok @ ?opts))"
  proof -
    have "unat (optcount m) \<le> length (options m)" "list_all option_valid (used_options m)"
      using m(1) by (simp_all add: message_ok_def)
    then show ?thesis
      using serialize_options_loop_eq [of 0 "unat (optcount m)" m 0 "4 + t" "splice_at buf 0 (?h @ ?tok)"]
        splice_at_append [of 0 "?h @ ?tok" ?opts buf] len(1-3,5) m(2) N
      by (simp add: CoAPSerialize_Options_def flip: used_options_def)
  qed
  moreover have "CoAPSerialize_Payload m (splice_at buf 0 (?h @ ?tok @ ?opts)) (4 + t + os)
        (uint (L - 4 - of_nat t - of_nat os))
      = Some (int q, splice_at buf 0 (?h @ ?tok @ ?opts @ ?pay))"
  proof (cases "payloadlen m = 0")
    case True
    then show ?thesis by (simp add: CoAPSerialize_Payload_def q_def)
  next
    case False
    then obtain bs where bs: "payload m = Some bs" "deref (payload m) (unat (payloadlen m)) = Some (payload_bytes m)"
      using m(1) by (auto simp: message_ok_def word_neq_0_conv payload_bytes_def deref_def rd_block_def split: if_splits)
    have q: "q = unat (payloadlen m) + 1" "?pay = 0xFF # payload_bytes m" "0 < payloadlen m"
      using False by (simp_all add: q_def word_neq_0_conv)
    have "uint (L - 4 - of_nat t - of_nat os) = uint (payloadlen m) + 1"
      unfolding L using small [of q] q(1) by (simp only: uint_nat) simp
    moreover have "wr_bytes (splice_at buf 0 (?h @ ?tok @ ?opts)) (4 + t + os) ?pay
        = Some (splice_at buf 0 (?h @ ?tok @ ?opts @ ?pay))"
    proof -
      have pos: "4 + t + os = 0 + length (?h @ ?tok @ ?opts)" using len(1-3) by simp
      have fits: "0 + length (?h @ ?tok @ ?opts) + length ?pay \<le> length buf" using pos len(4,5) by linarith
      show ?thesis unfolding pos using splice_at_append [OF fits] fits by (simp only: wr_bytes_Some length_splice_at append_assoc)
    qed
    ultimately show ?thesis
      using bs q by (simp add: CoAPSerialize_Payload_def)
  qed
  moreover have "unat L = 4 + t + os + q"
    using small [of "4 + t + os + q"] unfolding L_def N by simp
  moreover have "word_of_int (int q) = L - 4 - of_nat t - of_nat os" unfolding L by simp
  ultimately have "CoAPSerialize_Message m (Some buf) L = Some (uint L - 0, Some (splice_at buf 0 (message_bytes m)))"
    using len(6) small [of t] small [of os]
    by (simp add: CoAPSerialize_Message_def)
  then show ?thesis
    using len(6) assms(2) \<open>unat L = _\<close> N unfolding L_def [symmetric] by (simp add: uint_nat)
qed
subsection \<open>Reading it back\<close>

lemma deserialize_header_back:
  "CoAPDeserialize_Header m (header_bytes h @ rest) = Some (4, m\<lparr>header := h\<rparr>)"
proof -
  let ?b = "push_bit 6 (ucast (h_version h)) OR push_bit 4 (ucast (h_type h)) OR ucast (h_tokenlen h) :: byte"
  have m: "(0x3 :: byte) = mask 2" "(0x0F :: byte) = mask 4" by (simp_all add: mask_eq_exp_minus_1)
  have v: "ucast (drop_bit 6 ?b AND 0x03) = h_version h"
    unfolding m by (rule bit_word_eqI) (auto simp: bit_simps dest: bit_imp_le_length)
  have t: "ucast (drop_bit 4 ?b AND 0x03) = h_type h"
    unfolding m by (rule bit_word_eqI) (auto simp: bit_simps dest: bit_imp_le_length)
  have k: "ucast (?b AND 0x0F) = h_tokenlen h"
    unfolding m by (rule bit_word_eqI) (auto simp: bit_simps dest: bit_imp_le_length)
  have "(ucast (drop_bit 8 (i AND 0xFF00)) :: byte) = ucast (drop_bit 8 i)"
    "(ucast (i AND 0x00FF) :: byte) = ucast i" for i :: u16
    by (simp_all add: byte_bits_eq_iff bit_simps)
  then have i: "push_bit 8 (ucast (ucast (drop_bit 8 i) :: byte)) + ucast (ucast i :: byte) = i" for i :: u16
    using u16_bytes [of i] by simp
  show ?thesis
    by (simp add: CoAPDeserialize_Header_def header_bytes_def v [simplified] t [simplified] k i)
qed

text \<open>The numbers and values of options that were sent with relative numbers.\<close>

fun absolute :: "u16 \<Rightarrow> CoAPMsgOption list \<Rightarrow> (u16 \<times> byte list) list" where
  "absolute d [] = []"
| "absolute d (opt # os) = (d + opt_num opt, option_data opt) # absolute (d + opt_num opt) os"

definition option_values :: "CoAPMessage \<Rightarrow> (u16 \<times> byte list) list" where
  "option_values m = map (\<lambda>opt. (opt_num opt, option_data opt)) (used_options m)"

lemma received_values:
  "list_all option_valid os \<Longrightarrow>
     map (\<lambda>opt. (opt_num opt, option_data opt)) (received d os rest) = absolute d os"
proof (induction d os rest rule: received.induct)
  case (2 d opt os rest)
  then show ?case
    using option_data_length [of opt] by (simp add: option_data_def split: option.splits)
qed simp

lemma deserialize_message_back:
  assumes m: "message_ok m" "length (message_bytes m) < 65536"
    and rest: "payloadlen m = 0 \<Longrightarrow> \<exists>b rest'. rest = b # rest' \<and> b \<noteq> 0xFF"
    and m0: "length (token m0) = COAP_MSG_MAX_TOKEN_LEN" "length (options m0) = COAP_MSG_MAX_OPTION_NUM"
  defines "tail \<equiv> (if payloadlen m = 0 then rest else 0xFF # payload_bytes m @ rest)"
    and "m1 \<equiv> m0\<lparr>header := header m,
           token := splice_at (token m0) 0 (take (unat (h_tokenlen (header m))) (token m))\<rparr>"
  shows "CoAPDeserialize_Message m0 (Some (message_bytes m @ rest)) (int (length (message_bytes m)))
    = Some (COAP_SUCCESS,
        (if payloadlen m = 0 then id
         else (\<lambda>r. r\<lparr>payloadlen := payloadlen m, payload := Some (payload_bytes m @ rest)\<rparr>))
        (m1\<lparr>options := splice_at (options m0) 0 (received 0 (used_options m) tail), optcount := optcount m\<rparr>))"
proof -
  define t where "t = unat (h_tokenlen (header m))"
  let ?tok = "take t (token m)" and ?opts = "options_bytes (used_options m)"
  let ?buf = "header_bytes (header m) @ ?tok @ ?opts @ tail"
  have len: "length (header_bytes (header m)) = 4" "length ?tok = t" "t \<le> 8"
    using m(1) by (simp_all add: header_bytes_def message_ok_def t_def)
  have buf: "message_bytes m @ rest = ?buf"
    by (simp add: message_bytes_def tail_def t_def)
  have N: "length (message_bytes m) = 4 + t + length ?opts + (if payloadlen m = 0 then 0 else unat (payloadlen m) + 1)"
    using length_message_bytes [OF m(1)] by (simp add: t_def)
  have "CoAPDeserialize_Token (m0\<lparr>header := header m\<rparr>) ?buf 4 = Some (int t, m1)"
    using len m0 by (simp add: CoAPDeserialize_Token_def t_def [symmetric] m1_def)
  moreover have "CoAPDeserialize_Options m1 ?buf (4 + t) (int (length (message_bytes m)) - 4 - int t)
    = Some (int (length ?opts), m1\<lparr>options := splice_at (options m0) 0 (received 0 (used_options m) tail), optcount := optcount m\<rparr>)"
  proof -
    have count: "length (used_options m) = unat (optcount m)" "unat (optcount m) \<le> 12" "list_all option_valid (used_options m)"
      using m(1) by (auto simp: message_ok_def used_options_def)
    have "\<forall>opt \<in> set (used_options m). length (option_bytes opt) < 65536"
    proof
      fix opt assume "opt \<in> set (used_options m)"
      then obtain xs ys where "used_options m = xs @ opt # ys" by (meson split_list)
      then have "length (option_bytes opt) \<le> length ?opts" by simp
      then show "length (option_bytes opt) < 65536" using N m(2) by simp
    qed
    then show ?thesis
      using deserialize_options_loop_back [of "used_options m" 0 "m1\<lparr>optcount := 0\<rparr>" 0
          "int (length (message_bytes m)) - 4 - int t" tail "header_bytes (header m) @ ?tok" 0] count m0 N len
      by (auto simp: CoAPDeserialize_Options_def m1_def tail_def)
  qed
  moreover have "CoAPDeserialize_Payload r ?buf (4 + t + length ?opts) (int (length (message_bytes m)) - 4 - int t - int (length ?opts))
    = Some (if payloadlen m = 0 then (0, r) else (uint (payloadlen m) + 1, r\<lparr>payloadlen := payloadlen m, payload := Some (payload_bytes m @ rest)\<rparr>))" for r
  proof (cases "payloadlen m = 0")
    case True
    then show ?thesis
      using rest len by (auto simp: CoAPDeserialize_Payload_def tail_def nth_append rd8_def)
  next
    case False
    then show ?thesis
      using len by (simp add: CoAPDeserialize_Payload_def tail_def nth_append rd8_def N)
  qed
  ultimately show ?thesis
    unfolding buf using deserialize_header_back [of m0 "header m" "?tok @ ?opts @ tail"] N
    by (simp add: CoAPDeserialize_Message_def)
qed
subsection \<open>Datagrams that overrun the message\<close>

lemma option_flood:
  "length (options msg) - index < k \<Longrightarrow> count + int k \<le> buflen \<Longrightarrow>
     deserialize_options_loop (pre @ replicate k 0 @ rest) buflen msg index count (length pre) d = None"
proof (induction k arbitrary: msg index count pre d)
  case (Suc k)
  have "CoAPDeserialize_Option (pre @ 0 # replicate k 0 @ rest) (length pre) d
      = Some (1, \<lparr>opt_num = d, opt_len = 0, opt_val = Some (replicate k 0 @ rest)\<rparr>, d)"
    by (simp add: CoAPDeserialize_Option_def read_ext_def)
  then show ?case
    using Suc.prems Suc.IH [of _ "Suc index" "count + 1" "pre @ [0]" d]
    by (subst deserialize_options_loop.simps) (auto simp: not_le)
qed simp

lemma option_standstill:
  assumes "count < buflen" and "p < length buf" and "buf ! p \<noteq> 0xFF"
    and "CoAPDeserialize_Option buf p d = Some (65536, opt, d)"
  shows "deserialize_options_loop buf buflen msg index count p d = None"
proof (induction "length (options msg) - index" arbitrary: msg index rule: less_induct)
  case less
  then show ?case
    using assms by (subst deserialize_options_loop.simps) (auto simp: rd8_def)
qed
subsection \<open>Properties\<close>

definition sample_coap :: CoAPMessage where
  "sample_coap = CoAPMessage_init\<lparr>
     header := \<lparr>h_version = 1, h_type = COAP_MESSAGE_TYPE_CON, h_tokenlen = 2, h_code = COAP_MSG_CODE_GET, h_msgid = 0x1234\<rparr>,
     token := [0xA1, 0xB2, 0, 0, 0, 0, 0, 0],
     options := [\<lparr>opt_num = 11, opt_len = 5, opt_val = Some (str ''light'')\<rparr>, \<lparr>opt_num = 289, opt_len = 1, opt_val = Some [50]\<rparr>]
       @ replicate 10 no_option,
     optcount := 2, payloadlen := 2, payload := Some (str ''on'')\<rparr>"

lemma sample_coap_sendable: "sendable sample_coap"
  by (simp add: sample_coap_def sendable_def message_ok_def used_options_def option_valid_def deref_def CoAPMessage_init_def
      zero_message_def message_bytes_def header_bytes_def option_bytes_def option_head_def opt_ext_def option_data_def
      payload_bytes_def rd_block_def)

text \<open>
  C18: the size that \<open>CoAPSerialize_MessageLength\<close> computes is exact and enough.  For every
  sendable message, serializing into a buffer of that many bytes stays inside it, fills it, and the
  result is header, token, options, marker and payload one after the other.
\<close>

theorem coap_length_exact:
  assumes "sendable m" and "CoAPSerialize_MessageLength m = Some n" and "length buf = unat n"
  shows "CoAPSerialize_Message m (Some buf) n = Some (uint n, Some (message_bytes m)) \<and> unat n = length (message_bytes m)"
proof -
  have n: "n = of_nat (length (message_bytes m))" using message_length_eq [OF assms(1)] assms(2) by simp
  moreover have "unat n = length (message_bytes m)"
    using assms(1) unfolding n by (simp add: sendable_def unsigned_of_nat take_bit_nat_eq_self)
  ultimately show ?thesis
    using message_serialized_lemma [OF assms(1), of buf] assms(3) by (simp add: uint_nat)
qed

theorem coap_length_exact_witness:
  "CoAPSerialize_Message sample_coap (Some (replicate 19 0)) 19 = Some (19, Some (message_bytes sample_coap))"
proof -
  have "CoAPSerialize_MessageLength sample_coap = Some 19"
    unfolding message_length_eq [OF sample_coap_sendable]
    by (simp add: sample_coap_def message_bytes_def header_bytes_def option_bytes_def option_head_def opt_ext_def option_data_def
        payload_bytes_def used_options_def word_le_def)
  from coap_length_exact [OF sample_coap_sendable this, of "replicate 19 0"] show ?thesis by simp
qed

lemma received_valid: "list_all option_valid os \<Longrightarrow> list_all option_valid (received d os rest)"
proof (induction d os rest rule: received.induct)
  case (2 d opt os rest)
  then show ?case
    using option_data_length [of opt] by (simp add: option_valid_def deref_def)
qed simp

lemma message_received:
  assumes "sendable m" and "payloadlen m = 0 \<Longrightarrow> \<exists>b bs. rest = b # bs \<and> b \<noteq> 0xFF"
  obtains r where
    "CoAPDeserialize_Message zero_message (Some (message_bytes m @ rest)) (int (length (message_bytes m))) = Some (COAP_SUCCESS, r)"
    "header r = header m" "take (unat (h_tokenlen (header m))) (token r) = take (unat (h_tokenlen (header m))) (token m)"
    "optcount r = optcount m" "option_values r = absolute 0 (used_options m)" "payloadlen r = payloadlen m"
    "payloadlen m \<noteq> 0 \<Longrightarrow> payload_bytes r = payload_bytes m"
    "list_all option_valid (used_options r)" "unat (optcount r) \<le> length (options r)"
proof -
  have m: "message_ok m" "length (message_bytes m) < 65536" using assms(1) by (auto simp: sendable_def)
  let ?tail = "if payloadlen m = 0 then rest else 0xFF # payload_bytes m @ rest"
  let ?os = "splice_at (options zero_message) 0 (received 0 (used_options m) ?tail)"
  have zero: "length (token zero_message) = 8" "length (options zero_message) = 12" "payloadlen zero_message = 0"
    by (simp_all add: zero_message_def)
  have n: "length (used_options m) = unat (optcount m)" "unat (h_tokenlen (header m)) \<le> 8" "length (token m) = 8"
    "list_all option_valid (used_options m)" "unat (optcount m) \<le> 12"
    using m(1) by (auto simp: message_ok_def used_options_def)
  have os: "take (unat (optcount m)) ?os = received 0 (used_options m) ?tail" "length ?os = 12"
    using n zero by (simp_all add: splice_at_def)
  have v: "map (\<lambda>opt. (opt_num opt, option_data opt)) (take (unat (optcount m)) ?os) = absolute 0 (used_options m)"
    "list_all option_valid (take (unat (optcount m)) ?os)"
    using received_values [OF n(4)] received_valid [OF n(4)] unfolding os by auto
  have p: "length (payload_bytes m) = unat (payloadlen m)" if "payloadlen m \<noteq> 0"
    using m(1) that by (auto simp: message_ok_def word_neq_0_conv payload_bytes_def deref_def rd_block_def split: option.splits if_splits)
  show thesis
    using deserialize_message_back [OF m assms(2) zero(1,2)]
    by (rule that) (use zero n v p os(2) in
      \<open>auto simp: option_values_def used_options_def splice_at_def [of "token _"] payload_bytes_def\<close>)
qed

text \<open>
  C17: a CoAP message survives the wire.  What \<open>CoAPSerialize_Message\<close> writes for a sendable message is
  read by \<open>CoAPDeserialize_Message\<close>, with whatever follows in the receive buffer, as a message with the same
  header, token and payload, and with every option's value under its absolute number.  When there is
  no payload the byte behind the datagram must not be a payload marker.
\<close>

theorem coap_roundtrip:
  assumes "sendable m" and "length buf = length (message_bytes m)"
    and "payloadlen m = 0 \<Longrightarrow> \<exists>b bs. rest = b # bs \<and> b \<noteq> 0xFF"
  shows "\<exists>out r. CoAPSerialize_Message m (Some buf) (of_nat (length buf)) = Some (int (length out), Some out)
     \<and> CoAPDeserialize_Message zero_message (Some (out @ rest)) (int (length out)) = Some (COAP_SUCCESS, r)
     \<and> header r = header m
     \<and> take (unat (h_tokenlen (header m))) (token r) = take (unat (h_tokenlen (header m))) (token m)
     \<and> optcount r = optcount m \<and> option_values r = absolute 0 (used_options m)
     \<and> payloadlen r = payloadlen m
     \<and> (payloadlen m \<noteq> 0 \<longrightarrow> payload_bytes r = payload_bytes m)"
  using message_serialized_lemma [OF assms(1,2)] message_received [OF assms(1,3)] assms(2)
  by metis

theorem coap_roundtrip_witness:
  "\<exists>out r. CoAPSerialize_Message sample_coap (Some (replicate 19 0)) 19 = Some (int (length out), Some out)
     \<and> CoAPDeserialize_Message zero_message (Some out) (int (length out)) = Some (COAP_SUCCESS, r)
     \<and> header r = header sample_coap \<and> option_values r = [(11, str ''light''), (300, [50])] \<and> payload_bytes r = str ''on''"
proof -
  have "length (message_bytes sample_coap) = 19" "absolute 0 (used_options sample_coap) = [(11, str ''light''), (300, [50])]"
    "payload_bytes sample_coap = str ''on''" "payloadlen sample_coap \<noteq> 0"
    by (simp_all add: sample_coap_def message_bytes_def header_bytes_def option_bytes_def option_head_def opt_ext_def option_data_def
        payload_bytes_def used_options_def word_le_def)
  then show ?thesis
    using coap_roundtrip [OF sample_coap_sendable, of "replicate 19 0" "[]"] by auto
qed
text \<open>
  C20: three kinds of datagrams make \<open>CoAPDeserialize_Message\<close> write outside the arrays of the message.  A token
  length above 8 overruns the token array; 13 empty options overrun the option array; and one option of length
  65533, whose size of 65536 wraps to 0 in \<open>unsigned short len\<close>, is stored again and again until it does.
  The size of the datagram is not looked at in any of them.
\<close>

theorem malformed_datagrams_overrun:
  assumes "17 \<le> n" and "8 < unat (h_tokenlen h)" and "h_tokenlen g = 0"
  shows "CoAPDeserialize_Message zero_message (Some (header_bytes h @ bs)) n = None
     \<and> CoAPDeserialize_Message zero_message (Some (header_bytes g @ replicate 13 0 @ bs)) n = None
     \<and> CoAPDeserialize_Message zero_message (Some (header_bytes g @ [0x0E, 0xFE, 0xF0] @ bs)) n = None"
proof -
  have zero: "length (token zero_message) = 8" "length (options zero_message) = 12"
    by (simp_all add: zero_message_def)
  have len: "length (header_bytes x) = 4" for x by (simp add: header_bytes_def)
  have "CoAPDeserialize_Token (zero_message\<lparr>header := h\<rparr>) (header_bytes h @ bs) 4 = None"
    using assms(2) zero len by (simp add: CoAPDeserialize_Token_def Let_def rd_block_def wr_bytes_def)
  moreover have "CoAPDeserialize_Token (zero_message\<lparr>header := g\<rparr>) (header_bytes g @ xs) 4
      = Some (0, zero_message\<lparr>header := g\<rparr>)" for xs
    using assms(3) len by (simp add: CoAPDeserialize_Token_def)
  moreover have "CoAPDeserialize_Options (zero_message\<lparr>header := g\<rparr>) (header_bytes g @ replicate 13 0 @ bs) 4 (n - 4) = None"
    using option_flood [of "zero_message\<lparr>header := g, optcount := 0\<rparr>" 0 13 0 "n - 4" "header_bytes g" bs 0] zero len assms(1)
    by (simp add: CoAPDeserialize_Options_def)
  moreover have "CoAPDeserialize_Options (zero_message\<lparr>header := g\<rparr>) (header_bytes g @ [0x0E, 0xFE, 0xF0] @ bs) 4 (n - 4) = None"
    using option_standstill [of 0 "n - 4" 4 "header_bytes g @ [0x0E, 0xFE, 0xF0] @ bs" 0] assms(1) len
    by (simp add: CoAPDeserialize_Options_def CoAPDeserialize_Option_def read_ext_def nth_append rd8_def)
  ultimately show ?thesis
    using assms(1) deserialize_header_back [of zero_message h] deserialize_header_back [of zero_message g]
    by (simp add: CoAPDeserialize_Message_def)
qed

definition flood_header :: CoAPMsgHeader where
  "flood_header = \<lparr>h_version = 1, h_type = 0, h_tokenlen = 0, h_code = 1, h_msgid = 0x1234\<rparr>"

theorem malformed_datagrams_overrun_witness:
  "CoAPDeserialize_Message zero_message (Some (header_bytes flood_header @ replicate 13 0 @ [])) 17 = None"
  using malformed_datagrams_overrun [of 17 "flood_header\<lparr>h_tokenlen := 9\<rparr>" flood_header "[]"]
  by (simp add: flood_header_def)

end
