(* ===== verification/CoapContext.thy ===== *)
theory CoapContext
  imports Platform IdSource CoapPacket
begin

text \<open>
  The state of the CoAP server (\<open>CoAPIntContext\<close> of \<open>coap_server/server/CoAPInternal.h\<close>) and the parts of it
  that only keep books: \<open>CoAPNetwork.c\<close>, \<open>CoAPPlatform.c\<close>, and of \<open>CoAPMessage.c\<close> the message identifiers and the
  list of messages waiting for a response.

  An operation gives its result and the context afterwards, or \<open>None\<close> when C gives it no result: it does
  not return, or it reads or writes outside an object.  The nodes of the linked lists carry their address,
  by which other objects point to them.
\<close>

subsection \<open>Addresses and the network\<close>

definition NETWORK_ADDR_LEN :: nat where "NETWORK_ADDR_LEN = 16"

text \<open>The text of an address lies in an array of 16 bytes.\<close>

record NetworkAddr =
  addr :: "byte list"
  port :: u16

text \<open>
  What lies outside: \<open>HAL_UDP_recvfrom\<close> gives its result, the sender and the bytes of the datagram; \<open>HAL_UDP_sendto\<close>
  its result; \<open>HAL_Wifi_Get_IP\<close> the text of the own address, which stays empty when the query fails;
  \<open>HAL_UDP_create_without_connect\<close> the socket.
\<close>

record coap_environment = environment +
  env_recvfrom :: "nat \<Rightarrow> u32 \<Rightarrow> int \<times> (cstring \<times> u16) \<times> byte list"
  env_sendto :: "nat \<Rightarrow> NetworkAddr \<Rightarrow> byte list \<Rightarrow> int"
  env_local_ip :: "nat \<Rightarrow> cstring"
  env_udp_create :: "nat \<Rightarrow> u16 \<Rightarrow> int"

subsection \<open>The context\<close>

datatype path_type_t = PATH_NORMAL | PATH_FILTER

datatype CoAPReqResult = COAP_REQUEST_SUCCESS | COAP_RECV_RESP_TIMEOUT | COAP_RECV_RESP_SUC

record CoAPSendNode =
  sn_at :: nat
  sn_header :: CoAPMsgHeader
  retrans_count :: byte
  sn_token :: "byte list"
  sn_timeout :: u64
  timeout_val :: u16
  msglen :: u32
  sn_handler :: "nat option"
  sn_remote :: NetworkAddr
  sn_user :: "nat option"
  sn_message :: "byte list"
  acked :: bool
  sn_keep :: int

record CoAPResource =
  res_at :: nat
  permission :: u16
  callback :: "nat option"
  res_ctype :: u32
  maxage :: u32
  res_path :: "byte list"
  filter_path :: "cstring option"
  path_type :: path_type_t

text \<open>\<open>p_resource_of_interest\<close> is the address of the resource.\<close>

record CoapObserver =
  ob_remote :: NetworkAddr
  ob_token :: "byte list"
  ob_tokenlen :: byte
  ob_ctype :: byte
  p_resource_of_interest :: nat
  observer_sequence_num :: u32
  msg_type :: byte

record CoAPObservable =
  oc_remote :: NetworkAddr
  oc_token :: "byte list"
  oc_tokenlen :: byte
  oc_callback :: "nat option"
  max_age :: u32
  oc_userdata :: "nat option"

record 'n CoAPList =
  nodes :: "'n list"
  list_count :: byte
  maxcount :: byte

record CoAPIntContext = hal +
  n_recvfrom :: nat
  n_sendto :: nat
  n_local_ip :: nat
  n_udp_create :: nat
  token_value :: u32
  next_at :: nat
  datagrams :: "(NetworkAddr \<times> byte list) list"
  message_id :: u16
  p_network :: "int option"
  recvbuf :: "byte list"
  sendlist :: "CoAPSendNode CoAPList"
  obsserver :: "CoapObserver CoAPList"
  obsclient :: "CoAPObservable CoAPList"
  resource :: "CoAPResource CoAPList"
  waittime :: u32

text \<open>
  The functions of the application that the server calls back, by number: the handlers of responses, of
  requests, and the encryption of notifications, which gives a result and the data it made.
\<close>

record application =
  app_resp :: "nat \<Rightarrow> CoAPReqResult \<Rightarrow> nat option \<Rightarrow> NetworkAddr \<Rightarrow> CoAPMessage option \<Rightarrow> CoAPIntContext \<Rightarrow> CoAPIntContext option"
  app_recv :: "nat \<Rightarrow> cstring \<Rightarrow> NetworkAddr \<Rightarrow> CoAPMessage \<Rightarrow> CoAPIntContext \<Rightarrow> CoAPIntContext option"
  app_encrypt :: "nat \<Rightarrow> cstring \<Rightarrow> NetworkAddr \<Rightarrow> CoAPMessage \<Rightarrow> pointer \<times> int \<Rightarrow> CoAPIntContext \<Rightarrow> (int \<times> (pointer \<times> int) \<times> CoAPIntContext) option"

definition list_push :: "'n \<Rightarrow> 'n CoAPList \<Rightarrow> 'n CoAPList" where
  "list_push n l = l\<lparr>nodes := nodes l @ [n], list_count := list_count l + 1\<rparr>"

text \<open>Removing the first node that satisfies a condition, or all of them; the counter follows.\<close>

fun remove_first :: "('n \<Rightarrow> bool) \<Rightarrow> 'n list \<Rightarrow> 'n list" where
  "remove_first P [] = []"
| "remove_first P (n # ns) = (if P n then ns else n # remove_first P ns)"

definition list_drop_first :: "('n \<Rightarrow> bool) \<Rightarrow> 'n CoAPList \<Rightarrow> 'n CoAPList" where
  "list_drop_first P l = (if \<exists>n \<in> set (nodes l). P n
     then l\<lparr>nodes := remove_first P (nodes l), list_count := list_count l - 1\<rparr> else l)"

definition list_drop_all :: "('n \<Rightarrow> bool) \<Rightarrow> 'n CoAPList \<Rightarrow> 'n CoAPList" where
  "list_drop_all P l = l\<lparr>nodes := filter (\<lambda>n. \<not> P n) (nodes l),
     list_count := list_count l - of_nat (length (filter P (nodes l)))\<rparr>"

subsection \<open>Sending and receiving datagrams\<close>

definition CoAPNetwork_write ::
  "'e coap_environment_scheme \<Rightarrow> NetworkAddr \<Rightarrow> byte list \<Rightarrow> CoAPIntContext \<Rightarrow> int \<times> CoAPIntContext" where
  "CoAPNetwork_write E remote data c =
     (if p_network c = None then (-1, c)
      else let rc = env_sendto E (n_sendto c) remote data
           in (rc, c\<lparr>n_sendto := Suc (n_sendto c),
                     datagrams := datagrams c @ (if 0 < rc then [(remote, data)] else [])\<rparr>))"

definition no_addr :: NetworkAddr where
  "no_addr = \<lparr>addr = replicate NETWORK_ADDR_LEN 0, port = 0\<rparr>"

text \<open>The address and the buffer were zeroed by the caller; a read that fails leaves them so.\<close>

definition CoAPNetwork_read ::
  "'e coap_environment_scheme \<Rightarrow> u32 \<Rightarrow> CoAPIntContext \<Rightarrow> int \<times> NetworkAddr \<times> CoAPIntContext" where
  "CoAPNetwork_read E timeout c =
     (if p_network c = None then (-1, no_addr, c\<lparr>recvbuf := replicate COAP_MSG_MAX_PDU_LEN 0\<rparr>)
      else case env_recvfrom E (n_recvfrom c) timeout of (rc, (ip, p), bs) \<Rightarrow>
        if 0 < rc then
          (let bs = take COAP_MSG_MAX_PDU_LEN bs
           in (int (length bs), \<lparr>addr = take NETWORK_ADDR_LEN (ip @ replicate NETWORK_ADDR_LEN 0), port = p\<rparr>,
               c\<lparr>n_recvfrom := Suc (n_recvfrom c), recvbuf := bs @ replicate (COAP_MSG_MAX_PDU_LEN - length bs) 0\<rparr>))
        else (rc, no_addr, c\<lparr>n_recvfrom := Suc (n_recvfrom c), recvbuf := replicate COAP_MSG_MAX_PDU_LEN 0\<rparr>))"

subsection \<open>Addresses in dotted notation\<close>

definition isdigit :: "byte \<Rightarrow> bool" where "isdigit c \<longleftrightarrow> 0x30 \<le> c \<and> c \<le> 0x39"
definition islower :: "byte \<Rightarrow> bool" where "islower c \<longleftrightarrow> 0x61 \<le> c \<and> c \<le> 0x7A"
definition isxdigit :: "byte \<Rightarrow> bool" where
  "isxdigit c \<longleftrightarrow> isdigit c \<or> 0x61 \<le> c \<and> c \<le> 0x66 \<or> 0x41 \<le> c \<and> c \<le> 0x46"
definition isspace :: "byte \<Rightarrow> bool" where "isspace c \<longleftrightarrow> c = 0x20 \<or> 0x09 \<le> c \<and> c \<le> 0x0D"

fun aton_digits :: "u32 \<Rightarrow> u32 \<Rightarrow> byte list \<Rightarrow> (u32 \<times> byte list) option" where
  "aton_digits base val [] = None"
| "aton_digits base val (c # cs) =
     (if isdigit c then aton_digits base (val * base + (ucast c - 0x30)) cs
      else if base = 16 \<and> isxdigit c
      then aton_digits base (push_bit 4 val OR (ucast c + 10 - (if islower c then 0x61 else 0x41))) cs
      else Some (val, c # cs))"

text \<open>The base of a number: \<open>0x\<close> is 16, a leading zero 8.\<close>

definition aton_base :: "byte list \<Rightarrow> (u32 \<times> byte list) option" where
  "aton_base s = do {
     c \<leftarrow> rd8 s 0;
     if c = 0x30 then do {
       c \<leftarrow> rd8 s 1;
       Some (if c = 0x78 \<or> c = 0x58 then (16, drop 2 s) else (8, drop 1 s)) }
     else Some (10, s) }"

text \<open>\<open>Some None\<close> is the return of 0 from within the loop.\<close>

function aton_loop :: "u32 list \<Rightarrow> byte list \<Rightarrow> (u32 list \<times> u32 \<times> byte) option option" where
  "aton_loop parts s = do {
     c \<leftarrow> rd8 s 0;
     if \<not> isdigit c then Some None
     else do {
       (base, s) \<leftarrow> aton_base s;
       (val, s) \<leftarrow> aton_digits base 0 s;
       c \<leftarrow> rd8 s 0;
       if c = 0x2E then (if 3 \<le> length parts then Some None else aton_loop (parts @ [val]) (drop 1 s))
       else Some (Some (parts, val, c)) } }"
  by pat_completeness auto
termination by (relation "measure (\<lambda>(parts, s). 3 - length parts)") auto

declare aton_loop.simps [simp del]

definition platform_aton :: "byte list \<Rightarrow> u32 option" where
  "platform_aton ip_str = do {
     r \<leftarrow> aton_loop [] ip_str;
     Some (case r of
        None \<Rightarrow> 0
      | Some (parts, val, c) \<Rightarrow>
          if c \<noteq> 0 \<and> \<not> isspace c then 0
          else (case parts of
             [] \<Rightarrow> val
           | [a] \<Rightarrow> if 0xffffff < val then 0 else val OR push_bit 24 a
           | [a, b] \<Rightarrow> if 0xffff < val then 0 else val OR (push_bit 24 a OR push_bit 16 b)
           | [a, b, d] \<Rightarrow> if 0xff < val then 0 else val OR (push_bit 24 a OR push_bit 16 b OR push_bit 8 d)
           | _ \<Rightarrow> val)) }"

definition platform_is_multicast :: "byte list \<Rightarrow> bool option" where
  "platform_is_multicast ip_str = do {
     addr_in \<leftarrow> platform_aton ip_str;
     Some (0xE00000FF < addr_in \<and> addr_in \<le> 0xEFFFFFFF) }"

subsection \<open>Message identifiers\<close>

text \<open>The first argument of the code's conditional is the assignment \<open>ctx->message_id = 1\<close>.\<close>

definition CoAPMessageId_gen :: "CoAPIntContext \<Rightarrow> (u16 \<times> CoAPIntContext) option" where
  "CoAPMessageId_gen c = do {
     c \<leftarrow> HAL_MutexLock LockCoap c;
     let (msg_id, c) = (if message_id c = 65535 then (1, c\<lparr>message_id := 1\<rparr>)
                        else (message_id c, c\<lparr>message_id := message_id c + 1\<rparr>));
     c \<leftarrow> HAL_MutexUnlock LockCoap c;
     Some (msg_id, c) }"

subsection \<open>The list of messages waiting for a response\<close>

abbreviation (input) NOKEEP :: int where "NOKEEP \<equiv> 0"
abbreviation (input) KEEPING :: int where "KEEPING \<equiv> 1"
abbreviation (input) COAP_MAX_RETRY_COUNT :: byte where "COAP_MAX_RETRY_COUNT \<equiv> 8"
abbreviation (input) COAP_ACK_TIMEOUT :: u16 where "COAP_ACK_TIMEOUT \<equiv> 600"
abbreviation (input) COAP_ACK_RANDOM_FACTOR :: u16 where "COAP_ACK_RANDOM_FACTOR \<equiv> 1"

definition COAPAckMsg :: "CoAPMsgHeader \<Rightarrow> bool" where
  "COAPAckMsg h \<longleftrightarrow> h_code h = COAP_MSG_CODE_EMPTY_MESSAGE \<and> h_type h = COAP_MESSAGE_TYPE_ACK"
definition CoAPRespMsg :: "CoAPMsgHeader \<Rightarrow> bool" where
  "CoAPRespMsg h \<longleftrightarrow> 0x40 \<le> h_code h \<and> h_code h < 0xc0"
definition CoAPPingMsg :: "CoAPMsgHeader \<Rightarrow> bool" where
  "CoAPPingMsg h \<longleftrightarrow> h_code h = COAP_MSG_CODE_EMPTY_MESSAGE \<and> h_type h = COAP_MESSAGE_TYPE_CON"
definition CoAPResetMsg :: "CoAPMsgHeader \<Rightarrow> bool" where
  "CoAPResetMsg h \<longleftrightarrow> h_type h = COAP_MESSAGE_TYPE_RST"
definition CoAPCONRespMsg :: "CoAPMsgHeader \<Rightarrow> bool" where
  "CoAPCONRespMsg h \<longleftrightarrow> h_code h = COAP_MSG_CODE_205_CONTENT \<and> h_type h = COAP_MESSAGE_TYPE_CON"
definition CoAPReqMsg :: "CoAPMsgHeader \<Rightarrow> bool" where
  "CoAPReqMsg h \<longleftrightarrow> 1 \<le> h_code h \<and> h_code h < 32"

lemmas message_kind_defs = COAPAckMsg_def CoAPRespMsg_def CoAPPingMsg_def CoAPResetMsg_def CoAPCONRespMsg_def CoAPReqMsg_def

definition sizeof_CoAPSendNode :: int where "sizeof_CoAPSendNode = 80"

definition CoAPMessageList_add ::
  "'e coap_environment_scheme \<Rightarrow> NetworkAddr \<Rightarrow> CoAPMessage \<Rightarrow> byte list \<Rightarrow> u32 \<Rightarrow> CoAPIntContext
     \<Rightarrow> (int \<times> CoAPIntContext) option" where
  "CoAPMessageList_add E remote message buffer len c =
     (case HAL_Malloc E sizeof_CoAPSendNode c of (mem, c) \<Rightarrow>
      if \<not> mem then Some (COAP_ERROR_NULL, c)
      else do {
        multicast \<leftarrow> platform_is_multicast (addr remote);
        let tv = COAP_ACK_TIMEOUT * COAP_ACK_RANDOM_FACTOR;
        let (tick, c) = HAL_UptimeMs E c;
        tok \<leftarrow> deref (Some (token message)) (unat (h_tokenlen (header message)));
        tok \<leftarrow> wr_bytes (replicate COAP_MSG_MAX_TOKEN_LEN 0) 0 tok;
        let node = \<lparr>sn_at = next_at c, sn_header = header message,
              retrans_count = (if h_type (header message) = COAP_MESSAGE_TYPE_CON then COAP_MAX_RETRY_COUNT else 0),
              sn_token = tok,
              sn_timeout = (if h_type (header message) = COAP_MESSAGE_TYPE_CON then ucast tv + tick else ucast tv * 4 + tick),
              timeout_val = tv, msglen = len, sn_handler = handler message, sn_remote = remote, sn_user = user message,
              sn_message = buffer, acked = False, sn_keep = (if multicast \<or> keep message = 1 then KEEPING else NOKEEP)\<rparr>;
        c \<leftarrow> HAL_MutexLock LockSendList c;
        if maxcount (sendlist c) \<le> list_count (sendlist c) then do {
          c \<leftarrow> HAL_MutexUnlock LockSendList c;
          Some (COAP_ERROR_DATA_SIZE, c) }
        else do {
          let c = c\<lparr>sendlist := list_push node (sendlist c), next_at := Suc (next_at c)\<rparr>;
          c \<leftarrow> HAL_MutexUnlock LockSendList c;
          Some (COAP_SUCCESS, c) } })"

definition CoAPMessageId_cancel :: "u16 \<Rightarrow> CoAPIntContext \<Rightarrow> (int \<times> CoAPIntContext) option" where
  "CoAPMessageId_cancel msgid c = do {
     c \<leftarrow> HAL_MutexLock LockSendList c;
     let c = c\<lparr>sendlist := list_drop_all (\<lambda>node. h_msgid (sn_header node) = msgid) (sendlist c)\<rparr>;
     c \<leftarrow> HAL_MutexUnlock LockSendList c;
     Some (COAP_SUCCESS, c) }"

definition CoAPMessage_cancel :: "CoAPMessage \<Rightarrow> CoAPIntContext \<Rightarrow> (int \<times> CoAPIntContext) option" where
  "CoAPMessage_cancel message c = do {
     c \<leftarrow> HAL_MutexLock LockSendList c;
     let c = c\<lparr>sendlist := list_drop_all (\<lambda>node. h_msgid (sn_header node) = h_msgid (header message)) (sendlist c)\<rparr>;
     c \<leftarrow> HAL_MutexUnlock LockSendList c;
     Some (COAP_SUCCESS, c) }"

end
