(* ===== verification/InfraDigest.thy ===== *)
theory InfraDigest
  imports Prelude
begin

text \<open>
  What \<open>infra/infra_md5.c\<close>, \<open>infra_sha1.c\<close> and \<open>infra_sha256.c\<close> have in common.  Their contexts, their
  \<open>_update\<close> and the padding and counting of their \<open>_finish\<close> are the same text up to the function
  that compresses one block and the byte order of the length, which are parameters here; the
  theories of the three digests instantiate them.  The locale states what a digest has to provide,
  and its lemmas show that the streaming code computes the digest of everything it was fed.
\<close>

record digest_ctx =
  total0 :: u32
  total1 :: u32
  dstate :: "u32 list"
  dbuffer :: "byte list"

text \<open>\<open>memset(ctx, 0, ...)\<close> for a context of \<open>n\<close> state words.\<close>

definition zero_ctx :: "nat \<Rightarrow> digest_ctx" where
  "zero_ctx n = \<lparr>total0 = 0, total1 = 0, dstate = replicate n 0, dbuffer = replicate 64 0\<rparr>"

subsection \<open>The streaming code\<close>

function update_blocks ::
  "(u32 list \<Rightarrow> byte list \<Rightarrow> u32 list) \<Rightarrow> u32 list \<Rightarrow> byte list \<Rightarrow> nat \<Rightarrow> u32 \<Rightarrow> (u32 list \<times> nat \<times> u32) option" where
  "update_blocks process st input p ilen =
     (if 64 \<le> ilen then do {
        data \<leftarrow> rd_block input p 64;
        update_blocks process (process st data) input (p + 64) (ilen - 64) }
      else Some (st, p, ilen))"
  by pat_completeness auto
termination
  by (relation "measure (\<lambda>(process, st, input, p, ilen). unat ilen)") (auto simp: unat_sub word_le_nat_alt)

declare update_blocks.simps [simp del]

definition block_update ::
  "(u32 list \<Rightarrow> byte list \<Rightarrow> u32 list) \<Rightarrow> digest_ctx \<Rightarrow> byte list \<Rightarrow> u32 \<Rightarrow> digest_ctx option" where
  "block_update process ctx input ilen =
     (if ilen = 0 then Some ctx
      else do {
        let left = total0 ctx AND 0x3F;
        let fill = 64 - left;
        let t0 = total0 ctx + ilen;
        let ctx = ctx\<lparr>total0 := t0, total1 := (if t0 < ilen then total1 ctx + 1 else total1 ctx)\<rparr>;
        (ctx, p, ilen, left) \<leftarrow>
          (if left \<noteq> 0 \<and> fill \<le> ilen then do {
             bs \<leftarrow> rd_block input 0 (unat fill);
             buf \<leftarrow> wr_bytes (dbuffer ctx) (unat left) bs;
             Some (ctx\<lparr>dbuffer := buf, dstate := process (dstate ctx) buf\<rparr>, unat fill, ilen - fill, 0) }
           else Some (ctx, 0, ilen, left));
        (st, p, ilen) \<leftarrow> update_blocks process (dstate ctx) input p ilen;
        let ctx = ctx\<lparr>dstate := st\<rparr>;
        if 0 < ilen then do {
          bs \<leftarrow> rd_block input p (unat ilen);
          buf \<leftarrow> wr_bytes (dbuffer ctx) (unat left) bs;
          Some (ctx\<lparr>dbuffer := buf\<rparr>) }
        else Some ctx })"

definition digest_padding :: "byte list" where
  "digest_padding = 0x80 # replicate 63 0"

text \<open>\<open>put_len high low\<close> is the message length in bits in the byte order of the digest.\<close>

definition block_finish ::
  "(u32 list \<Rightarrow> byte list \<Rightarrow> u32 list) \<Rightarrow> (u32 \<Rightarrow> u32 \<Rightarrow> byte list) \<Rightarrow> digest_ctx \<Rightarrow> digest_ctx option" where
  "block_finish process put_len ctx = do {
     let high = drop_bit 29 (total0 ctx) OR push_bit 3 (total1 ctx);
     let low = push_bit 3 (total0 ctx);
     let msglen = put_len high low;
     let last = total0 ctx AND 0x3F;
     let padn = (if last < 56 then 56 - last else 120 - last);
     ctx \<leftarrow> block_update process ctx digest_padding padn;
     block_update process ctx msglen 8 }"

definition block_starts :: "u32 list \<Rightarrow> digest_ctx \<Rightarrow> digest_ctx" where
  "block_starts iv ctx = ctx\<lparr>total0 := 0, total1 := 0, dstate := iv\<rparr>"

text \<open>One call of a digest (\<open>utils_md5\<close> and the like): a fresh context, one update, the finish, the state
  written out.\<close>

definition block_digest_call ::
  "(u32 list \<Rightarrow> byte list \<Rightarrow> u32 list) \<Rightarrow> u32 list \<Rightarrow> (u32 \<Rightarrow> u32 \<Rightarrow> byte list) \<Rightarrow> (u32 list \<Rightarrow> byte list)
     \<Rightarrow> byte list \<Rightarrow> u32 \<Rightarrow> byte list option" where
  "block_digest_call process iv put_len put_state input ilen = do {
     let ctx = block_starts iv (zero_ctx (length iv));
     ctx \<leftarrow> block_update process ctx input ilen;
     ctx \<leftarrow> block_finish process put_len ctx;
     Some (put_state (dstate ctx)) }"

text \<open>
  The keyed digest (\<open>utils_hmac_md5\<close> and the like) for a key of at most 64 bytes.  A NULL pointer or a
  longer key makes the code return without touching the output, which is \<open>Some None\<close> here.
\<close>

definition block_hmac ::
  "(u32 list \<Rightarrow> byte list \<Rightarrow> u32 list) \<Rightarrow> u32 list \<Rightarrow> (u32 \<Rightarrow> u32 \<Rightarrow> byte list) \<Rightarrow> (u32 list \<Rightarrow> byte list)
     \<Rightarrow> byte list option \<Rightarrow> u32 \<Rightarrow> byte list option \<Rightarrow> u32 \<Rightarrow> byte list option option" where
  "block_hmac process iv put_len put_state msg msg_len key key_len =
     (case (msg, key) of
        (Some msg, Some key) \<Rightarrow>
          if 64 < key_len then Some None
          else do {
            k \<leftarrow> rd_block key 0 (unat key_len);
            let k_ipad = map (\<lambda>b. b XOR 0x36) (splice_at (replicate 64 0) 0 k);
            let k_opad = map (\<lambda>b. b XOR 0x5c) (splice_at (replicate 64 0) 0 k);
            ctx \<leftarrow> block_update process (block_starts iv (zero_ctx (length iv))) k_ipad 64;
            ctx \<leftarrow> block_update process ctx msg msg_len;
            ctx \<leftarrow> block_finish process put_len ctx;
            let inner = put_state (dstate ctx);
            ctx \<leftarrow> block_update process (block_starts iv (zero_ctx (length iv))) k_opad 64;
            ctx \<leftarrow> block_update process ctx inner (of_nat (length inner));
            ctx \<leftarrow> block_finish process put_len ctx;
            Some (Some (put_state (dstate ctx))) }
      | _ \<Rightarrow> Some None)"

subsection \<open>The digest of a message\<close>

text \<open>The reference: the blocks of the padded message are compressed one after the other.\<close>

function absorb :: "(u32 list \<Rightarrow> byte list \<Rightarrow> u32 list) \<Rightarrow> u32 list \<Rightarrow> byte list \<Rightarrow> u32 list" where
  "absorb process st m =
     (if length m < 64 then st else absorb process (process st (take 64 m)) (drop 64 m))"
  by pat_completeness auto
termination by (relation "measure (\<lambda>(process, st, m). length m)") auto

declare absorb.simps [simp del]

definition rest_of :: "byte list \<Rightarrow> byte list" where
  "rest_of m = drop (64 * (length m div 64)) m"

lemma length_rest_of [simp]: "length (rest_of m) = length m mod 64"
  by (simp add: rest_of_def minus_mult_div_eq_mod)

lemma absorb_short [simp]: "length m < 64 \<Longrightarrow> absorb process st m = st"
  by (simp add: absorb.simps)

lemma absorb_block: "length b = 64 \<Longrightarrow> absorb process st (b @ m) = absorb process (process st b) m"
  by (subst absorb.simps) simp

lemma absorb_rest: "absorb process st (m @ x) = absorb process (absorb process st m) (rest_of m @ x)"
proof (induction process st m rule: absorb.induct)
  case (1 process st m)
  show ?case
  proof (cases "length m < 64")
    case True
    then show ?thesis by (simp add: rest_of_def)
  next
    case False
    then have len: "length m div 64 = Suc (length (drop 64 m) div 64)"
      by (simp add: le_div_geq)
    then have r: "rest_of m = rest_of (drop 64 m)"
      by (simp add: rest_of_def add.commute)
    have "absorb process st (m @ x) = absorb process (process st (take 64 m)) (drop 64 m @ x)"
    proof -
      have "m @ x = take 64 m @ (drop 64 m @ x)" by (metis append.assoc append_take_drop_id)
      moreover have "length (take 64 m) = 64" using False by simp
      ultimately show ?thesis using absorb_block [of "take 64 m" process st "drop 64 m @ x"] by (simp only:)
    qed
    also have "\<dots> = absorb process (absorb process (process st (take 64 m)) (drop 64 m)) (rest_of (drop 64 m) @ x)"
      by (rule 1 [OF False])
    also have "absorb process (process st (take 64 m)) (drop 64 m) = absorb process st m"
      using False by (simp add: absorb.simps [of process st m])
    finally show ?thesis unfolding r .
  qed
qed

lemma rest_of_append: "rest_of (m @ x) = rest_of (rest_of m @ x)"
proof -
  let ?q = "length m div 64"
  have "length (m @ x) = length (rest_of m @ x) + ?q * 64"
    using mod_div_mult_eq [of "length m" 64] by simp
  then have "length (m @ x) div 64 = ?q + length (rest_of m @ x) div 64"
    by (simp only: div_mult_self1)
  moreover have "drop (64 * (?q + k)) (m @ x) = drop (64 * k) (rest_of m @ x)" for k
    by (simp add: rest_of_def algebra_simps)
  ultimately show ?thesis
    by (simp add: rest_of_def [of "m @ x"] rest_of_def [of "rest_of m @ x"] del: length_append)
qed

lemma rest_of_block: "length b = 64 \<Longrightarrow> rest_of (b @ y) = rest_of y"
  using rest_of_append [of b y] by (simp add: rest_of_def)

lemma update_blocks_eq:
  "p + unat ilen \<le> length input \<Longrightarrow>
     \<exists>q r. update_blocks process st input p ilen = Some (absorb process st (take (unat ilen) (drop p input)), q, r)
       \<and> unat r = unat ilen mod 64 \<and> q + unat r = p + unat ilen"
proof (induction process st input p ilen rule: update_blocks.induct)
  case (1 process st input p ilen)
  show ?case
  proof (cases "64 \<le> ilen")
    case True
    then have n: "64 \<le> unat ilen" "unat (ilen - 64) = unat ilen - 64"
      by (simp_all add: word_le_nat_alt unat_sub)
    let ?x = "take (unat ilen) (drop p input)"
    have x: "take 64 ?x = take 64 (drop p input)" "drop 64 ?x = take (unat ilen - 64) (drop (p + 64) input)"
      using n by (simp_all add: drop_take min_def add.commute)
    have "absorb process st ?x = absorb process (process st (take 64 (drop p input))) (take (unat ilen - 64) (drop (p + 64) input))"
      using 1(2) n by (subst absorb.simps) (simp add: x)
    moreover have "(unat ilen - 64) mod 64 = unat ilen mod 64" using n by (simp add: le_mod_geq [of 64 "unat ilen"])
    ultimately show ?thesis
      using 1(1) [OF True, of "take 64 (drop p input)"] 1(2) n True by (subst update_blocks.simps) (auto simp: add.assoc)
  next
    case False
    then have "unat ilen < 64" by (simp add: word_le_nat_alt)
    then show ?thesis using False 1(2) by (subst update_blocks.simps) simp
  qed
qed
subsection \<open>The streaming code computes the digest\<close>

text \<open>A context stands for the bytes it was fed: their number, the state after their full blocks, and the
  bytes behind those in the buffer.\<close>

definition represents ::
  "(u32 list \<Rightarrow> byte list \<Rightarrow> u32 list) \<Rightarrow> u32 list \<Rightarrow> digest_ctx \<Rightarrow> byte list \<Rightarrow> bool" where
  "represents process iv ctx m =
     (length (dbuffer ctx) = 64 \<and> unat (total0 ctx) + 2 ^ 32 * unat (total1 ctx) = length m
      \<and> dstate ctx = absorb process iv m \<and> take (length m mod 64) (dbuffer ctx) = rest_of m)"

lemma add_carry:
  fixes a b :: u32
  shows "unat (a + b) + 2 ^ 32 * (if a + b < b then 1 else 0) = unat a + unat b"
proof -
  have "unat (a + b) = (unat a + unat b) mod 2 ^ 32" by (simp add: unat_word_ariths)
  moreover have "unat a < 2 ^ 32" "unat b < 2 ^ 32" using unsigned_less [of a] unsigned_less [of b] by simp_all
  ultimately show ?thesis
    by (cases "unat a + unat b < 2 ^ 32") (auto simp: word_less_nat_alt mod_less le_mod_geq not_less)
qed

lemma low_six_bits: "unat (w AND 0x3F :: u32) = unat w mod 64"
proof -
  have "w AND 0x3F = take_bit 6 w" by (simp add: take_bit_eq_mask mask_eq_exp_minus_1)
  then show ?thesis by (simp add: take_bit_eq_mod unat_mod)
qed

text \<open>The loop over whole blocks and the bytes left behind them, once the buffer is empty.\<close>

lemma update_tail:
  assumes "p + unat ilen \<le> length input" and "length buf = 64"
  defines "y \<equiv> take (unat ilen) (drop p input)"
  obtains q r bs where "update_blocks process st input p ilen = Some (absorb process st y, q, r)"
    "rd_block input q (unat r) = Some bs" "bs = rest_of y" "unat r = length y mod 64"
    "r = 0 \<Longrightarrow> rest_of y = []" "r \<noteq> 0 \<Longrightarrow> wr_bytes buf 0 bs = Some (splice_at buf 0 bs)"
proof -
  obtain q r where u: "update_blocks process st input p ilen = Some (absorb process st y, q, r)"
    "unat r = unat ilen mod 64" "q + unat r = p + unat ilen"
    using update_blocks_eq [OF assms(1)] unfolding y_def by blast
  have y: "length y = unat ilen" using assms(1) by (simp add: y_def)
  have q: "q = p + 64 * (unat ilen div 64)" using u(2,3) mult_div_mod_eq [of 64 "unat ilen"] by linarith
  have "rest_of y = take (unat r) (drop q input)"
    using u(2) by (simp add: rest_of_def y q) (simp add: y_def drop_take u(2) add.commute minus_mult_div_eq_mod)
  moreover have "rd_block input q (unat r) = Some (take (unat r) (drop q input))"
    using u(3) assms(1) by simp
  moreover have "unat r < 64" using u(2) by simp
  ultimately show thesis
    using u y assms(2) length_rest_of [of y]
    by (intro that [of q r]) (auto simp: unat_eq_0 [symmetric] simp del: length_rest_of)
qed

abbreviation counted :: "digest_ctx \<Rightarrow> u32 \<Rightarrow> digest_ctx" where
  "counted ctx ilen \<equiv> ctx\<lparr>total0 := total0 ctx + ilen,
     total1 := (if total0 ctx + ilen < ilen then total1 ctx + 1 else total1 ctx)\<rparr>"

lemma block_update_fill:
  assumes "ilen \<noteq> 0" and "total0 ctx AND 0x3F = left" and "left \<noteq> 0" and "64 - left \<le> ilen"
    and "rd_block input 0 (unat (64 - left)) = Some bs" and "wr_bytes (dbuffer ctx) (unat left) bs = Some buf"
    and "update_blocks process (process (dstate ctx) buf) input (unat (64 - left)) (ilen - (64 - left)) = Some (st, q, r)"
    and "rd_block input q (unat r) = Some d" and "r \<noteq> 0 \<Longrightarrow> wr_bytes buf 0 d = Some buf2"
  shows "block_update process ctx input ilen
    = Some ((counted ctx ilen)\<lparr>dstate := st, dbuffer := (if r = 0 then buf else buf2)\<rparr>)"
  unfolding block_update_def Let_def assms(2) using assms(1,3-) by (auto simp: word_neq_0_conv)

lemma block_update_nofill:
  assumes "ilen \<noteq> 0" and "total0 ctx AND 0x3F = left" and "left = 0 \<or> \<not> 64 - left \<le> ilen"
    and "update_blocks process (dstate ctx) input 0 ilen = Some (st, q, r)"
    and "rd_block input q (unat r) = Some d" and "r \<noteq> 0 \<Longrightarrow> wr_bytes (dbuffer ctx) (unat left) d = Some buf2"
  shows "block_update process ctx input ilen
    = Some ((counted ctx ilen)\<lparr>dstate := st, dbuffer := (if r = 0 then dbuffer ctx else buf2)\<rparr>)"
  unfolding block_update_def Let_def assms(2) using assms(1,3-) by (auto simp: word_neq_0_conv)

lemma representsI:
  assumes "length b = 64" and "unat t0 + 2 ^ 32 * unat t1 = length m" and "absorb process iv m = s"
    and "rest_of m = rest_of y" and "take (length y mod 64) b = rest_of y"
  shows "represents process iv (ctx\<lparr>total0 := t0, total1 := t1, dstate := s, dbuffer := b\<rparr>) m"
proof -
  have "length m mod 64 = length y mod 64"
    using assms(4) length_rest_of [of m] length_rest_of [of y] by metis
  then show ?thesis using assms by (simp add: represents_def)
qed

lemma buffered_rest:
  assumes "length b = 64" and "d = rest_of y" and "unat (r :: u32) = length y mod 64"
  shows "length (if r = 0 then b else splice_at b 0 d) = 64"
    and "take (length y mod 64) (if r = 0 then b else splice_at b 0 d) = rest_of y"
proof -
  have "length d < 64" using assms(2) by simp
  moreover have "rest_of y = []" if "r = 0" using assms(3) that length_rest_of [of y] by (metis length_0_conv unat_0)
  ultimately show "length (if r = 0 then b else splice_at b 0 d) = 64"
    "take (length y mod 64) (if r = 0 then b else splice_at b 0 d) = rest_of y"
    using assms length_rest_of [of y] by (auto simp: splice_at_def)
qed

lemma block_update_represents:
  assumes rep: "represents process iv ctx m" and n: "unat ilen \<le> length input" and total: "length m + unat ilen < 2 ^ 64"
  obtains ctx' where "block_update process ctx input ilen = Some ctx'"
    "represents process iv ctx' (m @ take (unat ilen) input)"
proof (cases "ilen = 0")
  case True
  then show thesis using rep by (intro that [of ctx]) (simp_all add: block_update_def)
next
  case False
  let ?x = "take (unat ilen) input" and ?k = "length m mod 64"
  let ?t0 = "total0 ctx + ilen"
  let ?t1 = "if ?t0 < ilen then total1 ctx + 1 else total1 ctx"
  have ctx: "length (dbuffer ctx) = 64" "unat (total0 ctx) + 2 ^ 32 * unat (total1 ctx) = length m"
    "dstate ctx = absorb process iv m" "take ?k (dbuffer ctx) = rest_of m"
    using rep by (simp_all add: represents_def)
  have left: "unat (total0 ctx AND 0x3F) = ?k"
  proof -
    have "length m = unat (total0 ctx) + (67108864 * unat (total1 ctx)) * 64" using ctx(2) by simp
    then show ?thesis unfolding low_six_bits by (simp only: mod_mult_self1)
  qed
  have count: "unat ?t0 + 2 ^ 32 * unat ?t1 = length (m @ ?x)"
  proof -
    have "unat ?t0 + 2 ^ 32 * (if ?t0 < ilen then 1 else 0) = unat (total0 ctx) + unat ilen" by (rule add_carry)
    moreover have "unat ?t1 = unat (total1 ctx) + (if ?t0 < ilen then 1 else 0)"
    proof (cases "?t0 < ilen")
      case True
      then have "unat (total1 ctx) + 1 < 2 ^ 32"
        using add_carry [of "total0 ctx" ilen] ctx(2) total by simp
      then show ?thesis using True by (simp add: unat_word_ariths)
    qed simp
    ultimately show ?thesis using ctx(2) n by simp
  qed
  let ?c = "ctx\<lparr>total0 := ?t0, total1 := ?t1\<rparr>"
  let ?left = "total0 ctx AND 0x3F"
  have fill: "unat (64 - ?left) = 64 - ?k" "?left \<noteq> 0 \<longleftrightarrow> ?k \<noteq> 0"
    using left by (simp_all add: unat_sub word_le_nat_alt unat_eq_0 [symmetric])
  have mx: "absorb process iv (m @ ?x) = absorb process (dstate ctx) (rest_of m @ ?x)" "rest_of (m @ ?x) = rest_of (rest_of m @ ?x)"
    using absorb_rest [of process iv m ?x] rest_of_append [of m ?x] ctx(3) by simp_all
  consider "?k \<noteq> 0" "64 - ?k \<le> unat ilen" | "?k = 0" | "?k \<noteq> 0" "unat ilen < 64 - ?k" by linarith
  then show thesis
  proof cases
    case 1
    let ?bs = "take (64 - ?k) input"
    let ?buf = "splice_at (dbuffer ctx) ?k ?bs"
    let ?y = "take (unat ilen - (64 - ?k)) (drop (64 - ?k) input)"
    have bs: "length ?bs = 64 - ?k" using 1 n by simp
    have buf: "?buf = rest_of m @ ?bs" "length ?buf = 64"
      using ctx(1,4) bs by (simp_all add: splice_at_def)
    have x: "?x = ?bs @ ?y" using 1 by (metis append_take_drop_id drop_take le_add_diff_inverse min.absorb1 take_add take_take)
    have il: "unat (ilen - (64 - ?left)) = unat ilen - (64 - ?k)"
      using 1 fill by (simp add: unat_sub word_le_nat_alt)
    have len: "64 - ?k + unat (ilen - (64 - ?left)) \<le> length input" using il 1 n by simp
    obtain q r d where t: "update_blocks process (process (dstate ctx) ?buf) input (64 - ?k) (ilen - (64 - ?left))
          = Some (absorb process (process (dstate ctx) ?buf) ?y, q, r)"
      "rd_block input q (unat r) = Some d" "d = rest_of ?y" "unat r = length ?y mod 64"
      "r = 0 \<Longrightarrow> rest_of ?y = []" "r \<noteq> 0 \<Longrightarrow> wr_bytes ?buf 0 d = Some (splice_at ?buf 0 d)"
      using update_tail [OF len buf(2), of process "process (dstate ctx) ?buf"] unfolding il by metis
    let ?c' = "?c\<lparr>dstate := absorb process (process (dstate ctx) ?buf) ?y, dbuffer := (if r = 0 then ?buf else splice_at ?buf 0 d)\<rparr>"
    have "block_update process ctx input ilen = Some ?c'"
    proof (rule block_update_fill [OF False refl])
      show "?left \<noteq> 0" "64 - ?left \<le> ilen" using fill 1 by (simp_all add: word_le_nat_alt)
      show "rd_block input 0 (unat (64 - ?left)) = Some ?bs" using bs n 1 unfolding fill(1) by simp
      show "wr_bytes (dbuffer ctx) (unat ?left) ?bs = Some ?buf" using bs ctx(1) unfolding left by simp
      show "update_blocks process (process (dstate ctx) ?buf) input (unat (64 - ?left)) (ilen - (64 - ?left))
          = Some (absorb process (process (dstate ctx) ?buf) ?y, q, r)" using t(1) unfolding fill(1) .
      show "rd_block input q (unat r) = Some d" by (rule t(2))
      show "r \<noteq> 0 \<Longrightarrow> wr_bytes ?buf 0 d = Some (splice_at ?buf 0 d)" by (rule t(6))
    qed
    moreover have "represents process iv ?c' (m @ ?x)"
    proof -
      have "rest_of m @ ?x = ?buf @ ?y" using buf(1) x by simp
      then have "absorb process iv (m @ ?x) = absorb process (process (dstate ctx) ?buf) ?y" "rest_of (m @ ?x) = rest_of ?y"
        using mx absorb_block [OF buf(2)] rest_of_block [OF buf(2)] by metis+
      then show ?thesis
        by (rule representsI [OF buffered_rest(1) [OF buf(2) t(3,4)] count _ _ buffered_rest(2) [OF buf(2) t(3,4)]])
    qed
    ultimately show thesis by (rule that)
  next
    case 2
    have len: "0 + unat ilen \<le> length input" using n by simp
    obtain q r d where t: "update_blocks process (dstate ctx) input 0 ilen = Some (absorb process (dstate ctx) ?x, q, r)"
      "rd_block input q (unat r) = Some d" "d = rest_of ?x" "unat r = length ?x mod 64"
      "r = 0 \<Longrightarrow> rest_of ?x = []" "r \<noteq> 0 \<Longrightarrow> wr_bytes (dbuffer ctx) 0 d = Some (splice_at (dbuffer ctx) 0 d)"
      using update_tail [OF len ctx(1), of process "dstate ctx"] by (metis drop_0)
    let ?c' = "?c\<lparr>dstate := absorb process (dstate ctx) ?x, dbuffer := (if r = 0 then dbuffer ctx else splice_at (dbuffer ctx) 0 d)\<rparr>"
    have "block_update process ctx input ilen = Some ?c'"
    proof (rule block_update_nofill [OF False refl _ t(1,2)])
      show "?left = 0 \<or> \<not> 64 - ?left \<le> ilen" using fill(2) 2 by simp
      show "wr_bytes (dbuffer ctx) (unat ?left) d = Some (splice_at (dbuffer ctx) 0 d)" if "r \<noteq> 0"
        using t(6) that left 2 by simp
    qed
    moreover have "represents process iv ?c' (m @ ?x)"
    proof -
      have "rest_of m = []" using 2 length_rest_of [of m] by (metis length_0_conv)
      then have "absorb process iv (m @ ?x) = absorb process (dstate ctx) ?x" "rest_of (m @ ?x) = rest_of ?x"
        using mx by simp_all
      then show ?thesis
        by (rule representsI [OF buffered_rest(1) [OF ctx(1) t(3,4)] count _ _ buffered_rest(2) [OF ctx(1) t(3,4)]])
    qed
    ultimately show thesis by (rule that)
  next
    case 3
    have small: "unat ilen < 64" "length ?x = unat ilen" using 3 n by simp_all
    let ?c' = "?c\<lparr>dstate := dstate ctx, dbuffer := (if ilen = 0 then dbuffer ctx else splice_at (dbuffer ctx) ?k ?x)\<rparr>"
    have blocks: "update_blocks process (dstate ctx) input 0 ilen = Some (dstate ctx, 0, ilen)"
      using small by (subst update_blocks.simps) (simp add: word_le_nat_alt)
    have "block_update process ctx input ilen = Some ?c'"
    proof (rule block_update_nofill [OF False refl _ blocks])
      show "?left = 0 \<or> \<not> 64 - ?left \<le> ilen" using fill(1) 3 by (simp add: word_le_nat_alt)
      show "rd_block input 0 (unat ilen) = Some ?x" using n by simp
      show "wr_bytes (dbuffer ctx) (unat ?left) ?x = Some (splice_at (dbuffer ctx) ?k ?x)"
        using left 3 small ctx(1) by simp
    qed
    moreover have "represents process iv ?c' (m @ ?x)"
    proof -
      have l: "length (rest_of m @ ?x) < 64" using 3 small by simp
      then have "absorb process iv (m @ ?x) = dstate ctx" "rest_of (m @ ?x) = rest_of m @ ?x"
        using mx by (simp_all add: rest_of_def [of "rest_of m @ ?x"] del: length_append)
      moreover have "rest_of (rest_of m @ ?x) = rest_of m @ ?x" using l by (simp add: rest_of_def [of "rest_of m @ ?x"])
      moreover have "take (length (rest_of m @ ?x) mod 64) (splice_at (dbuffer ctx) ?k ?x) = rest_of m @ ?x"
        using l ctx(1,4) small(2) by (simp add: splice_at_def min_def)
      moreover have "length (splice_at (dbuffer ctx) ?k ?x) = 64" using ctx(1) 3 small by simp
      ultimately show ?thesis
        using False count representsI [of "splice_at (dbuffer ctx) ?k ?x" ?t0 ?t1 "m @ ?x" process iv "dstate ctx" "rest_of m @ ?x" ctx]
        by simp
    qed
    ultimately show thesis by (rule that)
  qed
qed
subsection \<open>Padding\<close>

definition pad_length :: "nat \<Rightarrow> nat" where
  "pad_length n = (if n mod 64 < 56 then 56 - n mod 64 else 120 - n mod 64)"

definition padded :: "(u32 \<Rightarrow> u32 \<Rightarrow> byte list) \<Rightarrow> byte list \<Rightarrow> byte list" where
  "padded put_len m = m @ take (pad_length (length m)) digest_padding
     @ put_len (of_nat (8 * length m div 2 ^ 32)) (of_nat (8 * length m))"

definition digest_of ::
  "(u32 list \<Rightarrow> byte list \<Rightarrow> u32 list) \<Rightarrow> u32 list \<Rightarrow> (u32 \<Rightarrow> u32 \<Rightarrow> byte list) \<Rightarrow> (u32 list \<Rightarrow> byte list)
     \<Rightarrow> byte list \<Rightarrow> byte list" where
  "digest_of process iv put_len put_state m = put_state (absorb process iv (padded put_len m))"

text \<open>RFC 2104, for a key of at most one block and a digest \<open>H\<close> with blocks of 64 bytes.\<close>

definition hmac_of :: "(byte list \<Rightarrow> byte list) \<Rightarrow> byte list \<Rightarrow> byte list \<Rightarrow> byte list" where
  "hmac_of H key m =
     (let k = key @ replicate (64 - length key) 0
      in H (map (\<lambda>b. b XOR 0x5c) k @ H (map (\<lambda>b. b XOR 0x36) k @ m)))"

lemma bit_length_words:
  fixes t0 t1 :: u32
  assumes "unat t0 + 2 ^ 32 * unat t1 = n"
  shows "push_bit 3 t0 = of_nat (8 * n)" and "drop_bit 29 t0 OR push_bit 3 t1 = of_nat (8 * n div 2 ^ 32)"
proof -
  have "(34359738368 :: u32) = 0" by (simp add: word_uint_eq_iff)
  then have "34359738368 * t1 = 0" by (simp only: mult_zero_left)
  then have "(of_nat (8 * n) :: u32) = 8 * t0"
    unfolding assms [symmetric] by (simp add: distrib_left)
  then show "push_bit 3 t0 = of_nat (8 * n)" by (simp add: push_bit_eq_mult)
  have "drop_bit 29 t0 OR push_bit 3 t1 = drop_bit 29 t0 + push_bit 3 t1"
    by (rule disjunctive_add [symmetric]) (auto simp: bit_simps dest: bit_imp_le_length)
  moreover have "8 * n div 2 ^ 32 = unat t0 div 2 ^ 29 + 8 * unat t1"
    unfolding assms [symmetric] by simp
  moreover have "of_nat (unat t0 div 2 ^ 29) = drop_bit 29 t0"
  proof -
    have "unat t0 div 2 ^ 29 = unat (drop_bit 29 t0)" by (simp add: drop_bit_eq_div unat_div)
    then show ?thesis by (simp only: of_nat_unat ucast_id)
  qed
  ultimately show "drop_bit 29 t0 OR push_bit 3 t1 = of_nat (8 * n div 2 ^ 32)"
    by (simp add: push_bit_eq_mult)
qed

lemma represents_start: "represents process iv (block_starts iv (zero_ctx k)) []"
  by (simp add: represents_def block_starts_def zero_ctx_def rest_of_def)

lemma length_padded:
  assumes "\<And>h l. length (put_len h l) = 8"
  shows "length (padded put_len m) mod 64 = 0" and "length (padded put_len m) \<le> length m + 72"
    and "pad_length (length m) \<le> 64"
proof -
  let ?r = "length m mod 64"
  show p: "pad_length (length m) \<le> 64" by (auto simp: pad_length_def)
  then have l: "length (padded put_len m) = length m + pad_length (length m) + 8"
    using assms by (simp add: padded_def digest_padding_def)
  have r: "?r < 64" by simp
  have "(length m + pad_length (length m) + 8) mod 64 = (?r + pad_length (length m) + 8) mod 64"
    by (simp only: add.assoc mod_add_left_eq)
  also have "\<dots> = 0" using r by (auto simp: pad_length_def)
  finally show "length (padded put_len m) mod 64 = 0" unfolding l .
  show "length (padded put_len m) \<le> length m + 72" using l p by simp
qed
subsection \<open>The contract of a digest\<close>

text \<open>A client that hands over its message piece by piece.\<close>

fun feed ::
  "(digest_ctx \<Rightarrow> byte list \<Rightarrow> u32 \<Rightarrow> digest_ctx option) \<Rightarrow> digest_ctx \<Rightarrow> byte list list \<Rightarrow> digest_ctx option" where
  "feed upd ctx [] = Some ctx"
| "feed upd ctx (c # cs) = do { ctx \<leftarrow> upd ctx c (of_nat (length c)); feed upd ctx cs }"

locale block_digest =
  fixes process :: "u32 list \<Rightarrow> byte list \<Rightarrow> u32 list" and iv :: "u32 list"
    and put_len :: "u32 \<Rightarrow> u32 \<Rightarrow> byte list" and put_state :: "u32 list \<Rightarrow> byte list" and size :: nat
  assumes process_length: "length st = length iv \<Longrightarrow> length (process st data) = length iv"
    and put_len_length: "length (put_len h l) = 8"
    and put_state_length: "length st = length iv \<Longrightarrow> length (put_state st) = size"
    and size_small: "size \<le> 64"
begin

lemma absorb_length: "length st = length iv \<Longrightarrow> length (absorb process st m) = length iv"
proof (induction "length m" arbitrary: st m rule: less_induct)
  case less
  show ?case
  proof (cases "length m < 64")
    case False
    then show ?thesis
      using less.hyps [of "drop 64 m" "process st (take 64 m)"] process_length [OF less.prems]
      by (simp add: absorb.simps [of process st m])
  qed (simp add: less.prems)
qed

lemma digest_size: "length (digest_of process iv put_len put_state m) = size"
  unfolding digest_of_def by (rule put_state_length [OF absorb_length [OF refl]])

lemma finish_digest:
  assumes "represents process iv ctx m" and "length m < 2 ^ 63"
  obtains ctx' where "block_finish process put_len ctx = Some ctx'"
    "put_state (dstate ctx') = digest_of process iv put_len put_state m"
proof -
  have n: "unat (total0 ctx) + 2 ^ 32 * unat (total1 ctx) = length m"
    using assms(1) by (simp add: represents_def)
  let ?len = "put_len (of_nat (8 * length m div 2 ^ 32)) (of_nat (8 * length m))"
  let ?last = "total0 ctx AND 0x3F"
  let ?padn = "if ?last < 56 then 56 - ?last else 120 - ?last"
  have "length m = unat (total0 ctx) + (67108864 * unat (total1 ctx)) * 64" using n by simp
  then have last: "unat ?last = length m mod 64" unfolding low_six_bits by (simp only: mod_mult_self1)
  have padn: "unat ?padn = pad_length (length m)"
    using last by (auto simp: pad_length_def word_less_nat_alt unat_sub word_le_nat_alt)
  have pl: "pad_length (length m) \<le> 64" by (rule length_padded(3) [where put_len = put_len]) (rule put_len_length)
  obtain c1 where c1: "block_update process ctx digest_padding ?padn = Some c1"
    "represents process iv c1 (m @ take (pad_length (length m)) digest_padding)"
    using block_update_represents [OF assms(1), of ?padn digest_padding] padn pl assms(2)
    by (auto simp: digest_padding_def)
  obtain c2 where c2: "block_update process c1 ?len 8 = Some c2" "represents process iv c2 (padded put_len m)"
    using block_update_represents [OF c1(2), of 8 ?len] pl assms(2)
    by (auto simp: put_len_length padded_def digest_padding_def)
  have "block_finish process put_len ctx = Some c2"
    using c1(1) c2(1) unfolding block_finish_def Let_def bit_length_words [OF n] by simp
  moreover have "dstate c2 = absorb process iv (padded put_len m)"
    using c2(2) by (simp add: represents_def)
  ultimately show thesis by (intro that [of c2]) (simp_all add: digest_of_def)
qed

lemma updates_represent:
  assumes "represents process iv ctx m" and "\<forall>c \<in> set cs. length c < 2 ^ 32" and "length m + length (concat cs) < 2 ^ 64"
  obtains ctx' where "feed (block_update process) ctx cs = Some ctx'" "represents process iv ctx' (m @ concat cs)"
  using assms
proof (induction cs arbitrary: ctx m thesis)
  case Nil
  then show ?case by simp
next
  case (Cons c cs)
  have n: "unat (of_nat (length c) :: u32) = length c"
    using Cons.prems(3) by (simp add: unsigned_of_nat take_bit_nat_eq_self)
  obtain c1 where c1: "block_update process ctx c (of_nat (length c)) = Some c1" "represents process iv c1 (m @ c)"
    using block_update_represents [OF Cons.prems(2), of "of_nat (length c)" c] n Cons.prems(4) by auto
  show ?case
    by (rule Cons.IH [OF _ c1(2)]) (use Cons.prems c1(1) in auto)
qed

lemma chunks_digest:
  assumes "\<forall>c \<in> set cs. length c < 2 ^ 32" and "length (concat cs) < 2 ^ 63"
  shows "\<exists>ctx ctx'. feed (block_update process) (block_starts iv (zero_ctx k)) cs = Some ctx
     \<and> block_finish process put_len ctx = Some ctx'
     \<and> put_state (dstate ctx') = digest_of process iv put_len put_state (concat cs)"
proof -
  obtain ctx where "feed (block_update process) (block_starts iv (zero_ctx k)) cs = Some ctx" "represents process iv ctx (concat cs)"
    using updates_represent [OF represents_start, of cs] assms by auto
  then show ?thesis using finish_digest [of ctx "concat cs"] assms(2) by metis
qed

lemma call_digest:
  assumes "unat ilen \<le> length input"
  shows "block_digest_call process iv put_len put_state input ilen
    = Some (digest_of process iv put_len put_state (take (unat ilen) input))"
proof -
  have l: "unat ilen < 2 ^ 32" using unsigned_less [of ilen] by simp
  obtain c1 where c1: "block_update process (block_starts iv (zero_ctx (length iv))) input ilen = Some c1"
    "represents process iv c1 (take (unat ilen) input)"
    using block_update_represents [OF represents_start [of process iv "length iv"] assms] l by auto
  have "length (take (unat ilen) input) < 2 ^ 63" using l by (simp add: min_less_iff_disj)
  then obtain c2 where "block_finish process put_len c1 = Some c2"
    "put_state (dstate c2) = digest_of process iv put_len put_state (take (unat ilen) input)"
    using finish_digest [OF c1(2)] by metis
  then show ?thesis using c1(1) by (simp add: block_digest_call_def)
qed

lemma two_updates:
  assumes "unat na = length a" and "unat nb \<le> length b" and "length a + unat nb < 2 ^ 63"
  obtains c1 c2 c3 where "block_update process (block_starts iv (zero_ctx (length iv))) a na = Some c1"
    "block_update process c1 b nb = Some c2" "block_finish process put_len c2 = Some c3"
    "put_state (dstate c3) = digest_of process iv put_len put_state (a @ take (unat nb) b)"
proof -
  obtain c1 where c1: "block_update process (block_starts iv (zero_ctx (length iv))) a na = Some c1" "represents process iv c1 a"
    using block_update_represents [OF represents_start [of process iv "length iv"], of na a] assms by auto
  obtain c2 where c2: "block_update process c1 b nb = Some c2" "represents process iv c2 (a @ take (unat nb) b)"
    using block_update_represents [OF c1(2) assms(2)] assms(3) by auto
  show thesis
    using finish_digest [OF c2(2)] assms c1(1) c2(1) that by (metis length_append length_take min.absorb2)
qed

lemma hmac_digest:
  assumes "unat key_len \<le> 64" and "unat key_len \<le> length key" and "unat msg_len \<le> length msg"
  shows "block_hmac process iv put_len put_state (Some msg) msg_len (Some key) key_len
    = Some (Some (hmac_of (digest_of process iv put_len put_state) (take (unat key_len) key) (take (unat msg_len) msg)))"
proof -
  let ?H = "digest_of process iv put_len put_state"
  let ?k = "splice_at (replicate 64 0) 0 (take (unat key_len) key)"
  let ?i = "map (\<lambda>b. b XOR 0x36) ?k" and ?o = "map (\<lambda>b. b XOR 0x5c) ?k"
  have k: "?k = take (unat key_len) key @ replicate (64 - unat key_len) 0" "length ?k = 64"
    using assms(1,2) by (simp_all add: splice_at_def)
  have m: "unat msg_len < 2 ^ 32" using unsigned_less [of msg_len] by simp
  let ?inner = "?H (?i @ take (unat msg_len) msg)"
  have s: "unat (of_nat size :: u32) = size" using size_small by (simp add: unsigned_of_nat take_bit_nat_eq_self)
  obtain c1 c2 c3 where c: "block_update process (block_starts iv (zero_ctx (length iv))) ?i 64 = Some c1"
    "block_update process c1 msg msg_len = Some c2" "block_finish process put_len c2 = Some c3"
    "put_state (dstate c3) = ?inner"
    using two_updates [of 64 ?i msg_len msg] k(2) assms(3) m by auto
  obtain d1 d2 d3 where d: "block_update process (block_starts iv (zero_ctx (length iv))) ?o 64 = Some d1"
    "block_update process d1 ?inner (of_nat size) = Some d2" "block_finish process put_len d2 = Some d3"
    "put_state (dstate d3) = ?H (?o @ ?inner)"
    using two_updates [of 64 ?o "of_nat size" ?inner] k(2) s digest_size [of "?i @ take (unat msg_len) msg"] size_small by auto
  have "hmac_of ?H (take (unat key_len) key) (take (unat msg_len) msg) = ?H (?o @ ?inner)"
    using assms(2) by (simp add: hmac_of_def Let_def k(1) min_def)
  moreover have "\<not> 64 < key_len" using assms(1) by (simp add: word_less_nat_alt)
  ultimately show ?thesis
    using c d assms(2) digest_size [of "?i @ take (unat msg_len) msg"]
    by (simp add: block_hmac_def Let_def)
qed

end

end
