(* ===== verification/InfraMd5.thy ===== *)
theory InfraMd5
  imports InfraDigest
begin

text \<open>
  \<open>infra/infra_md5.c\<close>: MD5 and its keyed form, as an instance of the streaming digest.  The 64 uses of
  the macro \<open>P\<close> in \<open>utils_md5_process\<close> are four tables of their block index, shift and constant; the
  registers change places from one use to the next.
\<close>

subsection \<open>Compression\<close>

definition get_u32_le :: "byte list \<Rightarrow> nat \<Rightarrow> u32" where
  "get_u32_le b i = ucast (b ! i) OR push_bit 8 (ucast (b ! (i + 1)))
     OR push_bit 16 (ucast (b ! (i + 2))) OR push_bit 24 (ucast (b ! (i + 3)))"

definition put_u32_le :: "u32 \<Rightarrow> byte list" where
  "put_u32_le n = [ucast (n AND 0xFF), ucast (drop_bit 8 n AND 0xFF), ucast (drop_bit 16 n AND 0xFF),
     ucast (drop_bit 24 n AND 0xFF)]"

definition md5_iv :: "u32 list" where
  "md5_iv = [0x67452301, 0xEFCDAB89, 0x98BADCFE, 0x10325476]"

definition md5_S :: "u32 \<Rightarrow> nat \<Rightarrow> u32" where
  "md5_S x n = push_bit n x OR drop_bit (32 - n) (x AND 0xFFFFFFFF)"

type_synonym md5_regs = "u32 \<times> u32 \<times> u32 \<times> u32"

text \<open>\<open>P(a, b, c, d, k, s, t)\<close>, followed by the exchange of the registers.\<close>

fun md5_P :: "(u32 \<Rightarrow> u32 \<Rightarrow> u32 \<Rightarrow> u32) \<Rightarrow> u32 list \<Rightarrow> md5_regs \<Rightarrow> nat \<times> nat \<times> u32 \<Rightarrow> md5_regs" where
  "md5_P F X (a, b, c, d) (k, s, t) =
     (let a = a + (F b c d + X ! k + t);
          a = md5_S a s + b
      in (d, a, b, c))"

definition md5_F1 :: "u32 \<Rightarrow> u32 \<Rightarrow> u32 \<Rightarrow> u32" where "md5_F1 x y z = z XOR (x AND (y XOR z))"
definition md5_F2 :: "u32 \<Rightarrow> u32 \<Rightarrow> u32 \<Rightarrow> u32" where "md5_F2 x y z = y XOR (z AND (x XOR y))"
definition md5_F3 :: "u32 \<Rightarrow> u32 \<Rightarrow> u32 \<Rightarrow> u32" where "md5_F3 x y z = x XOR y XOR z"
definition md5_F4 :: "u32 \<Rightarrow> u32 \<Rightarrow> u32 \<Rightarrow> u32" where "md5_F4 x y z = y XOR (x OR NOT z)"

definition md5_round1 :: "(nat \<times> nat \<times> u32) list" where
  "md5_round1 = [
    (0, 7, 0xD76AA478), (1, 12, 0xE8C7B756), (2, 17, 0x242070DB), (3, 22, 0xC1BDCEEE),
    (4, 7, 0xF57C0FAF), (5, 12, 0x4787C62A), (6, 17, 0xA8304613), (7, 22, 0xFD469501),
    (8, 7, 0x698098D8), (9, 12, 0x8B44F7AF), (10, 17, 0xFFFF5BB1), (11, 22, 0x895CD7BE),
    (12, 7, 0x6B901122), (13, 12, 0xFD987193), (14, 17, 0xA679438E), (15, 22, 0x49B40821)]"

definition md5_round2 :: "(nat \<times> nat \<times> u32) list" where
  "md5_round2 = [
    (1, 5, 0xF61E2562), (6, 9, 0xC040B340), (11, 14, 0x265E5A51), (0, 20, 0xE9B6C7AA),
    (5, 5, 0xD62F105D), (10, 9, 0x02441453), (15, 14, 0xD8A1E681), (4, 20, 0xE7D3FBC8),
    (9, 5, 0x21E1CDE6), (14, 9, 0xC33707D6), (3, 14, 0xF4D50D87), (8, 20, 0x455A14ED),
    (13, 5, 0xA9E3E905), (2, 9, 0xFCEFA3F8), (7, 14, 0x676F02D9), (12, 20, 0x8D2A4C8A)]"

definition md5_round3 :: "(nat \<times> nat \<times> u32) list" where
  "md5_round3 = [
    (5, 4, 0xFFFA3942), (8, 11, 0x8771F681), (11, 16, 0x6D9D6122), (14, 23, 0xFDE5380C),
    (1, 4, 0xA4BEEA44), (4, 11, 0x4BDECFA9), (7, 16, 0xF6BB4B60), (10, 23, 0xBEBFBC70),
    (13, 4, 0x289B7EC6), (0, 11, 0xEAA127FA), (3, 16, 0xD4EF3085), (6, 23, 0x04881D05),
    (9, 4, 0xD9D4D039), (12, 11, 0xE6DB99E5), (15, 16, 0x1FA27CF8), (2, 23, 0xC4AC5665)]"

definition md5_round4 :: "(nat \<times> nat \<times> u32) list" where
  "md5_round4 = [
    (0, 6, 0xF4292244), (7, 10, 0x432AFF97), (14, 15, 0xAB9423A7), (5, 21, 0xFC93A039),
    (12, 6, 0x655B59C3), (3, 10, 0x8F0CCC92), (10, 15, 0xFFEFF47D), (1, 21, 0x85845DD1),
    (8, 6, 0x6FA87E4F), (15, 10, 0xFE2CE6E0), (6, 15, 0xA3014314), (13, 21, 0x4E0811A1),
    (4, 6, 0xF7537E82), (11, 10, 0xBD3AF235), (2, 15, 0x2AD7D2BB), (9, 21, 0xEB86D391)]"

definition md5_rounds :: "u32 list \<Rightarrow> md5_regs \<Rightarrow> md5_regs" where
  "md5_rounds X regs = foldl (md5_P md5_F4 X) (foldl (md5_P md5_F3 X) (foldl (md5_P md5_F2 X)
     (foldl (md5_P md5_F1 X) regs md5_round1) md5_round2) md5_round3) md5_round4"

definition utils_md5_process :: "u32 list \<Rightarrow> byte list \<Rightarrow> u32 list" where
  "utils_md5_process state data =
     (let X = map (\<lambda>i. get_u32_le data (4 * i)) [0..<16];
          (A, B, C, D) = md5_rounds X (state ! 0, state ! 1, state ! 2, state ! 3)
      in [state ! 0 + A, state ! 1 + B, state ! 2 + C, state ! 3 + D])"

subsection \<open>Operations\<close>

definition md5_put_len :: "u32 \<Rightarrow> u32 \<Rightarrow> byte list" where
  "md5_put_len high low = put_u32_le low @ put_u32_le high"

definition md5_put_state :: "u32 list \<Rightarrow> byte list" where
  "md5_put_state state = put_u32_le (state ! 0) @ put_u32_le (state ! 1) @ put_u32_le (state ! 2) @ put_u32_le (state ! 3)"

definition utils_md5_init :: digest_ctx where
  "utils_md5_init = zero_ctx (length md5_iv)"

definition utils_md5_starts :: "digest_ctx \<Rightarrow> digest_ctx" where
  "utils_md5_starts = block_starts md5_iv"

definition utils_md5_update :: "digest_ctx \<Rightarrow> byte list \<Rightarrow> u32 \<Rightarrow> digest_ctx option" where
  "utils_md5_update = block_update utils_md5_process"

definition utils_md5_finish :: "digest_ctx \<Rightarrow> (digest_ctx \<times> byte list) option" where
  "utils_md5_finish ctx = do {
     ctx \<leftarrow> block_finish utils_md5_process md5_put_len ctx;
     Some (ctx, md5_put_state (dstate ctx)) }"

definition utils_md5 :: "byte list \<Rightarrow> u32 \<Rightarrow> byte list option" where
  "utils_md5 = block_digest_call utils_md5_process md5_iv md5_put_len md5_put_state"

definition utils_hb2hex :: "byte \<Rightarrow> byte" where
  "utils_hb2hex hb = (let hb = hb AND 0xF in if hb < 10 then 0x30 + hb else hb - 10 + 0x61)"

definition hex_digits :: "byte list \<Rightarrow> byte list" where
  "hex_digits out = concat (map (\<lambda>b. [utils_hb2hex (drop_bit 4 b), utils_hb2hex b]) out)"

text \<open>The lengths are signed here; a negative key length would copy far more than the key.\<close>

definition utils_hmac_md5 :: "byte list option \<Rightarrow> int \<Rightarrow> byte list option \<Rightarrow> int \<Rightarrow> byte list option option" where
  "utils_hmac_md5 msg msg_len key key_len =
     (if msg = None \<or> key = None \<or> 64 < key_len then Some None
      else if key_len < 0 then None
      else do {
        r \<leftarrow> block_hmac utils_md5_process md5_iv md5_put_len md5_put_state msg (word_of_int msg_len) key (word_of_int key_len);
        Some (map_option hex_digits r) })"

subsection \<open>The contract\<close>

interpretation md5: block_digest utils_md5_process md5_iv md5_put_len md5_put_state 16
  by unfold_locales
    (simp_all add: utils_md5_process_def md5_iv_def md5_put_len_def md5_put_state_def put_u32_le_def split: prod.split)

abbreviation MD5 :: "byte list \<Rightarrow> byte list" where
  "MD5 \<equiv> digest_of utils_md5_process md5_iv md5_put_len md5_put_state"

lemma utils_md5_digest: "unat ilen \<le> length input \<Longrightarrow> utils_md5 input ilen = Some (MD5 (take (unat ilen) input))"
  unfolding utils_md5_def by (rule md5.call_digest)

lemma length_hex_digits [simp]: "length (hex_digits bs) = 2 * length bs"
  by (induction bs) (simp_all add: hex_digits_def)
text \<open>The test vector of RFC 1321.\<close>

lemma utils_md5_abc:
  "utils_md5 (str ''abc'') 3
     = Some [0x90, 0x01, 0x50, 0x98, 0x3c, 0xd2, 0x4f, 0xb0, 0xd6, 0x96, 0x3f, 0x7d, 0x28, 0xe1, 0x7f, 0x72]"
  by code_simp

lemma md5_abc:
  "MD5 (str ''abc'') = [0x90, 0x01, 0x50, 0x98, 0x3c, 0xd2, 0x4f, 0xb0, 0xd6, 0x96, 0x3f, 0x7d, 0x28, 0xe1, 0x7f, 0x72]"
  using utils_md5_digest [of 3 "str ''abc''"] utils_md5_abc by simp

end
