(* ===== verification/CoapResource.thy ===== *)
theory CoapResource
  imports CoapContext InfraMd5
begin

text \<open>
  The resources of the CoAP server, \<open>coap_server/server/CoAPResource.c\<close>.  A resource is known by the first five bytes
  of the MD5 digest of its path, or, when its path has a \<open>/#\<close>, by the path as a filter.  A path is the
  array it lies in, so that a missing zero byte shows; \<open>CoAPResource_register\<close> also writes to it.
\<close>

definition COAP_PATH_DEFAULT_SUM_LEN :: nat where "COAP_PATH_DEFAULT_SUM_LEN = 5"

definition CoAPPathMD5_sum :: "byte list \<Rightarrow> u32 \<Rightarrow> byte list \<Rightarrow> nat \<Rightarrow> (int \<times> byte list) option" where
  "CoAPPathMD5_sum path len outbuf outlen =
     (if len = 0 \<or> outlen = 0 then Some (-1, outbuf)
      else do {
        md5 \<leftarrow> utils_md5 path len;
        outbuf \<leftarrow> wr_bytes outbuf 0 (take (min outlen 16) md5);
        Some (0, outbuf) })"

text \<open>The array on the stack starts as zeros.\<close>

definition path_sum :: "byte list \<Rightarrow> byte list option" where
  "path_sum path = do {
     n \<leftarrow> strlen_at path 0;
     (rc, path_calc) \<leftarrow> CoAPPathMD5_sum path (of_nat n) (replicate COAP_PATH_DEFAULT_SUM_LEN 0) COAP_PATH_DEFAULT_SUM_LEN;
     Some path_calc }"

definition CoAPResource_init :: "'e coap_environment_scheme \<Rightarrow> byte \<Rightarrow> CoAPIntContext \<Rightarrow> (int \<times> CoAPIntContext) option" where
  "CoAPResource_init E res_maxcount c =
     (case HAL_MutexCreate E c of (created, c) \<Rightarrow>
        if \<not> created then None
        else do {
          c \<leftarrow> HAL_MutexLock LockResource c;
          let c = c\<lparr>resource := \<lparr>nodes = [], list_count = 0, maxcount = res_maxcount\<rparr>\<rparr>;
          c \<leftarrow> HAL_MutexUnlock LockResource c;
          Some (COAP_SUCCESS, c) })"

definition CoAPResource_deinit :: "CoAPIntContext \<Rightarrow> (int \<times> CoAPIntContext) option" where
  "CoAPResource_deinit c = do {
     c \<leftarrow> HAL_MutexLock LockResource c;
     let c = c\<lparr>resource := \<lparr>nodes = [], list_count = 0, maxcount = 0\<rparr>\<rparr>;
     c \<leftarrow> HAL_MutexUnlock LockResource c;
     Some (COAP_SUCCESS, c) }"

definition sizeof_CoAPResource :: int where "sizeof_CoAPResource = 40"

text \<open>Without memory, or with a path of 128 bytes or more, there is no resource.\<close>

definition CoAPResource_create ::
  "'e coap_environment_scheme \<Rightarrow> byte list \<Rightarrow> path_type_t \<Rightarrow> u16 \<Rightarrow> u32 \<Rightarrow> u32 \<Rightarrow> nat option \<Rightarrow> CoAPIntContext
     \<Rightarrow> (CoAPResource option \<times> CoAPIntContext) option" where
  "CoAPResource_create E path ptype perm ctype age cb c = do {
     n \<leftarrow> strlen_at path 0;
     if COAP_MSG_MAX_PATH_LEN \<le> n then Some (None, c)
     else case HAL_Malloc E sizeof_CoAPResource c of (mem, c) \<Rightarrow>
       if \<not> mem then Some (None, c)
       else let res = \<lparr>res_at = next_at c, permission = perm, callback = cb, res_ctype = ctype, maxage = age,
                       res_path = replicate COAP_PATH_DEFAULT_SUM_LEN 0, filter_path = None, path_type = ptype\<rparr>
         in case ptype of
              PATH_NORMAL \<Rightarrow> do {
                sum \<leftarrow> path_sum path;
                Some (Some (res\<lparr>res_path := sum\<rparr>), c\<lparr>next_at := Suc (next_at c)\<rparr>) }
            | PATH_FILTER \<Rightarrow>
                (case HAL_Malloc E (int (n + 1)) c of (mem, c) \<Rightarrow>
                   if \<not> mem then Some (None, c)
                   else Some (Some (res\<lparr>filter_path := Some (cstring_at path 0)\<rparr>), c\<lparr>next_at := Suc (next_at c)\<rparr>)) }"

text \<open>\<open>strstr(path, "/#") != NULL\<close>.\<close>

fun has_hash_level :: "cstring \<Rightarrow> bool" where
  "has_hash_level (a # b # cs) \<longleftrightarrow> a = 0x2F \<and> b = 0x23 \<or> has_hash_level (b # cs)"
| "has_hash_level _ \<longleftrightarrow> False"

text \<open>
  Looking for a filter to be replaced, the code compares the result of \<open>strncpy(path, filter_path, strlen(path))\<close>
  with 0.  The result is \<open>path\<close>, which is not 0, and the copy overwrites the caller's path by any registered
  filter of the same length; in a string constant (\<open>writable\<close> is false) it is not allowed.
\<close>

fun compare_filters :: "bool \<Rightarrow> CoAPResource list \<Rightarrow> byte list \<Rightarrow> byte list option" where
  "compare_filters writable [] path = Some path"
| "compare_filters writable (node # rest) path =
     (if path_type node = PATH_FILTER then do {
        n \<leftarrow> strlen_at path 0;
        f \<leftarrow> filter_path node;
        if n = length f then
          (if writable then compare_filters writable rest (splice_at path 0 f) else None)
        else compare_filters writable rest path }
      else compare_filters writable rest path)"

definition rewrite_resource :: "u16 \<Rightarrow> u32 \<Rightarrow> u32 \<Rightarrow> nat option \<Rightarrow> CoAPResource \<Rightarrow> CoAPResource" where
  "rewrite_resource perm ctype age cb node = node\<lparr>callback := cb, res_ctype := ctype, maxage := age, permission := perm\<rparr>"

fun rewrite_first :: "('n \<Rightarrow> bool) \<Rightarrow> ('n \<Rightarrow> 'n) \<Rightarrow> 'n list \<Rightarrow> 'n list" where
  "rewrite_first P f [] = []"
| "rewrite_first P f (n # ns) = (if P n then f n # ns else n # rewrite_first P f ns)"

text \<open>The result also has the path as it is left.\<close>

definition CoAPResource_register ::
  "'e coap_environment_scheme \<Rightarrow> bool \<Rightarrow> byte list \<Rightarrow> u16 \<Rightarrow> u32 \<Rightarrow> u32 \<Rightarrow> nat option \<Rightarrow> CoAPIntContext
     \<Rightarrow> (int \<times> byte list \<times> CoAPIntContext) option" where
  "CoAPResource_register E writable path perm ctype age cb c = do {
     c \<leftarrow> HAL_MutexLock LockResource c;
     if maxcount (resource c) \<le> list_count (resource c) then do {
       c \<leftarrow> HAL_MutexUnlock LockResource c;
       Some (COAP_ERROR_DATA_SIZE, path, c) }
     else do {
       n \<leftarrow> strlen_at path 0;
       let type = (if has_hash_level (cstring_at path 0) then PATH_FILTER else PATH_NORMAL);
       path_calc \<leftarrow> (if type = PATH_NORMAL then path_sum path else Some (replicate COAP_PATH_DEFAULT_SUM_LEN 0));
       let same = (\<lambda>node. path_type node = PATH_NORMAL \<and> res_path node = path_calc);
       if type = PATH_NORMAL \<and> (\<exists>node \<in> set (nodes (resource c)). same node) then do {
         let c = c\<lparr>resource := (resource c)\<lparr>nodes := rewrite_first same (rewrite_resource perm ctype age cb) (nodes (resource c))\<rparr>\<rparr>;
         c \<leftarrow> HAL_MutexUnlock LockResource c;
         Some (COAP_SUCCESS, path, c) }
       else do {
         path \<leftarrow> (if type = PATH_FILTER then compare_filters writable (nodes (resource c)) path else Some path);
         (newnode, c) \<leftarrow> CoAPResource_create E path type perm ctype age cb c;
         let c = (case newnode of None \<Rightarrow> c | Some res \<Rightarrow> c\<lparr>resource := list_push res (resource c)\<rparr>);
         c \<leftarrow> HAL_MutexUnlock LockResource c;
         Some (COAP_SUCCESS, path, c) } } }"

definition CoAPResource_unregister :: "CoAPIntContext \<Rightarrow> int \<times> CoAPIntContext" where
  "CoAPResource_unregister c = (COAP_ERROR_UNSUPPORTED, c)"

text \<open>
  \<open>strncmp(path, filter_path, strlen(filter_path) - 1) == 0\<close> for a filter that is not empty: the filter without its
  last character begins the path.  The digest is compared with the five bytes of every node, which are zero in
  a filter.
\<close>

definition resource_serves :: "byte list \<Rightarrow> cstring \<Rightarrow> CoAPResource \<Rightarrow> bool" where
  "resource_serves path_calc path node \<longleftrightarrow>
     path_calc = res_path node
     \<or> path_type node = PATH_FILTER \<and>
        (case filter_path node of None \<Rightarrow> False
         | Some f \<Rightarrow> f \<noteq> [] \<and> take (length f - 1) path = take (length f - 1) f)"

definition CoAPResourceByPath_get :: "byte list \<Rightarrow> CoAPIntContext \<Rightarrow> (CoAPResource option \<times> CoAPIntContext) option" where
  "CoAPResourceByPath_get path c = do {
     path_calc \<leftarrow> path_sum path;
     c \<leftarrow> HAL_MutexLock LockResource c;
     let found = List.find (resource_serves path_calc (cstring_at path 0)) (nodes (resource c));
     c \<leftarrow> HAL_MutexUnlock LockResource c;
     Some (found, c) }"

end
