(* ===== verification/CoapObserve.thy ===== *)
theory CoapObserve
  imports CoapResource
begin

text \<open>
  Observers, \<open>coap_server/server/CoAPObserve.c\<close>: as a server the context keeps who observes which of its
  resources, as a client what it observes itself.  Sending the notifications is in \<open>CoapSend\<close>.
\<close>

definition same_peer :: "NetworkAddr \<Rightarrow> NetworkAddr \<Rightarrow> bool" where
  "same_peer a b \<longleftrightarrow> port a = port b \<and> addr a = addr b"

text \<open>\<open>memcpy(token, message->token, message->header.tokenlen)\<close> into an array of 8 bytes.\<close>

definition copy_token :: "CoAPMessage \<Rightarrow> byte list \<Rightarrow> byte list option" where
  "copy_token m tok = do {
     bs \<leftarrow> deref (Some (token m)) (unat (h_tokenlen (header m)));
     wr_bytes tok 0 bs }"

subsection \<open>As a server\<close>

definition CoAPObsServer_init :: "'e coap_environment_scheme \<Rightarrow> byte \<Rightarrow> CoAPIntContext \<Rightarrow> (int \<times> CoAPIntContext) option" where
  "CoAPObsServer_init E obs_maxcount c =
     (case HAL_MutexCreate E c of (created, c) \<Rightarrow>
        if \<not> created then None
        else do {
          c \<leftarrow> HAL_MutexLock LockObsServer c;
          let c = c\<lparr>obsserver := \<lparr>nodes = [], list_count = 0, maxcount = obs_maxcount\<rparr>\<rparr>;
          c \<leftarrow> HAL_MutexUnlock LockObsServer c;
          Some (COAP_SUCCESS, c) })"

definition CoAPObsServer_deinit :: "CoAPIntContext \<Rightarrow> (int \<times> CoAPIntContext) option" where
  "CoAPObsServer_deinit c = do {
     c \<leftarrow> HAL_MutexLock LockObsServer c;
     let c = c\<lparr>obsserver := \<lparr>nodes = [], list_count = 0, maxcount = 0\<rparr>\<rparr>;
     c \<leftarrow> HAL_MutexUnlock LockObsServer c;
     Some (COAP_SUCCESS, c) }"

definition sizeof_CoapObserver :: int where "sizeof_CoapObserver = 48"

fun rewrite_first_opt :: "('n \<Rightarrow> bool) \<Rightarrow> ('n \<Rightarrow> 'n option) \<Rightarrow> 'n list \<Rightarrow> 'n list option" where
  "rewrite_first_opt P f [] = Some []"
| "rewrite_first_opt P f (n # ns) =
     (if P n then do { n \<leftarrow> f n; Some (n # ns) } else do { ns \<leftarrow> rewrite_first_opt P f ns; Some (n # ns) })"

text \<open>
  \<open>observe\<close> is not initialised before \<open>CoAPUintOption_get\<close> combines the value of the option with it;
  \<open>stale\<close> is what it holds.
\<close>

definition CoAPObsServer_add ::
  "'e coap_environment_scheme \<Rightarrow> u32 \<Rightarrow> byte list \<Rightarrow> NetworkAddr \<Rightarrow> CoAPMessage \<Rightarrow> CoAPIntContext
     \<Rightarrow> (int \<times> CoAPIntContext) option" where
  "CoAPObsServer_add E stale path remote request c = do {
     (res, c) \<leftarrow> CoAPResourceByPath_get path c;
     (ret, observe) \<leftarrow> CoAPUintOption_get request COAP_OPTION_OBSERVE stale;
     case res of
       Some res \<Rightarrow>
         if ret = COAP_SUCCESS \<and> observe = 0 then do {
           c \<leftarrow> HAL_MutexLock LockObsServer c;
           let same = (\<lambda>node. p_resource_of_interest node = res_at res \<and> same_peer (ob_remote node) remote);
           if \<exists>node \<in> set (nodes (obsserver c)). same node then do {
             ns \<leftarrow> rewrite_first_opt same (\<lambda>node. do {
                tok \<leftarrow> copy_token request (ob_token node);
                Some (node\<lparr>ob_token := tok, ob_tokenlen := ucast (h_tokenlen (header request))\<rparr>) }) (nodes (obsserver c));
             let c = c\<lparr>obsserver := (obsserver c)\<lparr>nodes := ns\<rparr>\<rparr>;
             c \<leftarrow> HAL_MutexUnlock LockObsServer c;
             Some (COAP_ERROR_OBJ_ALREADY_EXIST, c) }
           else do {
             c \<leftarrow> HAL_MutexUnlock LockObsServer c;
             let (mem, c) = HAL_Malloc E sizeof_CoapObserver c;
             if \<not> mem then Some (COAP_ERROR_MALLOC, c)
             else do {
               tok \<leftarrow> copy_token request (replicate COAP_MSG_MAX_TOKEN_LEN 0);
               (ret, acceptype) \<leftarrow> CoAPUintOption_get request COAP_OPTION_ACCEPT 0;
               let obs = \<lparr>ob_remote = remote, ob_token = tok, ob_tokenlen = ucast (h_tokenlen (header request)),
                     ob_ctype = ucast (if acceptype = 0 then COAP_CT_APP_JSON else acceptype),
                     p_resource_of_interest = res_at res, observer_sequence_num = 0,
                     msg_type = ucast (h_type (header request))\<rparr>;
               c \<leftarrow> HAL_MutexLock LockObsServer c;
               if maxcount (obsserver c) \<le> list_count (obsserver c) then do {
                 c \<leftarrow> HAL_MutexUnlock LockObsServer c;
                 Some (COAP_ERROR_DATA_SIZE, c) }
               else do {
                 let c = c\<lparr>obsserver := list_push obs (obsserver c)\<rparr>;
                 c \<leftarrow> HAL_MutexUnlock LockObsServer c;
                 Some (COAP_SUCCESS, c) } } } }
         else Some (COAP_ERROR_NOT_FOUND, c)
     | None \<Rightarrow> Some (COAP_ERROR_NOT_FOUND, c) }"

definition CoapObsServer_delete :: "NetworkAddr \<Rightarrow> nat \<Rightarrow> CoAPIntContext \<Rightarrow> (int \<times> CoAPIntContext) option" where
  "CoapObsServer_delete remote res c = do {
     c \<leftarrow> HAL_MutexLock LockObsServer c;
     let c = c\<lparr>obsserver := list_drop_first
           (\<lambda>node. p_resource_of_interest node = res \<and> same_peer (ob_remote node) remote) (obsserver c)\<rparr>;
     c \<leftarrow> HAL_MutexUnlock LockObsServer c;
     Some (COAP_SUCCESS, c) }"

definition CoapObsServerAll_delete :: "NetworkAddr \<Rightarrow> CoAPIntContext \<Rightarrow> (int \<times> CoAPIntContext) option" where
  "CoapObsServerAll_delete remote c = do {
     c \<leftarrow> HAL_MutexLock LockObsServer c;
     let c = c\<lparr>obsserver := list_drop_all (\<lambda>node. same_peer (ob_remote node) remote) (obsserver c)\<rparr>;
     c \<leftarrow> HAL_MutexUnlock LockObsServer c;
     Some (COAP_SUCCESS, c) }"

subsection \<open>As a client\<close>

definition CoAPObsClient_init :: "'e coap_environment_scheme \<Rightarrow> byte \<Rightarrow> CoAPIntContext \<Rightarrow> (int \<times> CoAPIntContext) option" where
  "CoAPObsClient_init E obs_maxcount c =
     (case HAL_MutexCreate E c of (created, c) \<Rightarrow>
        if \<not> created then None
        else do {
          c \<leftarrow> HAL_MutexLock LockObsClient c;
          let c = c\<lparr>obsclient := \<lparr>nodes = [], list_count = 0, maxcount = obs_maxcount\<rparr>\<rparr>;
          c \<leftarrow> HAL_MutexUnlock LockObsClient c;
          Some (COAP_SUCCESS, c) })"

definition CoAPObsClient_deinit :: "CoAPIntContext \<Rightarrow> (int \<times> CoAPIntContext) option" where
  "CoAPObsClient_deinit c = do {
     c \<leftarrow> HAL_MutexLock LockObsClient c;
     let c = c\<lparr>obsclient := \<lparr>nodes = [], list_count = 0, maxcount = 0\<rparr>\<rparr>;
     c \<leftarrow> HAL_MutexUnlock LockObsClient c;
     Some (COAP_SUCCESS, c) }"

text \<open>A node whose token is not empty and is the one of the message.\<close>

definition token_matches :: "byte list \<Rightarrow> byte \<Rightarrow> CoAPMessage \<Rightarrow> bool" where
  "token_matches tok n m \<longleftrightarrow>
     n \<noteq> 0 \<and> n = ucast (h_tokenlen (header m)) \<and> take (unat n) tok = take (unat n) (token m)"

abbreviation client_node :: "CoAPMessage \<Rightarrow> CoAPObservable \<Rightarrow> bool" where
  "client_node m node \<equiv> token_matches (oc_token node) (oc_tokenlen node) m"

definition sizeof_CoAPObservable :: int where "sizeof_CoAPObservable = 48"

definition CoAPObsClient_delete :: "CoAPMessage \<Rightarrow> CoAPIntContext \<Rightarrow> (int \<times> CoAPIntContext) option" where
  "CoAPObsClient_delete message c =
     (if h_code (header message) \<noteq> COAP_MSG_CODE_GET then Some (COAP_SUCCESS, c)
      else do {
        present \<leftarrow> CoAPOption_present message COAP_OPTION_OBSERVE;
        if present \<noteq> COAP_SUCCESS then Some (COAP_SUCCESS, c)
        else do {
          (ret, observe_option) \<leftarrow> CoAPUintOption_get message COAP_OPTION_OBSERVE 0;
          if ret = COAP_SUCCESS \<and> observe_option = 1 then do {
            c \<leftarrow> HAL_MutexLock LockObsClient c;
            let c = c\<lparr>obsclient := list_drop_first (client_node message) (obsclient c)\<rparr>;
            c \<leftarrow> HAL_MutexUnlock LockObsClient c;
            Some (COAP_SUCCESS, c) }
          else Some (COAP_SUCCESS, c) } })"

text \<open>
  \<open>sendnode\<close> is the request a response belongs to, when it is still known.  A later notification calls the
  function kept from it, with the list locked.
\<close>

definition CoAPObsClient_add ::
  "'e coap_environment_scheme \<Rightarrow> application \<Rightarrow> CoAPMessage \<Rightarrow> NetworkAddr \<Rightarrow> CoAPSendNode option \<Rightarrow> CoAPIntContext
     \<Rightarrow> (int \<times> CoAPIntContext) option" where
  "CoAPObsClient_add E A message remote sendnode c = do {
     present \<leftarrow> CoAPOption_present message COAP_OPTION_OBSERVE;
     if present = COAP_SUCCESS then
       (case sendnode of
          None \<Rightarrow> do {
            c \<leftarrow> HAL_MutexLock LockObsClient c;
            c \<leftarrow> (case List.find (client_node message) (nodes (obsclient c)) of
                    None \<Rightarrow> Some c
                  | Some node \<Rightarrow> do {
                      (ret, age) \<leftarrow> CoAPUintOption_get message COAP_OPTION_MAXAGE (max_age node);
                      let c = c\<lparr>obsclient := (obsclient c)\<lparr>nodes :=
                            rewrite_first (client_node message) (\<lambda>node. node\<lparr>max_age := age\<rparr>) (nodes (obsclient c))\<rparr>\<rparr>;
                      case oc_callback node of
                        None \<Rightarrow> Some c
                      | Some f \<Rightarrow> app_resp A f COAP_REQUEST_SUCCESS (oc_userdata node) remote (Some message) c });
            c \<leftarrow> HAL_MutexUnlock LockObsClient c;
            Some (COAP_SUCCESS, c) }
        | Some sendnode \<Rightarrow> do {
            c \<leftarrow> HAL_MutexLock LockObsClient c;
            let found = (\<exists>node \<in> set (nodes (obsclient c)). client_node message node);
            c \<leftarrow> (if \<not> found \<and> list_count (obsclient c) < maxcount (obsclient c) then
                    (case HAL_Malloc E sizeof_CoAPObservable c of (mem, c) \<Rightarrow>
                       if \<not> mem then Some c
                       else do {
                         tok \<leftarrow> copy_token message (replicate COAP_MSG_MAX_TOKEN_LEN 0);
                         (ret, age) \<leftarrow> CoAPUintOption_get message COAP_OPTION_MAXAGE 0;
                         let newnode = \<lparr>oc_remote = remote, oc_token = tok,
                               oc_tokenlen = ucast (h_tokenlen (header message)),
                               oc_callback = sn_handler sendnode, max_age = age, oc_userdata = sn_user sendnode\<rparr>;
                         Some (c\<lparr>obsclient := list_push newnode (obsclient c)\<rparr>) })
                  else Some c);
            c \<leftarrow> HAL_MutexUnlock LockObsClient c;
            Some (COAP_SUCCESS, c) })
     else do {
       c \<leftarrow> HAL_MutexLock LockObsClient c;
       let c = c\<lparr>obsclient := list_drop_first (client_node message) (obsclient c)\<rparr>;
       c \<leftarrow> HAL_MutexUnlock LockObsClient c;
       Some (COAP_SUCCESS, c) } }"

end
