(* ===== verification/CoapOptions.thy ===== *)
theory CoapOptions
  imports CoapPacket
begin

text \<open>
  Options end to end: what a client adds with \<open>CoAPStrOption_add\<close> and \<open>CoAPUintOption_add\<close> is what
  the receiver of the datagram reads with \<open>CoAPStrOption_get\<close> and \<open>CoAPUintOption_get\<close>.  First the
  effect of the single operations on the list of used options, then the composition with the wire format.
\<close>

subsection \<open>Reading\<close>

lemma find_option_eq:
  "i + n \<le> length (options m) \<Longrightarrow>
     find_option m k i n = Some (List.find (\<lambda>opt. opt_num opt = k) (take n (drop i (options m))))"
proof (induction n arbitrary: i)
  case (Suc n)
  then show ?case by (simp add: option_at_def take_drop_Suc)
qed simp

lemma find_used:
  "unat (optcount m) \<le> length (options m) \<Longrightarrow>
     find_option m k 0 (unat (optcount m)) = Some (List.find (\<lambda>opt. opt_num opt = k) (used_options m))"
  using find_option_eq [of 0 "unat (optcount m)" m k] by (simp add: used_options_def)

lemma find_values:
  "map_of (map (\<lambda>opt. (opt_num opt, option_data opt)) os) k
     = map_option option_data (List.find (\<lambda>opt. opt_num opt = k) os)"
  by (induction os) auto

lemma found_valid: "List.find P os = Some opt \<Longrightarrow> list_all option_valid os \<Longrightarrow> option_valid opt"
  by (induction os) (auto split: if_splits)

lemma str_option_get_eq:
  assumes "unat (optcount m) \<le> length (options m)" and "list_all option_valid (used_options m)"
  shows "CoAPStrOption_get m k cap = Some (case map_of (option_values m) k of
      None \<Rightarrow> (COAP_ERROR_NOT_FOUND, [], cap)
    | Some d \<Rightarrow> if length d \<le> unat cap then (COAP_SUCCESS, d, of_nat (length d)) else (COAP_ERROR_INVALID_LENGTH, [], cap))"
proof (cases "List.find (\<lambda>opt. opt_num opt = k) (used_options m)")
  case (Some opt)
  then have "option_valid opt" using found_valid assms(2) by blast
  then show ?thesis
    using Some assms(1) option_data_length [of opt]
    by (simp add: CoAPStrOption_get_def find_used option_values_def find_values option_deref word_le_nat_alt)
qed (use assms(1) in \<open>simp add: CoAPStrOption_get_def find_used option_values_def find_values\<close>)

lemma uint_option_get_eq:
  assumes "unat (optcount m) \<le> length (options m)" and "list_all option_valid (used_options m)"
  shows "CoAPUintOption_get m k v = Some (case map_of (option_values m) k of
      None \<Rightarrow> (COAP_ERROR_NOT_FOUND, v)
    | Some d \<Rightarrow> (COAP_SUCCESS, uint_value d v))"
proof (cases "List.find (\<lambda>opt. opt_num opt = k) (used_options m)")
  case (Some opt)
  then have v: "option_valid opt" using found_valid assms(2) by blast
  have zero: "uint_value d v = 0" if "length d = 0 \<or> 4 < length d" for d
    using that by (auto simp: uint_value_def split: list.splits)
  then have "\<not> (1 \<le> opt_len opt \<and> opt_len opt \<le> 4) \<Longrightarrow> uint_value (option_data opt) v = 0"
    using option_data_length [OF v] zero [of "option_data opt"] by (auto simp: word_le_nat_alt Suc_le_eq)
  then show ?thesis
    using Some assms(1) option_deref [OF v]
    by (auto simp: CoAPUintOption_get_def find_used option_values_def find_values)
qed (use assms(1) in \<open>simp add: CoAPUintOption_get_def find_used option_values_def find_values\<close>)

lemma u32_bits_eqI:
  assumes "\<And>k. k \<in> {0, 1, 2, 3, 4, 5, 6, 7, 8, 9, 10, 11, 12, 13, 14, 15, 16, 17, 18, 19, 20, 21, 22, 23, 24, 25, 26, 27,
     28, 29, 30, 31} \<Longrightarrow> bit a k = bit (b :: u32) k"
  shows "a = b"
proof (rule bit_word_eqI)
  fix k assume "k < LENGTH(32)"
  then show "bit a k = bit b k" by (intro assms) (simp, presburger)
qed

lemma uint_value_bytes: "uint_value (uint_bytes d) 0 = d"
proof -
  consider "d = 0" | "d \<noteq> 0" "d \<le> 255" | "\<not> d \<le> 255" "d \<le> 65535" | "\<not> d \<le> 65535"
    by blast
  then show ?thesis
  proof cases
    case 2
    then have hi: "\<not> bit d k" if "8 \<le> k" for k
      using that by (intro word_small_bit [of d 8]) (simp_all add: word_le_def)
    have "ucast (ucast d :: byte) = d"
      by (rule u32_bits_eqI) (elim insertE emptyE, simp_all add: bit_simps hi)
    then show ?thesis using 2 by (simp add: uint_value_def uint_bytes_def)
  next
    case 3
    then have hi: "\<not> bit d k" if "16 \<le> k" for k
      using that by (intro word_small_bit [of d 16]) (simp_all add: word_le_def)
    have "push_bit 8 (ucast (ucast (drop_bit 8 (d AND 0xFF00)) :: byte)) OR ucast (ucast (d AND 0x00FF) :: byte) = d"
      by (rule u32_bits_eqI) (elim insertE emptyE, simp_all add: bit_simps hi)
    then show ?thesis using 3 by (auto simp: uint_value_def uint_bytes_def)
  next
    case 4
    have "push_bit 24 (ucast (ucast (drop_bit 24 (d AND 0xFF000000)) :: byte))
        OR push_bit 16 (ucast (ucast (drop_bit 16 (d AND 0x00FF0000)) :: byte))
        OR push_bit 8 (ucast (ucast (drop_bit 8 (d AND 0x0000FF00)) :: byte)) OR ucast (ucast (d AND 0x000000FF) :: byte) = d"
      by (rule u32_bits_eqI) (elim insertE emptyE, simp_all add: bit_simps)
    moreover have "\<not> d \<le> 255" using 4 by (simp add: word_le_def)
    ultimately show ?thesis using 4 by (auto simp: uint_value_def uint_bytes_def or.assoc)
  qed (simp add: uint_value_def uint_bytes_def)
qed

subsection \<open>Adding\<close>

lemma put_option_eq:
  assumes "message_ok m" and "optcount m < 12" and "deref val (unat len) = Some d"
  obtains m' where "put_option m n len val = Some m'" "message_ok m'" "optdelta m' = ucast n"
    "used_options m' = used_options m @ [\<lparr>opt_num = n - ucast (optdelta m), opt_len = len, opt_val = val\<rparr>]"
    "header m' = header m" "token m' = token m" "payload m' = payload m" "payloadlen m' = payloadlen m"
proof -
  let ?opt = "\<lparr>opt_num = n - ucast (optdelta m), opt_len = len, opt_val = val\<rparr>"
  let ?m = "m\<lparr>options := (options m)[unat (optcount m) := ?opt], optdelta := ucast n, optcount := optcount m + 1\<rparr>"
  have i: "unat (optcount m) < 12" "length (options m) = 12" "unat (optcount m + 1) = Suc (unat (optcount m))"
    using assms(1,2) by (auto simp: message_ok_def word_less_nat_alt unat_word_ariths)
  have used: "used_options ?m = used_options m @ [?opt]"
    using i by (simp add: used_options_def take_Suc_conv_app_nth)
  have "message_ok ?m"
    using assms(1,3) i used by (simp add: message_ok_def option_valid_def)
  then show thesis
    using i used by (intro that [of ?m]) (simp_all add: put_option_def)
qed
text \<open>A client that adds options one after the other, as \<open>CoAPServerMultiCast_send\<close> does.\<close>

datatype opt_arg = StrOpt "byte list" | UintOpt u32

fun arg_bytes :: "opt_arg \<Rightarrow> byte list" where
  "arg_bytes (StrOpt d) = d"
| "arg_bytes (UintOpt v) = uint_bytes v"

fun add_options :: "CoAPMessage \<Rightarrow> (u16 \<times> opt_arg) list \<Rightarrow> CoAPMessage option" where
  "add_options m [] = Some m"
| "add_options m ((n, StrOpt d) # kvs) = do {
     (rc, m) \<leftarrow> CoAPStrOption_add True m n (Some d) (of_nat (length d));
     add_options m kvs }"
| "add_options m ((n, UintOpt v) # kvs) = do {
     (rc, m) \<leftarrow> CoAPUintOption_add True m n v;
     add_options m kvs }"

fun last_num :: "u16 \<Rightarrow> CoAPMsgOption list \<Rightarrow> u16" where
  "last_num d [] = d"
| "last_num d (opt # os) = last_num (d + opt_num opt) os"

lemma absolute_append: "absolute d (xs @ ys) = absolute d xs @ absolute (last_num d xs) ys"
  by (induction d xs rule: absolute.induct) auto

lemma last_num_append: "last_num d (xs @ [opt]) = last_num d xs + opt_num opt"
  by (induction d xs rule: last_num.induct) auto

lemma uint_bytes_length: "length (uint_bytes v) \<le> 4"
  by (simp add: uint_bytes_def)

text \<open>One call, for either kind of value.\<close>

lemma add_one:
  assumes "message_ok m" and "optcount m < 12" and "length (arg_bytes a) < 65536"
    and "ucast (optdelta m) = last_num 0 (used_options m)"
  obtains m' where "\<And>kvs. add_options m ((n, a) # kvs) = add_options m' kvs" "message_ok m'"
    "absolute 0 (used_options m') = absolute 0 (used_options m) @ [(n, arg_bytes a)]"
    "optcount m' = optcount m + 1" "n < 256 \<Longrightarrow> ucast (optdelta m') = last_num 0 (used_options m')"
    "header m' = header m" "token m' = token m" "payload m' = payload m" "payloadlen m' = payloadlen m"
proof -
  let ?len = "of_nat (length (arg_bytes a)) :: u16"
  have room: "\<not> 12 \<le> optcount m" using assms(2) by simp
  obtain val where val: "deref val (unat ?len) = Some (arg_bytes a)"
    "\<And>kvs. add_options m ((n, a) # kvs) = do { m' \<leftarrow> put_option m n ?len val; add_options m' kvs }"
  proof (cases a)
    case (StrOpt d)
    then have l: "unat (of_nat (length d) :: u16) = length d"
      using assms(3) by (simp add: unsigned_of_nat take_bit_nat_eq_self)
    have "\<And>kvs. add_options m ((n, a) # kvs) = do { m' \<leftarrow> put_option m n ?len (Some d); add_options m' kvs }"
      using room l by (simp add: StrOpt CoAPStrOption_add_def deref_def)
    then show thesis using l by (intro that [of "Some d"]) (simp_all add: StrOpt deref_def)
  next
    case (UintOpt v)
    let ?val = "if v = 0 then None else Some (uint_bytes v)"
    have l: "unat (of_nat (length (uint_bytes v)) :: u16) = length (uint_bytes v)"
      using uint_bytes_length [of v] by (simp add: unsigned_of_nat take_bit_nat_eq_self)
    have "\<And>kvs. add_options m ((n, a) # kvs) = do { m' \<leftarrow> put_option m n ?len ?val; add_options m' kvs }"
      using room by (simp add: UintOpt CoAPUintOption_add_def)
    then show thesis using l by (intro that [of ?val]) (simp_all add: UintOpt deref_def uint_bytes_def)
  qed
  obtain m' where m': "put_option m n ?len val = Some m'" "message_ok m'" "optdelta m' = ucast n"
    "used_options m' = used_options m @ [\<lparr>opt_num = n - ucast (optdelta m), opt_len = ?len, opt_val = val\<rparr>]"
    "header m' = header m" "token m' = token m" "payload m' = payload m" "payloadlen m' = payloadlen m"
    using put_option_eq [OF assms(1,2) val(1)] by metis
  have data: "option_data \<lparr>opt_num = n - ucast (optdelta m), opt_len = ?len, opt_val = val\<rparr> = arg_bytes a"
    using val(1) by (auto simp: option_data_def deref_def rd_block_def split: option.splits if_splits)
  have "optcount m' = optcount m + 1"
    using m'(1) by (auto simp: put_option_def Let_def split: if_splits)
  then show thesis
    using m' val(2) data assms(4)
    by (intro that [of m']) (simp_all add: absolute_append last_num_append ucast_u16_byte)
qed
lemma add_options_eq:
  assumes "message_ok m" and "unat (optcount m) + length kvs \<le> 12"
    and "\<forall>(n, a) \<in> set kvs. length (arg_bytes a) < 65536" and "\<forall>(n, a) \<in> set (butlast kvs). n < 256"
    and "kvs \<noteq> [] \<Longrightarrow> ucast (optdelta m) = last_num 0 (used_options m)"
  shows "\<exists>m'. add_options m kvs = Some m' \<and> message_ok m'
     \<and> absolute 0 (used_options m') = absolute 0 (used_options m) @ map (\<lambda>(n, a). (n, arg_bytes a)) kvs
     \<and> header m' = header m \<and> token m' = token m \<and> payload m' = payload m \<and> payloadlen m' = payloadlen m"
  using assms
proof (induction kvs arbitrary: m)
  case (Cons kv kvs)
  obtain n a where kv: "kv = (n, a)" by fastforce
  have "optcount m < 12" using Cons.prems(2) by (simp add: word_less_nat_alt)
  then obtain m' where m': "\<And>kvs. add_options m ((n, a) # kvs) = add_options m' kvs" "message_ok m'"
    "absolute 0 (used_options m') = absolute 0 (used_options m) @ [(n, arg_bytes a)]"
    "optcount m' = optcount m + 1" "n < 256 \<Longrightarrow> ucast (optdelta m') = last_num 0 (used_options m')"
    "header m' = header m" "token m' = token m" "payload m' = payload m" "payloadlen m' = payloadlen m"
    using add_one [of m a n] Cons.prems kv by (metis case_prodD list.set_intros(1) list.distinct(1))
  have "unat (optcount m') = Suc (unat (optcount m))"
    using m'(4) Cons.prems(2) by (simp add: unat_word_ariths)
  moreover have "\<forall>(n, a) \<in> set (butlast kvs). n < 256" "kvs \<noteq> [] \<Longrightarrow> n < 256"
    using Cons.prems(4) kv by (auto split: if_splits)
  ultimately show ?case
    using Cons.IH [of m'] Cons.prems(2,3) m' kv by (auto split: if_splits)
qed auto
subsection \<open>End to end\<close>

text \<open>
  C19: an option arrives as it was added.  Up to 12 options are added to a fresh message, whose numbers
  but the last are below 256 (\<open>optdelta\<close> is a byte).  When the message is serialized and read by the receiver, \<open>CoAPStrOption_get\<close>
  returns for every number the first value added under it, or that it is too long or absent, and
  \<open>CoAPUintOption_get\<close> into a zero variable returns the integer that was added.
\<close>

theorem coap_options_arrive:
  assumes "message_ok m0" and "optcount m0 = 0" and "optdelta m0 = 0" and "length kvs \<le> 12"
    and "\<forall>(n, a) \<in> set kvs. length (arg_bytes a) < 65536" and "\<forall>(n, a) \<in> set (butlast kvs). n < 256"
    and "add_options m0 kvs = Some m" and "length (message_bytes m) < 65536"
    and "length buf = length (message_bytes m)" and "rest = 0 # rest'"
  shows "\<exists>out r. CoAPSerialize_Message m (Some buf) (of_nat (length buf)) = Some (int (length out), Some out)
     \<and> CoAPDeserialize_Message zero_message (Some (out @ rest)) (int (length out)) = Some (COAP_SUCCESS, r)
     \<and> (\<forall>n cap. CoAPStrOption_get r n cap = Some (case map_of kvs n of
           None \<Rightarrow> (COAP_ERROR_NOT_FOUND, [], cap)
         | Some a \<Rightarrow> if length (arg_bytes a) \<le> unat cap then (COAP_SUCCESS, arg_bytes a, of_nat (length (arg_bytes a)))
                    else (COAP_ERROR_INVALID_LENGTH, [], cap)))
     \<and> (\<forall>n v. map_of kvs n = Some (UintOpt v) \<longrightarrow> CoAPUintOption_get r n 0 = Some (COAP_SUCCESS, v))"
proof -
  have used: "used_options m0 = []" using assms(2) by (simp add: used_options_def)
  obtain m' where m': "add_options m0 kvs = Some m'" "message_ok m'"
    "absolute 0 (used_options m') = map (\<lambda>(n, a). (n, arg_bytes a)) kvs"
    using add_options_eq [of m0 kvs] assms(1-6) used by auto
  then have m: "sendable m" "absolute 0 (used_options m) = map (\<lambda>(n, a). (n, arg_bytes a)) kvs"
    using assms(7,8) by (auto simp: sendable_def)
  have fresh: "\<exists>b bs. rest = b # bs \<and> b \<noteq> 0xFF" using assms(10) by simp
  obtain r where r: "CoAPDeserialize_Message zero_message (Some (message_bytes m @ rest)) (int (length (message_bytes m)))
      = Some (COAP_SUCCESS, r)" "option_values r = absolute 0 (used_options m)"
    "list_all option_valid (used_options r)" "unat (optcount r) \<le> length (options r)"
    using message_received [OF m(1), of rest] fresh by metis
  have found: "map_of (option_values r) n = map_option arg_bytes (map_of kvs n)" for n
    unfolding r(2) m(2) by (induction kvs) auto
  have "CoAPStrOption_get r n cap = Some (case map_of kvs n of
           None \<Rightarrow> (COAP_ERROR_NOT_FOUND, [], cap)
         | Some a \<Rightarrow> if length (arg_bytes a) \<le> unat cap then (COAP_SUCCESS, arg_bytes a, of_nat (length (arg_bytes a)))
                    else (COAP_ERROR_INVALID_LENGTH, [], cap))" for n cap
    unfolding str_option_get_eq [OF r(4,3)] found by (simp split: option.split)
  moreover have "CoAPUintOption_get r n 0 = Some (COAP_SUCCESS, v)" if "map_of kvs n = Some (UintOpt v)" for n v
    unfolding uint_option_get_eq [OF r(4,3)] found using that by (simp add: uint_value_bytes)
  ultimately show ?thesis
    using message_serialized_lemma [OF m(1) assms(9)] r(1) assms(9)
    by (intro exI [of _ "message_bytes m"] exI [of _ r]) simp
qed

definition light_options :: "(u16 \<times> opt_arg) list" where
  "light_options = [(11, StrOpt (str ''light'')), (12, UintOpt 50), (300, UintOpt 70000)]"

theorem coap_options_arrive_witness:
  "\<exists>m buf out r. add_options CoAPMessage_init light_options = Some m
     \<and> CoAPSerialize_Message m (Some buf) (of_nat (length buf)) = Some (int (length out), Some out)
     \<and> CoAPDeserialize_Message zero_message (Some (out @ [0])) (int (length out)) = Some (COAP_SUCCESS, r)
     \<and> CoAPStrOption_get r 11 10 = Some (COAP_SUCCESS, str ''light'', 5) \<and> CoAPUintOption_get r 300 0 = Some (COAP_SUCCESS, 70000)"
proof -
  have ok: "message_ok CoAPMessage_init" "optcount CoAPMessage_init = 0" "optdelta CoAPMessage_init = 0"
    by (simp_all add: CoAPMessage_init_def zero_message_def message_ok_def used_options_def)
  have array: "(replicate 12 no_option)[0 := a, Suc 0 := b, 2 := c] = [a, b, c] @ replicate 9 no_option" for a b c
    by (simp add: numeral_eq_Suc)
  let ?val = "\<lambda>n l v. \<lparr>opt_num = n, opt_len = l, opt_val = Some v\<rparr>"
  let ?m = "CoAPMessage_init\<lparr>options := [?val 11 5 (str ''light''), ?val 1 1 [50], ?val 288 4 [0, 1, 17, 112]] @ replicate 9 no_option,
      optcount := 3, optdelta := 44\<rparr>"
  have add: "add_options CoAPMessage_init light_options = Some ?m"
    by (simp add: light_options_def CoAPStrOption_add_def CoAPUintOption_add_def put_option_def CoAPMessage_init_def zero_message_def
        deref_def uint_bytes_def word_le_def array)
  moreover have "length (message_bytes ?m) = 19"
    by (simp add: message_bytes_def header_bytes_def used_options_def option_bytes_def option_head_def opt_ext_def option_data_def
        CoAPMessage_init_def zero_message_def word_le_def)
  ultimately obtain out r where "CoAPSerialize_Message ?m (Some (replicate 19 0)) (of_nat (length (replicate 19 (0 :: byte)))) = Some (int (length out), Some out)"
    "CoAPDeserialize_Message zero_message (Some (out @ [0])) (int (length out)) = Some (COAP_SUCCESS, r)"
    and get: "\<forall>n cap. CoAPStrOption_get r n cap = Some (case map_of light_options n of
           None \<Rightarrow> (COAP_ERROR_NOT_FOUND, [], cap)
         | Some a \<Rightarrow> if length (arg_bytes a) \<le> unat cap then (COAP_SUCCESS, arg_bytes a, of_nat (length (arg_bytes a)))
                    else (COAP_ERROR_INVALID_LENGTH, [], cap))"
      "\<forall>n v. map_of light_options n = Some (UintOpt v) \<longrightarrow> CoAPUintOption_get r n 0 = Some (COAP_SUCCESS, v)"
    using coap_options_arrive [OF ok _ _ _ add, of "replicate 19 0" "[0]" "[]"]
    by (auto simp: light_options_def uint_bytes_def)
  moreover have "CoAPStrOption_get r 11 10 = Some (COAP_SUCCESS, str ''light'', 5)" "CoAPUintOption_get r 300 0 = Some (COAP_SUCCESS, 70000)"
    unfolding get(1) [rule_format] using get(2) by (simp_all add: light_options_def)
  ultimately show ?thesis using add by blast
qed

end
