(* ===== verification/CoapSend.thy ===== *)
theory CoapSend
  imports CoapObserve CoapOptions
begin

text \<open>
  Sending: \<open>CoAPMessage_send\<close> of \<open>coap_server/server/CoAPMessage.c\<close>, the answers the server itself makes, and the
  notification of observers, \<open>CoAPObsServer_notify\<close> of \<open>CoAPObserve.c\<close>.
\<close>

subsection \<open>A message\<close>

text \<open>
  The dump prints fields of the message; what it reads is the token, for which its text buffer has room, and the
  content format.
\<close>

definition CoAPMessage_dump :: "CoAPMessage \<Rightarrow> unit option" where
  "CoAPMessage_dump m = do {
     _ \<leftarrow> deref (Some (token m)) (unat (h_tokenlen (header m)));
     _ \<leftarrow> CoAPUintOption_get m COAP_OPTION_CONTENT_FORMAT 0;
     Some () }"

definition CoAPMessage_send ::
  "'e coap_environment_scheme \<Rightarrow> NetworkAddr \<Rightarrow> CoAPMessage \<Rightarrow> CoAPIntContext \<Rightarrow> (int \<times> CoAPIntContext) option" where
  "CoAPMessage_send E remote message c = do {
     len \<leftarrow> CoAPSerialize_MessageLength message;
     if of_nat COAP_MSG_MAX_PDU_LEN < len then Some (COAP_ERROR_DATA_SIZE, c)
     else case HAL_Malloc E (uint len) c of (mem, c) \<Rightarrow>
       if \<not> mem then Some (COAP_ERROR_NULL, c)
       else do {
         (rc, buff) \<leftarrow> CoAPSerialize_Message message (Some (replicate (unat len) 0)) len;
         let len = (word_of_int rc :: u16);
         (_, c) \<leftarrow> CoAPObsClient_delete message c;
         data \<leftarrow> deref buff (unat len);
         let (rc, c) = CoAPNetwork_write E remote data c;
         if len = word_of_int rc then
           (if CoAPReqMsg (header message) \<or> CoAPCONRespMsg (header message) then do {
              (ret, c) \<leftarrow> CoAPMessageList_add E remote message data (ucast len) c;
              if ret \<noteq> COAP_SUCCESS then Some (ret, c)
              else do { _ \<leftarrow> CoAPMessage_dump message; Some (COAP_SUCCESS, c) } }
            else do { _ \<leftarrow> CoAPMessage_dump message; Some (COAP_SUCCESS, c) })
         else Some (COAP_ERROR_WRITE_FAILED, c) } }"

subsection \<open>Answers of the server itself\<close>

text \<open>\<open>CoAPMessage_init\<close> makes an empty acknowledgement.\<close>

definition CoAPAckMessage_send ::
  "'e coap_environment_scheme \<Rightarrow> NetworkAddr \<Rightarrow> u16 \<Rightarrow> CoAPIntContext \<Rightarrow> (int \<times> CoAPIntContext) option" where
  "CoAPAckMessage_send E remote msgid c = CoAPMessage_send E remote (CoAPMessageId_set CoAPMessage_init msgid) c"

definition CoAPRequestMessage_ack_send ::
  "'e coap_environment_scheme \<Rightarrow> NetworkAddr \<Rightarrow> u16 \<Rightarrow> CoAPIntContext \<Rightarrow> (int \<times> CoAPIntContext) option" where
  "CoAPRequestMessage_ack_send E remote msgid c = CoAPMessage_send E remote (CoAPMessageId_set CoAPMessage_init msgid) c"

definition CoAPRestMessage_send ::
  "'e coap_environment_scheme \<Rightarrow> NetworkAddr \<Rightarrow> u16 \<Rightarrow> CoAPIntContext \<Rightarrow> (int \<times> CoAPIntContext) option" where
  "CoAPRestMessage_send E remote msgid c =
     CoAPMessage_send E remote (CoAPMessageId_set (snd (CoAPMessageType_set CoAPMessage_init (ucast COAP_MESSAGE_TYPE_RST))) msgid) c"

definition CoAPErrRespMessage_send ::
  "'e coap_environment_scheme \<Rightarrow> NetworkAddr \<Rightarrow> CoAPMessage \<Rightarrow> byte \<Rightarrow> CoAPIntContext \<Rightarrow> (int \<times> CoAPIntContext) option" where
  "CoAPErrRespMessage_send E remote message err_code c = do {
     let response = CoAPMessageId_set (CoAPMessageCode_set CoAPMessage_init err_code) (h_msgid (header message));
     (_, response) \<leftarrow> CoAPMessageToken_set response (Some (token message)) (ucast (h_tokenlen (header message)));
     let (_, response) = CoAPMessageType_set response
           (ucast (if h_type (header message) = COAP_MESSAGE_TYPE_CON then COAP_MESSAGE_TYPE_ACK else h_type (header message)));
     CoAPMessage_send E remote response c }"

subsection \<open>Notifying the observers of a resource\<close>

text \<open>The results of the functions that fill in the message are not looked at.  \<open>mem\<close> of an option is the
  allocation of its value.\<close>

definition add_uint ::
  "'e coap_environment_scheme \<Rightarrow> CoAPMessage \<Rightarrow> u16 \<Rightarrow> u32 \<Rightarrow> CoAPIntContext \<Rightarrow> (CoAPMessage \<times> CoAPIntContext) option" where
  "add_uint E m optnum data c = do {
     let (mem, c) = (if optcount m < of_nat COAP_MSG_MAX_OPTION_NUM \<and> data \<noteq> 0
                     then HAL_Malloc E (int (length (uint_bytes data))) c else (True, c));
     (_, m) \<leftarrow> CoAPUintOption_add mem m optnum data;
     Some (m, c) }"

definition notify_message ::
  "'e coap_environment_scheme \<Rightarrow> CoapObserver \<Rightarrow> CoAPResource \<Rightarrow> CoAPIntContext \<Rightarrow> (CoAPMessage \<times> CoAPIntContext) option" where
  "notify_message E node res c = do {
     let (_, m) = CoAPMessageType_set CoAPMessage_init (msg_type node);
     let m = CoAPMessageCode_set m COAP_MSG_CODE_205_CONTENT;
     (i, c) \<leftarrow> CoAPMessageId_gen c;
     let m = CoAPMessageHandler_set (CoAPMessageId_set m i) None;
     let (_, m) = CoAPMessageUserData_set m (Some (p_resource_of_interest node));
     (_, m) \<leftarrow> CoAPMessageToken_set m (Some (ob_token node)) (ob_tokenlen node);
     (m, c) \<leftarrow> add_uint E m COAP_OPTION_OBSERVE (observer_sequence_num node) c;
     (m, c) \<leftarrow> add_uint E m COAP_OPTION_CONTENT_FORMAT (ucast (ob_ctype node)) c;
     add_uint E m COAP_OPTION_MAXAGE (maxage res) c }"

definition notify_payload ::
  "application \<Rightarrow> nat option \<Rightarrow> byte list \<Rightarrow> NetworkAddr \<Rightarrow> CoAPMessage \<Rightarrow> pointer \<Rightarrow> u16 \<Rightarrow> CoAPIntContext
     \<Rightarrow> (CoAPMessage \<times> CoAPIntContext) option" where
  "notify_payload A encrypt path remote m data datalen c =
     (case encrypt of
        None \<Rightarrow> Some (snd (CoAPMessagePayload_set m data datalen), c)
      | Some f \<Rightarrow> do {
          (ret, (dest, destlen), c) \<leftarrow> app_encrypt A f (cstring_at path 0) remote m (data, uint datalen) c;
          Some (if ret = COAP_SUCCESS then snd (CoAPMessagePayload_set m dest (word_of_int destlen)) else m, c) })"

text \<open>
  The loop over the observers, which are updated in place: the nodes passed and the nodes to come.  The result
  is the one of the last message sent, as an unsigned number.
\<close>

fun notify_loop ::
  "'e coap_environment_scheme \<Rightarrow> application \<Rightarrow> nat option \<Rightarrow> byte list \<Rightarrow> pointer \<Rightarrow> u16 \<Rightarrow> CoAPResource
     \<Rightarrow> CoapObserver list \<Rightarrow> CoapObserver list \<Rightarrow> int \<Rightarrow> CoAPIntContext \<Rightarrow> (int \<times> CoAPIntContext) option" where
  "notify_loop E A encrypt path data datalen res passed [] ret c =
     Some (ret, c\<lparr>obsserver := (obsserver c)\<lparr>nodes := passed\<rparr>\<rparr>)"
| "notify_loop E A encrypt path data datalen res passed (node # rest) ret c =
     (if p_resource_of_interest node = res_at res then do {
        (m, c) \<leftarrow> notify_message E node res c;
        let node = node\<lparr>observer_sequence_num := observer_sequence_num node + 1\<rparr>;
        (m, c) \<leftarrow> notify_payload A encrypt path (ob_remote node) m data datalen c;
        (ret, c) \<leftarrow> CoAPMessage_send E (ob_remote node) m c;
        notify_loop E A encrypt path data datalen res (passed @ [node]) rest ret c }
      else notify_loop E A encrypt path data datalen res (passed @ [node]) rest ret c)"

definition CoAPObsServer_notify ::
  "'e coap_environment_scheme \<Rightarrow> application \<Rightarrow> byte list \<Rightarrow> pointer \<Rightarrow> u16 \<Rightarrow> nat option \<Rightarrow> CoAPIntContext
     \<Rightarrow> (int \<times> CoAPIntContext) option" where
  "CoAPObsServer_notify E A path data datalen encrypt c = do {
     (res, c) \<leftarrow> CoAPResourceByPath_get path c;
     case res of
       None \<Rightarrow> Some (COAP_SUCCESS, c)
     | Some res \<Rightarrow> do {
         c \<leftarrow> HAL_MutexLock LockObsServer c;
         (ret, c) \<leftarrow> notify_loop E A encrypt path data datalen res [] (nodes (obsserver c)) COAP_SUCCESS c;
         c \<leftarrow> HAL_MutexUnlock LockObsServer c;
         Some (ret, c) } }"

end
