(* ===== verification/CoapServer.thy ===== *)
theory CoapServer
  imports CoapSend
begin

text \<open>
  The working loop of the CoAP server: received datagrams, retransmission and time-outs of
  \<open>coap_server/server/CoAPMessage.c\<close>, the life of a context in \<open>CoAPExport.c\<close>, and the interface of
  \<open>CoAPServer.c\<close>.
\<close>

subsection \<open>Responses and acknowledgements\<close>

text \<open>An acknowledgement or a reset; the handler runs with the list locked.\<close>

definition CoAPAckMessage_handle ::
  "application \<Rightarrow> CoAPMessage \<Rightarrow> CoAPIntContext \<Rightarrow> (int \<times> CoAPIntContext) option" where
  "CoAPAckMessage_handle A message c = do {
     c \<leftarrow> HAL_MutexLock LockSendList c;
     let hit = (\<lambda>node. h_msgid (sn_header node) = h_msgid (header message));
     case List.find hit (nodes (sendlist c)) of
       None \<Rightarrow> do { c \<leftarrow> HAL_MutexUnlock LockSendList c; Some (COAP_SUCCESS, c) }
     | Some node \<Rightarrow> do {
         let c = (if CoAPRespMsg (sn_header node) then c\<lparr>sendlist := list_drop_first hit (sendlist c)\<rparr>
                  else c\<lparr>sendlist := (sendlist c)\<lparr>nodes := rewrite_first hit (\<lambda>node. node\<lparr>acked := True\<rparr>) (nodes (sendlist c))\<rparr>\<rparr>);
         c \<leftarrow> (case sn_handler node of
                 None \<Rightarrow> Some c
               | Some f \<Rightarrow> app_resp A f COAP_RECV_RESP_SUC (sn_user node) (sn_remote node) None c);
         c \<leftarrow> HAL_MutexUnlock LockSendList c;
         Some (COAP_SUCCESS, c) } }"

abbreviation answered_by :: "CoAPMessage \<Rightarrow> CoAPSendNode \<Rightarrow> bool" where
  "answered_by m node \<equiv> token_matches (sn_token node) (ucast (h_tokenlen (sn_header node))) m"

text \<open>
  A response.  The node is looked at again after the handler has run; a node that is kept is still in the list,
  and has been freed when the handler cancelled it.
\<close>

definition CoAPRespMessage_handle ::
  "'e coap_environment_scheme \<Rightarrow> application \<Rightarrow> NetworkAddr \<Rightarrow> CoAPMessage \<Rightarrow> CoAPIntContext \<Rightarrow> (int \<times> CoAPIntContext) option" where
  "CoAPRespMessage_handle E A remote message c = do {
     c \<leftarrow> (if h_type (header message) = COAP_MESSAGE_TYPE_CON then do {
              (_, c) \<leftarrow> CoAPAckMessage_send E remote (h_msgid (header message)) c; Some c }
            else Some c);
     c \<leftarrow> HAL_MutexLock LockSendList c;
     case List.find (answered_by message) (nodes (sendlist c)) of
       None \<Rightarrow> do {
         c \<leftarrow> HAL_MutexUnlock LockSendList c;
         (_, c) \<leftarrow> CoAPObsClient_add E A message remote None c;
         Some (COAP_ERROR_NOT_FOUND, c) }
     | Some node \<Rightarrow> do {
         let c = (if sn_keep node = NOKEEP then c\<lparr>sendlist := list_drop_first (answered_by message) (sendlist c)\<rparr> else c);
         let message = message\<lparr>user := sn_user node\<rparr>;
         c \<leftarrow> (case sn_handler node of
                 None \<Rightarrow> HAL_MutexUnlock LockSendList c
               | Some f \<Rightarrow> do {
                   (_, c) \<leftarrow> CoAPObsClient_add E A message remote (Some node) c;
                   c \<leftarrow> HAL_MutexUnlock LockSendList c;
                   app_resp A f COAP_REQUEST_SUCCESS (user message) remote (Some message) c });
         if sn_keep node = NOKEEP \<or> sn_at node \<in> sn_at ` set (nodes (sendlist c))
         then Some (COAP_ERROR_NOT_FOUND, c) else None } }"

subsection \<open>Requests\<close>

text \<open>
  \<open>strncpy(tmp, val, len)\<close>: the value up to its first zero byte, and zeros up to \<open>len\<close>.
\<close>

definition strncpy_bytes :: "byte list \<Rightarrow> byte list" where
  "strncpy_bytes bs = (let s = takeWhile (\<lambda>b. b \<noteq> 0) bs in s @ replicate (length bs - length s) 0)"

text \<open>The path of a request: a slash and the value of every path option for which there is room.\<close>

fun path_loop :: "CoAPMessage \<Rightarrow> nat \<Rightarrow> nat \<Rightarrow> byte list \<Rightarrow> nat \<Rightarrow> byte list option" where
  "path_loop m index 0 path tmp = Some path"
| "path_loop m index (Suc n) path tmp = do {
     opt \<leftarrow> option_at m index;
     if opt_num opt = COAP_OPTION_URI_PATH \<and> tmp + unat (opt_len opt) \<le> COAP_MSG_MAX_PATH_LEN - 1 then do {
       path \<leftarrow> wr_bytes path tmp [0x2F];
       bs \<leftarrow> deref (opt_val opt) (unat (opt_len opt));
       path \<leftarrow> wr_bytes path (tmp + 1) (strncpy_bytes bs);
       path_loop m (Suc index) n path (tmp + 1 + unat (opt_len opt)) }
     else path_loop m (Suc index) n path tmp }"

definition request_path :: "CoAPMessage \<Rightarrow> byte list option" where
  "request_path m = path_loop m 0 (unat (optcount m)) (replicate COAP_MSG_MAX_PATH_LEN 0) 0"

text \<open>\<open>resource->permission & (1 << (code - 1))\<close>, for the codes of requests.\<close>

definition permitted :: "CoAPResource \<Rightarrow> byte \<Rightarrow> bool" where
  "permitted res code \<longleftrightarrow> bit (permission res) (unat code - 1)"

definition CoAPRequestMessage_handle ::
  "'e coap_environment_scheme \<Rightarrow> application \<Rightarrow> NetworkAddr \<Rightarrow> CoAPMessage \<Rightarrow> CoAPIntContext \<Rightarrow> (int \<times> CoAPIntContext) option" where
  "CoAPRequestMessage_handle E A remote message c = do {
     path \<leftarrow> request_path message;
     (res, c) \<leftarrow> CoAPResourceByPath_get path c;
     case res of
       None \<Rightarrow> CoAPErrRespMessage_send E remote message COAP_MSG_CODE_404_NOT_FOUND c
     | Some res \<Rightarrow>
         (case callback res of
            None \<Rightarrow> CoAPErrRespMessage_send E remote message COAP_MSG_CODE_405_METHOD_NOT_ALLOWED c
          | Some f \<Rightarrow>
              if permitted res (h_code (header message)) then do {
                c \<leftarrow> (if h_type (header message) = COAP_MESSAGE_TYPE_CON then do {
                        (_, c) \<leftarrow> CoAPRequestMessage_ack_send E remote (h_msgid (header message)) c; Some c }
                      else Some c);
                c \<leftarrow> app_recv A f (cstring_at path 0) remote message c;
                Some (COAP_SUCCESS, c) }
              else CoAPErrRespMessage_send E remote message COAP_MSG_CODE_405_METHOD_NOT_ALLOWED c) }"

subsection \<open>Datagrams\<close>

text \<open>The result of the deserializer is not looked at.\<close>

definition CoAPMessage_handle ::
  "'e coap_environment_scheme \<Rightarrow> application \<Rightarrow> NetworkAddr \<Rightarrow> byte list \<Rightarrow> u16 \<Rightarrow> CoAPIntContext \<Rightarrow> CoAPIntContext option" where
  "CoAPMessage_handle E A remote buf datalen c = do {
     (ret, message) \<leftarrow> CoAPDeserialize_Message zero_message (Some buf) (uint datalen);
     _ \<leftarrow> CoAPMessage_dump message;
     if COAPAckMsg (header message) \<or> CoAPResetMsg (header message) then do {
       (_, c) \<leftarrow> CoAPAckMessage_handle A message c; Some c }
     else if CoAPRespMsg (header message) then do {
       (_, c) \<leftarrow> CoAPRespMessage_handle E A remote message c; Some c }
     else if CoAPPingMsg (header message) then do {
       (_, c) \<leftarrow> CoAPRestMessage_send E remote (h_msgid (header message)) c; Some c }
     else if CoAPReqMsg (header message) then do {
       (_, c) \<leftarrow> CoAPRequestMessage_handle E A remote message c; Some c }
     else Some c }"

text \<open>
  The loop reads until nothing is left.  A sender whose address is the own one is skipped: also a failed read,
  which leaves the address empty, when the own address is empty.  Not returning is the value None.
\<close>

partial_function (option) process_loop ::
  "'e coap_environment_scheme \<Rightarrow> application \<Rightarrow> cstring \<Rightarrow> u32 \<Rightarrow> CoAPIntContext \<Rightarrow> (int \<times> CoAPIntContext) option" where
  "process_loop E A ip_addr timeout c =
     (case CoAPNetwork_read E timeout c of (len, remote, c) \<Rightarrow>
        if ip_addr = cstring_at (addr remote) 0 then process_loop E A ip_addr timeout c
        else if 0 < len then do {
          c \<leftarrow> CoAPMessage_handle E A remote (recvbuf c) (word_of_int len) c;
          process_loop E A ip_addr timeout c }
        else Some (len, c))"

definition HAL_Wifi_Get_IP :: "'e coap_environment_scheme \<Rightarrow> CoAPIntContext \<Rightarrow> cstring \<times> CoAPIntContext" where
  "HAL_Wifi_Get_IP E c = (env_local_ip E (n_local_ip c), c\<lparr>n_local_ip := Suc (n_local_ip c)\<rparr>)"

definition CoAPMessage_process ::
  "'e coap_environment_scheme \<Rightarrow> application \<Rightarrow> u32 \<Rightarrow> CoAPIntContext \<Rightarrow> (int \<times> CoAPIntContext) option" where
  "CoAPMessage_process E A timeout c = (case HAL_Wifi_Get_IP E c of (ip_addr, c) \<Rightarrow> process_loop E A ip_addr timeout c)"

subsection \<open>Time-outs and retransmission\<close>

definition expired_node :: "u64 \<Rightarrow> CoAPSendNode \<Rightarrow> bool" where
  "expired_node tick node \<longleftrightarrow> sn_keep node = NOKEEP \<and> \<not> (0 < retrans_count node \<or> tick \<le> sn_timeout node)"

partial_function (option) check_timeout_loop ::
  "application \<Rightarrow> u64 \<Rightarrow> CoAPIntContext \<Rightarrow> CoAPIntContext option" where
  "check_timeout_loop A tick c = do {
     c \<leftarrow> HAL_MutexLock LockSendList c;
     case List.find (expired_node tick) (nodes (sendlist c)) of
       None \<Rightarrow> HAL_MutexUnlock LockSendList c
     | Some node \<Rightarrow> do {
         let c = c\<lparr>sendlist := list_drop_first (expired_node tick) (sendlist c)\<rparr>;
         (_, c) \<leftarrow> CoapObsServerAll_delete (sn_remote node) c;
         c \<leftarrow> HAL_MutexUnlock LockSendList c;
         c \<leftarrow> (case sn_handler node of
                 None \<Rightarrow> Some c
               | Some f \<Rightarrow> app_resp A f COAP_RECV_RESP_TIMEOUT (sn_user node) (sn_remote node) None c);
         check_timeout_loop A tick c } }"

definition Check_timeout :: "'e coap_environment_scheme \<Rightarrow> application \<Rightarrow> CoAPIntContext \<Rightarrow> CoAPIntContext option" where
  "Check_timeout E A c = (case HAL_UptimeMs E c of (tick, c) \<Rightarrow> check_timeout_loop A tick c)"

text \<open>One node: it is sent again unless it was acknowledged, and its next time is set.\<close>

definition next_timeout :: "u64 \<Rightarrow> CoAPSendNode \<Rightarrow> CoAPSendNode" where
  "next_timeout tick node =
     (let tv = word_of_int (uint (timeout_val node) * 3 div 2); n = retrans_count node - 1
      in node\<lparr>timeout_val := tv, retrans_count := n,
              sn_timeout := (if n = 0 then tick + ucast COAP_ACK_TIMEOUT else tick + ucast tv)\<rparr>)"

fun retransmit_loop ::
  "'e coap_environment_scheme \<Rightarrow> u64 \<Rightarrow> CoAPSendNode list \<Rightarrow> CoAPIntContext \<Rightarrow> (CoAPSendNode list \<times> CoAPIntContext) option" where
  "retransmit_loop E tick [] c = Some ([], c)"
| "retransmit_loop E tick (node # rest) c =
     (if tick < sn_timeout node \<or> retrans_count node = 0 then do {
        (rest, c) \<leftarrow> retransmit_loop E tick rest c;
        Some (node # rest, c) }
      else do {
        c \<leftarrow> (if acked node then Some c
              else do {
                data \<leftarrow> rd_block (sn_message node) 0 (unat (msglen node));
                Some (snd (CoAPNetwork_write E (sn_remote node) data c)) });
        (rest, c) \<leftarrow> retransmit_loop E tick rest c;
        Some (next_timeout tick node # rest, c) })"

definition Retansmit :: "'e coap_environment_scheme \<Rightarrow> CoAPIntContext \<Rightarrow> CoAPIntContext option" where
  "Retansmit E c =
     (case HAL_UptimeMs E c of (tick, c) \<Rightarrow> do {
        c \<leftarrow> HAL_MutexLock LockSendList c;
        (ns, c) \<leftarrow> retransmit_loop E tick (nodes (sendlist c)) c;
        HAL_MutexUnlock LockSendList (c\<lparr>sendlist := (sendlist c)\<lparr>nodes := ns\<rparr>\<rparr>) })"

text \<open>The yield mutex exists while the server runs.\<close>

definition CoAPMessage_cycle ::
  "'e coap_environment_scheme \<Rightarrow> application \<Rightarrow> CoAPIntContext \<Rightarrow> (int \<times> CoAPIntContext) option" where
  "CoAPMessage_cycle E A c = do {
     c \<leftarrow> HAL_MutexLock LockCoapYield c;
     (res, c) \<leftarrow> CoAPMessage_process E A (waittime c) c;
     c \<leftarrow> Retansmit E c;
     c \<leftarrow> Check_timeout E A c;
     c \<leftarrow> HAL_MutexUnlock LockCoapYield c;
     Some (res, if res < 0 then HAL_SleepMs 20 c else c) }"

subsection \<open>The life of a context\<close>

record CoAPInitParam =
  send_maxcount :: byte
  obs_maxcount :: byte
  init_port :: u16
  init_waittime :: u32
  res_maxcount :: byte

definition sizeof_CoAPIntContext :: int where "sizeof_CoAPIntContext = 96"
definition sizeof_NetworkConf :: int where "sizeof_NetworkConf = 12"

definition CoAPNetwork_init ::
  "'e coap_environment_scheme \<Rightarrow> u16 \<Rightarrow> CoAPIntContext \<Rightarrow> int option \<times> CoAPIntContext" where
  "CoAPNetwork_init E p c =
     (case HAL_Malloc E sizeof_NetworkConf c of (mem, c) \<Rightarrow>
        if \<not> mem then (None, c)
        else let fd = env_udp_create E (n_udp_create c) p; c = c\<lparr>n_udp_create := Suc (n_udp_create c)\<rparr>
             in (if fd = -1 then None else Some fd, c))"

text \<open>
  \<open>False\<close> is the return of NULL.  Before the lists are set up, the clean-up at \<open>err\<close> locks mutexes that do not
  exist, which is None here.
\<close>

definition CoAPContext_create ::
  "'e coap_environment_scheme \<Rightarrow> CoAPInitParam \<Rightarrow> CoAPIntContext \<Rightarrow> (bool \<times> CoAPIntContext) option" where
  "CoAPContext_create E param c = do {
     let (mem, c) = HAL_Malloc E sizeof_CoAPIntContext c;
     if \<not> mem then Some (False, c)
     else do {
       let c = c\<lparr>message_id := 1\<rparr>;
       let (mem, c) = HAL_Malloc E (int COAP_MSG_MAX_PDU_LEN) c;
       if \<not> mem then None
       else do {
         let c = c\<lparr>recvbuf := replicate COAP_MSG_MAX_PDU_LEN 0,
                    waittime := (if init_waittime param = 0 then 2000 else init_waittime param)\<rparr>;
         let (created, c) = HAL_MutexCreate E c;
         if \<not> created then None
         else do {
           let (created, c) = HAL_MutexCreate E c;
           if \<not> created then None
           else do {
             c \<leftarrow> HAL_MutexLock LockSendList c;
             let c = c\<lparr>sendlist := \<lparr>nodes = [], list_count = 0, maxcount = (if send_maxcount param \<noteq> 0 then send_maxcount param else 8)\<rparr>\<rparr>;
             c \<leftarrow> HAL_MutexUnlock LockSendList c;
             (_, c) \<leftarrow> CoAPResource_init E (if res_maxcount param = 0 then 8 else res_maxcount param) c;
             (_, c) \<leftarrow> CoAPObsServer_init E (if obs_maxcount param = 0 then 8 else obs_maxcount param) c;
             (_, c) \<leftarrow> CoAPObsClient_init E (if obs_maxcount param = 0 then 8 else obs_maxcount param) c;
             let (network, c) = CoAPNetwork_init E (init_port param) c;
             let c = c\<lparr>p_network := network\<rparr>;
             if network = None then do {
               (_, c) \<leftarrow> CoAPObsServer_deinit c;
               (_, c) \<leftarrow> CoAPObsClient_deinit c;
               (_, c) \<leftarrow> CoAPResource_deinit c;
               Some (False, c) }
             else Some (True, c) } } } } }"

definition CoAPContext_free :: "CoAPIntContext \<Rightarrow> CoAPIntContext option" where
  "CoAPContext_free c = do {
     let c = c\<lparr>p_network := None\<rparr>;
     c \<leftarrow> HAL_MutexLock LockSendList c;
     let c = c\<lparr>sendlist := (sendlist c)\<lparr>nodes := []\<rparr>\<rparr>;
     c \<leftarrow> HAL_MutexUnlock LockSendList c;
     (_, c) \<leftarrow> CoAPObsServer_deinit c;
     (_, c) \<leftarrow> CoAPObsClient_deinit c;
     (_, c) \<leftarrow> CoAPResource_deinit c;
     Some c }"

subsection \<open>The interface of the server\<close>

text \<open>The token counts up from \<open>COAP_INIT_TOKEN\<close> and is stored in little-endian order.\<close>

definition CoAPServerToken_get :: "CoAPIntContext \<Rightarrow> byte list \<times> CoAPIntContext" where
  "CoAPServerToken_get c =
     (let v = token_value c
      in ([ucast (v AND 0xFF), ucast (drop_bit 8 (v AND 0xFF00)), ucast (drop_bit 16 (v AND 0xFF0000)),
           ucast (drop_bit 24 (v AND 0xFF000000))], c\<lparr>token_value := v + 1\<rparr>))"

definition add_str ::
  "'e coap_environment_scheme \<Rightarrow> CoAPMessage \<Rightarrow> u16 \<Rightarrow> cstring \<Rightarrow> CoAPIntContext \<Rightarrow> (CoAPMessage \<times> CoAPIntContext) option" where
  "add_str E m optnum data c = do {
     let (mem, c) = (if optcount m < of_nat COAP_MSG_MAX_OPTION_NUM then HAL_Malloc E (int (length data)) c else (True, c));
     (_, m) \<leftarrow> CoAPStrOption_add mem m optnum (Some data) (of_nat (length data));
     Some (m, c) }"

text \<open>The scan of the address: \<open>seg\<close> is the text from \<open>pstr\<close> to \<open>ptr\<close>.\<close>

fun uri_loop ::
  "'e coap_environment_scheme \<Rightarrow> cstring \<Rightarrow> cstring \<Rightarrow> CoAPMessage \<Rightarrow> CoAPIntContext \<Rightarrow> (CoAPMessage \<times> CoAPIntContext) option" where
  "uri_loop E [] seg m c = Some (m, c)"
| "uri_loop E (ch # cs) seg m c = do {
     (m, c) \<leftarrow> (if ch = 0x2F \<and> seg \<noteq> [] then add_str E m COAP_OPTION_URI_PATH seg c else Some (m, c));
     let seg = (if ch = 0x2F then [] else seg @ [ch]);
     (m, c) \<leftarrow> (if cs = [] \<and> seg \<noteq> [] then add_str E m COAP_OPTION_URI_PATH seg c else Some (m, c));
     uri_loop E cs seg m c }"

definition CoAPServerPath_2_option ::
  "'e coap_environment_scheme \<Rightarrow> cstring \<Rightarrow> CoAPMessage \<Rightarrow> CoAPIntContext \<Rightarrow> (int \<times> CoAPMessage \<times> CoAPIntContext) option" where
  "CoAPServerPath_2_option E uri m c =
     (if COAP_MSG_MAX_PATH_LEN \<le> length uri then Some (COAP_ERROR_INVALID_LENGTH, m, c)
      else do { (m, c) \<leftarrow> uri_loop E uri [] m c; Some (COAP_SUCCESS, m, c) })"

definition CoAPServer_register ::
  "'e coap_environment_scheme \<Rightarrow> bool \<Rightarrow> byte list \<Rightarrow> nat option \<Rightarrow> CoAPIntContext \<Rightarrow> (int \<times> byte list \<times> CoAPIntContext) option" where
  "CoAPServer_register E writable uri cb c = CoAPResource_register E writable uri 1 COAP_CT_APP_JSON 60 cb c"

text \<open>The pointers of the two sending calls are not NULL; the result of the first also has the message identifier.\<close>

definition CoAPServerMultiCast_send ::
  "'e coap_environment_scheme \<Rightarrow> NetworkAddr \<Rightarrow> cstring \<Rightarrow> byte list \<Rightarrow> u16 \<Rightarrow> nat option \<Rightarrow> CoAPIntContext
     \<Rightarrow> (int \<times> u16 \<times> CoAPIntContext) option" where
  "CoAPServerMultiCast_send E remote uri buff len cb c = do {
     let (_, m) = CoAPMessageType_set CoAPMessage_init (ucast COAP_MESSAGE_TYPE_NON);
     let m = CoAPMessageCode_set m COAP_MSG_CODE_POST;
     (i, c) \<leftarrow> CoAPMessageId_gen c;
     let m = CoAPMessageId_set m i;
     let (tok, c) = CoAPServerToken_get c;
     (_, m) \<leftarrow> CoAPMessageToken_set m (Some tok) (of_nat (length tok));
     let m = CoAPMessageHandler_set m cb;
     let (_, m) = CoAPMessageKeep_Set m 1;
     (_, m, c) \<leftarrow> CoAPServerPath_2_option E uri m c;
     (m, c) \<leftarrow> add_uint E m COAP_OPTION_CONTENT_FORMAT COAP_CT_APP_JSON c;
     let (_, m) = CoAPMessagePayload_set m (Some buff) len;
     let msgid = h_msgid (header m);
     (ret, c) \<leftarrow> CoAPMessage_send E remote m c;
     Some (ret, msgid, c) }"

definition CoAPServerResp_send ::
  "'e coap_environment_scheme \<Rightarrow> u32 \<Rightarrow> NetworkAddr \<Rightarrow> byte list \<Rightarrow> u16 \<Rightarrow> CoAPMessage \<Rightarrow> byte list \<Rightarrow> nat option \<Rightarrow> int
     \<Rightarrow> CoAPIntContext \<Rightarrow> (int \<times> u16 \<times> CoAPIntContext) option" where
  "CoAPServerResp_send E stale remote buff len request paths cb qos c = do {
     let (_, m) = CoAPMessageType_set CoAPMessage_init (ucast (if qos = 0 then COAP_MESSAGE_TYPE_NON else COAP_MESSAGE_TYPE_CON));
     let m = CoAPMessageId_set (CoAPMessageCode_set m COAP_MSG_CODE_205_CONTENT) (h_msgid (header request));
     (_, m) \<leftarrow> CoAPMessageToken_set m (Some (token request)) (ucast (h_tokenlen (header request)));
     let m = CoAPMessageHandler_set m cb;
     let msgid = h_msgid (header m);
     (ret, observe) \<leftarrow> CoAPUintOption_get request COAP_OPTION_OBSERVE 0;
     (m, c) \<leftarrow> (if ret = COAP_SUCCESS \<and> observe = 0 then do {
                  (_, c) \<leftarrow> CoAPObsServer_add E stale paths remote request c;
                  add_uint E m COAP_OPTION_OBSERVE 0 c }
                else Some (m, c));
     (m, c) \<leftarrow> add_uint E m COAP_OPTION_CONTENT_FORMAT COAP_CT_APP_JSON c;
     let (_, m) = CoAPMessagePayload_set m (Some buff) len;
     (ret, c) \<leftarrow> CoAPMessage_send E remote m c;
     Some (ret, msgid, c) }"

end
