(* ===== verification/CoapInvariant.thy ===== *)
theory CoapInvariant
  imports CoapServer
begin

text \<open>
  The invariant of a CoAP context, and that every operation keeps it: the counters of the lists agree with
  the lists and stay within their limits, addresses are used once, tokens, digests and stored datagrams
  have their sizes, and a message waiting for its response has the time-out that belongs to the
  number of tries it has left.
\<close>

subsection \<open>The invariant\<close>

definition list_ok :: "'n CoAPList \<Rightarrow> bool" where
  "list_ok l \<longleftrightarrow> unat (list_count l) = length (nodes l) \<and> length (nodes l) \<le> unat (maxcount l)"

text \<open>The time-out with \<open>n\<close> tries made: every try makes it half as long again, rounded down.\<close>

fun retry_timeout :: "nat \<Rightarrow> nat" where
  "retry_timeout 0 = 600"
| "retry_timeout (Suc n) = retry_timeout n * 3 div 2"

definition send_node_ok :: "CoAPSendNode \<Rightarrow> bool" where
  "send_node_ok n \<longleftrightarrow> length (sn_token n) = COAP_MSG_MAX_TOKEN_LEN \<and> length (sn_message n) = unat (msglen n)
     \<and> retrans_count n \<le> COAP_MAX_RETRY_COUNT
     \<and> (0 < retrans_count n \<longrightarrow> unat (timeout_val n) = retry_timeout (8 - unat (retrans_count n)))"

definition observer_ok :: "CoapObserver \<Rightarrow> bool" where
  "observer_ok n \<longleftrightarrow> length (ob_token n) = COAP_MSG_MAX_TOKEN_LEN \<and> ob_tokenlen n \<le> of_nat COAP_MSG_MAX_TOKEN_LEN"

definition observable_ok :: "CoAPObservable \<Rightarrow> bool" where
  "observable_ok n \<longleftrightarrow> length (oc_token n) = COAP_MSG_MAX_TOKEN_LEN \<and> oc_tokenlen n \<le> of_nat COAP_MSG_MAX_TOKEN_LEN"

definition resource_ok :: "CoAPResource \<Rightarrow> bool" where
  "resource_ok r \<longleftrightarrow> length (res_path r) = COAP_PATH_DEFAULT_SUM_LEN \<and> (path_type r = PATH_FILTER \<longleftrightarrow> filter_path r \<noteq> None)"

definition addresses_ok :: "nat \<Rightarrow> nat list \<Rightarrow> bool" where
  "addresses_ok next ats \<longleftrightarrow> distinct ats \<and> (\<forall>a \<in> set ats. a < next)"

definition ctx_ok :: "CoAPIntContext \<Rightarrow> bool" where
  "ctx_ok c \<longleftrightarrow> list_ok (sendlist c) \<and> list_ok (obsserver c) \<and> list_ok (obsclient c) \<and> list_ok (resource c)
     \<and> list_all send_node_ok (nodes (sendlist c)) \<and> list_all observer_ok (nodes (obsserver c))
     \<and> list_all observable_ok (nodes (obsclient c)) \<and> list_all resource_ok (nodes (resource c))
     \<and> addresses_ok (next_at c) (map sn_at (nodes (sendlist c))) \<and> addresses_ok (next_at c) (map res_at (nodes (resource c)))
     \<and> message_id c \<noteq> 0"

text \<open>The functions of the application keep it; the encryption runs with the observers locked.\<close>

definition app_keeps :: "application \<Rightarrow> bool" where
  "app_keeps A \<longleftrightarrow>
     (\<forall>f r u remote m c. ctx_ok c \<longrightarrow> ok ctx_ok (app_resp A f r u remote m c))
     \<and> (\<forall>f path remote m c. ctx_ok c \<longrightarrow> ok ctx_ok (app_recv A f path remote m c))
     \<and> (\<forall>f path remote m d c. ctx_ok c \<longrightarrow> ok (\<lambda>(_, _, c'). ctx_ok c' \<and> obsserver c' = obsserver c) (app_encrypt A f path remote m d c))"

subsection \<open>Lists\<close>

lemma list_push_ok: "list_ok l \<Longrightarrow> list_count l < maxcount l \<Longrightarrow> list_ok (list_push n l)"
proof -
  assume ok: "list_ok l" and less: "list_count l < maxcount l"
  have "unat (list_count l) < unat (maxcount l)" "unat (maxcount l) < 2 ^ 8"
    using less unsigned_less [of "maxcount l"] by (simp_all add: word_less_nat_alt)
  then have "unat (list_count l + 1) = unat (list_count l) + 1" by (simp add: unat_word_ariths)
  then show ?thesis using ok \<open>unat (list_count l) < unat (maxcount l)\<close> by (simp add: list_ok_def list_push_def)
qed

lemma nodes_list_push [simp]: "nodes (list_push n l) = nodes l @ [n]"
  by (simp add: list_push_def)

lemma remove_first_subset: "set (remove_first P ns) \<subseteq> set ns"
  by (induction ns) auto

lemma length_remove_first: "\<exists>n \<in> set ns. P n \<Longrightarrow> Suc (length (remove_first P ns)) = length ns"
  by (induction ns) auto

lemma map_remove_first_distinct: "distinct (map f ns) \<Longrightarrow> distinct (map f (remove_first P ns))"
proof (induction ns)
  case (Cons n ns)
  then show ?case using remove_first_subset [of P ns] by auto
qed simp

lemma unat_minus_le: "n \<le> unat (w :: byte) \<Longrightarrow> unat (w - of_nat n) = unat w - n"
proof -
  assume "n \<le> unat w"
  then have "unat (of_nat n :: byte) = n" by (rule le_unat_uoi)
  then show ?thesis using \<open>n \<le> unat w\<close> by (simp add: unat_sub word_le_nat_alt)
qed

lemma list_drop_first_ok: "list_ok l \<Longrightarrow> list_ok (list_drop_first P l)"
proof (cases "\<exists>n \<in> set (nodes l). P n")
  case True
  assume ok: "list_ok l"
  have "Suc (length (remove_first P (nodes l))) = length (nodes l)" by (rule length_remove_first [OF True])
  then have "unat (list_count l - 1) = length (remove_first P (nodes l))"
    using ok unat_minus_le [of 1 "list_count l"] by (auto simp: list_ok_def)
  then show ?thesis using ok True length_remove_first [OF True] by (auto simp: list_ok_def list_drop_first_def)
qed (auto simp: list_drop_first_def)

lemma list_drop_all_ok: "list_ok l \<Longrightarrow> list_ok (list_drop_all P l)"
proof -
  assume ok: "list_ok l"
  have len: "length (filter P (nodes l)) + length (filter (\<lambda>n. \<not> P n) (nodes l)) = length (nodes l)"
    by (rule sum_length_filter_compl)
  then have "unat (list_count l - of_nat (length (filter P (nodes l)))) = length (filter (\<lambda>n. \<not> P n) (nodes l))"
    using ok unat_minus_le [of "length (filter P (nodes l))" "list_count l"] by (auto simp: list_ok_def)
  then show ?thesis using ok len by (auto simp: list_ok_def list_drop_all_def)
qed

lemma nodes_drop_first: "nodes (list_drop_first P l) = remove_first P (nodes l)"
proof -
  have "\<forall>n \<in> set ns. \<not> P n \<Longrightarrow> remove_first P ns = ns" for ns :: "'a list" by (induction ns) auto
  then show ?thesis by (auto simp: list_drop_first_def)
qed

lemma nodes_drop_all [simp]: "nodes (list_drop_all P l) = filter (\<lambda>n. \<not> P n) (nodes l)"
  by (simp add: list_drop_all_def)

lemma list_all_remove_first: "list_all Q ns \<Longrightarrow> list_all Q (remove_first P ns)"
  using remove_first_subset [of P ns] by (auto simp: list_all_iff)

lemma addresses_remove_first: "addresses_ok next (map f ns) \<Longrightarrow> addresses_ok next (map f (remove_first P ns))"
  using remove_first_subset [of P ns] map_remove_first_distinct [of f ns P] by (auto simp: addresses_ok_def)

lemma addresses_filter: "addresses_ok next (map f ns) \<Longrightarrow> addresses_ok next (map f (filter P ns))"
  by (auto simp: addresses_ok_def distinct_map_filter)

lemma addresses_push: "addresses_ok next ats \<Longrightarrow> addresses_ok (Suc next) (ats @ [next])"
  by (auto simp: addresses_ok_def)

lemma addresses_Suc: "addresses_ok next ats \<Longrightarrow> addresses_ok (Suc next) ats"
  by (auto simp: addresses_ok_def less_SucI)

lemma list_ok_nodes: "list_ok l \<Longrightarrow> length ns = length (nodes l) \<Longrightarrow> list_ok (l\<lparr>nodes := ns\<rparr>)"
  by (simp add: list_ok_def)

lemma map_rewrite_first: "(\<And>n. g (f n) = g n) \<Longrightarrow> map g (rewrite_first P f ns) = map g ns"
  by (induction ns) auto

lemma list_all_rewrite_first: "list_all Q ns \<Longrightarrow> (\<And>n. Q n \<Longrightarrow> Q (f n)) \<Longrightarrow> list_all Q (rewrite_first P f ns)"
  by (induction ns) auto

lemma length_rewrite_first [simp]: "length (rewrite_first P f ns) = length ns"
  by (induction ns) auto

lemma rewrite_first_opt_ok:
  "rewrite_first_opt P f ns = Some ns' \<Longrightarrow> list_all Q ns \<Longrightarrow> (\<And>n n'. Q n \<Longrightarrow> f n = Some n' \<Longrightarrow> Q n')
     \<Longrightarrow> list_all Q ns' \<and> length ns' = length ns"
  by (induction ns arbitrary: ns') (auto split: if_splits simp: bind_eq_Some_conv)

subsection \<open>Frames\<close>

lemma ctx_ok_hal [simp]:
  "ctx_ok (c\<lparr>held := h\<rparr>) = ctx_ok c" "ctx_ok (c\<lparr>n_uptime := n\<rparr>) = ctx_ok c" "ctx_ok (c\<lparr>n_malloc := n\<rparr>) = ctx_ok c"
  "ctx_ok (c\<lparr>n_mutex := n\<rparr>) = ctx_ok c" "ctx_ok (c\<lparr>effects := es\<rparr>) = ctx_ok c"
  "ctx_ok (c\<lparr>n_sendto := n\<rparr>) = ctx_ok c" "ctx_ok (c\<lparr>n_recvfrom := n\<rparr>) = ctx_ok c"
  "ctx_ok (c\<lparr>n_local_ip := n\<rparr>) = ctx_ok c" "ctx_ok (c\<lparr>datagrams := ds\<rparr>) = ctx_ok c" "ctx_ok (c\<lparr>recvbuf := b\<rparr>) = ctx_ok c"
  "ctx_ok (c\<lparr>token_value := t\<rparr>) = ctx_ok c" "ctx_ok (c\<lparr>p_network := nw\<rparr>) = ctx_ok c" "ctx_ok (c\<lparr>waittime := w\<rparr>) = ctx_ok c"
  "ctx_ok (c\<lparr>n_udp_create := n\<rparr>) = ctx_ok c"
  by (simp_all add: ctx_ok_def)

subsection \<open>Every operation keeps the invariant\<close>

abbreviation keeps :: "('r \<times> CoAPIntContext) option \<Rightarrow> bool" where
  "keeps m \<equiv> ok (\<lambda>(_, c). ctx_ok c) m"

named_theorems coap_keeps \<open>operations of the CoAP server keep the invariant\<close>

lemma lock_keeps [vcg]: "ctx_ok c \<Longrightarrow> (\<And>c'. ctx_ok c' \<Longrightarrow> next_at c' = next_at c \<Longrightarrow> P c') \<Longrightarrow> ok P (HAL_MutexLock m c)"
  by (simp add: HAL_MutexLock_def)

lemma unlock_keeps [vcg]: "ctx_ok c \<Longrightarrow> (\<And>c'. ctx_ok c' \<Longrightarrow> P c') \<Longrightarrow> ok P (HAL_MutexUnlock m c)"
  by (simp add: HAL_MutexUnlock_def)

lemma case_malloc:
  "ctx_ok c \<Longrightarrow> (\<And>mem c'. ctx_ok c' \<Longrightarrow> obsclient c' = obsclient c \<Longrightarrow> obsserver c' = obsserver c \<Longrightarrow> ok P (f mem c')) \<Longrightarrow> ok P (case HAL_Malloc E sz c of (mem, c) \<Rightarrow> f mem c)"
  by (simp add: HAL_Malloc_def)

lemma case_uptime:
  "ctx_ok c \<Longrightarrow> (\<And>t c'. ctx_ok c' \<Longrightarrow> ok P (f t c')) \<Longrightarrow> ok P (case HAL_UptimeMs E c of (t, c) \<Rightarrow> f t c)"
  by (simp add: HAL_UptimeMs_def)

lemma case_mutex:
  "ctx_ok c \<Longrightarrow> (\<And>t c'. ctx_ok c' \<Longrightarrow> ok P (f t c')) \<Longrightarrow> ok P (case HAL_MutexCreate E c of (t, c) \<Rightarrow> f t c)"
  by (simp add: HAL_MutexCreate_def)

lemma case_write:
  "ctx_ok c \<Longrightarrow> (\<And>rc c'. ctx_ok c' \<Longrightarrow> obsserver c' = obsserver c \<Longrightarrow> ok P (f rc c')) \<Longrightarrow> ok P (case CoAPNetwork_write E remote data c of (rc, c) \<Rightarrow> f rc c)"
  by (simp add: CoAPNetwork_write_def Let_def)


lemmas hal_pairs = case_malloc case_uptime case_mutex case_write

text \<open>Updates of one list.\<close>

lemma ctx_ok_sendlist:
  "ctx_ok c \<Longrightarrow> list_ok l \<Longrightarrow> list_all send_node_ok (nodes l) \<Longrightarrow> addresses_ok (next_at c) (map sn_at (nodes l))
     \<Longrightarrow> ctx_ok (c\<lparr>sendlist := l\<rparr>)"
  by (simp add: ctx_ok_def)

lemma ctx_ok_obsserver:
  "ctx_ok c \<Longrightarrow> list_ok l \<Longrightarrow> list_all observer_ok (nodes l) \<Longrightarrow> ctx_ok (c\<lparr>obsserver := l\<rparr>)"
  by (simp add: ctx_ok_def)

lemma ctx_ok_obsclient:
  "ctx_ok c \<Longrightarrow> list_ok l \<Longrightarrow> list_all observable_ok (nodes l) \<Longrightarrow> ctx_ok (c\<lparr>obsclient := l\<rparr>)"
  by (simp add: ctx_ok_def)

lemma ctx_ok_resource:
  "ctx_ok c \<Longrightarrow> list_ok l \<Longrightarrow> list_all resource_ok (nodes l) \<Longrightarrow> addresses_ok (next_at c) (map res_at (nodes l))
     \<Longrightarrow> ctx_ok (c\<lparr>resource := l\<rparr>)"
  by (simp add: ctx_ok_def)

lemma ctx_ok_next: "ctx_ok c \<Longrightarrow> ctx_ok (c\<lparr>next_at := Suc (next_at c)\<rparr>)"
  by (simp add: ctx_ok_def addresses_Suc)

lemma ctx_okD:
  assumes "ctx_ok c"
  shows "list_ok (sendlist c)" "list_ok (obsserver c)" "list_ok (obsclient c)" "list_ok (resource c)"
    "list_all send_node_ok (nodes (sendlist c))" "list_all observer_ok (nodes (obsserver c))"
    "list_all observable_ok (nodes (obsclient c))" "list_all resource_ok (nodes (resource c))"
    "addresses_ok (next_at c) (map sn_at (nodes (sendlist c)))" "addresses_ok (next_at c) (map res_at (nodes (resource c)))"
    "message_id c \<noteq> 0"
  using assms by (simp_all add: ctx_ok_def)

lemma ctx_ok_drops:
  assumes "ctx_ok c"
  shows "ctx_ok (c\<lparr>sendlist := list_drop_first P (sendlist c)\<rparr>)" "ctx_ok (c\<lparr>sendlist := list_drop_all P (sendlist c)\<rparr>)"
    "ctx_ok (c\<lparr>obsserver := list_drop_first Q (obsserver c)\<rparr>)" "ctx_ok (c\<lparr>obsserver := list_drop_all Q (obsserver c)\<rparr>)"
    "ctx_ok (c\<lparr>obsclient := list_drop_first R (obsclient c)\<rparr>)"
proof -
  note d = ctx_okD [OF assms]
  have filt: "list_all S ns \<Longrightarrow> list_all S (filter T ns)" for S T and ns :: "'x list" by (auto simp: list_all_iff)
  show "ctx_ok (c\<lparr>sendlist := list_drop_first P (sendlist c)\<rparr>)" "ctx_ok (c\<lparr>sendlist := list_drop_all P (sendlist c)\<rparr>)"
    by (intro ctx_ok_sendlist assms list_drop_first_ok list_drop_all_ok d;
        simp add: nodes_drop_first list_all_remove_first addresses_remove_first addresses_filter filt d)+
  show "ctx_ok (c\<lparr>obsserver := list_drop_first Q (obsserver c)\<rparr>)" "ctx_ok (c\<lparr>obsserver := list_drop_all Q (obsserver c)\<rparr>)"
    by (intro ctx_ok_obsserver assms list_drop_first_ok list_drop_all_ok d;
        simp add: nodes_drop_first list_all_remove_first filt d)+
  show "ctx_ok (c\<lparr>obsclient := list_drop_first R (obsclient c)\<rparr>)"
    by (intro ctx_ok_obsclient assms list_drop_first_ok d; simp add: nodes_drop_first list_all_remove_first d)
qed

lemma minus_one_u16: "(w :: u16) + 1 = 0 \<Longrightarrow> w = 65535"
proof -
  assume "w + 1 = 0"
  then have "w = - 1" by (simp add: eq_neg_iff_add_eq_0)
  then show ?thesis by simp
qed

lemma message_id_keeps [coap_keeps]: "ctx_ok c \<Longrightarrow> keeps (CoAPMessageId_gen c)"
  using minus_one_u16 [of "message_id c"]
  by (auto simp: CoAPMessageId_gen_def HAL_MutexLock_def HAL_MutexUnlock_def ctx_ok_def)


lemma keepsI: "keeps m \<Longrightarrow> (\<And>r c'. ctx_ok c' \<Longrightarrow> P (r, c')) \<Longrightarrow> ok P m"
  by (auto simp: ok_def)

lemmas message_id_ok [vcg] = keepsI [OF message_id_keeps]

lemma keeps_any: "(\<And>x. P x) \<Longrightarrow> ok P m"
  by (simp add: ok_def)

lemma cancel_keeps: "ctx_ok c \<Longrightarrow> keeps (CoAPMessageId_cancel msgid c)" "ctx_ok c \<Longrightarrow> keeps (CoAPMessage_cancel m c)"
  unfolding CoAPMessageId_cancel_def CoAPMessage_cancel_def by (intro vcg; simp add: ctx_ok_drops)+
lemmas cancel_ok [vcg] = cancel_keeps [THEN keepsI]

lemma obs_delete_keeps:
  "ctx_ok c \<Longrightarrow> keeps (CoapObsServer_delete remote res c)" "ctx_ok c \<Longrightarrow> keeps (CoapObsServerAll_delete remote c)"
  unfolding CoapObsServer_delete_def CoapObsServerAll_delete_def by (intro vcg; simp add: ctx_ok_drops)+
lemmas obs_delete_ok [vcg] = obs_delete_keeps [THEN keepsI]

lemma client_delete_keeps: "ctx_ok c \<Longrightarrow> keeps (CoAPObsClient_delete m c)"
  unfolding CoAPObsClient_delete_def by (intro vcg keeps_any; simp add: ctx_ok_drops)+
lemmas client_delete_ok [vcg] = keepsI [OF client_delete_keeps]

lemma ok_wr_bytes [vcg]: "(\<And>b'. length b' = length b \<Longrightarrow> P b') \<Longrightarrow> ok P (wr_bytes b i bs)"
  by (simp add: wr_bytes_def)

lemma ctx_ok_push_send:
  "ctx_ok c \<Longrightarrow> list_count (sendlist c) < maxcount (sendlist c) \<Longrightarrow> send_node_ok n \<Longrightarrow> sn_at n = next_at c \<Longrightarrow> k = next_at c
     \<Longrightarrow> ctx_ok (c\<lparr>sendlist := list_push n (sendlist c), next_at := Suc k\<rparr>)"
  by (simp add: ctx_ok_def list_push_ok addresses_push addresses_Suc)

lemma list_add_keeps: "ctx_ok c \<Longrightarrow> length data = unat len \<Longrightarrow> keeps (CoAPMessageList_add E remote m data len c)"
  unfolding CoAPMessageList_add_def Let_def
  by (intro hal_pairs vcg keeps_any ctx_ok_push_send; simp add: not_le send_node_ok_def)
lemmas list_add_ok [vcg] = keepsI [OF list_add_keeps]

lemma ok_deref [vcg]: "(\<And>bs. length bs = n \<Longrightarrow> P bs) \<Longrightarrow> ok P (deref p n)"
  by (auto simp: ok_def deref_def rd_block_def split: option.splits if_splits)

lemma unat_u16_u32: "unat (ucast (w :: u16) :: u32) = unat w"
  by (simp add: unsigned_ucast_eq take_bit_nat_eq_self order_less_trans [OF unsigned_less])

subsubsection \<open>Sending\<close>

lemma send_keeps: "ctx_ok c \<Longrightarrow> keeps (CoAPMessage_send E remote m c)"
  unfolding CoAPMessage_send_def Let_def
  by (intro hal_pairs vcg keeps_any; simp add: unat_u16_u32)
lemmas send_ok [vcg] = keepsI [OF send_keeps]

lemma answers_keep:
  "ctx_ok c \<Longrightarrow> keeps (CoAPAckMessage_send E remote i c)" "ctx_ok c \<Longrightarrow> keeps (CoAPRequestMessage_ack_send E remote i c)"
  "ctx_ok c \<Longrightarrow> keeps (CoAPRestMessage_send E remote i c)"
  unfolding CoAPAckMessage_send_def CoAPRequestMessage_ack_send_def CoAPRestMessage_send_def by (rule send_keeps; simp)+
lemmas answers_ok [vcg] = answers_keep [THEN keepsI]

lemma err_resp_keeps: "ctx_ok c \<Longrightarrow> keeps (CoAPErrRespMessage_send E remote m code c)"
  unfolding CoAPErrRespMessage_send_def Let_def
  by (intro hal_pairs vcg keeps_any; simp)
lemmas err_resp_ok [vcg] = keepsI [OF err_resp_keeps]

subsubsection \<open>Resources and observers\<close>

lemma resource_init_keeps: "ctx_ok c \<Longrightarrow> keeps (CoAPResource_init E n c)"
  unfolding CoAPResource_init_def Let_def
  by (intro hal_pairs vcg keeps_any ctx_ok_resource; simp add: list_ok_def addresses_ok_def)

lemma inits_keep:
  "ctx_ok c \<Longrightarrow> keeps (CoAPObsServer_init E n c)" "ctx_ok c \<Longrightarrow> keeps (CoAPObsClient_init E n c)"
  unfolding CoAPObsServer_init_def CoAPObsClient_init_def Let_def
  by (intro hal_pairs vcg keeps_any ctx_ok_obsserver ctx_ok_obsclient; simp add: list_ok_def)+

lemma deinits_keep:
  "ctx_ok c \<Longrightarrow> keeps (CoAPObsServer_deinit c)" "ctx_ok c \<Longrightarrow> keeps (CoAPObsClient_deinit c)" "ctx_ok c \<Longrightarrow> keeps (CoAPResource_deinit c)"
  unfolding CoAPObsServer_deinit_def CoAPObsClient_deinit_def CoAPResource_deinit_def Let_def
  by (intro hal_pairs vcg keeps_any ctx_ok_obsserver ctx_ok_obsclient ctx_ok_resource; simp add: list_ok_def addresses_ok_def)+

lemma path_sum_length [vcg]: "(\<And>s. length s = COAP_PATH_DEFAULT_SUM_LEN \<Longrightarrow> P s) \<Longrightarrow> ok P (path_sum path)"
  unfolding path_sum_def CoAPPathMD5_sum_def by (intro vcg keeps_any; simp)

lemma by_path_keeps: "ctx_ok c \<Longrightarrow> keeps (CoAPResourceByPath_get path c)"
  unfolding CoAPResourceByPath_get_def Let_def by (intro hal_pairs vcg keeps_any; simp)
lemmas by_path_ok [vcg] = keepsI [OF by_path_keeps]

lemma create_result:
  "ctx_ok c \<Longrightarrow> ok (\<lambda>(r, c'). case r of None \<Rightarrow> ctx_ok c' \<and> resource c' = resource c
      | Some res \<Rightarrow> resource_ok res \<and> ctx_ok (c'\<lparr>next_at := next_at c\<rparr>) \<and> res_at res = next_at c \<and> next_at c' = Suc (next_at c)
          \<and> resource c' = resource c) (CoAPResource_create E path ptype perm ctype age cb c)"
  unfolding CoAPResource_create_def Let_def HAL_Malloc_def
  by (auto simp: ok_bind_iff resource_ok_def intro!: keeps_any path_sum_length split: path_type_t.split)

lemma create_ok [vcg]:
  assumes "ctx_ok c" and "list_count (resource c) < maxcount (resource c)"
    and "\<And>r c'. ctx_ok (case r of None \<Rightarrow> c' | Some res \<Rightarrow> c'\<lparr>resource := list_push res (resource c')\<rparr>) \<Longrightarrow> P (r, c')"
  shows "ok P (CoAPResource_create E path ptype perm ctype age cb c)"
proof (rule ok_weaken [OF create_result [OF assms(1)]], clarify, rule assms(3))
  fix r c'
  assume r: "case r of None \<Rightarrow> ctx_ok c' \<and> resource c' = resource c
      | Some res \<Rightarrow> resource_ok res \<and> ctx_ok (c'\<lparr>next_at := next_at c\<rparr>) \<and> res_at res = next_at c \<and> next_at c' = Suc (next_at c)
          \<and> resource c' = resource c"
  then show "ctx_ok (case r of None \<Rightarrow> c' | Some res \<Rightarrow> c'\<lparr>resource := list_push res (resource c')\<rparr>)"
    using assms(1,2) by (cases r) (auto simp: ctx_ok_def list_push_ok addresses_push addresses_Suc)
qed

lemma ctx_ok_rewrite_resource:
  assumes "ctx_ok c"
  shows "ctx_ok (c\<lparr>resource := (resource c)\<lparr>nodes := rewrite_first Q (rewrite_resource perm ctype age cb) (nodes (resource c))\<rparr>\<rparr>)"
proof -
  note d = ctx_okD [OF assms]
  have "map res_at (rewrite_first Q (rewrite_resource perm ctype age cb) ns) = map res_at ns" for ns
    by (rule map_rewrite_first) (simp add: rewrite_resource_def)
  then show ?thesis
    by (intro ctx_ok_resource assms list_ok_nodes d)
      (auto simp: d resource_ok_def rewrite_resource_def intro!: list_all_rewrite_first)
qed

lemma register_keeps: "ctx_ok c \<Longrightarrow> ok (\<lambda>(_, _, c). ctx_ok c) (CoAPResource_register E w path perm ctype age cb c)"
  unfolding CoAPResource_register_def Let_def
  by (intro hal_pairs vcg keeps_any; simp add: not_le ctx_ok_rewrite_resource)

lemma unat_tokenlen: "unat (ucast (w :: 4 word) :: byte) = unat w"
  by (simp add: unsigned_ucast_eq take_bit_nat_eq_self order_less_trans [OF unsigned_less])

lemma copy_token_ok [vcg]:
  "length tok = 8 \<Longrightarrow> (\<And>t. length t = 8 \<Longrightarrow> (ucast (h_tokenlen (header m)) :: byte) \<le> 8 \<Longrightarrow> P t) \<Longrightarrow> ok P (copy_token m tok)"
  by (auto simp: ok_def copy_token_def deref_def rd_block_def wr_bytes_def bind_eq_Some_conv word_le_nat_alt unat_tokenlen
      split: if_splits)

lemma rewrite_opt_ok:
  "list_all Q ns \<Longrightarrow> (\<And>n. Q n \<Longrightarrow> ok Q (f n)) \<Longrightarrow> (\<And>ns'. list_all Q ns' \<Longrightarrow> length ns' = length ns \<Longrightarrow> P ns')
     \<Longrightarrow> ok P (rewrite_first_opt R f ns)"
  using rewrite_first_opt_ok [of R f ns _ Q] by (fastforce simp: ok_def)

lemma ctx_ok_push_obs:
  "ctx_ok c \<Longrightarrow> list_count (obsserver c) < maxcount (obsserver c) \<Longrightarrow> observer_ok n \<Longrightarrow> ctx_ok (c\<lparr>obsserver := list_push n (obsserver c)\<rparr>)"
  "ctx_ok c \<Longrightarrow> list_count (obsclient c) < maxcount (obsclient c) \<Longrightarrow> observable_ok k \<Longrightarrow> ctx_ok (c\<lparr>obsclient := list_push k (obsclient c)\<rparr>)"
  by (simp_all add: ctx_ok_def list_push_ok)

lemma ctx_ok_obs_nodes:
  "ctx_ok c \<Longrightarrow> list_all observer_ok ns \<Longrightarrow> length ns = length (nodes (obsserver c)) \<Longrightarrow> ctx_ok (c\<lparr>obsserver := (obsserver c)\<lparr>nodes := ns\<rparr>\<rparr>)"
  "ctx_ok c \<Longrightarrow> list_all observable_ok ks \<Longrightarrow> length ks = length (nodes (obsclient c)) \<Longrightarrow> ctx_ok (c\<lparr>obsclient := (obsclient c)\<lparr>nodes := ks\<rparr>\<rparr>)"
  by (auto simp: ctx_ok_def list_ok_def)

lemma obs_add_keeps: "ctx_ok c \<Longrightarrow> keeps (CoAPObsServer_add E stale path remote request c)"
  unfolding CoAPObsServer_add_def Let_def
  by (intro rewrite_opt_ok [where Q = observer_ok] hal_pairs vcg keeps_any ctx_ok_push_obs ctx_ok_obs_nodes)
    (simp_all add: not_le observer_ok_def ctx_okD)
lemmas obs_add_ok [vcg] = keepsI [OF obs_add_keeps]

lemma app_resp_ok:
  "app_keeps A \<Longrightarrow> ctx_ok c \<Longrightarrow> (\<And>c'. ctx_ok c' \<Longrightarrow> P c') \<Longrightarrow> ok P (app_resp A f r u remote m c)"
  unfolding app_keeps_def by (blast intro: ok_weaken)

lemma app_recv_ok:
  "app_keeps A \<Longrightarrow> ctx_ok c \<Longrightarrow> (\<And>c'. ctx_ok c' \<Longrightarrow> P c') \<Longrightarrow> ok P (app_recv A f path remote m c)"
  unfolding app_keeps_def by (blast intro: ok_weaken)

lemma app_encrypt_ok:
  "app_keeps A \<Longrightarrow> ctx_ok c \<Longrightarrow> (\<And>r d' c'. ctx_ok c' \<Longrightarrow> obsserver c' = obsserver c \<Longrightarrow> P (r, d', c'))
     \<Longrightarrow> ok P (app_encrypt A f path remote m d c)"
  by (rule ok_weaken [of "\<lambda>(_, _, c'). ctx_ok c' \<and> obsserver c' = obsserver c"]) (unfold app_keeps_def, blast, auto)

lemma client_add_keeps:
  assumes "app_keeps A" and "ctx_ok c"
  shows "keeps (CoAPObsClient_add E A m remote node c)"
  using assms(2) unfolding CoAPObsClient_add_def Let_def
  by (intro app_resp_ok [OF assms(1)] list_all_rewrite_first hal_pairs vcg keeps_any ctx_ok_push_obs ctx_ok_obs_nodes)
    (simp_all add: not_le observable_ok_def ctx_okD ctx_ok_drops)
lemmas client_add_ok [vcg] = keepsI [OF client_add_keeps]

subsubsection \<open>Notifications\<close>

lemma add_uint_ok:
  "ctx_ok c \<Longrightarrow> (\<And>m c'. ctx_ok c' \<Longrightarrow> obsserver c' = obsserver c \<Longrightarrow> P (m, c')) \<Longrightarrow> ok P (add_uint E m i d c)"
  unfolding add_uint_def Let_def by (auto simp: ok_def HAL_Malloc_def bind_eq_Some_conv split: if_splits)

lemma message_id_frame:
  "ctx_ok c \<Longrightarrow> (\<And>i c'. ctx_ok c' \<Longrightarrow> obsserver c' = obsserver c \<Longrightarrow> P (i, c')) \<Longrightarrow> ok P (CoAPMessageId_gen c)"
  using message_id_keeps [of c]
  by (auto simp: CoAPMessageId_gen_def HAL_MutexLock_def HAL_MutexUnlock_def ok_def)

lemma notify_message_ok:
  "ctx_ok c \<Longrightarrow> (\<And>m c'. ctx_ok c' \<Longrightarrow> obsserver c' = obsserver c \<Longrightarrow> P (m, c')) \<Longrightarrow> ok P (notify_message E node res c)"
  unfolding notify_message_def Let_def
  by (intro message_id_frame add_uint_ok vcg keeps_any; simp)

lemma notify_payload_ok:
  "app_keeps A \<Longrightarrow> ctx_ok c \<Longrightarrow> (\<And>m c'. ctx_ok c' \<Longrightarrow> obsserver c' = obsserver c \<Longrightarrow> P (m, c'))
     \<Longrightarrow> ok P (notify_payload A encrypt path remote m d n c)"
  unfolding notify_payload_def
  by (intro app_encrypt_ok vcg; simp split: prod.split)

text \<open>While a notification is sent the observers do not change: the list is locked, and what is sent has no part in it.\<close>

lemma client_delete_frame:
  "ctx_ok c \<Longrightarrow> (\<And>r c'. ctx_ok c' \<Longrightarrow> obsserver c' = obsserver c \<Longrightarrow> P (r, c')) \<Longrightarrow> ok P (CoAPObsClient_delete m c)"
proof -
  have "ok (\<lambda>(_, c'). obsserver c' = obsserver c) (CoAPObsClient_delete m c)"
    unfolding CoAPObsClient_delete_def by (auto simp: ok_def bind_eq_Some_conv HAL_MutexLock_def HAL_MutexUnlock_def split: if_splits)
  then show "ctx_ok c \<Longrightarrow> (\<And>r c'. ctx_ok c' \<Longrightarrow> obsserver c' = obsserver c \<Longrightarrow> P (r, c')) \<Longrightarrow> ?thesis"
    using client_delete_keeps [of c m] by (auto simp: ok_def)
qed

lemma list_add_frame:
  "ctx_ok c \<Longrightarrow> length data = unat len \<Longrightarrow> (\<And>r c'. ctx_ok c' \<Longrightarrow> obsserver c' = obsserver c \<Longrightarrow> P (r, c'))
     \<Longrightarrow> ok P (CoAPMessageList_add E remote m data len c)"
proof -
  have "ok (\<lambda>(_, c'). obsserver c' = obsserver c) (CoAPMessageList_add E remote m data len c)"
    unfolding CoAPMessageList_add_def Let_def HAL_Malloc_def HAL_UptimeMs_def HAL_MutexLock_def HAL_MutexUnlock_def
    by (simp add: ok_bind_iff keeps_any)
  then show "ctx_ok c \<Longrightarrow> length data = unat len \<Longrightarrow> (\<And>r c'. ctx_ok c' \<Longrightarrow> obsserver c' = obsserver c \<Longrightarrow> P (r, c')) \<Longrightarrow> ?thesis"
    using list_add_keeps [of c data len E remote m] by (auto simp: ok_def)
qed

lemma send_frame_obs:
  "ctx_ok c \<Longrightarrow> (\<And>r c'. ctx_ok c' \<Longrightarrow> obsserver c' = obsserver c \<Longrightarrow> P (r, c')) \<Longrightarrow> ok P (CoAPMessage_send E remote m c)"
  unfolding CoAPMessage_send_def Let_def
  by (intro hal_pairs client_delete_frame list_add_frame vcg keeps_any; simp add: unat_u16_u32)

lemma notify_loop_keeps:
  assumes "app_keeps A"
  shows "ctx_ok c \<Longrightarrow> list_all observer_ok (passed @ rest) \<Longrightarrow> length (passed @ rest) = length (nodes (obsserver c)) \<Longrightarrow>
     keeps (notify_loop E A encrypt path d n res passed rest ret c)"
proof (induction rest arbitrary: passed ret c)
  case Nil
  then show ?case using ctx_ok_obs_nodes(1) [of c passed] by simp
next
  case (Cons node rest)
  have step: "keeps (notify_loop E A encrypt path d n res (passed @ [node']) rest r c')"
    if "ctx_ok c'" "obsserver c' = obsserver c" "observer_ok node'" for r c' node'
    by (rule Cons.IH) (use that Cons.prems in auto)
  have node: "observer_ok node" "observer_ok (node\<lparr>observer_sequence_num := observer_sequence_num node + 1\<rparr>)"
    using Cons.prems(2) by (simp_all add: observer_ok_def)
  show ?case
    using Cons.prems(1) node
    by (simp add: Let_def) (intro conjI impI notify_message_ok notify_payload_ok [OF assms] send_frame_obs step vcg; simp)
qed

lemma notify_keeps: "app_keeps A \<Longrightarrow> ctx_ok c \<Longrightarrow> keeps (CoAPObsServer_notify E A path d n encrypt c)"
  unfolding CoAPObsServer_notify_def
  by (intro notify_loop_keeps [THEN keepsI] vcg; simp add: ctx_okD)
lemmas notify_ok [vcg] = keepsI [OF notify_keeps]

subsubsection \<open>Received messages\<close>

lemma ctx_ok_acked:
  assumes "ctx_ok c"
  shows "ctx_ok (c\<lparr>sendlist := (sendlist c)\<lparr>nodes := rewrite_first Q (acked_update (\<lambda>_. True)) (nodes (sendlist c))\<rparr>\<rparr>)"
  using ctx_okD [OF assms]
  by (intro ctx_ok_sendlist assms list_ok_nodes)
    (auto simp: map_rewrite_first send_node_ok_def intro!: list_all_rewrite_first)

lemma ack_keeps: "app_keeps A \<Longrightarrow> ctx_ok c \<Longrightarrow> keeps (CoAPAckMessage_handle A m c)"
  unfolding CoAPAckMessage_handle_def Let_def
  by (intro app_resp_ok vcg; simp add: ctx_ok_drops ctx_ok_acked)
lemmas ack_ok [vcg] = keepsI [OF ack_keeps]

lemma resp_keeps: "app_keeps A \<Longrightarrow> ctx_ok c \<Longrightarrow> keeps (CoAPRespMessage_handle E A remote m c)"
  unfolding CoAPRespMessage_handle_def Let_def
  by (intro app_resp_ok client_add_keeps [THEN keepsI] vcg; simp add: ctx_ok_drops)
lemmas resp_ok [vcg] = keepsI [OF resp_keeps]

lemma request_keeps: "app_keeps A \<Longrightarrow> ctx_ok c \<Longrightarrow> keeps (CoAPRequestMessage_handle E A remote m c)"
  unfolding CoAPRequestMessage_handle_def
  by (intro app_recv_ok vcg keeps_any; simp)
lemmas request_ok [vcg] = keepsI [OF request_keeps]
lemma handle_keeps: "app_keeps A \<Longrightarrow> ctx_ok c \<Longrightarrow> ok ctx_ok (CoAPMessage_handle E A remote buf n c)"
  unfolding CoAPMessage_handle_def
  by (intro vcg keeps_any; simp)

lemma read_keeps: "CoAPNetwork_read E timeout c = (len, remote, c') \<Longrightarrow> ctx_ok c \<Longrightarrow> ctx_ok c'"
  by (auto simp: CoAPNetwork_read_def Let_def split: if_splits prod.splits)

lemma process_loop_keeps:
  assumes "process_loop E A ip timeout c = Some (r, c')" and "app_keeps A" and "ctx_ok c"
  shows "ctx_ok c'"
proof -
  have "app_keeps A \<longrightarrow> ctx_ok c \<longrightarrow> ctx_ok (snd (r, c'))"
  proof (rule process_loop.raw_induct [OF _ assms(1), of "\<lambda>E A ip timeout c y. app_keeps A \<longrightarrow> ctx_ok c \<longrightarrow> ctx_ok (snd y)"], goal_cases)
    case (1 loop E A ip timeout c y)
    obtain len remote c1 where rd: "CoAPNetwork_read E timeout c = (len, remote, c1)" by (metis prod_cases3)
    show ?case
    proof (intro impI)
      assume A: "app_keeps A" and c: "ctx_ok c"
      note c1 = read_keeps [OF rd c]
      have next_ok: "loop E A ip timeout c2 = Some y \<Longrightarrow> ctx_ok c2 \<Longrightarrow> ctx_ok (snd y)" for c2
        using 1(1) A by blast
      show "ctx_ok (snd y)"
        using 1(2) rd c1
        by (auto simp: bind_eq_Some_conv split: if_splits intro: next_ok okD [OF handle_keeps [OF A c1]])
    qed
  qed
  then show ?thesis using assms(2,3) by simp
qed

lemma process_keeps: "app_keeps A \<Longrightarrow> ctx_ok c \<Longrightarrow> keeps (CoAPMessage_process E A timeout c)"
  by (auto simp: CoAPMessage_process_def HAL_Wifi_Get_IP_def ok_def dest: process_loop_keeps)
lemmas process_ok [vcg] = keepsI [OF process_keeps]

subsubsection \<open>Time-outs\<close>

lemma retry_timeout_bound: "n \<le> 8 \<Longrightarrow> retry_timeout n \<le> 15372"
proof -
  assume "n \<le> 8"
  then have "n \<in> {0, Suc 0, Suc (Suc 0), Suc (Suc (Suc 0)), Suc (Suc (Suc (Suc 0))), Suc (Suc (Suc (Suc (Suc 0)))),
      Suc (Suc (Suc (Suc (Suc (Suc 0))))), Suc (Suc (Suc (Suc (Suc (Suc (Suc 0)))))), Suc (Suc (Suc (Suc (Suc (Suc (Suc (Suc 0)))))))}"
    by (simp, presburger)
  then show ?thesis by (elim insertE emptyE) simp_all
qed

lemma next_timeout_ok:
  assumes "send_node_ok n" and "0 < retrans_count n"
  shows "send_node_ok (next_timeout tick n)"
proof -
  let ?k = "unat (retrans_count n)"
  have k: "0 < ?k" "?k \<le> 8" using assms by (auto simp: send_node_ok_def word_less_nat_alt word_le_nat_alt)
  have c: "unat (retrans_count n - 1) = ?k - 1" using unat_minus_le [of 1 "retrans_count n"] k by simp
  have tv: "unat (timeout_val n) = retry_timeout (8 - ?k)" using assms by (simp add: send_node_ok_def)
  have "retry_timeout (8 - (?k - 1)) = retry_timeout (8 - ?k) * 3 div 2"
  proof -
    have "8 - (?k - 1) = Suc (8 - ?k)" using k by simp
    then show ?thesis by (simp only: retry_timeout.simps)
  qed
  moreover have "retry_timeout (8 - (?k - 1)) \<le> 15372" using k by (intro retry_timeout_bound) simp
  moreover have "uint (timeout_val n) * 3 div 2 = int (unat (timeout_val n) * 3 div 2)" by (simp add: zdiv_int)
  ultimately have "unat (word_of_int (uint (timeout_val n) * 3 div 2) :: u16) = retry_timeout (8 - (?k - 1))"
    using tv by (simp add: unsigned_of_nat take_bit_nat_eq_self)
  then show ?thesis
    using assms c k by (auto simp: send_node_ok_def next_timeout_def Let_def word_le_nat_alt)
qed

lemma retransmit_loop_keeps:
  "retransmit_loop E tick ns c = Some (ns', c') \<Longrightarrow> ctx_ok c \<Longrightarrow> list_all send_node_ok ns \<Longrightarrow>
     ctx_ok c' \<and> list_all send_node_ok ns' \<and> map sn_at ns' = map sn_at ns \<and> sendlist c' = sendlist c \<and> next_at c' = next_at c"
proof (induction ns arbitrary: ns' c)
  case (Cons n ns)
  show ?case
  proof (cases "tick < sn_timeout n \<or> retrans_count n = 0")
    case True
    then obtain ns1 where "retransmit_loop E tick ns c = Some (ns1, c')" "ns' = n # ns1"
      using Cons.prems(1) by (auto simp: bind_eq_Some_conv)
    then show ?thesis using Cons.IH Cons.prems(2,3) by auto
  next
    case False
    let ?sent = "\<lambda>data. snd (CoAPNetwork_write E (sn_remote n) data c)"
    have sent: "ctx_ok (?sent data)" "sendlist (?sent data) = sendlist c" "next_at (?sent data) = next_at c" for data
      using Cons.prems(2) by (simp_all add: CoAPNetwork_write_def Let_def)
    obtain c1 ns1 where c1: "ctx_ok c1" "sendlist c1 = sendlist c" "next_at c1 = next_at c"
      and r: "retransmit_loop E tick ns c1 = Some (ns1, c')" "ns' = next_timeout tick n # ns1"
      using Cons.prems(1,2) False by (auto simp: bind_eq_Some_conv split: if_splits intro: that [OF sent])
    have "send_node_ok (next_timeout tick n)"
      using False Cons.prems(3) by (intro next_timeout_ok) (auto simp: word_neq_0_conv)
    moreover have "sn_at (next_timeout tick n) = sn_at n" by (simp add: next_timeout_def Let_def)
    ultimately show ?thesis using Cons.IH [OF r(1) c1(1)] Cons.prems(3) c1 r(2) by simp
  qed
qed simp

lemma Retansmit_keeps: "ctx_ok c \<Longrightarrow> ok ctx_ok (Retansmit E c)"
proof -
  assume c: "ctx_ok c"
  have "ctx_ok (c1\<lparr>sendlist := (sendlist c1)\<lparr>nodes := ns\<rparr>\<rparr>)"
    if r: "retransmit_loop E tick (nodes (sendlist c0)) c0 = Some (ns, c1)" and c0: "ctx_ok c0" for tick c0 c1 ns
  proof -
    note k = retransmit_loop_keeps [OF r c0 ctx_okD(5) [OF c0]]
    then have "length ns = length (nodes (sendlist c1))" by (metis length_map)
    then show ?thesis using k ctx_okD [of c1] ctx_okD(9) [OF c0] by (intro ctx_ok_sendlist list_ok_nodes) auto
  qed
  then have step: "ok (\<lambda>(ns, c1). ctx_ok (c1\<lparr>sendlist := (sendlist c1)\<lparr>nodes := ns\<rparr>\<rparr>))
      (retransmit_loop E tick (nodes (sendlist c0)) c0)" if "ctx_ok c0" for tick c0
    using that by (intro okI) auto
  show ?thesis unfolding Retansmit_def
    by (intro hal_pairs vcg c step [THEN ok_weaken]; clarsimp)
qed

lemma check_timeout_loop_keeps:
  assumes "check_timeout_loop A tick c = Some c'" and "app_keeps A" and "ctx_ok c"
  shows "ctx_ok c'"
proof -
  have "app_keeps A \<longrightarrow> ctx_ok c \<longrightarrow> ctx_ok c'"
  proof (rule check_timeout_loop.raw_induct [OF _ assms(1), of "\<lambda>A tick c c'. app_keeps A \<longrightarrow> ctx_ok c \<longrightarrow> ctx_ok c'"], goal_cases)
    case (1 loop A tick c c')
    show ?case
    proof (intro impI)
      assume A: "app_keeps A" and c: "ctx_ok c"
      have "ok ctx_ok (do {
          c \<leftarrow> HAL_MutexLock LockSendList c;
          case List.find (expired_node tick) (nodes (sendlist c)) of
            None \<Rightarrow> HAL_MutexUnlock LockSendList c
          | Some node \<Rightarrow> do {
              let c = c\<lparr>sendlist := list_drop_first (expired_node tick) (sendlist c)\<rparr>;
              (_, c) \<leftarrow> CoapObsServerAll_delete (sn_remote node) c;
              c \<leftarrow> HAL_MutexUnlock LockSendList c;
              c \<leftarrow> (case sn_handler node of
                      None \<Rightarrow> Some c
                    | Some f \<Rightarrow> app_resp A f COAP_RECV_RESP_TIMEOUT (sn_user node) (sn_remote node) None c);
              loop A tick c } })"
        using c 1(1) A by (intro app_resp_ok [OF A] vcg okI; simp add: ctx_ok_drops)
      then show "ctx_ok c'" using 1(2) by (rule okD)
    qed
  qed
  then show ?thesis using assms by simp
qed

lemma Check_timeout_keeps: "app_keeps A \<Longrightarrow> ctx_ok c \<Longrightarrow> ok ctx_ok (Check_timeout E A c)"
  by (auto simp: Check_timeout_def HAL_UptimeMs_def ok_def dest: check_timeout_loop_keeps)

lemma cycle_keeps: "app_keeps A \<Longrightarrow> ctx_ok c \<Longrightarrow> keeps (CoAPMessage_cycle E A c)"
  unfolding CoAPMessage_cycle_def HAL_SleepMs_def
  by (intro Retansmit_keeps [THEN ok_weaken] Check_timeout_keeps [THEN ok_weaken] vcg; simp)

subsubsection \<open>The interface\<close>

lemma add_str_ok:
  "ctx_ok c \<Longrightarrow> (\<And>m c'. ctx_ok c' \<Longrightarrow> P (m, c')) \<Longrightarrow> ok P (add_str E m i d c)"
  unfolding add_str_def Let_def by (auto simp: ok_def HAL_Malloc_def bind_eq_Some_conv split: if_splits)

lemma uri_loop_keeps: "ctx_ok c \<Longrightarrow> keeps (uri_loop E cs seg m c)"
proof (induction cs arbitrary: seg m c)
  case (Cons ch cs)
  show ?case
    unfolding uri_loop.simps Let_def
    by (intro add_str_ok Cons.IH vcg Cons.prems; simp add: Cons.prems)
qed simp

lemma path_option_ok:
  "ctx_ok c \<Longrightarrow> (\<And>r m c'. ctx_ok c' \<Longrightarrow> P (r, m, c')) \<Longrightarrow> ok P (CoAPServerPath_2_option E uri m c)"
  unfolding CoAPServerPath_2_option_def by (intro uri_loop_keeps [THEN keepsI] vcg; simp)

lemma multicast_keeps: "ctx_ok c \<Longrightarrow> ok (\<lambda>(_, _, c). ctx_ok c) (CoAPServerMultiCast_send E remote uri buff len cb c)"
  unfolding CoAPServerMultiCast_send_def CoAPServerToken_get_def Let_def
  by (intro add_uint_ok path_option_ok vcg keeps_any; simp)

lemma respond_keeps: "ctx_ok c \<Longrightarrow> ok (\<lambda>(_, _, c). ctx_ok c) (CoAPServerResp_send E stale remote buff len request paths cb qos c)"
  unfolding CoAPServerResp_send_def Let_def
  by (intro add_uint_ok vcg keeps_any; simp)

lemma create_ok_ctx: "CoAPContext_create E param c0 = Some (True, c) \<Longrightarrow> ctx_ok c"
  by (auto simp: CoAPContext_create_def CoAPResource_init_def CoAPObsServer_init_def CoAPObsClient_init_def CoAPNetwork_init_def
      CoAPObsServer_deinit_def CoAPObsClient_deinit_def CoAPResource_deinit_def HAL_Malloc_def HAL_MutexCreate_def HAL_MutexLock_def
      HAL_MutexUnlock_def Let_def bind_eq_Some_conv ctx_ok_def list_ok_def addresses_ok_def split: if_splits)

subsection \<open>Property\<close>

text \<open>The calls an application makes, and the cycles of the server's thread between them.\<close>

datatype coap_call = Cycle | Register bool "byte list" "nat option" | Multicast NetworkAddr cstring "byte list" u16 "nat option"
  | Respond u32 NetworkAddr "byte list" u16 CoAPMessage "byte list" "nat option" int
  | Notify "byte list" pointer u16 "nat option" | Cancel u16 | Send NetworkAddr CoAPMessage

fun run_call :: "'e coap_environment_scheme \<Rightarrow> application \<Rightarrow> coap_call \<Rightarrow> CoAPIntContext \<Rightarrow> CoAPIntContext option" where
  "run_call E A Cycle c = map_option snd (CoAPMessage_cycle E A c)"
| "run_call E A (Register w path cb) c = map_option (\<lambda>(_, _, c). c) (CoAPServer_register E w path cb c)"
| "run_call E A (Multicast remote uri buff len cb) c = map_option (\<lambda>(_, _, c). c) (CoAPServerMultiCast_send E remote uri buff len cb c)"
| "run_call E A (Respond stale remote buff len request paths cb qos) c =
     map_option (\<lambda>(_, _, c). c) (CoAPServerResp_send E stale remote buff len request paths cb qos c)"
| "run_call E A (Notify path data len encrypt) c = map_option snd (CoAPObsServer_notify E A path data len encrypt c)"
| "run_call E A (Cancel msgid) c = map_option snd (CoAPMessageId_cancel msgid c)"
| "run_call E A (Send remote m) c = map_option snd (CoAPMessage_send E remote m c)"

fun run_calls :: "'e coap_environment_scheme \<Rightarrow> application \<Rightarrow> coap_call list \<Rightarrow> CoAPIntContext \<Rightarrow> CoAPIntContext option" where
  "run_calls E A [] c = Some c"
| "run_calls E A (x # xs) c = do { c \<leftarrow> run_call E A x c; run_calls E A xs c }"

lemma ok_map: "ok (\<lambda>x. P (f x)) m \<Longrightarrow> ok P (map_option f m)"
  by (auto simp: ok_def)

lemma call_keeps: "app_keeps A \<Longrightarrow> ctx_ok c \<Longrightarrow> ok ctx_ok (run_call E A x c)"
proof (cases x)
  case (Register w path cb)
  assume "ctx_ok c"
  then show ?thesis unfolding Register using register_keeps [of c E w path 1 50 60 cb]
    by (auto simp: CoAPServer_register_def ok_def)
next
  case (Multicast remote uri buff len cb)
  assume "ctx_ok c"
  then show ?thesis unfolding Multicast using multicast_keeps [of c E remote uri buff len cb] by (auto simp: ok_def)
next
  case (Respond stale remote buff len request paths cb qos)
  assume "ctx_ok c"
  then show ?thesis unfolding Respond using respond_keeps [of c E stale remote buff len request paths cb qos] by (auto simp: ok_def)
qed (auto intro!: ok_map dest: cycle_keeps notify_keeps cancel_keeps(1) send_keeps simp: split_def)

lemma calls_keep: "app_keeps A \<Longrightarrow> ctx_ok c \<Longrightarrow> ok ctx_ok (run_calls E A xs c)"
  by (induction xs arbitrary: c) (auto simp: ok_bind_iff intro: call_keeps [THEN ok_weaken])

text \<open>A network that takes every datagram and has none to deliver, an application that does nothing, and a
  context not yet set up, for the concrete instances.\<close>

definition coap_env :: coap_environment where
  "coap_env = \<lparr>env_uptime = (\<lambda>n. word_of_nat (10 * n)), env_malloc = (\<lambda>n sz. True), env_mutex = (\<lambda>n. True),
     env_read = (\<lambda>n len timeout. (0, [])), env_write = (\<lambda>n buf timeout. int (length buf)), env_connect = (\<lambda>n. 0),
     env_recvfrom = (\<lambda>n timeout. (0, ([], 0), [])), env_sendto = (\<lambda>n remote data. int (length data)),
     env_local_ip = (\<lambda>n. str ''10.0.0.2''), env_udp_create = (\<lambda>n p. 3)\<rparr>"

definition quiet_app :: application where
  "quiet_app = \<lparr>app_resp = (\<lambda>f r u remote m c. Some c), app_recv = (\<lambda>f path remote m c. Some c),
     app_encrypt = (\<lambda>f path remote m d c. Some (0, d, c))\<rparr>"

definition blank_list :: "'n CoAPList" where
  "blank_list = \<lparr>nodes = [], list_count = 0, maxcount = 0\<rparr>"

definition blank_context :: CoAPIntContext where
  "blank_context = \<lparr>n_uptime = 0, n_malloc = 0, n_mutex = 0, n_read = 0, n_write = 0, n_connect = 0, held = {}, effects = [],
     n_recvfrom = 0, n_sendto = 0, n_local_ip = 0, n_udp_create = 0, token_value = 0x01020304, next_at = 0, datagrams = [],
     message_id = 0, p_network = None, recvbuf = [], sendlist = blank_list, obsserver = blank_list, obsclient = blank_list,
     resource = blank_list, waittime = 0\<rparr>"

definition server_param :: CoAPInitParam where
  "server_param = \<lparr>send_maxcount = 16, obs_maxcount = 16, init_port = 5683, init_waittime = 50, res_maxcount = 255\<rparr>"

definition server_context :: CoAPIntContext where
  "server_context = snd (the (CoAPContext_create coap_env server_param blank_context))"

lemmas create_defs = CoAPContext_create_def CoAPResource_init_def CoAPObsServer_init_def CoAPObsClient_init_def CoAPNetwork_init_def
  HAL_Malloc_def HAL_MutexCreate_def HAL_MutexLock_def HAL_MutexUnlock_def

lemma server_created: "CoAPContext_create coap_env server_param blank_context = Some (True, server_context)"
  by (simp add: server_context_def create_defs coap_env_def server_param_def blank_context_def)

lemma server_context_eq:
  "server_context = blank_context\<lparr>n_malloc := Suc (Suc (Suc 0)), n_mutex := Suc (Suc (Suc (Suc (Suc 0)))), message_id := 1, recvbuf := replicate 1280 0, waittime := 50,
     sendlist := blank_list\<lparr>maxcount := 16\<rparr>, resource := blank_list\<lparr>maxcount := 255\<rparr>, obsserver := blank_list\<lparr>maxcount := 16\<rparr>,
     obsclient := blank_list\<lparr>maxcount := 16\<rparr>, n_udp_create := 1, p_network := Some 3\<rparr>"
  by (simp add: server_context_def create_defs coap_env_def server_param_def blank_context_def blank_list_def)

lemma quiet_app_keeps: "app_keeps quiet_app"
  by (auto simp: app_keeps_def quiet_app_def)

text \<open>
  C3: the invariant of the CoAP server.  Once \<open>CoAPContext_create\<close> has made a context, every sequence of
  calls of the interface and cycles of the server, with whatever datagrams arrive and functions of the
  application that keep it, leaves a context whose four lists have as many nodes as they count and no
  more than their maximum, whose nodes have distinct addresses and tokens, digests and datagrams of the
  right size, whose waiting messages have the time-out of the tries they have left, and whose next message identifier is not 0.
\<close>

theorem coap_invariant:
  assumes "CoAPContext_create E param c0 = Some (True, c)" and "app_keeps A" and "run_calls E A calls c = Some c'"
  shows "ctx_ok c'"
  using calls_keep [OF assms(2) create_ok_ctx [OF assms(1)]] assms(3) by (rule okD)

theorem coap_invariant_witness:
  "\<exists>c. run_calls coap_env quiet_app [Register True (str ''/a/#'' @ [0]) (Some 1), Cancel 5] server_context = Some c
     \<and> length (nodes (resource c)) = 1 \<and> ctx_ok c"
proof -
  have "\<exists>c. run_calls coap_env quiet_app [Register True (str ''/a/#'' @ [0]) (Some 1), Cancel 5] server_context = Some c
     \<and> length (nodes (resource c)) = 1"
    by (simp add: server_context_eq CoAPServer_register_def CoAPResource_register_def CoAPResource_create_def CoAPMessageId_cancel_def
        HAL_MutexLock_def HAL_MutexUnlock_def HAL_Malloc_def blank_context_def blank_list_def coap_env_def strlen_at_def cstring_at_def)
  then show ?thesis using coap_invariant [OF server_created quiet_app_keeps] by blast
qed

end
