(* ===== verification/CoapRetry.thy ===== *)
theory CoapRetry
  imports CoapInvariant
begin

text \<open>
  What becomes of a message that waits for its response: when it is sent again, how often, and when the
  server gives up.
\<close>

subsection \<open>One pass\<close>

definition due :: "u64 \<Rightarrow> CoAPSendNode \<Rightarrow> bool" where
  "due tick n \<longleftrightarrow> sn_timeout n \<le> tick \<and> retrans_count n \<noteq> 0"

definition node_pass :: "u64 \<Rightarrow> CoAPSendNode \<Rightarrow> CoAPSendNode" where
  "node_pass tick n = (if due tick n then next_timeout tick n else n)"

definition resent :: "u64 \<Rightarrow> CoAPSendNode list \<Rightarrow> (NetworkAddr \<times> byte list) list" where
  "resent tick ns = map (\<lambda>n. (sn_remote n, sn_message n)) (filter (\<lambda>n. due tick n \<and> \<not> acked n) ns)"

definition network_takes :: "'e coap_environment_scheme \<Rightarrow> bool" where
  "network_takes E \<longleftrightarrow> (\<forall>k remote data. 0 < env_sendto E k remote data)"

lemma not_due: "tick < sn_timeout n \<or> retrans_count n = 0 \<longleftrightarrow> \<not> due tick n"
  by (auto simp: due_def)

lemma retransmit_loop_eq:
  assumes "network_takes E"
  shows "p_network c \<noteq> None \<Longrightarrow> list_all send_node_ok ns \<Longrightarrow>
    \<exists>k. retransmit_loop E tick ns c = Some (map (node_pass tick) ns, c\<lparr>n_sendto := k, datagrams := datagrams c @ resent tick ns\<rparr>)"
proof (induction ns arbitrary: c)
  case Nil
  show ?case by (rule exI [of _ "n_sendto c"]) (simp add: resent_def)
next
  case (Cons n ns)
  have block: "rd_block (sn_message n) 0 (unat (msglen n)) = Some (sn_message n)"
    using Cons.prems(2) by (simp add: send_node_ok_def)
  have IH: "\<exists>k. retransmit_loop E tick ns c = Some (map (node_pass tick) ns, c\<lparr>n_sendto := k, datagrams := datagrams c @ resent tick ns\<rparr>)"
    if "p_network c \<noteq> None" for c
    using Cons.IH [OF that] Cons.prems(2) by simp
  show ?case
  proof (cases "due tick n \<and> \<not> acked n")
    case True
    let ?c = "c\<lparr>n_sendto := Suc (n_sendto c), datagrams := datagrams c @ [(sn_remote n, sn_message n)]\<rparr>"
    have "snd (CoAPNetwork_write E (sn_remote n) (sn_message n) c) = ?c"
      using Cons.prems(1) assms by (simp add: CoAPNetwork_write_def network_takes_def)
    moreover obtain k where "retransmit_loop E tick ns ?c = Some (map (node_pass tick) ns, ?c\<lparr>n_sendto := k, datagrams := datagrams ?c @ resent tick ns\<rparr>)"
      using IH [of ?c] Cons.prems(1) by auto
    ultimately show ?thesis
      using True block by (auto simp: not_due node_pass_def resent_def)
  next
    case False
    obtain k where "retransmit_loop E tick ns c = Some (map (node_pass tick) ns, c\<lparr>n_sendto := k, datagrams := datagrams c @ resent tick ns\<rparr>)"
      using IH [of c] Cons.prems(1) by auto
    then show ?thesis
      using False block by (auto simp: not_due node_pass_def resent_def)
  qed
qed

lemma Retansmit_eq:
  assumes "network_takes E" and "p_network c \<noteq> None" and "ctx_ok c" and "LockSendList \<notin> held c"
  defines "tick \<equiv> env_uptime E (n_uptime c)" and "ns \<equiv> nodes (sendlist c)"
  shows "\<exists>k. Retansmit E c = Some (c\<lparr>n_uptime := Suc (n_uptime c), n_sendto := k, datagrams := datagrams c @ resent tick ns,
     sendlist := (sendlist c)\<lparr>nodes := map (node_pass tick) ns\<rparr>\<rparr>)"
proof -
  let ?c = "c\<lparr>n_uptime := Suc (n_uptime c), held := insert LockSendList (held c)\<rparr>"
  obtain k where "retransmit_loop E tick ns ?c = Some (map (node_pass tick) ns, ?c\<lparr>n_sendto := k, datagrams := datagrams ?c @ resent tick ns\<rparr>)"
    using retransmit_loop_eq [OF assms(1), of ?c ns tick] assms(2) ctx_okD(5) [OF assms(3)] by (auto simp: ns_def)
  then show ?thesis
    using assms(4) by (simp add: Retansmit_def HAL_UptimeMs_def HAL_MutexLock_def HAL_MutexUnlock_def tick_def ns_def)
      (intro exI [of _ k], simp add: insert_absorb)
qed

subsection \<open>Many passes\<close>

fun passes :: "'e coap_environment_scheme \<Rightarrow> nat \<Rightarrow> CoAPIntContext \<Rightarrow> CoAPIntContext option" where
  "passes E 0 c = Some c"
| "passes E (Suc k) c = do { c \<leftarrow> passes E k c; Retansmit E c }"

text \<open>A confirmable request put into the list at time \<open>t\<close>.\<close>

definition fresh_node :: "nat \<Rightarrow> CoAPSendNode \<Rightarrow> bool" where
  "fresh_node t n \<longleftrightarrow> send_node_ok n \<and> retrans_count n = COAP_MAX_RETRY_COUNT \<and> timeout_val n = COAP_ACK_TIMEOUT
     \<and> unat (sn_timeout n) = t + 600 \<and> \<not> acked n \<and> sn_keep n = NOKEEP"

text \<open>
  The timetable.  A request is due 600 ms after it was put into the list, then 900, 1350, 2025, 3037, 4555, 6832
  and 10248 ms after it was sent the last time, and its last waiting time is 600 ms again.
\<close>

definition intervals :: "nat list" where
  "intervals = [600, 900, 1350, 2025, 3037, 4555, 6832, 10248, 600]"

definition deadline :: "nat \<Rightarrow> nat list \<Rightarrow> nat" where
  "deadline t sent = (if sent = [] then t else last sent) + intervals ! length sent"

text \<open>The times at which it is sent again, when the passes are made at the times \<open>ticks\<close>.\<close>

definition resend_step :: "nat \<Rightarrow> nat list \<Rightarrow> nat \<Rightarrow> nat list" where
  "resend_step t sent tick = (if length sent < 8 \<and> deadline t sent \<le> tick then sent @ [tick] else sent)"

definition resend_times :: "nat \<Rightarrow> nat list \<Rightarrow> nat list" where
  "resend_times t ticks = foldl (resend_step t) [] ticks"

text \<open>Each time is the one the timetable asks for, or less than \<open>g\<close> later.\<close>

definition on_time :: "nat \<Rightarrow> nat \<Rightarrow> nat list \<Rightarrow> bool" where
  "on_time t g sent = (\<forall>i < length sent. deadline t (take i sent) \<le> sent ! i \<and> sent ! i < deadline t (take i sent) + g)"

text \<open>
  The readings of the clock in passes \<open>0\<close> to \<open>k\<close>, of which the first is reading \<open>j\<close>: they run forward, by at most
  \<open>g\<close> ms from one to the next, and do not come near the 64 bits.
\<close>

definition readings :: "'e coap_environment_scheme \<Rightarrow> nat \<Rightarrow> nat \<Rightarrow> nat list" where
  "readings E j k = map (\<lambda>i. unat (env_uptime E i)) [j..<j + k]"

definition polled :: "'e coap_environment_scheme \<Rightarrow> nat \<Rightarrow> nat \<Rightarrow> nat \<Rightarrow> nat \<Rightarrow> bool" where
  "polled E t g j k \<longleftrightarrow> unat (env_uptime E j) \<le> t + g \<and> (\<forall>i \<in> {j..j + k}. unat (env_uptime E i) < 2 ^ 63)
     \<and> (\<forall>i \<in> {j..<j + k}. unat (env_uptime E i) \<le> unat (env_uptime E (Suc i)) \<and> unat (env_uptime E (Suc i)) \<le> unat (env_uptime E i) + g)"

lemma readings_Suc: "readings E j (Suc k) = readings E j k @ [unat (env_uptime E (j + k))]"
  by (simp add: readings_def)

lemma resend_times_snoc: "resend_times t (ticks @ [r]) = resend_step t (resend_times t ticks) r"
  by (simp add: resend_times_def)

lemma resend_times_length: "length (resend_times t ticks) \<le> 8"
  by (induction ticks rule: rev_induct) (auto simp: resend_times_snoc resend_step_def, simp add: resend_times_def)

lemma below_eight:
  "s < 8 \<Longrightarrow> s \<in> {0, Suc 0, Suc (Suc 0), Suc (Suc (Suc 0)), Suc (Suc (Suc (Suc 0))), Suc (Suc (Suc (Suc (Suc 0)))),
      Suc (Suc (Suc (Suc (Suc (Suc 0))))), Suc (Suc (Suc (Suc (Suc (Suc (Suc 0))))))}"
  by (simp, presburger)

lemma intervals_eq:
  "s < 8 \<Longrightarrow> intervals ! s = retry_timeout s" "intervals ! 8 = 600" "s \<le> 8 \<Longrightarrow> 600 \<le> intervals ! s"
proof -
  show eq: "s < 8 \<Longrightarrow> intervals ! s = retry_timeout s" for s
    by (drule below_eight, elim insertE emptyE) (simp_all add: intervals_def)
  have "s < 8 \<Longrightarrow> 600 \<le> retry_timeout s" by (drule below_eight, elim insertE emptyE) simp_all
  moreover show "intervals ! 8 = 600" by (simp add: intervals_def)
  ultimately show "s \<le> 8 \<Longrightarrow> 600 \<le> intervals ! s" using eq [of s] by (cases "s = 8") simp_all
qed

lemma interval_sums: "Suc i < 8 \<Longrightarrow> sum_list (take (Suc i) intervals) + intervals ! Suc i \<le> 29547"
  by (drule below_eight, elim insertE emptyE) (simp_all add: intervals_def)

text \<open>A pass that finds a time gone by makes the resend on time, and the next deadline lies ahead.\<close>

lemma resend_times_on_time:
  assumes "polled E t g j k"
  shows "on_time t g (resend_times t (readings E j (Suc k))) \<and>
    (length (resend_times t (readings E j (Suc k))) < 8 \<longrightarrow> unat (env_uptime E (j + k)) < deadline t (resend_times t (readings E j (Suc k))))"
  using assms
proof (induction k)
  case 0
  then show ?case
    by (auto simp: readings_def resend_times_def resend_step_def on_time_def deadline_def intervals_def polled_def)
next
  case (Suc k)
  let ?s = "resend_times t (readings E j (Suc k))" and ?r = "unat (env_uptime E (j + Suc k))"
  have "polled E t g j k" using Suc.prems by (auto simp: polled_def)
  then have IH: "on_time t g ?s" "length ?s < 8 \<Longrightarrow> unat (env_uptime E (j + k)) < deadline t ?s" using Suc.IH by simp_all
  have r: "?r \<le> unat (env_uptime E (j + k)) + g" using Suc.prems by (simp add: polled_def)
  have step: "resend_times t (readings E j (Suc (Suc k))) = resend_step t ?s ?r"
    by (simp only: readings_Suc [of _ _ "Suc k"] resend_times_snoc)
  show ?case
  proof (cases "length ?s < 8 \<and> deadline t ?s \<le> ?r")
    case True
    then have "on_time t g (?s @ [?r])" using IH r by (auto simp: on_time_def nth_append less_Suc_eq)
    moreover have "?r < deadline t (?s @ [?r])"
      using intervals_eq(3) [of "Suc (length ?s)"] True by (simp add: deadline_def)
    ultimately show ?thesis using True by (simp add: step resend_step_def)
  next
    case False
    then show ?thesis using IH(1) by (auto simp: step resend_step_def)
  qed
qed

text \<open>Where the resends lie, counted from the start.\<close>

lemma on_time_total:
  "on_time t g sent \<Longrightarrow> length sent \<le> 8 \<Longrightarrow> i < length sent \<Longrightarrow>
    t + sum_list (take (Suc i) intervals) \<le> sent ! i \<and> sent ! i < t + sum_list (take (Suc i) intervals) + Suc i * g"
proof (induction i)
  case 0
  then show ?case by (auto simp: on_time_def deadline_def intervals_def)
next
  case (Suc i)
  have "deadline t (take (Suc i) sent) = sent ! i + intervals ! Suc i"
    using Suc.prems by (simp add: deadline_def take_Suc_conv_app_nth)
  moreover have "take (Suc (Suc i)) intervals = take (Suc i) intervals @ [intervals ! Suc i]"
    using Suc.prems by (intro take_Suc_conv_app_nth) (simp add: intervals_def)
  moreover have "deadline t (take (Suc i) sent) \<le> sent ! Suc i \<and> sent ! Suc i < deadline t (take (Suc i) sent) + g"
    using Suc.prems by (simp add: on_time_def)
  moreover have "t + sum_list (take (Suc i) intervals) \<le> sent ! i \<and> sent ! i < t + sum_list (take (Suc i) intervals) + Suc i * g"
    using Suc by simp
  ultimately show ?case by simp
qed

lemma eight_resends:
  assumes "on_time t g sent" and "length sent = 8"
  shows "t + 29547 \<le> last sent" and "last sent < t + 29547 + 8 * g"
proof -
  have "sum_list (take (Suc 7) intervals) = 29547" by (simp add: intervals_def)
  moreover have "last sent = sent ! 7" using assms(2) by (subst last_conv_nth) auto
  ultimately show "t + 29547 \<le> last sent" "last sent < t + 29547 + 8 * g"
    using on_time_total [OF assms(1), of 7] assms(2) by simp_all
qed

lemma deadline_bound:
  assumes "on_time t g sent" and "length sent < 8"
  shows "deadline t sent \<le> t + 29547 + 8 * g"
proof (cases "length sent")
  case 0
  then show ?thesis by (simp add: deadline_def intervals_def)
next
  case (Suc i)
  then have i: "Suc i < 8" using assms(2) by simp
  then have "sum_list (take (Suc i) intervals) + intervals ! Suc i \<le> 29547" by (rule interval_sums)
  moreover have "Suc i * g \<le> 8 * g" using i by (intro mult_right_mono) simp_all
  moreover have "sent ! i < t + sum_list (take (Suc i) intervals) + Suc i * g"
    using on_time_total [OF assms(1), of i] assms(2) Suc by simp
  moreover have "deadline t sent = sent ! i + intervals ! Suc i"
    using Suc by (cases sent rule: rev_cases) (simp_all add: deadline_def nth_append)
  ultimately show ?thesis by linarith
qed

text \<open>The node in the list follows the timetable.\<close>

definition waiting :: "nat \<Rightarrow> nat list \<Rightarrow> CoAPSendNode \<Rightarrow> bool" where
  "waiting t sent n \<longleftrightarrow> send_node_ok n \<and> unat (retrans_count n) = 8 - length sent \<and> length sent \<le> 8
     \<and> unat (sn_timeout n) = deadline t sent \<and> \<not> acked n \<and> sn_keep n = NOKEEP"

lemma waiting_due:
  "waiting t sent n \<Longrightarrow> due tick n \<longleftrightarrow> length sent < 8 \<and> deadline t sent \<le> unat tick"
  by (auto simp: due_def waiting_def word_le_nat_alt word_unat_eq_iff)

lemma next_timeout_waits:
  assumes w: "waiting t sent n" and s: "length sent < 8" and tick: "unat tick < 2 ^ 63"
  shows "waiting t (sent @ [unat tick]) (next_timeout tick n)"
proof -
  let ?n = "next_timeout tick n" and ?s = "Suc (length sent)"
  have pos: "0 < retrans_count n" using w s by (simp add: waiting_def word_less_nat_alt)
  have ok: "send_node_ok ?n" by (rule next_timeout_ok) (use w pos in \<open>auto simp: waiting_def\<close>)
  have cnt: "unat (retrans_count n - 1) = 8 - ?s"
    using w s unat_minus_le [of 1 "retrans_count n"] by (simp add: waiting_def)
  have step: "unat (tick + (ucast d :: u64)) = unat tick + unat d" for d :: u16
  proof -
    have "unat (ucast d :: u64) = unat d"
      by (simp add: unsigned_ucast_eq take_bit_nat_eq_self order_less_trans [OF unsigned_less])
    moreover have "unat d < 2 ^ 16" using unsigned_less [of d] by simp
    ultimately show ?thesis using tick by (simp add: unat_word_ariths)
  qed
  have "unat (sn_timeout ?n) = unat tick + intervals ! ?s"
  proof (cases "?s < 8")
    case True
    then have nz: "retrans_count n - 1 \<noteq> 0" using cnt by (intro notI) simp
    have r: "unat (retrans_count ?n) = 8 - ?s" using cnt by (simp add: next_timeout_def Let_def)
    then have "0 < retrans_count ?n" "8 - unat (retrans_count ?n) = ?s"
      using True by (simp_all add: word_less_nat_alt del: retry_timeout.simps)
    then have "unat (timeout_val ?n) = retry_timeout ?s" using ok by (simp only: send_node_ok_def simp_thms)
    then show ?thesis
      using nz step [of "timeout_val ?n"] intervals_eq(1) [OF True] by (simp add: next_timeout_def Let_def)
  next
    case False
    then have s8: "?s = 8" and "retrans_count n - 1 = 0" using s cnt by (simp_all add: unat_eq_0)
    then have "unat (sn_timeout ?n) = unat tick + 600"
      using step [of 600] by (simp add: next_timeout_def Let_def)
    then show ?thesis by (simp only: s8 intervals_eq(2))
  qed
  then show ?thesis
    using s ok cnt w by (auto simp: waiting_def deadline_def next_timeout_def Let_def)
qed

lemma waiting_pass:
  assumes "waiting t sent n" and "unat tick < 2 ^ 63"
  shows "waiting t (resend_step t sent (unat tick)) (node_pass tick n)"
    and "sn_remote (node_pass tick n) = sn_remote n" and "sn_message (node_pass tick n) = sn_message n"
  using next_timeout_waits [of t sent n tick] assms waiting_due [OF assms(1), of tick]
  by (auto simp: node_pass_def resend_step_def next_timeout_def Let_def)

lemma waiting_expired:
  "waiting t sent n \<Longrightarrow> expired_node tick n \<longleftrightarrow> length sent = 8 \<and> last sent + 600 < unat tick"
  by (auto simp: expired_node_def waiting_def deadline_def intervals_def word_le_nat_alt word_less_nat_alt not_le
      word_gt_0 word_unat_eq_iff)

lemma passes_waiting:
  assumes "network_takes E" and "\<forall>i \<in> {n_uptime c..<n_uptime c + k}. unat (env_uptime E i) < 2 ^ 63"
    and "p_network c \<noteq> None" and "ctx_ok c" and "LockSendList \<notin> held c"
    and "nodes (sendlist c) = [n]" and "fresh_node t n"
  defines "sent \<equiv> \<lambda>k. resend_times t (readings E (n_uptime c) k)"
  shows "\<exists>c' n'. passes E k c = Some c' \<and> nodes (sendlist c') = [n'] \<and> waiting t (sent k) n' \<and> n_uptime c' = n_uptime c + k
     \<and> sn_remote n' = sn_remote n \<and> sn_message n' = sn_message n
     \<and> datagrams c' = datagrams c @ replicate (length (sent k)) (sn_remote n, sn_message n)
     \<and> p_network c' \<noteq> None \<and> ctx_ok c' \<and> LockSendList \<notin> held c'"
  using assms(2)
proof (induction k)
  case 0
  have "waiting t (sent 0) n" "sent 0 = []"
    using assms(7) by (simp_all add: fresh_node_def waiting_def sent_def readings_def resend_times_def deadline_def intervals_def)
  then show ?case using assms by (intro exI [of _ c] exI [of _ n]) simp
next
  case (Suc k)
  then obtain c1 n1 where c1: "passes E k c = Some c1" "nodes (sendlist c1) = [n1]" "waiting t (sent k) n1" "n_uptime c1 = n_uptime c + k"
    "sn_remote n1 = sn_remote n" "sn_message n1 = sn_message n"
    "datagrams c1 = datagrams c @ replicate (length (sent k)) (sn_remote n, sn_message n)"
    "p_network c1 \<noteq> None" "ctx_ok c1" "LockSendList \<notin> held c1" by auto
  let ?tick = "env_uptime E (n_uptime c1)"
  obtain j where r: "Retansmit E c1 = Some (c1\<lparr>n_uptime := Suc (n_uptime c1), n_sendto := j, datagrams := datagrams c1 @ resent ?tick [n1],
     sendlist := (sendlist c1)\<lparr>nodes := [node_pass ?tick n1]\<rparr>\<rparr>)" (is "_ = Some ?c2")
    using Retansmit_eq [OF assms(1) c1(8-10)] c1(2) by auto
  have "unat ?tick < 2 ^ 63" using Suc.prems c1(4) by simp
  note w = waiting_pass [OF c1(3) this]
  have "\<not> acked n1" using c1(3) by (simp add: waiting_def)
  then have d: "resent ?tick [n1] = replicate (if length (sent k) < 8 \<and> deadline t (sent k) \<le> unat ?tick then 1 else 0) (sn_remote n, sn_message n)"
    using c1(5,6) waiting_due [OF c1(3)] by (simp add: resent_def)
  have st: "sent (Suc k) = resend_step t (sent k) (unat ?tick)"
    by (simp only: sent_def readings_Suc resend_times_snoc c1(4))
  have "ctx_ok ?c2" using Retansmit_keeps [OF c1(9)] r by (auto simp: ok_def)
  then show ?case
    using c1 r w d unfolding st
    by (intro exI [of _ ?c2] exI [of _ "node_pass ?tick n1"])
      (auto simp: resend_step_def replicate_append_same [symmetric] simp del: replicate_append_same)
qed

subsection \<open>Giving up\<close>

text \<open>Response handlers that return and leave the two lists and the locks alone.\<close>

definition app_leaves_lists :: "application \<Rightarrow> bool" where
  "app_leaves_lists A \<longleftrightarrow> (\<forall>f r u remote m c. \<exists>c'. app_resp A f r u remote m c = Some c'
     \<and> sendlist c' = sendlist c \<and> obsserver c' = obsserver c \<and> held c' = held c)"

lemma remove_first_shorter: "List.find P ns = Some n \<Longrightarrow> length (remove_first P ns) < length ns"
  by (induction ns) (auto split: if_splits)

lemma filter_remove_first: "filter (\<lambda>n. \<not> P n) (remove_first P ns) = filter (\<lambda>n. \<not> P n) ns"
  by (induction ns) auto

lemma find_remove_first:
  "List.find P ns = Some n \<Longrightarrow> P n \<and> {m \<in> set ns. P m} = insert n {m \<in> set (remove_first P ns). P m}"
  by (induction ns) (auto split: if_splits)

lemma check_timeout_loop_eq:
  assumes "app_leaves_lists A"
  shows "LockSendList \<notin> held c \<Longrightarrow> LockObsServer \<notin> held c \<Longrightarrow> \<exists>c'. check_timeout_loop A tick c = Some c'
     \<and> nodes (sendlist c') = filter (\<lambda>n. \<not> expired_node tick n) (nodes (sendlist c))
     \<and> nodes (obsserver c') = filter (\<lambda>ob. \<not> (\<exists>n \<in> {n \<in> set (nodes (sendlist c)). expired_node tick n}. same_peer (ob_remote ob) (sn_remote n)))
         (nodes (obsserver c))"
proof (induction "length (nodes (sendlist c))" arbitrary: c rule: less_induct)
  case less
  show ?case
  proof (cases "List.find (expired_node tick) (nodes (sendlist c))")
    case None
    then have "\<forall>n \<in> set (nodes (sendlist c)). \<not> expired_node tick n" by (auto simp: find_None_iff)
    then show ?thesis using less.prems None
      by (subst check_timeout_loop.simps) (auto simp: HAL_MutexLock_def HAL_MutexUnlock_def filter_id_conv intro!: filter_True [symmetric])
  next
    case (Some node)
    note f = find_remove_first [OF Some]
    let ?c = "c\<lparr>sendlist := list_drop_first (expired_node tick) (sendlist c),
       obsserver := list_drop_all (\<lambda>ob. same_peer (ob_remote ob) (sn_remote node)) (obsserver c)\<rparr>"
    obtain c1 where c1: "(case sn_handler node of None \<Rightarrow> Some ?c
         | Some f \<Rightarrow> app_resp A f COAP_RECV_RESP_TIMEOUT (sn_user node) (sn_remote node) None ?c) = Some c1"
      "sendlist c1 = sendlist ?c" "obsserver c1 = obsserver ?c" "held c1 = held c"
    proof (cases "sn_handler node")
      case None
      then show thesis using that [of ?c] by simp
    next
      case (Some f)
      obtain c1 where "app_resp A f COAP_RECV_RESP_TIMEOUT (sn_user node) (sn_remote node) None ?c = Some c1"
        "sendlist c1 = sendlist ?c" "obsserver c1 = obsserver ?c" "held c1 = held ?c"
        using assms unfolding app_leaves_lists_def by blast
      then show thesis using that [of c1] Some by simp
    qed
    have "check_timeout_loop A tick c = check_timeout_loop A tick c1"
      using less.prems Some c1(1)
      by (subst check_timeout_loop.simps)
        (simp add: HAL_MutexLock_def HAL_MutexUnlock_def CoapObsServerAll_delete_def Let_def insert_commute)
    moreover have "length (nodes (sendlist c1)) < length (nodes (sendlist c))"
      using remove_first_shorter [OF Some] c1(2) by (simp add: nodes_drop_first)
    then obtain c' where "check_timeout_loop A tick c1 = Some c'"
      "nodes (sendlist c') = filter (\<lambda>n. \<not> expired_node tick n) (nodes (sendlist c1))"
      "nodes (obsserver c') = filter (\<lambda>ob. \<not> (\<exists>n \<in> {n \<in> set (nodes (sendlist c1)). expired_node tick n}. same_peer (ob_remote ob) (sn_remote n)))
         (nodes (obsserver c1))"
      using less.hyps [of c1] less.prems c1(4) by auto
    ultimately show ?thesis
      using c1(2,3) f by (auto simp: nodes_drop_first filter_remove_first intro!: filter_cong)
  qed
qed

subsection \<open>Properties\<close>

text \<open>
  C8: the life of a request nobody answers.  Put into the send list at time \<open>t\<close>, on a server that makes a pass at
  least every \<open>g\<close> ms, it is sent again exactly at the passes the timetable asks for: the first that is made 600 ms
  after \<open>t\<close> or later, then the first that is made 900 ms or more after that, and so on with growing intervals of
  1350, 2025, 3037, 4555, 6832 and 10248 ms, each resend less than \<open>g\<close> ms late.  It has been sent again fewer than eight
  times only as long as the next of these times is still to come, and never more than eight times.  It counts as
  expired exactly from the time on when it was sent the eighth time more than 600 ms before; so not within 30147
  ms of \<open>t\<close>, and in any case when a pass is made \<open>30147 + 8 * g\<close> ms after \<open>t\<close> or later.
\<close>

theorem unanswered_request:
  assumes "network_takes E" and "polled E t g (n_uptime c) k" and "p_network c \<noteq> None" and "ctx_ok c" and "LockSendList \<notin> held c"
    and "nodes (sendlist c) = [n]" and "fresh_node t n"
    and "sent = resend_times t (readings E (n_uptime c) (Suc k))" and "now = unat (env_uptime E (n_uptime c + k))"
  shows "\<exists>c' n'. passes E (Suc k) c = Some c' \<and> nodes (sendlist c') = [n']
     \<and> datagrams c' = datagrams c @ replicate (length sent) (sn_remote n, sn_message n)
     \<and> length sent \<le> 8 \<and> on_time t g sent \<and> (length sent < 8 \<longrightarrow> now < deadline t sent)
     \<and> (expired_node tick n' \<longleftrightarrow> length sent = 8 \<and> last sent + 600 < unat tick)
     \<and> (expired_node tick n' \<longrightarrow> t + 30147 < unat tick)
     \<and> (t + 30147 + 8 * g \<le> now \<and> now \<le> unat tick \<longrightarrow> expired_node tick n')"
proof -
  have "\<forall>i \<in> {n_uptime c..<n_uptime c + Suc k}. unat (env_uptime E i) < 2 ^ 63" using assms(2) by (auto simp: polled_def)
  from passes_waiting [OF assms(1) this assms(3-7)] obtain c' n' where
    r: "passes E (Suc k) c = Some c'" "nodes (sendlist c') = [n']" "waiting t sent n'"
      "datagrams c' = datagrams c @ replicate (length sent) (sn_remote n, sn_message n)"
    unfolding assms(8) by blast
  have ot: "on_time t g sent" "length sent < 8 \<Longrightarrow> now < deadline t sent"
    using resend_times_on_time [OF assms(2)] by (simp_all only: assms(8,9))
  have len: "length sent \<le> 8" by (simp add: assms(8) resend_times_length)
  note ex = waiting_expired [OF r(3), of tick]
  have "expired_node tick n' \<Longrightarrow> t + 30147 < unat tick" using ex eight_resends(1) [OF ot(1)] by simp
  moreover have "expired_node tick n'" if late: "t + 30147 + 8 * g \<le> now" "now \<le> unat tick"
  proof -
    have "length sent = 8" using ot(2) deadline_bound [OF ot(1)] len late(1) by fastforce
    then show ?thesis using ex eight_resends(2) [OF ot(1)] late by simp
  qed
  ultimately show ?thesis using r ot len ex by (intro exI [of _ c'] exI [of _ n'] conjI impI) simp_all
qed

text \<open>
  C9: what giving up does.  With handlers that leave the lists alone, \<open>Check_timeout\<close> returns, whatever the number
  of expired messages: it removes exactly the messages not kept that have no try left and whose last waiting
  time is over, and stops every observation by their receivers.
\<close>

theorem give_up_removes:
  assumes "app_leaves_lists A" and "LockSendList \<notin> held c" and "LockObsServer \<notin> held c"
    and "tick = env_uptime E (n_uptime c)"
  shows "\<exists>c'. Check_timeout E A c = Some c'
     \<and> nodes (sendlist c') = filter (\<lambda>n. \<not> expired_node tick n) (nodes (sendlist c))
     \<and> nodes (obsserver c') = filter (\<lambda>ob. \<not> (\<exists>n \<in> {n \<in> set (nodes (sendlist c)). expired_node tick n}. same_peer (ob_remote ob) (sn_remote n)))
         (nodes (obsserver c))"
  using check_timeout_loop_eq [OF assms(1), of "c\<lparr>n_uptime := Suc (n_uptime c)\<rparr>" tick] assms(2-4)
  by (simp add: Check_timeout_def HAL_UptimeMs_def)

text \<open>A request sent at time 0 and left alone.\<close>

definition peer :: NetworkAddr where
  "peer = \<lparr>addr = str_buf (str ''10.0.0.7'') 16, port = 5683\<rparr>"

definition sample_send_node :: CoAPSendNode where
  "sample_send_node = \<lparr>sn_at = 0, sn_header = \<lparr>h_version = 1, h_type = 0, h_tokenlen = 4, h_code = 1, h_msgid = 7\<rparr>,
     retrans_count = 8, sn_token = replicate 8 1, sn_timeout = 600, timeout_val = 600, msglen = 8, sn_handler = None, sn_remote = peer,
     sn_user = None, sn_message = [0x44, 1, 0, 7, 1, 1, 1, 1], acked = False, sn_keep = 0\<rparr>"

definition waiting_context :: CoAPIntContext where
  "waiting_context = server_context\<lparr>next_at := 1, sendlist := \<lparr>nodes = [sample_send_node], list_count = 1, maxcount = 16\<rparr>\<rparr>"

definition steady_env :: coap_environment where
  "steady_env = coap_env\<lparr>env_uptime := (\<lambda>n. word_of_nat (min (5000 * n) 1000000)), env_sendto := (\<lambda>k remote data. max 1 (int (length data)))\<rparr>"

definition polling_env :: coap_environment where
  "polling_env = steady_env\<lparr>env_uptime := (\<lambda>n. word_of_nat (500 * n))\<rparr>"

lemma polling_env_uptime: "n < 2 ^ 50 \<Longrightarrow> unat (env_uptime polling_env n) = 500 * n"
  by (simp add: polling_env_def unsigned_of_nat take_bit_nat_eq_self del: of_nat_mult)

lemma polling_env_takes: "network_takes polling_env"
  by (auto simp: network_takes_def polling_env_def steady_env_def coap_env_def less_max_iff_disj)

lemma polling_env_polled: "k < 1000 \<Longrightarrow> polled polling_env 0 500 0 k"
  by (simp add: polled_def polling_env_uptime)

lemma waiting_context_ok:
  "p_network waiting_context \<noteq> None" "ctx_ok waiting_context" "held waiting_context = {}" "nodes (sendlist waiting_context) = [sample_send_node]"
  "fresh_node 0 sample_send_node" "n_uptime waiting_context = 0"
  by (simp_all add: waiting_context_def server_context_eq blank_context_def blank_list_def ctx_ok_def list_ok_def addresses_ok_def
      sample_send_node_def fresh_node_def send_node_ok_def)

text \<open>Polled every 500 ms, the request is sent eight times more, and expires.\<close>

theorem unanswered_request_witness:
  "\<exists>c' n'. passes polling_env 71 waiting_context = Some c' \<and> nodes (sendlist c') = [n']
     \<and> datagrams c' = datagrams waiting_context @ replicate 8 (peer, [0x44, 1, 0, 7, 1, 1, 1, 1])
     \<and> \<not> expired_node 30147 n' \<and> expired_node 35000 n'"
proof -
  have now: "unat (env_uptime polling_env (n_uptime waiting_context + 70)) = 35000"
    by (simp add: polling_env_uptime waiting_context_ok(6))
  note u = unanswered_request [OF polling_env_takes _ waiting_context_ok(1,2) _ waiting_context_ok(4,5) refl refl,
      of 500 70, unfolded waiting_context_ok(6), unfolded now [unfolded waiting_context_ok(6)]]
  show ?thesis
    using u [of 35000] u [of 30147] polling_env_polled [of 70]
    by (auto simp: waiting_context_ok(3)) (auto simp: sample_send_node_def)
qed

theorem give_up_removes_witness:
  "\<exists>c'. Check_timeout steady_env quiet_app (waiting_context\<lparr>n_uptime := 1, sendlist :=
       \<lparr>nodes = [sample_send_node\<lparr>retrans_count := 0\<rparr>, sample_send_node], list_count = 2, maxcount = 16\<rparr>\<rparr>) = Some c'
     \<and> nodes (sendlist c') = [sample_send_node]"
  using give_up_removes [of quiet_app "waiting_context\<lparr>n_uptime := 1, sendlist :=
       \<lparr>nodes = [sample_send_node\<lparr>retrans_count := 0\<rparr>, sample_send_node], list_count = 2, maxcount = 16\<rparr>\<rparr>" 5000 steady_env]
  by (auto simp: app_leaves_lists_def quiet_app_def waiting_context_ok expired_node_def sample_send_node_def steady_env_def coap_env_def)

end
