(* ===== verification/CoapService.thy ===== *)
theory CoapService
  imports CoapRetry
begin

text \<open>
  What the CoAP server does with whole messages: which bytes a call puts on the network and what the receiver of
  them reads, the answers to requests, message identifiers, and calls that do not return.
\<close>

subsection \<open>A message is sent as its bytes\<close>

definition memory_left :: "'e coap_environment_scheme \<Rightarrow> bool" where
  "memory_left E \<longleftrightarrow> (\<forall>n sz. env_malloc E n sz)"

text \<open>What sending leaves as it was.\<close>

definition sent_only :: "CoAPIntContext \<Rightarrow> CoAPIntContext \<Rightarrow> bool" where
  "sent_only c c' \<longleftrightarrow> resource c' = resource c \<and> held c' = held c \<and> p_network c' = p_network c \<and> message_id c' = message_id c
     \<and> obsserver c' = obsserver c \<and> token_value c' = token_value c \<and> waittime c' = waittime c"

lemma sent_only_refl [simp]: "sent_only c c"
  by (simp add: sent_only_def)

lemma find_option_total: "unat (optcount m) \<le> length (options m) \<Longrightarrow> \<exists>r. find_option m k 0 (unat (optcount m)) = Some r"
  by (simp add: find_used)

lemma ok_options: "message_ok m \<Longrightarrow> unat (optcount m) \<le> length (options m)" "message_ok m \<Longrightarrow> list_all option_valid (used_options m)"
  by (simp_all add: message_ok_def)

lemma dump_ok: "message_ok m \<Longrightarrow> CoAPMessage_dump m = Some ()"
  by (simp add: CoAPMessage_dump_def deref_def uint_option_get_eq [OF ok_options] message_ok_def)

lemma obsclient_delete_ok:
  assumes "message_ok m" and "LockObsClient \<notin> held c"
  shows "\<exists>ls. CoAPObsClient_delete m c = Some (COAP_SUCCESS, c\<lparr>obsclient := ls\<rparr>)"
proof -
  have r: "\<exists>r. CoAPOption_present m COAP_OPTION_OBSERVE = Some r" "\<exists>r v. CoAPUintOption_get m COAP_OPTION_OBSERVE 0 = Some (r, v)"
    using ok_options [OF assms(1)] by (auto simp: CoAPOption_present_def find_used uint_option_get_eq split: option.split)
  have lock: "insert LockObsClient (held c) - {LockObsClient} = held c" using assms(2) by simp
  have "Some (COAP_SUCCESS, c) = Some (COAP_SUCCESS, c\<lparr>obsclient := obsclient c\<rparr>)" by simp
  then show ?thesis
    using r assms(2) unfolding CoAPObsClient_delete_def HAL_MutexLock_def HAL_MutexUnlock_def
    by (elim exE) (auto simp: lock intro: exI [of _ "obsclient c"])
qed

definition network_accepts :: "'e coap_environment_scheme \<Rightarrow> bool" where
  "network_accepts E \<longleftrightarrow> (\<forall>k remote data. env_sendto E k remote data = int (length data))"

definition sending :: "'e coap_environment_scheme \<Rightarrow> NetworkAddr \<Rightarrow> CoAPIntContext \<Rightarrow> bool" where
  "sending E remote c \<longleftrightarrow> memory_left E \<and> network_accepts E \<and> p_network c \<noteq> None \<and> held c = {}
     \<and> platform_is_multicast (addr remote) \<noteq> None"

lemma list_add_ok:
  assumes "message_ok m" and "sending E remote c"
  shows "\<exists>c' rc. CoAPMessageList_add E remote m buffer len c = Some (rc, c') \<and> datagrams c' = datagrams c \<and> sent_only c c'
     \<and> (if maxcount (sendlist c) \<le> list_count (sendlist c) then rc = COAP_ERROR_DATA_SIZE \<and> sendlist c' = sendlist c
        else rc = COAP_SUCCESS \<and> (\<exists>node. sendlist c' = list_push node (sendlist c) \<and> sn_header node = header m
          \<and> sn_message node = buffer \<and> sn_remote node = remote \<and> sn_handler node = handler m))"
proof -
  obtain mc where "platform_is_multicast (addr remote) = Some mc" using assms(2) by (auto simp: sending_def)
  moreover have "deref (Some (token m)) (unat (h_tokenlen (header m))) = Some (take (unat (h_tokenlen (header m))) (token m))"
    "length (take (unat (h_tokenlen (header m))) (token m)) \<le> 8"
    using assms(1) by (simp_all add: deref_def message_ok_def)
  moreover have "memory_left E" "held c = {}" using assms(2) by (simp_all add: sending_def)
  ultimately show ?thesis
    by (auto simp: CoAPMessageList_add_def memory_left_def HAL_Malloc_def HAL_UptimeMs_def HAL_MutexLock_def HAL_MutexUnlock_def
          sent_only_def)
qed

lemma message_sent:
  assumes "sendable m" and "length (message_bytes m) \<le> COAP_MSG_MAX_PDU_LEN" and "sending E remote c"
  obtains c' rc where "CoAPMessage_send E remote m c = Some (rc, c')" "datagrams c' = datagrams c @ [(remote, message_bytes m)]"
    "sent_only c c'" "\<not> CoAPReqMsg (header m) \<Longrightarrow> \<not> CoAPCONRespMsg (header m) \<Longrightarrow> rc = COAP_SUCCESS \<and> sendlist c' = sendlist c"
    "CoAPReqMsg (header m) \<or> CoAPCONRespMsg (header m) \<Longrightarrow> if maxcount (sendlist c) \<le> list_count (sendlist c)
        then rc = COAP_ERROR_DATA_SIZE \<and> sendlist c' = sendlist c
        else rc = COAP_SUCCESS \<and> (\<exists>node. sendlist c' = list_push node (sendlist c) \<and> sn_header node = header m
          \<and> sn_message node = message_bytes m \<and> sn_remote node = remote \<and> sn_handler node = handler m)"
proof -
  let ?n = "length (message_bytes m)"
  let ?c1 = "c\<lparr>n_malloc := Suc (n_malloc c)\<rparr>"
  have m: "message_ok m" and c: "memory_left E" "network_accepts E" "p_network c \<noteq> None" "held c = {}"
    using assms(1,3) by (simp_all add: sendable_def sending_def)
  have n: "unat (of_nat ?n :: u16) = ?n" "uint (of_nat ?n :: u16) = int ?n" "\<not> of_nat COAP_MSG_MAX_PDU_LEN < (of_nat ?n :: u16)"
    using assms(2) by (simp_all add: unsigned_of_nat take_bit_nat_eq_self take_bit_int_eq_self word_less_nat_alt)
  obtain ls where ls: "CoAPObsClient_delete m ?c1 = Some (COAP_SUCCESS, ?c1\<lparr>obsclient := ls\<rparr>)"
    using obsclient_delete_ok [OF m, of ?c1] c(4) by auto
  have pos: "0 < ?n" using length_message_bytes [OF m] by simp
  let ?c2 = "?c1\<lparr>obsclient := ls, n_sendto := Suc (n_sendto c), datagrams := datagrams c @ [(remote, message_bytes m)]\<rparr>"
  have w: "CoAPNetwork_write E remote (message_bytes m) (?c1\<lparr>obsclient := ls\<rparr>) = (int ?n, ?c2)"
    using c pos by (auto simp: CoAPNetwork_write_def network_accepts_def)
  have s2: "sending E remote ?c2" using assms(3) by (simp add: sending_def)
  obtain c3 rc where c3: "CoAPMessageList_add E remote m (message_bytes m) (ucast (of_nat ?n :: u16)) ?c2 = Some (rc, c3)"
    "datagrams c3 = datagrams ?c2" "sent_only ?c2 c3"
    "if maxcount (sendlist ?c2) \<le> list_count (sendlist ?c2) then rc = COAP_ERROR_DATA_SIZE \<and> sendlist c3 = sendlist ?c2
        else rc = COAP_SUCCESS \<and> (\<exists>node. sendlist c3 = list_push node (sendlist ?c2) \<and> sn_header node = header m
          \<and> sn_message node = message_bytes m \<and> sn_remote node = remote \<and> sn_handler node = handler m)"
    using list_add_ok [OF m s2] by metis
  have send: "CoAPMessage_send E remote m c =
      (if CoAPReqMsg (header m) \<or> CoAPCONRespMsg (header m) then Some (rc, c3) else Some (COAP_SUCCESS, ?c2))"
    using c(1) n ls w c3(1) message_serialized_lemma [OF assms(1), of "replicate ?n 0"] dump_ok [OF m]
    by (simp add: CoAPMessage_send_def message_length_eq [OF assms(1)] HAL_Malloc_def memory_left_def deref_def del: of_nat_numeral)
  show thesis
  proof (cases "CoAPReqMsg (header m) \<or> CoAPCONRespMsg (header m)")
    case True
    then show ?thesis using send c3 by (intro that [of rc c3]) (auto simp: sent_only_def split: if_splits)
  next
    case False
    then show ?thesis using send by (intro that [of COAP_SUCCESS ?c2]) (simp_all add: sent_only_def)
  qed
qed

subsection \<open>Paths\<close>

text \<open>The parts of an address between slashes, without empty ones.\<close>

fun segments :: "cstring \<Rightarrow> cstring \<Rightarrow> cstring list" where
  "segments [] seg = (if seg = [] then [] else [seg])"
| "segments (ch # cs) seg =
     (if ch = 0x2F then (if seg = [] then [] else [seg]) @ segments cs [] else segments cs (seg @ [ch]))"

abbreviation path_option :: "cstring \<Rightarrow> u16 \<times> opt_arg" where
  "path_option seg \<equiv> (COAP_OPTION_URI_PATH, StrOpt seg)"

text \<open>The path a receiver puts together from the options of a request.\<close>

definition join_path :: "cstring list \<Rightarrow> cstring" where
  "join_path segs = concat (map (\<lambda>seg. 0x2F # seg) segs)"

lemma add_str_eq:
  assumes "memory_left E"
  shows "\<exists>k. add_str E m n d c = map_option (\<lambda>(_, m). (m, c\<lparr>n_malloc := k\<rparr>)) (CoAPStrOption_add True m n (Some d) (of_nat (length d)))"
proof (cases "optcount m < 12")
  case True
  then show ?thesis
    using assms by (intro exI [of _ "Suc (n_malloc c)"])
      (cases "CoAPStrOption_add True m n (Some d) (of_nat (length d))"; auto simp: add_str_def HAL_Malloc_def memory_left_def)
next
  case False
  then show ?thesis
    using assms by (intro exI [of _ "n_malloc c"]) (auto simp: add_str_def CoAPStrOption_add_def)
qed

lemma uri_loop_eq:
  assumes "memory_left E"
  shows "cs \<noteq> [] \<or> seg = [] \<Longrightarrow> \<exists>k. uri_loop E cs seg m c
    = map_option (\<lambda>m. (m, c\<lparr>n_malloc := k\<rparr>)) (add_options m (map path_option (segments cs seg)))"
proof (induction cs arbitrary: seg m c)
  case Nil
  then show ?case by (auto intro!: exI [of _ "n_malloc c"])
next
  case (Cons ch cs)
  have step: "\<exists>k. Option.bind (add_str E m 11 d c) (\<lambda>(m, c). uri_loop E cs seg' m c)
      = map_option (\<lambda>m. (m, c\<lparr>n_malloc := k\<rparr>)) (add_options m (map path_option (d # segments cs seg')))"
    if "cs \<noteq> [] \<or> seg' = []" for d seg' m c
  proof -
    obtain k where k: "add_str E m 11 d c = map_option (\<lambda>(_, m). (m, c\<lparr>n_malloc := k\<rparr>)) (CoAPStrOption_add True m 11 (Some d) (of_nat (length d)))"
      using add_str_eq [OF assms] by blast
    show ?thesis
    proof (cases "CoAPStrOption_add True m 11 (Some d) (of_nat (length d))")
      case (Some r)
      then show ?thesis using k Cons.IH [OF that, of "snd r" "c\<lparr>n_malloc := k\<rparr>"] by (auto simp: split_def)
    qed (simp add: k)
  qed
  have last: "\<exists>k. Option.bind (add_str E m 11 d c) (\<lambda>(m, c). uri_loop E [] seg' m c)
      = map_option (\<lambda>m. (m, c\<lparr>n_malloc := k\<rparr>)) (add_options m (map path_option [d]))" for d seg' m c
    using add_str_eq [OF assms, of m 11 d c]
    by (cases "CoAPStrOption_add True m 11 (Some d) (of_nat (length d))") auto
  show ?case
  proof (cases "cs = []")
    case True
    then show ?thesis using last [of m seg c] last [of m "seg @ [ch]" c]
      by (auto simp: Let_def split_def intro: exI [of _ "n_malloc c"])
  next
    case False
    then show ?thesis using Cons.IH [of "seg @ [ch]" m c] Cons.IH [of "[]" m c] step [of "[]" m seg c]
      by (auto simp: Let_def)
  qed
qed

lemma add_uint_eq:
  assumes "memory_left E"
  shows "\<exists>k. add_uint E m n d c = map_option (\<lambda>(_, m). (m, c\<lparr>n_malloc := k\<rparr>)) (CoAPUintOption_add True m n d)"
proof (cases "optcount m < 12 \<and> d \<noteq> 0")
  case True
  then show ?thesis
    using assms by (intro exI [of _ "Suc (n_malloc c)"])
      (cases "CoAPUintOption_add True m n d"; auto simp: add_uint_def HAL_Malloc_def memory_left_def)
next
  case False
  then show ?thesis
    by (intro exI [of _ "n_malloc c"]) (cases "CoAPUintOption_add True m n d"; auto simp: add_uint_def)
qed

lemma add_options_append: "add_options m (xs @ ys) = Option.bind (add_options m xs) (\<lambda>m. add_options m ys)"
proof (induction m xs rule: add_options.induct)
  case (2 m n d kvs)
  then show ?case by (cases "CoAPStrOption_add True m n (Some d) (of_nat (length d))") auto
next
  case (3 m n v kvs)
  then show ?case by (cases "CoAPUintOption_add True m n v") auto
qed simp

lemma length_join_segments: "length (join_path (segments cs seg)) \<le> Suc (length seg + length cs)"
  by (induction cs seg rule: segments.induct) (auto simp: join_path_def)

lemma segments_zero_free: "0 \<notin> set cs \<Longrightarrow> 0 \<notin> set seg \<Longrightarrow> s \<in> set (segments cs seg) \<Longrightarrow> 0 \<notin> set s"
  by (induction cs seg rule: segments.induct) (auto split: if_splits)

lemma length_in_join: "s \<in> set segs \<Longrightarrow> length s < length (join_path segs)"
  by (induction segs) (auto simp: join_path_def)

lemma str_buf_write: "length s + length x \<le> n \<Longrightarrow> wr_bytes (str_buf s n) (length s) x = Some (str_buf (s @ x) n)"
  by (simp add: str_buf_def splice_at_def)

fun collect_path :: "(u16 \<times> byte list) list \<Rightarrow> byte list \<Rightarrow> byte list" where
  "collect_path [] t = t"
| "collect_path ((n, d) # os) t =
     (if n = COAP_OPTION_URI_PATH \<and> length t + length d \<le> COAP_MSG_MAX_PATH_LEN - 1
      then collect_path os (t @ 0x2F # strncpy_bytes d) else collect_path os t)"

lemma length_strncpy_bytes [simp]: "length (strncpy_bytes d) = length d"
  using length_takeWhile_le [of "\<lambda>b. b \<noteq> 0" d] by (simp add: strncpy_bytes_def Let_def)

lemma strncpy_bytes_eq: "0 \<notin> set d \<Longrightarrow> strncpy_bytes d = d"
proof -
  assume "0 \<notin> set d"
  then have "takeWhile (\<lambda>b. b \<noteq> 0) d = d" using \<open>0 \<notin> set d\<close> by (auto simp: takeWhile_eq_all_conv)
  then show ?thesis unfolding strncpy_bytes_def by (simp only: Let_def) simp
qed

lemma path_loop_eq:
  "i + n \<le> length (options m) \<Longrightarrow> list_all option_valid (take n (drop i (options m))) \<Longrightarrow> length t \<le> 128 \<Longrightarrow>
   path_loop m i n (str_buf t 128) (length t)
     = Some (str_buf (collect_path (map (\<lambda>opt. (opt_num opt, option_data opt)) (take n (drop i (options m)))) t) 128)"
proof (induction n arbitrary: i t)
  case (Suc n)
  let ?opt = "options m ! i"
  have opts: "take (Suc n) (drop i (options m)) = ?opt # take n (drop (Suc i) (options m))"
    using Suc.prems(1) by (simp add: take_drop_Suc)
  have v: "option_valid ?opt" "list_all option_valid (take n (drop (Suc i) (options m)))" using Suc.prems(2) by (simp_all add: opts)
  have d: "deref (opt_val ?opt) (unat (opt_len ?opt)) = Some (option_data ?opt)" "length (option_data ?opt) = unat (opt_len ?opt)"
    using option_deref [OF v(1)] option_data_length [OF v(1)] .
  show ?case
  proof (cases "opt_num ?opt = 11 \<and> length t + length (option_data ?opt) \<le> 127")
    case True
    then have "wr_bytes (str_buf (t @ [0x2F]) 128) (Suc (length t)) (strncpy_bytes (option_data ?opt))
        = Some (str_buf (t @ 0x2F # strncpy_bytes (option_data ?opt)) 128)"
      using str_buf_write [of "t @ [0x2F]" "strncpy_bytes (option_data ?opt)" 128] by simp
    moreover have "wr_bytes (str_buf t 128) (length t) [0x2F] = Some (str_buf (t @ [0x2F]) 128)"
      using True by (intro str_buf_write) simp
    ultimately show ?thesis
      using True d Suc.prems(1) Suc.IH [of "Suc i" "t @ 0x2F # strncpy_bytes (option_data ?opt)"] v(2)
      by (simp add: option_at_def opts del: wr_bytes_Some)
  next
    case False
    then show ?thesis
      using d Suc.prems(1,3) Suc.IH [of "Suc i" t] v(2) by (auto simp: option_at_def opts)
  qed
qed simp

lemma request_path_eq:
  assumes "unat (optcount m) \<le> length (options m)" and "list_all option_valid (used_options m)"
  shows "request_path m = Some (str_buf (collect_path (option_values m) []) 128)"
proof -
  have "str_buf [] 128 = replicate 128 0" by (simp add: str_buf_def)
  then show ?thesis
    using path_loop_eq [of 0 "unat (optcount m)" m "[]"] assms
    by (simp add: request_path_def option_values_def used_options_def)
qed

lemma collect_path_eq:
  "(\<forall>s \<in> set segs. 0 \<notin> set s) \<Longrightarrow> length t + length (join_path segs) \<le> 128 \<Longrightarrow> (\<forall>(n, d) \<in> set os. n \<noteq> 11) \<Longrightarrow>
   collect_path (map (\<lambda>s. (11, s)) segs @ os) t = t @ join_path segs"
proof (induction segs arbitrary: t)
  case Nil
  have "collect_path os t = t" using Nil.prems(3) by (induction os t rule: collect_path.induct) auto
  then show ?case by (simp add: join_path_def)
next
  case (Cons s segs)
  then show ?case by (auto simp: join_path_def strncpy_bytes_eq)
qed

subsection \<open>A multicast message end to end\<close>

lemma options_bytes_bound:
  "list_all option_valid os \<Longrightarrow> length (options_bytes os) \<le> 5 * length os + length (concat (map snd (absolute d os)))"
proof (induction d os rule: absolute.induct)
  case (2 d opt os)
  have "length (option_head opt) \<le> 5" by (simp add: option_head_def opt_ext_def)
  then show ?case using 2 by (simp add: option_bytes_def)
qed simp

lemma length_absolute [simp]: "length (absolute d os) = length os"
  by (induction d os rule: absolute.induct) auto

definition post_header :: "u16 \<Rightarrow> CoAPMsgHeader" where
  "post_header i = \<lparr>h_version = 1, h_type = COAP_MESSAGE_TYPE_NON, h_tokenlen = 4, h_code = COAP_MSG_CODE_POST, h_msgid = i\<rparr>"

lemma token_length [simp]: "length (fst (CoAPServerToken_get c)) = 4"
  by (simp add: CoAPServerToken_get_def Let_def)

lemma id_gen_eq:
  assumes "LockCoap \<notin> held c"
  shows "CoAPMessageId_gen c = Some (if message_id c = 65535 then 1 else message_id c,
    c\<lparr>message_id := if message_id c = 65535 then 1 else message_id c + 1\<rparr>)"
proof -
  have "held c = insert LockCoap (held c) - {LockCoap}" using assms by simp
  then have "c\<lparr>held := insert LockCoap (held c) - {LockCoap}, message_id := k\<rparr> = c\<lparr>message_id := k\<rparr>" for k by simp
  then show ?thesis using assms by (simp add: CoAPMessageId_gen_def HAL_MutexLock_def HAL_MutexUnlock_def)
qed

lemma add_one_uint: "add_options m [(n, UintOpt v)] = map_option snd (CoAPUintOption_add True m n v)"
  by (cases "CoAPUintOption_add True m n v") auto

text \<open>The message built by \<open>CoAPServerMultiCast_send\<close>, before it is sent.\<close>

lemma multicast_built:
  assumes "memory_left E" and "held c = {}" and "0 \<notin> set uri" and "length uri < 128" and "length (segments uri []) \<le> 11"
    and "unat len \<le> length buff" and "unat len \<le> 1000"
  obtains i m k nm where "CoAPServerMultiCast_send E remote uri buff len cb c =
      map_option (\<lambda>(rc, c'). (rc, i, c'))
        (CoAPMessage_send E remote m (c\<lparr>message_id := k, token_value := token_value c + 1, n_malloc := nm\<rparr>))"
    "header m = post_header i" "take 4 (token m) = fst (CoAPServerToken_get c)" "sendable m" "length (message_bytes m) < 1280"
    "absolute 0 (used_options m) = map (\<lambda>s. (11, s)) (segments uri []) @ [(12, [50])]"
    "payloadlen m = len" "payload m = Some buff"
proof -
  let ?segs = "segments uri []"
  define i k where "i = (if message_id c = 65535 then 1 else message_id c)" and "k = (if message_id c = 65535 then 1 else message_id c + 1)"
  define tok where "tok = fst (CoAPServerToken_get c)"
  define c1 where "c1 = c\<lparr>message_id := k, token_value := token_value c + 1\<rparr>"
  have tok: "CoAPServerToken_get (c\<lparr>message_id := k\<rparr>) = (tok, c1)" "length tok = 4"
    by (simp_all add: tok_def c1_def CoAPServerToken_get_def Let_def)
  define m0 where "m0 = CoAPMessage_init\<lparr>header := post_header i, token := tok @ [0, 0, 0, 0], handler := cb, keep := 1\<rparr>"
  have m0: "message_ok m0" "optcount m0 = 0" "optdelta m0 = 0" "used_options m0 = []"
    using tok(2) by (simp_all add: m0_def message_ok_def used_options_def CoAPMessage_init_def zero_message_def post_header_def)
  let ?kvs = "map path_option ?segs @ [(12, UintOpt 50)]"
  have short: "length s < 128" if "s \<in> set ?segs" for s
    using length_in_join [OF that] length_join_segments [of uri "[]"] assms(4) by simp
  obtain m where m: "add_options m0 ?kvs = Some m" "message_ok m" "absolute 0 (used_options m) = map (\<lambda>(n, a). (n, arg_bytes a)) ?kvs"
    "header m = header m0" "token m = token m0"
    using add_options_eq [of m0 ?kvs] m0 assms(5) short
    by (fastforce simp: uint_bytes_def butlast_append)
  obtain m1 where m1: "add_options m0 (map path_option ?segs) = Some m1" "add_options m1 [(12, UintOpt 50)] = Some m"
    using m(1) by (auto simp: add_options_append bind_eq_Some_conv)
  obtain k1 where k1: "uri_loop E uri [] m0 c1 = Some (m1, c1\<lparr>n_malloc := k1\<rparr>)"
    using uri_loop_eq [OF assms(1), of uri "[]" m0 c1] m1(1) by auto
  obtain k2 where k2: "add_uint E m1 12 50 (c1\<lparr>n_malloc := k1\<rparr>) = Some (m, c1\<lparr>n_malloc := k2\<rparr>)"
    using add_uint_eq [OF assms(1), of m1 12 50 "c1\<lparr>n_malloc := k1\<rparr>"] m1(2) unfolding add_one_uint
    by (auto simp: split_def map_option_case split: option.splits)
  let ?m = "m\<lparr>payload := Some buff, payloadlen := len\<rparr>"
  have tokens: "unat (h_tokenlen (header m)) = 4" by (simp add: m(4) m0_def post_header_def)
  have ok: "message_ok ?m" using m(2) assms(6) by (simp add: message_ok_def used_options_def deref_def)
  have vals: "absolute 0 (used_options m) = map (\<lambda>s. (11, s)) ?segs @ [(12, [50])]"
    unfolding m(3) by (simp add: uint_bytes_def)
  have opts: "length (options_bytes (used_options m)) \<le> 189"
  proof -
    have join: "length (concat segs) \<le> length (join_path segs)" for segs by (induction segs) (simp_all add: join_path_def)
    have "length (used_options m) = Suc (length ?segs)" using length_absolute [of 0 "used_options m"] unfolding vals by simp
    moreover have "length (concat (map snd (absolute 0 (used_options m)))) = length (concat ?segs) + 1"
      unfolding vals by (simp add: comp_def)
    ultimately show ?thesis
      using options_bytes_bound [of "used_options m" 0] m(2) join [of ?segs] length_join_segments [of uri "[]"] assms(4,5)
      by (simp add: message_ok_def)
  qed
  have "length (message_bytes ?m) < 1280"
    using length_message_bytes [OF ok] opts tokens assms(7) by (simp add: used_options_def)
  moreover have "CoAPServerMultiCast_send E remote uri buff len cb c =
      map_option (\<lambda>(rc, c'). (rc, i, c')) (CoAPMessage_send E remote ?m (c1\<lparr>n_malloc := k2\<rparr>))"
  proof -
    have "CoAPMessageToken_set (CoAPMessageId_set (CoAPMessageCode_set (CoAPMessage_init\<lparr>header := (header CoAPMessage_init)\<lparr>h_type := 1\<rparr>\<rparr>) 2) i) (Some tok) 4
        = Some (0, CoAPMessage_init\<lparr>header := post_header i, token := tok @ [0, 0, 0, 0]\<rparr>)"
      using tok(2) by (simp add: CoAPMessageToken_set_def CoAPMessageCode_set_def CoAPMessageId_set_def CoAPMessage_init_def zero_message_def
          post_header_def deref_def) (simp add: numeral_eq_Suc)
    then have "CoAPServerMultiCast_send E remote uri buff len cb c = Option.bind (CoAPServerPath_2_option E uri m0 c1) (\<lambda>(_, m, c). do {
         (m, c) \<leftarrow> add_uint E m 12 50 c;
         let (_, m) = CoAPMessagePayload_set m (Some buff) len;
         let msgid = h_msgid (header m);
         (ret, c) \<leftarrow> CoAPMessage_send E remote m c;
         Some (ret, msgid, c) })"
      using assms(2) tok unfolding CoAPServerMultiCast_send_def
      by (simp add: id_gen_eq i_def [symmetric] k_def [symmetric] CoAPMessageType_set_def CoAPMessageHandler_set_def CoAPMessageKeep_Set_def m0_def)
    also have "\<dots> = map_option (\<lambda>(rc, c'). (rc, i, c')) (CoAPMessage_send E remote ?m (c1\<lparr>n_malloc := k2\<rparr>))"
      using k1 k2 assms(4) m(4) by (cases "CoAPMessage_send E remote ?m (c1\<lparr>n_malloc := k2\<rparr>)")
        (auto simp: CoAPServerPath_2_option_def CoAPMessagePayload_set_def m0_def post_header_def)
    finally show ?thesis .
  qed
  moreover have "take 4 (token m) = tok" using tok(2) by (simp add: m(5) m0_def)
  ultimately show thesis
    using ok vals m(4) by (intro that [of _ ?m]) (simp_all add: c1_def tok_def m0_def sendable_def used_options_def)
qed

text \<open>
  C10: a multicast message arrives.  \<open>CoAPServerMultiCast_send\<close>, with an address of at most 127 bytes and 11 parts and
  a payload of at most 1000 bytes, puts exactly one datagram on the network, which fits the receiver's buffer.
  Read there by \<open>CoAPDeserialize_Message\<close>, it is a non-confirmable POST with the identifier the caller was given and the
  token of the call, \<open>request_path\<close> puts the parts of the address together again, the content format is JSON, and the
  payload is the caller's.
\<close>

theorem multicast_arrives:
  assumes "sending E remote c" and "0 \<notin> set uri" and "length uri < 128" and "length (segments uri []) \<le> 11"
    and "unat len \<le> length buff" and "unat len \<le> 1000"
  shows "\<exists>rc i c' data r. CoAPServerMultiCast_send E remote uri buff len cb c = Some (rc, i, c')
     \<and> datagrams c' = datagrams c @ [(remote, data)]
     \<and> CoAPDeserialize_Message zero_message (Some (data @ replicate (COAP_MSG_MAX_PDU_LEN - length data) 0)) (int (length data)) = Some (COAP_SUCCESS, r)
     \<and> header r = \<lparr>h_version = 1, h_type = COAP_MESSAGE_TYPE_NON, h_tokenlen = 4, h_code = COAP_MSG_CODE_POST, h_msgid = i\<rparr>
     \<and> take 4 (token r) = fst (CoAPServerToken_get c)
     \<and> request_path r = Some (str_buf (join_path (segments uri [])) COAP_MSG_MAX_PATH_LEN)
     \<and> CoAPUintOption_get r COAP_OPTION_CONTENT_FORMAT 0 = Some (COAP_SUCCESS, COAP_CT_APP_JSON)
     \<and> payloadlen r = len \<and> (0 < len \<longrightarrow> payload_bytes r = take (unat len) buff)"
proof -
  have c: "memory_left E" "held c = {}" using assms(1) by (simp_all add: sending_def)
  obtain i m k nm where m: "CoAPServerMultiCast_send E remote uri buff len cb c =
      map_option (\<lambda>(rc, c'). (rc, i, c'))
        (CoAPMessage_send E remote m (c\<lparr>message_id := k, token_value := token_value c + 1, n_malloc := nm\<rparr>))"
    "header m = post_header i" "take 4 (token m) = fst (CoAPServerToken_get c)" "sendable m" "length (message_bytes m) < 1280"
    "absolute 0 (used_options m) = map (\<lambda>s. (11, s)) (segments uri []) @ [(12, [50])]"
    "payloadlen m = len" "payload m = Some buff"
    by (rule multicast_built [OF c assms(2-6)]) (rule that)
  let ?c = "c\<lparr>message_id := k, token_value := token_value c + 1, n_malloc := nm\<rparr>"
  have s: "sending E remote ?c" using assms(1) by (simp add: sending_def)
  have le: "length (message_bytes m) \<le> 1280" using m(5) by simp
  obtain c' rc where sent: "CoAPMessage_send E remote m ?c = Some (rc, c')" "datagrams c' = datagrams c @ [(remote, message_bytes m)]"
    by (rule message_sent [OF m(4) le s]) (rule that, simp_all)
  let ?rest = "replicate (1280 - length (message_bytes m)) 0 :: byte list"
  have fresh: "\<exists>b bs. ?rest = b # bs \<and> b \<noteq> 0xFF" using m(5) by (cases "1280 - length (message_bytes m)") auto
  obtain r where r: "CoAPDeserialize_Message zero_message (Some (message_bytes m @ ?rest)) (int (length (message_bytes m))) = Some (COAP_SUCCESS, r)"
    "header r = header m" "take (unat (h_tokenlen (header m))) (token r) = take (unat (h_tokenlen (header m))) (token m)"
    "option_values r = absolute 0 (used_options m)" "payloadlen r = payloadlen m" "payloadlen m \<noteq> 0 \<Longrightarrow> payload_bytes r = payload_bytes m"
    "list_all option_valid (used_options r)" "unat (optcount r) \<le> length (options r)"
    using message_received [OF m(4), of ?rest] fresh by metis
  have "\<forall>s \<in> set (segments uri []). 0 \<notin> set s" using segments_zero_free [OF assms(2), of "[]"] by simp
  then have path: "request_path r = Some (str_buf (join_path (segments uri [])) 128)"
    using request_path_eq [OF r(8,7)] collect_path_eq [of "segments uri []" "[]" "[(12, [50])]"] length_join_segments [of uri "[]"] assms(3)
    unfolding r(4) m(6) by simp
  have "map_of (map (\<lambda>s. (11 :: u16, s)) segs @ [(12, [50 :: byte])]) 12 = Some [50]" for segs by (induction segs) auto
  then have "CoAPUintOption_get r 12 0 = Some (0, 50)"
    unfolding uint_option_get_eq [OF r(8,7)] r(4) m(6) by (simp add: uint_value_def)
  moreover have "payload_bytes r = take (unat len) buff" if "0 < len"
    using r(6) m(7,8) that by (simp add: payload_bytes_def word_neq_0_conv)
  ultimately show ?thesis
    using m(1-3,7) sent r(1-3,5) path by (intro exI [of _ rc] exI [of _ i] exI [of _ c'] exI [of _ "message_bytes m"] exI [of _ r])
      (simp add: post_header_def)
qed

text \<open>A network that takes whole datagrams, and the group the server announces.\<close>

definition group_addr :: NetworkAddr where
  "group_addr = \<lparr>addr = str_buf (str ''224.0.1.187'') 16, port = 5683\<rparr>"

lemma coap_env_sending: "platform_is_multicast (addr remote) \<noteq> None \<Longrightarrow> sending coap_env remote server_context"
  by (simp add: sending_def memory_left_def network_accepts_def coap_env_def server_context_eq blank_context_def)

lemma group_is_multicast: "platform_is_multicast (addr group_addr) = Some True"
proof -
  have "addr group_addr = str ''224.0.1.187'' @ [0, 0, 0, 0, 0]" by (simp add: group_addr_def str_buf_def numeral_eq_Suc)
  then show ?thesis
    by (simp add: platform_is_multicast_def platform_aton_def aton_loop.simps aton_base_def rd8_def isdigit_def isxdigit_def isspace_def)
qed

theorem multicast_arrives_witness:
  "\<exists>rc i c' data r. CoAPServerMultiCast_send coap_env group_addr (str ''/dev/info'') (str ''{}'') 2 None server_context = Some (rc, i, c')
     \<and> datagrams c' = datagrams server_context @ [(group_addr, data)]
     \<and> CoAPDeserialize_Message zero_message (Some (data @ replicate (1280 - length data) 0)) (int (length data)) = Some (0, r)
     \<and> request_path r = Some (str_buf (str ''/dev/info'') 128) \<and> payload_bytes r = str ''{}''"
proof -
  have segs: "segments (str ''/dev/info'') [] = [str ''dev'', str ''info'']" by simp
  show ?thesis
    using multicast_arrives [OF coap_env_sending, of group_addr "str ''/dev/info''" 2 "str ''{}''" None]
    using multicast_arrives [OF coap_env_sending, of group_addr "str ''/dev/info''" 2 "str ''{}''" None] group_is_multicast
    unfolding segs by (fastforce simp: join_path_def)
qed

subsection \<open>Answers to requests\<close>

text \<open>A received message whose token fits its array and whose options lie in the datagram.\<close>

definition received_ok :: "CoAPMessage \<Rightarrow> bool" where
  "received_ok m \<longleftrightarrow> length (token m) = COAP_MSG_MAX_TOKEN_LEN \<and> unat (h_tokenlen (header m)) \<le> COAP_MSG_MAX_TOKEN_LEN
     \<and> unat (optcount m) \<le> length (options m) \<and> list_all option_valid (used_options m)"

text \<open>What a resource is looked up by.\<close>

definition path_key :: "cstring \<Rightarrow> byte list" where
  "path_key p = (if p = [] then replicate COAP_PATH_DEFAULT_SUM_LEN 0 else take COAP_PATH_DEFAULT_SUM_LEN (MD5 p))"

definition reply_header :: "byte \<Rightarrow> CoAPMessage \<Rightarrow> CoAPMsgHeader" where
  "reply_header code m = \<lparr>h_version = 1,
     h_type = (if h_type (header m) = COAP_MESSAGE_TYPE_CON then COAP_MESSAGE_TYPE_ACK else h_type (header m)),
     h_tokenlen = h_tokenlen (header m), h_code = code, h_msgid = h_msgid (header m)\<rparr>"

definition ack_header :: "u16 \<Rightarrow> CoAPMsgHeader" where
  "ack_header i = \<lparr>h_version = 1, h_type = COAP_MESSAGE_TYPE_ACK, h_tokenlen = 0, h_code = 0, h_msgid = i\<rparr>"

lemma bare_message:
  assumes "length tok = 8" and "unat (h_tokenlen h) \<le> 8"
  defines "m \<equiv> CoAPMessage_init\<lparr>header := h, token := tok\<rparr>"
  shows "sendable m" "message_bytes m = header_bytes h @ take (unat (h_tokenlen h)) tok" "length (message_bytes m) \<le> 1280" "header m = h"
  using assms by (simp_all add: sendable_def message_ok_def CoAPMessage_init_def zero_message_def used_options_def message_bytes_def header_bytes_def)

lemma ack_sent:
  assumes "sending E remote c"
  obtains c' where "CoAPMessage_send E remote (CoAPMessageId_set CoAPMessage_init i) c = Some (COAP_SUCCESS, c')"
    "datagrams c' = datagrams c @ [(remote, header_bytes (ack_header i))]" "sent_only c c'" "sendlist c' = sendlist c"
proof -
  let ?m = "CoAPMessage_init\<lparr>header := ack_header i, token := replicate 8 0\<rparr>"
  have "CoAPMessageId_set CoAPMessage_init i = ?m"
    by (simp add: CoAPMessageId_set_def CoAPMessage_init_def zero_message_def ack_header_def)
  moreover have m: "sendable ?m" "length (message_bytes ?m) \<le> 1280" "message_bytes ?m = header_bytes (ack_header i)"
    using bare_message [of "replicate 8 0" "ack_header i"] by (simp_all add: ack_header_def)
  moreover have "\<not> CoAPReqMsg (header ?m)" "\<not> CoAPCONRespMsg (header ?m)" by (simp_all add: ack_header_def CoAPReqMsg_def CoAPCONRespMsg_def)
  ultimately show thesis
    using that by (metis message_sent [OF m(1) m(2) assms])
qed

lemma two_bit_cases: "(t :: 2 word) = 0 \<or> t = 1 \<or> t = 2 \<or> t = 3"
proof -
  have "unat t < 4" using unsigned_less [of t] by simp
  then have "unat t = 0 \<or> unat t = 1 \<or> unat t = 2 \<or> unat t = 3" by arith
  then show ?thesis by (auto simp: word_unat_eq_iff)
qed

lemma error_sent:
  assumes "sending E remote c" and "length (token m) = 8" and "unat (h_tokenlen (header m)) \<le> 8" and "code = 0x84 \<or> code = 0x85"
  obtains c' where "CoAPErrRespMessage_send E remote m code c = Some (COAP_SUCCESS, c')"
    "datagrams c' = datagrams c @ [(remote, header_bytes (reply_header code m) @ take (unat (h_tokenlen (header m))) (token m))]"
    "sent_only c c'" "sendlist c' = sendlist c"
proof -
  let ?n = "unat (h_tokenlen (header m))"
  let ?tok = "take ?n (token m) @ drop ?n (replicate 8 0)"
  let ?m = "CoAPMessage_init\<lparr>header := reply_header code m, token := ?tok\<rparr>"
  have n: "unat (ucast (h_tokenlen (header m)) :: byte) = ?n" "ucast (ucast (h_tokenlen (header m)) :: byte) = h_tokenlen (header m)"
    "\<not> (8 :: byte) < ucast (h_tokenlen (header m))"
  proof -
    show u: "unat (ucast (h_tokenlen (header m)) :: byte) = ?n" using assms(3) by (simp add: unsigned_ucast_eq take_bit_nat_eq_self)
    show "ucast (ucast (h_tokenlen (header m)) :: byte) = h_tokenlen (header m)" by (rule bit_word_eqI) (simp add: bit_simps)
    show "\<not> (8 :: byte) < ucast (h_tokenlen (header m))" using assms(3) u by (simp add: word_less_nat_alt)
  qed
  have t: "CoAPMessageType_set r (ucast ty) = (0, r\<lparr>header := (header r)\<lparr>h_type := ty\<rparr>\<rparr>)" for r and ty :: "2 word"
    using two_bit_cases [of ty] by (elim disjE) (simp_all add: CoAPMessageType_set_def)
  have "CoAPErrRespMessage_send E remote m code c = CoAPMessage_send E remote ?m c"
    using n assms(2,3)
    by (simp add: CoAPErrRespMessage_send_def CoAPMessageToken_set_def t CoAPMessageCode_set_def CoAPMessageId_set_def CoAPMessage_init_def
        zero_message_def reply_header_def deref_def)
  moreover have m: "sendable ?m" "length (message_bytes ?m) \<le> 1280" "message_bytes ?m = header_bytes (reply_header code m) @ take ?n (token m)"
    using bare_message [of ?tok "reply_header code m"] assms(2,3) by (simp_all add: reply_header_def)
  moreover have "\<not> CoAPReqMsg (header ?m)" "\<not> CoAPCONRespMsg (header ?m)"
    using assms(4) by (auto simp: reply_header_def CoAPReqMsg_def CoAPCONRespMsg_def)
  ultimately show thesis
    using that by (metis message_sent [OF m(1) m(2) assms(1)])
qed

lemma path_sum_eq:
  assumes "0 \<notin> set p" and "length p < 2 ^ 32"
  shows "path_sum (p @ 0 # rest) = Some (path_key p)"
proof -
  define n where "n = (of_nat (length p) :: u32)"
  have n: "unat n = length p" "n = 0 \<longleftrightarrow> p = []"
    using assms(2) by (simp_all add: n_def unsigned_of_nat take_bit_nat_eq_self word_unat_eq_iff)
  have "strlen_at (p @ 0 # rest) 0 = Some (length p)" using strlen_at_eq [OF assms(1), of "[]"] by simp
  moreover have "utils_md5 (p @ 0 # rest) n = Some (MD5 p)" using utils_md5_digest [of n "p @ 0 # rest"] n(1) by simp
  moreover have "length (MD5 p) = 16" by (rule md5.digest_size)
  ultimately show ?thesis
    using n(2) by (simp add: path_sum_def path_key_def CoAPPathMD5_sum_def COAP_PATH_DEFAULT_SUM_LEN_def flip: n_def)
qed

lemma zero_split: "0 \<in> set (b :: byte list) \<Longrightarrow> \<exists>p rest. b = p @ 0 # rest \<and> 0 \<notin> set p"
  by (metis split_list_first)

lemma lookup_eq:
  assumes "length path < 128" and "LockResource \<notin> held c"
  shows "CoAPResourceByPath_get (str_buf path 128) c
    = Some (List.find (resource_serves (path_key (cstring_at (str_buf path 128) 0)) (cstring_at (str_buf path 128) 0)) (nodes (resource c)), c)"
proof -
  have "0 \<in> set (str_buf path 128)" "length (str_buf path 128) = 128" using assms(1) by (auto simp: str_buf_def)
  then obtain p rest where b: "str_buf path 128 = p @ 0 # rest" "0 \<notin> set p" "length p < 128"
    using zero_split by fastforce
  have "path_sum (str_buf path 128) = Some (path_key p)" unfolding b(1) using path_sum_eq [OF b(2)] b(3) by simp
  moreover have "cstring_at (str_buf path 128) 0 = p" unfolding b(1) using cstring_at_eq [OF b(2), of "[]"] by simp
  moreover have "c\<lparr>held := insert LockResource (held c) - {LockResource}\<rparr> = c" using assms(2) by simp
  ultimately show ?thesis
    using assms(2) by (simp add: CoAPResourceByPath_get_def HAL_MutexLock_def HAL_MutexUnlock_def)
qed

definition request_text :: "CoAPMessage \<Rightarrow> cstring" where
  "request_text m = cstring_at (str_buf (collect_path (option_values m) []) COAP_MSG_MAX_PATH_LEN) 0"

text \<open>
  C11: every request is answered.  A request whose path leaves room for the terminating zero is looked up among
  the resources by its path.  When none serves it, exactly one datagram goes out: 4.04 with the identifier and the
  token of the request, as acknowledgement when the request was confirmable; likewise 4.05 when the
  resource has no function or does not permit the method.  Otherwise a confirmable request is acknowledged first,
  by one empty datagram, and then the function of the resource is called with the path as text.
\<close>

theorem request_answered:
  assumes "received_ok m" and "sending E remote c" and "length (collect_path (option_values m) []) < COAP_MSG_MAX_PATH_LEN"
  shows "case List.find (resource_serves (path_key (request_text m)) (request_text m)) (nodes (resource c)) of
      None \<Rightarrow> \<exists>c'. CoAPRequestMessage_handle E A remote m c = Some (COAP_SUCCESS, c') \<and> sendlist c' = sendlist c
        \<and> datagrams c' = datagrams c @ [(remote, header_bytes (reply_header COAP_MSG_CODE_404_NOT_FOUND m) @ take (unat (h_tokenlen (header m))) (token m))]
    | Some res \<Rightarrow> if callback res = None \<or> \<not> permitted res (h_code (header m)) then
        \<exists>c'. CoAPRequestMessage_handle E A remote m c = Some (COAP_SUCCESS, c') \<and> sendlist c' = sendlist c
          \<and> datagrams c' = datagrams c @ [(remote, header_bytes (reply_header COAP_MSG_CODE_405_METHOD_NOT_ALLOWED m) @ take (unat (h_tokenlen (header m))) (token m))]
      else \<exists>c1. sent_only c c1 \<and> sendlist c1 = sendlist c
        \<and> datagrams c1 = datagrams c @ (if h_type (header m) = COAP_MESSAGE_TYPE_CON then [(remote, header_bytes (ack_header (h_msgid (header m))))] else [])
        \<and> CoAPRequestMessage_handle E A remote m c = map_option (Pair COAP_SUCCESS) (app_recv A (the (callback res)) (request_text m) remote m c1)"
proof -
  have m: "length (token m) = 8" "unat (h_tokenlen (header m)) \<le> 8" "request_path m = Some (str_buf (collect_path (option_values m) []) 128)"
    using assms(1) request_path_eq by (simp_all add: received_ok_def)
  have unlocked: "LockResource \<notin> held c" using assms(2) by (simp add: sending_def)
  note handle = CoAPRequestMessage_handle_def m(3) lookup_eq [OF assms(3) [simplified] unlocked] request_text_def
  have err: "\<exists>c'. CoAPErrRespMessage_send E remote m code c = Some (COAP_SUCCESS, c') \<and> sendlist c' = sendlist c
      \<and> datagrams c' = datagrams c @ [(remote, header_bytes (reply_header code m) @ take (unat (h_tokenlen (header m))) (token m))]"
    if "code = 0x84 \<or> code = 0x85" for code
    by (rule error_sent [OF assms(2) m(1,2) that]) blast
  note errs = err [of "0x84"] err [of "0x85"]
  obtain ca where ca: "CoAPRequestMessage_ack_send E remote (h_msgid (header m)) c = Some (0, ca)"
    "datagrams ca = datagrams c @ [(remote, header_bytes (ack_header (h_msgid (header m))))]" "sent_only c ca" "sendlist ca = sendlist c"
    using ack_sent [OF assms(2), of "h_msgid (header m)"] by (metis CoAPRequestMessage_ack_send_def)
  have call: "Option.bind x (\<lambda>c. Some (0 :: int, c)) = map_option (Pair 0) x" for x :: "CoAPIntContext option" by (cases x) simp_all
  show ?thesis
    using errs ca
    by (auto simp: handle call split: option.split intro: exI [of _ c] exI [of _ ca])
qed

text \<open>A confirmable GET of \<open>/a/b\<close> to a server with the filter \<open>/a/#\<close>.\<close>

definition sample_request :: CoAPMessage where
  "sample_request = zero_message\<lparr>header := \<lparr>h_version = 1, h_type = COAP_MESSAGE_TYPE_CON, h_tokenlen = 1, h_code = COAP_MSG_CODE_GET, h_msgid = 0x0102\<rparr>,
     token := [9, 0, 0, 0, 0, 0, 0, 0],
     options := [\<lparr>opt_num = 11, opt_len = 1, opt_val = Some (str ''a'')\<rparr>, \<lparr>opt_num = 11, opt_len = 1, opt_val = Some (str ''b'')\<rparr>] @ replicate 10 no_option,
     optcount := 2\<rparr>"

definition filter_resource :: CoAPResource where
  "filter_resource = \<lparr>res_at = 0, permission = 1, callback = Some 1, res_ctype = 50, maxage = 60,
     res_path = replicate COAP_PATH_DEFAULT_SUM_LEN 0, filter_path = Some (str ''/a/#''), path_type = PATH_FILTER\<rparr>"

definition filter_context :: CoAPIntContext where
  "filter_context = server_context\<lparr>resource := \<lparr>nodes = [filter_resource], list_count = 1, maxcount = 255\<rparr>\<rparr>"

lemma sample_request_path: "option_values sample_request = [(11, str ''a''), (11, str ''b'')]"
  "received_ok sample_request" "request_text sample_request = str ''/a/b''"
proof -
  show v: "option_values sample_request = [(11, str ''a''), (11, str ''b'')]"
    by (simp add: sample_request_def option_values_def used_options_def option_data_def zero_message_def)
  show "received_ok sample_request"
    by (simp add: received_ok_def sample_request_def used_options_def option_valid_def deref_def rd_block_def)
  show "request_text sample_request = str ''/a/b''"
    by (simp add: request_text_def v strncpy_bytes_def str_buf_def cstring_at_def)
qed

theorem request_answered_witness:
  "\<exists>c1. CoAPRequestMessage_handle coap_env quiet_app group_addr sample_request filter_context = Some (COAP_SUCCESS, c1)
     \<and> datagrams c1 = [(group_addr, [0x60, 0, 1, 2])]"
proof -
  have s: "sending coap_env group_addr filter_context"
    using coap_env_sending [of group_addr] by (simp add: filter_context_def group_is_multicast sending_def)
  have p: "length (collect_path (option_values sample_request) []) < 128" by (simp add: sample_request_path(1))
  have "resource_serves k (str ''/a/b'') filter_resource" for k by (simp add: resource_serves_def filter_resource_def)
  then have f: "List.find (resource_serves (path_key (request_text sample_request)) (request_text sample_request)) (nodes (resource filter_context)) = Some filter_resource"
    by (simp add: sample_request_path(3) filter_context_def)
  have "callback filter_resource = Some 1" "permitted filter_resource (h_code (header sample_request))" "h_type (header sample_request) = 0"
    "datagrams filter_context = []" "header_bytes (ack_header (h_msgid (header sample_request))) = [0x60, 0, 1, 2]"
    by (simp_all add: filter_resource_def permitted_def sample_request_def filter_context_def server_context_eq blank_context_def
        header_bytes_def ack_header_def)
  then show ?thesis
    using request_answered [OF sample_request_path(2) s p, of quiet_app] by (auto simp: f quiet_app_def)
qed

end
