(* ===== verification/CoapLimits.thy ===== *)
theory CoapLimits
  imports CoapService
begin

text \<open>
  The boundaries of the CoAP server: the identifiers it issues, and the inputs and environments for which a call does not
  return or leaves its arrays.
\<close>

subsection \<open>Message identifiers\<close>

lemma id_gen_total:
  "LockCoap \<notin> held c \<Longrightarrow> \<exists>i c'. CoAPMessageId_gen c = Some (i, c') \<and> held c' = held c"
  by (simp add: id_gen_eq)

interpretation coap_ids: id_source CoAPMessageId_gen unat "\<lambda>c. message_id c \<noteq> 0 \<and> LockCoap \<notin> held c" 65534
proof
  fix c i c' assume inv: "message_id c \<noteq> 0 \<and> LockCoap \<notin> held c" and gen: "CoAPMessageId_gen c = Some (i, c')"
  have less: "unat (message_id c) < 65536" using unsigned_less [of "message_id c"] by simp
  have top: "message_id c = 65535 \<longleftrightarrow> unat (message_id c) = 65535" by (simp add: word_unat_eq_iff)
  show "0 < unat i \<and> unat i \<le> 65534"
    using inv gen less by (auto simp: id_gen_eq top unat_gt_0 split: if_splits)
  have "unat (message_id c + 1) = unat (message_id c) + 1" if "unat (message_id c) < 65535"
    using that by (simp add: unat_word_ariths)
  then have "message_id c \<noteq> 65535 \<Longrightarrow> message_id c + 1 \<noteq> 0"
    using less by (fastforce simp: top word_unat_eq_iff)
  then show "message_id c' \<noteq> 0 \<and> LockCoap \<notin> held c'"
    using inv gen by (auto simp: id_gen_eq split: if_splits)
qed

text \<open>The place in the cycle of 65535 identifiers, from the one to come.\<close>

definition id_at :: "nat \<Rightarrow> nat" where
  "id_at k = (if k mod 65535 = 65534 then 1 else k mod 65535 + 1)"

lemma id_step:
  assumes "LockCoap \<notin> held c" and "unat (message_id c) = k mod 65535 + 1"
  shows "\<exists>c'. CoAPMessageId_gen c = Some (of_nat (id_at k), c') \<and> held c' = held c \<and> unat (message_id c') = Suc k mod 65535 + 1"
proof (cases "k mod 65535 = 65534")
  case True
  then have "message_id c = 65535" using assms(2) by (simp add: word_unat_eq_iff)
  moreover have "Suc k mod 65535 = 0" using True by (simp add: mod_Suc)
  ultimately show ?thesis using True by (simp add: id_gen_eq [OF assms(1)] id_at_def)
next
  case False
  have "k mod 65535 < 65535" by simp
  then have k: "k mod 65535 < 65534" using False by linarith
  then have "message_id c \<noteq> 65535" "unat (message_id c + 1) = k mod 65535 + 2"
    using assms(2) by (auto simp: unat_word_ariths)
  moreover have "Suc k mod 65535 = k mod 65535 + 1" using k by (simp add: mod_Suc)
  moreover have "message_id c = of_nat (k mod 65535 + 1)" unfolding assms(2) [symmetric] by simp
  ultimately show ?thesis using False by (simp add: id_gen_eq [OF assms(1)] id_at_def)
qed

lemma ids_drawn:
  "LockCoap \<notin> held c \<Longrightarrow> unat (message_id c) = k mod 65535 + 1 \<Longrightarrow>
     \<exists>c'. draw CoAPMessageId_gen n c = Some (map (\<lambda>j. of_nat (id_at (k + j))) [0..<n], c')"
proof (induction n arbitrary: c k)
  case (Suc n)
  obtain c1 where c1: "CoAPMessageId_gen c = Some (of_nat (id_at k), c1)" "LockCoap \<notin> held c1" "unat (message_id c1) = Suc k mod 65535 + 1"
    using id_step [OF Suc.prems] Suc.prems(1) by auto
  have "[0..<Suc n] = 0 # map Suc [0..<n]" by (simp add: upt_conv_Cons map_Suc_upt del: upt_Suc)
  then show ?case using c1(1) Suc.IH [OF c1(2,3)] by (auto simp: comp_def simp del: upt_Suc)
qed simp

text \<open>
  The message identifiers of the server.  Starting with a new context, the identifiers drawn are 1, 2, and so on
  up to 65534, then 1 twice, and so on with a period of 65535: none is 0, 65535 is never used, and the last
  of a cycle equals the first of the next one.
\<close>

theorem coap_ids_cycle:
  assumes "message_id c = 1" and "LockCoap \<notin> held c"
  shows "\<exists>ids c'. draw CoAPMessageId_gen n c = Some (ids, c') \<and> length ids = n
     \<and> (\<forall>i \<in> set ids. 0 < unat i \<and> unat i \<le> 65534)
     \<and> (\<forall>j < n. ids ! j = of_nat (if j mod 65535 = 65534 then 1 else j mod 65535 + 1))"
proof -
  have inv: "message_id c \<noteq> 0 \<and> LockCoap \<notin> held c" and start: "unat (message_id c) = 0 mod 65535 + 1" using assms by simp_all
  obtain c' where d: "draw CoAPMessageId_gen n c = Some (map (\<lambda>j. of_nat (id_at (0 + j))) [0..<n], c')"
    using ids_drawn [OF assms(2) start] by blast
  show ?thesis using coap_ids.draw_range [OF d inv] d by (auto simp: id_at_def)
qed

theorem coap_ids_cycle_witness:
  "\<exists>ids c'. draw CoAPMessageId_gen 65536 server_context = Some (ids, c') \<and> ids ! 65534 = 1 \<and> ids ! 65535 = 1"
proof -
  have "message_id server_context = 1" "LockCoap \<notin> held server_context" by (simp_all add: server_context_eq blank_context_def)
  from coap_ids_cycle [OF this, of 65536]
  obtain ids c' where "draw CoAPMessageId_gen 65536 server_context = Some (ids, c')"
    "\<forall>j < 65536. ids ! j = of_nat (if j mod 65535 = 65534 then 1 else j mod 65535 + 1)" by blast
  then show ?thesis by (intro exI [of _ ids] exI [of _ c']) simp
qed

subsection \<open>Calls that do not return\<close>

text \<open>
  A path that fills its array.  When the path options of a request, each after a slash, make exactly 128 bytes
  without a zero, the array of the path is left without a terminating zero, and \<open>CoAPRequestMessage_handle\<close> has no defined
  result: the length of the path is taken beyond the array.
\<close>

theorem unterminated_request_path:
  assumes "received_ok m" and "length (collect_path (option_values m) []) = COAP_MSG_MAX_PATH_LEN"
    and "0 \<notin> set (collect_path (option_values m) [])"
  shows "CoAPRequestMessage_handle E A remote m c = None"
proof -
  let ?path = "collect_path (option_values m) []"
  have "request_path m = Some (str_buf ?path 128)" using assms(1) request_path_eq by (simp add: received_ok_def)
  moreover have "str_buf ?path 128 = ?path" using assms(2) by (simp add: str_buf_def)
  moreover have "path_sum ?path = None" using assms(3) by (simp add: path_sum_def strlen_at_def)
  ultimately show ?thesis by (simp add: CoAPRequestMessage_handle_def CoAPResourceByPath_get_def)
qed

definition long_path_request :: CoAPMessage where
  "long_path_request = sample_request\<lparr>options := \<lparr>opt_num = 11, opt_len = 127, opt_val = Some (replicate 127 0x61)\<rparr> # replicate 11 no_option, optcount := 1\<rparr>"

theorem unterminated_request_path_witness:
  "CoAPRequestMessage_handle coap_env quiet_app group_addr long_path_request server_context = None"
proof -
  have v: "option_values long_path_request = [(11, replicate 127 0x61)]"
    by (simp add: long_path_request_def option_values_def used_options_def option_data_def)
  have z: "strncpy_bytes (replicate 127 0x61) = replicate 127 0x61" by (rule strncpy_bytes_eq) simp
  have "received_ok long_path_request"
    by (simp add: received_ok_def long_path_request_def sample_request_def used_options_def option_valid_def deref_def rd_block_def)
  then show ?thesis using unterminated_request_path [of long_path_request] by (simp add: v z)
qed

text \<open>A read that reports bytes delivers some.\<close>

definition delivers :: "'e coap_environment_scheme \<Rightarrow> bool" where
  "delivers E \<longleftrightarrow> (\<forall>n t. 0 < fst (env_recvfrom E n t) \<longrightarrow> snd (snd (env_recvfrom E n t)) \<noteq> [])"

lemma nothing_read:
  "delivers E \<Longrightarrow> CoAPNetwork_read E timeout c = (len, remote, c') \<Longrightarrow> \<not> 0 < len \<Longrightarrow> remote = no_addr"
  by (auto simp: CoAPNetwork_read_def delivers_def Let_def split: if_splits prod.splits)
    (metis fst_conv snd_conv)

lemma no_addr_text: "cstring_at (addr no_addr) 0 = []"
  by (simp add: no_addr_def cstring_at_def)

lemma process_loop_spins:
  assumes "process_loop E A ip timeout c = Some y" and "ip = []" and "delivers E"
  shows False
proof -
  have "ip = [] \<longrightarrow> delivers E \<longrightarrow> False"
  proof (rule process_loop.raw_induct [OF _ assms(1), of "\<lambda>E A ip timeout c y. ip = [] \<longrightarrow> delivers E \<longrightarrow> False"], goal_cases)
    case (1 loop E A ip timeout c y)
    show ?case
    proof (intro impI)
      assume ip: "ip = []" and E: "delivers E"
      obtain len remote c' where r: "CoAPNetwork_read E timeout c = (len, remote, c')" by (cases "CoAPNetwork_read E timeout c")
      have "0 < len \<or> cstring_at (addr remote) 0 = []" using nothing_read [OF E r] no_addr_text by auto
      then obtain c2 where "loop E A [] timeout c2 = Some y"
        using 1(2) ip r by (auto simp: bind_eq_Some_conv split: if_splits)
      from 1(1) [OF this] E show False by simp
    qed
  qed
  then show False using assms(2,3) by blast
qed

text \<open>
  C36: when the query of the own address fails the server spins.  \<open>HAL_Wifi_Get_IP\<close> returns without writing the text when the
  driver or the adapter reports an error (\<open>wrappers/wrapper_wifi.c\<close>), and \<open>CoAPMessage_process\<close> does not look at
  its result.  A read that finds nothing leaves the sender's address as empty as the own one, which counts as a
  datagram from oneself and does not end the loop: whatever the network delivers, and whatever the application
  does, \<open>CoAPMessage_process\<close>, and with it \<open>CoAPMessage_cycle\<close>, never returns, with the yield mutex held.
\<close>

theorem failed_address_query_never_returns:
  assumes "env_local_ip E (n_local_ip c) = []" and "delivers E"
  shows "CoAPMessage_process E A timeout c = None \<and> CoAPMessage_cycle E A c = None"
proof -
  have "CoAPMessage_process E A timeout c = None" if "env_local_ip E (n_local_ip c) = []" for timeout c
    using process_loop_spins [of E A "[]" timeout] assms(2) that
    by (cases "process_loop E A [] timeout (c\<lparr>n_local_ip := Suc (n_local_ip c)\<rparr>)") (auto simp: CoAPMessage_process_def HAL_Wifi_Get_IP_def)
  moreover have "n_local_ip c1 = n_local_ip c" if "HAL_MutexLock LockCoapYield c = Some c1" for c1
    using that by (auto simp: HAL_MutexLock_def split: if_splits)
  ultimately show ?thesis using assms(1) by (auto simp: CoAPMessage_cycle_def bind_eq_None_conv)
qed

text \<open>A network with one datagram, which is not enough.\<close>

theorem failed_address_query_never_returns_witness:
  "CoAPMessage_cycle (coap_env\<lparr>env_local_ip := \<lambda>n. [],
     env_recvfrom := \<lambda>n t. if n = 0 then (4, (str ''10.0.0.7'', 5683), [0x40, 0, 0, 1]) else (0, ([], 0), [])\<rparr>) quiet_app server_context = None"
  using failed_address_query_never_returns [of "coap_env\<lparr>env_local_ip := \<lambda>n. [],
     env_recvfrom := \<lambda>n t. if n = 0 then (4, (str ''10.0.0.7'', 5683), [0x40, 0, 0, 1]) else (0, ([], 0), [])\<rparr>" server_context quiet_app 50]
  by (simp add: delivers_def)

text \<open>
  C37: a handler must not touch the send list when an acknowledgement arrives.  \<open>CoAPAckMessage_handle\<close> calls the
  handler of the acknowledged message with the list locked: a handler that cancels a message with \<open>CoAPMessageId_cancel\<close>
  waits for itself and the server never returns, although the same handler is called without the lock, and returns, when
  the message times out.
\<close>

theorem cancelling_ack_handler_deadlocks:
  assumes "LockSendList \<notin> held c" and "n \<in> set (nodes (sendlist c))" and "h_msgid (sn_header n) = h_msgid (header m)"
    and "\<forall>n \<in> set (nodes (sendlist c)). sn_handler n \<noteq> None"
    and "\<forall>f r u remote m c. app_resp A f r u remote m c = map_option snd (CoAPMessageId_cancel i c)"
  shows "CoAPAckMessage_handle A m c = None \<and> app_resp A f COAP_RECV_RESP_TIMEOUT u remote None c \<noteq> None"
proof -
  let ?hit = "\<lambda>n. h_msgid (sn_header n) = h_msgid (header m)"
  obtain node where node: "List.find ?hit (nodes (sendlist c)) = Some node" "node \<in> set (nodes (sendlist c))"
    using assms(2,3) by (cases "List.find ?hit (nodes (sendlist c))") (auto simp: find_None_iff find_Some_iff)
  then obtain f where f: "sn_handler node = Some f" using assms(4) by blast
  have stuck: "app_resp A f r u remote m c = None" if "LockSendList \<in> held c" for f r u remote m c
    using assms(5) that by (simp add: CoAPMessageId_cancel_def HAL_MutexLock_def)
  have "CoAPAckMessage_handle A m c = None"
    using assms(1) node(1) f by (simp add: CoAPAckMessage_handle_def HAL_MutexLock_def Let_def stuck)
  moreover have "app_resp A g COAP_RECV_RESP_TIMEOUT u remote None c \<noteq> None" for g u remote
    using assms(1,5) by (simp add: CoAPMessageId_cancel_def HAL_MutexLock_def HAL_MutexUnlock_def Let_def)
  ultimately show ?thesis by blast
qed

definition cancelling_app :: application where
  "cancelling_app = quiet_app\<lparr>app_resp := \<lambda>f r u remote m c. map_option snd (CoAPMessageId_cancel 7 c)\<rparr>"

theorem cancelling_ack_handler_deadlocks_witness:
  "CoAPAckMessage_handle cancelling_app (CoAPMessageId_set CoAPMessage_init 7)
     (waiting_context\<lparr>sendlist := \<lparr>nodes = [sample_send_node\<lparr>sn_handler := Some 1\<rparr>], list_count = 1, maxcount = 16\<rparr>\<rparr>) = None"
  using cancelling_ack_handler_deadlocks [of "waiting_context\<lparr>sendlist := \<lparr>nodes = [sample_send_node\<lparr>sn_handler := Some 1\<rparr>], list_count = 1, maxcount = 16\<rparr>\<rparr>"
      "sample_send_node\<lparr>sn_handler := Some 1\<rparr>" "CoAPMessageId_set CoAPMessage_init 7" cancelling_app 7]
  by (simp add: waiting_context_ok(3) cancelling_app_def sample_send_node_def CoAPMessageId_set_def CoAPMessage_init_def)

end
