(* ===== verification/InfraSha.thy ===== *)
theory InfraSha
  imports InfraMd5
begin

text \<open>
  \<open>infra/infra_sha1.c\<close> and \<open>infra/infra_sha256.c\<close> (with \<open>INFRA_SHA256_SMALLER\<close>, as configured): the two
  digests and their keyed forms, as further instances of the streaming digest.  In \<open>utils_sha1_process\<close>
  the 80 uses of the macro \<open>P\<close> are a loop over the round number; the registers change places from one
  use to the next.
\<close>

definition get_u32_be :: "byte list \<Rightarrow> nat \<Rightarrow> u32" where
  "get_u32_be b i = push_bit 24 (ucast (b ! i)) OR push_bit 16 (ucast (b ! (i + 1)))
     OR push_bit 8 (ucast (b ! (i + 2))) OR ucast (b ! (i + 3))"

definition put_u32_be :: "u32 \<Rightarrow> byte list" where
  "put_u32_be n = [ucast (drop_bit 24 n), ucast (drop_bit 16 n), ucast (drop_bit 8 n), ucast n]"

definition be_put_len :: "u32 \<Rightarrow> u32 \<Rightarrow> byte list" where
  "be_put_len high low = put_u32_be high @ put_u32_be low"

subsection \<open>SHA-1\<close>

definition sha1_iv :: "u32 list" where
  "sha1_iv = [0x67452301, 0xEFCDAB89, 0x98BADCFE, 0x10325476, 0xC3D2E1F0]"

definition sha1_S :: "u32 \<Rightarrow> nat \<Rightarrow> u32" where
  "sha1_S x n = push_bit n x OR drop_bit (32 - n) (x AND 0xFFFFFFFF)"

definition sha1_F :: "nat \<Rightarrow> u32 \<Rightarrow> u32 \<Rightarrow> u32 \<Rightarrow> u32" where
  "sha1_F i x y z =
     (if i < 20 then z XOR (x AND (y XOR z))
      else if i < 40 then x XOR y XOR z
      else if i < 60 then (x AND y) OR (z AND (x OR y))
      else x XOR y XOR z)"

definition sha1_K :: "nat \<Rightarrow> u32" where
  "sha1_K i = (if i < 20 then 0x5A827999 else if i < 40 then 0x6ED9EBA1 else if i < 60 then 0x8F1BBCDC else 0xCA62C1D6)"

text \<open>\<open>R(t)\<close>: the next word of the schedule, stored in the ring of 16 words.\<close>

definition sha1_R :: "u32 list \<Rightarrow> nat \<Rightarrow> u32 list" where
  "sha1_R W t =
     (let temp = W ! ((t - 3) mod 16) XOR W ! ((t - 8) mod 16) XOR W ! ((t - 14) mod 16) XOR W ! (t mod 16)
      in W[t mod 16 := sha1_S temp 1])"

type_synonym sha1_regs = "u32 \<times> u32 \<times> u32 \<times> u32 \<times> u32"

fun sha1_P :: "u32 list \<Rightarrow> sha1_regs \<Rightarrow> nat \<Rightarrow> u32 list \<times> sha1_regs" where
  "sha1_P W (a, b, c, d, e) i =
     (W, e + (sha1_S a 5 + sha1_F i b c d + sha1_K i + W ! (i mod 16)), a, sha1_S b 30, c, d)"

fun sha1_step :: "u32 list \<times> sha1_regs \<Rightarrow> nat \<Rightarrow> u32 list \<times> sha1_regs" where
  "sha1_step (W, regs) i = sha1_P (if i < 16 then W else sha1_R W i) regs i"

definition utils_sha1_process :: "u32 list \<Rightarrow> byte list \<Rightarrow> u32 list" where
  "utils_sha1_process state data =
     (let W = map (\<lambda>i. get_u32_be data (4 * i)) [0..<16];
          (W, A, B, C, D, E) = foldl sha1_step (W, state ! 0, state ! 1, state ! 2, state ! 3, state ! 4) [0..<80]
      in [state ! 0 + A, state ! 1 + B, state ! 2 + C, state ! 3 + D, state ! 4 + E])"

definition sha1_put_state :: "u32 list \<Rightarrow> byte list" where
  "sha1_put_state state = concat (map (\<lambda>i. put_u32_be (state ! i)) [0..<5])"

definition utils_sha1_init :: digest_ctx where
  "utils_sha1_init = zero_ctx (length sha1_iv)"

definition utils_sha1_starts :: "digest_ctx \<Rightarrow> digest_ctx" where
  "utils_sha1_starts = block_starts sha1_iv"

definition utils_sha1_update :: "digest_ctx \<Rightarrow> byte list \<Rightarrow> u32 \<Rightarrow> digest_ctx option" where
  "utils_sha1_update = block_update utils_sha1_process"

definition utils_sha1_finish :: "digest_ctx \<Rightarrow> (digest_ctx \<times> byte list) option" where
  "utils_sha1_finish ctx = do {
     ctx \<leftarrow> block_finish utils_sha1_process be_put_len ctx;
     Some (ctx, sha1_put_state (dstate ctx)) }"

definition utils_sha1 :: "byte list \<Rightarrow> u32 \<Rightarrow> byte list option" where
  "utils_sha1 = block_digest_call utils_sha1_process sha1_iv be_put_len sha1_put_state"

text \<open>The two keyed forms differ in the output: hexadecimal digits, or the bytes.\<close>

definition utils_hmac_sha1_hex :: "byte list option \<Rightarrow> int \<Rightarrow> byte list option \<Rightarrow> int \<Rightarrow> byte list option option" where
  "utils_hmac_sha1_hex msg msg_len key key_len =
     (if msg = None \<or> key = None \<or> 64 < key_len then Some None
      else if key_len < 0 then None
      else block_hmac utils_sha1_process sha1_iv be_put_len sha1_put_state msg (word_of_int msg_len) key (word_of_int key_len))"

definition utils_hmac_sha1 :: "byte list option \<Rightarrow> int \<Rightarrow> byte list option \<Rightarrow> int \<Rightarrow> byte list option option" where
  "utils_hmac_sha1 msg msg_len key key_len = do {
     r \<leftarrow> utils_hmac_sha1_hex msg msg_len key key_len;
     Some (map_option hex_digits r) }"

interpretation sha1: block_digest utils_sha1_process sha1_iv be_put_len sha1_put_state 20
  by unfold_locales
    (simp_all add: utils_sha1_process_def sha1_iv_def be_put_len_def sha1_put_state_def put_u32_be_def length_concat comp_def sum_list_triv split: prod.split)

abbreviation SHA1 :: "byte list \<Rightarrow> byte list" where
  "SHA1 \<equiv> digest_of utils_sha1_process sha1_iv be_put_len sha1_put_state"

subsection \<open>SHA-256\<close>

definition sha256_iv :: "u32 list" where
  "sha256_iv = [0x6A09E667, 0xBB67AE85, 0x3C6EF372, 0xA54FF53A, 0x510E527F, 0x9B05688C, 0x1F83D9AB, 0x5BE0CD19]"

definition sha256_K :: "u32 list" where
  "sha256_K = [
    0x428A2F98, 0x71374491, 0xB5C0FBCF, 0xE9B5DBA5, 0x3956C25B, 0x59F111F1, 0x923F82A4, 0xAB1C5ED5,
    0xD807AA98, 0x12835B01, 0x243185BE, 0x550C7DC3, 0x72BE5D74, 0x80DEB1FE, 0x9BDC06A7, 0xC19BF174,
    0xE49B69C1, 0xEFBE4786, 0x0FC19DC6, 0x240CA1CC, 0x2DE92C6F, 0x4A7484AA, 0x5CB0A9DC, 0x76F988DA,
    0x983E5152, 0xA831C66D, 0xB00327C8, 0xBF597FC7, 0xC6E00BF3, 0xD5A79147, 0x06CA6351, 0x14292967,
    0x27B70A85, 0x2E1B2138, 0x4D2C6DFC, 0x53380D13, 0x650A7354, 0x766A0ABB, 0x81C2C92E, 0x92722C85,
    0xA2BFE8A1, 0xA81A664B, 0xC24B8B70, 0xC76C51A3, 0xD192E819, 0xD6990624, 0xF40E3585, 0x106AA070,
    0x19A4C116, 0x1E376C08, 0x2748774C, 0x34B0BCB5, 0x391C0CB3, 0x4ED8AA4A, 0x5B9CCA4F, 0x682E6FF3,
    0x748F82EE, 0x78A5636F, 0x84C87814, 0x8CC70208, 0x90BEFFFA, 0xA4506CEB, 0xBEF9A3F7, 0xC67178F2]"

definition SHR :: "u32 \<Rightarrow> nat \<Rightarrow> u32" where "SHR x n = drop_bit n (x AND 0xFFFFFFFF)"
definition ROTR :: "u32 \<Rightarrow> nat \<Rightarrow> u32" where "ROTR x n = SHR x n OR push_bit (32 - n) x"
definition sha256_S0 :: "u32 \<Rightarrow> u32" where "sha256_S0 x = ROTR x 7 XOR ROTR x 18 XOR SHR x 3"
definition sha256_S1 :: "u32 \<Rightarrow> u32" where "sha256_S1 x = ROTR x 17 XOR ROTR x 19 XOR SHR x 10"
definition sha256_S2 :: "u32 \<Rightarrow> u32" where "sha256_S2 x = ROTR x 2 XOR ROTR x 13 XOR ROTR x 22"
definition sha256_S3 :: "u32 \<Rightarrow> u32" where "sha256_S3 x = ROTR x 6 XOR ROTR x 11 XOR ROTR x 25"
definition sha256_F0 :: "u32 \<Rightarrow> u32 \<Rightarrow> u32 \<Rightarrow> u32" where "sha256_F0 x y z = (x AND y) OR (z AND (x OR y))"
definition sha256_F1 :: "u32 \<Rightarrow> u32 \<Rightarrow> u32 \<Rightarrow> u32" where "sha256_F1 x y z = z XOR (x AND (y XOR z))"

type_synonym sha256_regs = "u32 \<times> u32 \<times> u32 \<times> u32 \<times> u32 \<times> u32 \<times> u32 \<times> u32"

text \<open>One turn of the loop: the schedule \<open>W[0..i]\<close> grows by a word, \<open>P\<close>, and the shift of the registers.\<close>

fun sha256_shift :: "u32 \<Rightarrow> u32 \<Rightarrow> sha256_regs \<Rightarrow> sha256_regs" where
  "sha256_shift temp1 temp2 (a, b, c, d, e, f, g, h) = (temp1 + temp2, a, b, c, d + temp1, e, f, g)"

fun sha256_P :: "sha256_regs \<Rightarrow> u32 \<Rightarrow> u32 \<Rightarrow> sha256_regs" where
  "sha256_P (a, b, c, d, e, f, g, h) x K =
     sha256_shift (h + sha256_S3 e + sha256_F1 e f g + K + x) (sha256_S2 a + sha256_F0 a b c) (a, b, c, d, e, f, g, h)"

definition sha256_W :: "byte list \<Rightarrow> u32 list \<Rightarrow> nat \<Rightarrow> u32" where
  "sha256_W data W i =
     (if i < 16 then get_u32_be data (4 * i)
      else sha256_S1 (W ! (i - 2)) + W ! (i - 7) + sha256_S0 (W ! (i - 15)) + W ! (i - 16))"

fun sha256_round :: "u32 list \<times> sha256_regs \<Rightarrow> u32 \<Rightarrow> nat \<Rightarrow> u32 list \<times> sha256_regs" where
  "sha256_round (W, regs) w i = (W @ [w], sha256_P regs w (sha256_K ! i))"

fun sha256_step :: "byte list \<Rightarrow> u32 list \<times> sha256_regs \<Rightarrow> nat \<Rightarrow> u32 list \<times> sha256_regs" where
  "sha256_step data (W, regs) i = sha256_round (W, regs) (sha256_W data W i) i"

definition utils_sha256_process :: "u32 list \<Rightarrow> byte list \<Rightarrow> u32 list" where
  "utils_sha256_process state data =
     (let (W, a, b, c, d, e, f, g, h) = foldl (sha256_step data)
            ([], state ! 0, state ! 1, state ! 2, state ! 3, state ! 4, state ! 5, state ! 6, state ! 7) [0..<64]
      in [state ! 0 + a, state ! 1 + b, state ! 2 + c, state ! 3 + d, state ! 4 + e, state ! 5 + f, state ! 6 + g, state ! 7 + h])"

definition sha256_put_state :: "u32 list \<Rightarrow> byte list" where
  "sha256_put_state state = concat (map (\<lambda>i. put_u32_be (state ! i)) [0..<8])"

definition utils_sha256_init :: digest_ctx where
  "utils_sha256_init = zero_ctx (length sha256_iv)"

definition utils_sha256_starts :: "digest_ctx \<Rightarrow> digest_ctx" where
  "utils_sha256_starts = block_starts sha256_iv"

definition utils_sha256_update :: "digest_ctx \<Rightarrow> byte list \<Rightarrow> u32 \<Rightarrow> digest_ctx option" where
  "utils_sha256_update = block_update utils_sha256_process"

definition utils_sha256_finish :: "digest_ctx \<Rightarrow> (digest_ctx \<times> byte list) option" where
  "utils_sha256_finish ctx = do {
     ctx \<leftarrow> block_finish utils_sha256_process be_put_len ctx;
     Some (ctx, sha256_put_state (dstate ctx)) }"

definition utils_sha256 :: "byte list \<Rightarrow> u32 \<Rightarrow> byte list option" where
  "utils_sha256 = block_digest_call utils_sha256_process sha256_iv be_put_len sha256_put_state"

definition utils_hmac_sha256 :: "byte list option \<Rightarrow> u32 \<Rightarrow> byte list option \<Rightarrow> u32 \<Rightarrow> byte list option option" where
  "utils_hmac_sha256 = block_hmac utils_sha256_process sha256_iv be_put_len sha256_put_state"

interpretation sha256: block_digest utils_sha256_process sha256_iv be_put_len sha256_put_state 32
  by unfold_locales
    (simp_all add: utils_sha256_process_def sha256_iv_def be_put_len_def sha256_put_state_def put_u32_be_def length_concat comp_def sum_list_triv split: prod.split)

abbreviation SHA256 :: "byte list \<Rightarrow> byte list" where
  "SHA256 \<equiv> digest_of utils_sha256_process sha256_iv be_put_len sha256_put_state"
subsection \<open>Properties\<close>

text \<open>
  C22: feeding a digest piece by piece is digesting the whole.  For MD5, SHA-1 and SHA-256 and any
  pieces of less than \<open>2 ^ 32\<close> bytes each, the starts, updates and finish of the code stay inside the pieces
  and the buffer and produce the digest of their concatenation: its blocks, padded with \<open>0x80\<close>,
  zeros and the length in bits, compressed one after the other.
\<close>

theorem digest_streaming:
  assumes "\<forall>c \<in> set cs. length c < 2 ^ 32" and "length (concat cs) < 2 ^ 63"
  shows "(\<exists>ctx ctx'. feed utils_md5_update (utils_md5_starts utils_md5_init) cs = Some ctx
           \<and> utils_md5_finish ctx = Some (ctx', MD5 (concat cs)))
     \<and> (\<exists>ctx ctx'. feed utils_sha1_update (utils_sha1_starts utils_sha1_init) cs = Some ctx
           \<and> utils_sha1_finish ctx = Some (ctx', SHA1 (concat cs)))
     \<and> (\<exists>ctx ctx'. feed utils_sha256_update (utils_sha256_starts utils_sha256_init) cs = Some ctx
           \<and> utils_sha256_finish ctx = Some (ctx', SHA256 (concat cs)))"
proof (intro conjI)
  show "\<exists>ctx ctx'. feed utils_md5_update (utils_md5_starts utils_md5_init) cs = Some ctx
           \<and> utils_md5_finish ctx = Some (ctx', MD5 (concat cs))"
    using md5.chunks_digest [OF assms, of "length md5_iv"]
    by (auto simp: utils_md5_update_def utils_md5_starts_def utils_md5_init_def utils_md5_finish_def)
  show "\<exists>ctx ctx'. feed utils_sha1_update (utils_sha1_starts utils_sha1_init) cs = Some ctx
           \<and> utils_sha1_finish ctx = Some (ctx', SHA1 (concat cs))"
    using sha1.chunks_digest [OF assms, of "length sha1_iv"]
    by (auto simp: utils_sha1_update_def utils_sha1_starts_def utils_sha1_init_def utils_sha1_finish_def)
  show "\<exists>ctx ctx'. feed utils_sha256_update (utils_sha256_starts utils_sha256_init) cs = Some ctx
           \<and> utils_sha256_finish ctx = Some (ctx', SHA256 (concat cs))"
    using sha256.chunks_digest [OF assms, of "length sha256_iv"]
    by (auto simp: utils_sha256_update_def utils_sha256_starts_def utils_sha256_init_def utils_sha256_finish_def)
qed

theorem digest_streaming_witness:
  "\<exists>ctx ctx'. feed utils_md5_update (utils_md5_starts utils_md5_init) [str ''a'', str ''bc''] = Some ctx
     \<and> utils_md5_finish ctx = Some (ctx',
         [0x90, 0x01, 0x50, 0x98, 0x3c, 0xd2, 0x4f, 0xb0, 0xd6, 0x96, 0x3f, 0x7d, 0x28, 0xe1, 0x7f, 0x72])"
  using digest_streaming [of "[str ''a'', str ''bc'']"] md5_abc by simp

text \<open>
  C23: the keyed digests are HMAC.  For a message and a key of at most 64 bytes the code computes
  \<open>H((K xor opad) @ H((K xor ipad) @ message))\<close>, as hexadecimal digits for MD5 and SHA-1 and as bytes for SHA-256.
  A longer key, for which the standard asks for its digest, leaves the output as it was.
\<close>

theorem hmac_correct:
  assumes "length msg < 2 ^ 31" and "length key < 2 ^ 31"
  shows "utils_hmac_md5 (Some msg) (int (length msg)) (Some key) (int (length key))
           = Some (if length key \<le> 64 then Some (hex_digits (hmac_of MD5 key msg)) else None)
     \<and> utils_hmac_sha1 (Some msg) (int (length msg)) (Some key) (int (length key))
           = Some (if length key \<le> 64 then Some (hex_digits (hmac_of SHA1 key msg)) else None)
     \<and> utils_hmac_sha256 (Some msg) (of_nat (length msg)) (Some key) (of_nat (length key))
           = Some (if length key \<le> 64 then Some (hmac_of SHA256 key msg) else None)"
proof -
  have n: "unat (of_nat (length msg) :: u32) = length msg" "unat (of_nat (length key) :: u32) = length key"
    using assms by (simp_all add: unsigned_of_nat take_bit_nat_eq_self)
  show ?thesis
    using md5.hmac_digest [of "of_nat (length key)" key "of_nat (length msg)" msg]
      sha1.hmac_digest [of "of_nat (length key)" key "of_nat (length msg)" msg]
      sha256.hmac_digest [of "of_nat (length key)" key "of_nat (length msg)" msg] n
    by (auto simp: utils_hmac_md5_def utils_hmac_sha1_def utils_hmac_sha1_hex_def utils_hmac_sha256_def
        block_hmac_def [of _ _ _ _ "Some msg" _ "Some key" "of_nat (length key)"] word_less_nat_alt)
qed

theorem hmac_correct_witness:
  "utils_hmac_sha256 (Some (str ''hi'')) 2 (Some (str ''key'')) 3 = Some (Some (hmac_of SHA256 (str ''key'') (str ''hi'')))
     \<and> utils_hmac_sha256 (Some (str ''hi'')) 2 (Some (replicate 65 1)) 65 = Some None"
  using hmac_correct [of "str ''hi''" "str ''key''"] hmac_correct [of "str ''hi''" "replicate 65 1"] by simp

end
