(* ===== verification/InfraText.thy ===== *)
theory InfraText
  imports Prelude
begin

text \<open>
  The conversions of \<open>infra/infra_string.c\<close>: bytes to hexadecimal digits and back, integers to decimal
  digits and back.  A function that writes digits through a pointer returns the bytes it wrote.
\<close>

subsection \<open>Hexadecimal\<close>

definition infra_hex2char :: "byte \<Rightarrow> byte" where
  "infra_hex2char hex = (let hex = hex AND 0xF in if hex < 10 then 0x30 + hex else hex - 10 + 0x61)"

definition zEncode :: "bool \<Rightarrow> cstring" where
  "zEncode uppercase = (if uppercase then str ''0123456789ABCDEF'' else str ''0123456789abcdef'')"

definition hex_pair :: "bool \<Rightarrow> byte \<Rightarrow> byte list" where
  "hex_pair uppercase a =
     [zEncode uppercase ! unat (drop_bit 4 a AND 0xf), zEncode uppercase ! unat (a AND 0xf)]"

definition infra_hex2str :: "byte list \<Rightarrow> u16 \<Rightarrow> byte list option" where
  "infra_hex2str input input_len = do {
     bs \<leftarrow> rd_block input 0 (unat input_len);
     Some (concat (map (hex_pair True) bs)) }"

definition LITE_hexbuf_convert :: "byte list \<Rightarrow> int \<Rightarrow> bool \<Rightarrow> byte list option" where
  "LITE_hexbuf_convert digest in_len uppercase = do {
     bs \<leftarrow> rd_block digest 0 (nat in_len);
     Some (concat (map (hex_pair uppercase) bs)) }"

definition hexval_of_char :: "byte \<Rightarrow> byte" where
  "hexval_of_char hex =
     (if 0x30 \<le> hex \<and> hex \<le> 0x39 then hex - 0x30
      else if 0x61 \<le> hex \<and> hex \<le> 0x66 then hex - 0x61 + 10
      else if 0x41 \<le> hex \<and> hex \<le> 0x46 then hex - 0x41 + 10
      else 0)"

text \<open>The loop stores one byte for every two digits, as long as there is room.\<close>

fun hexstr_loop :: "byte list \<Rightarrow> int \<Rightarrow> int \<Rightarrow> nat \<Rightarrow> nat \<Rightarrow> byte list option" where
  "hexstr_loop input input_len output_len i 0 = Some []"
| "hexstr_loop input input_len output_len i (Suc n) =
     (if int i < input_len div 2 \<and> int i < output_len then do {
        ch0 \<leftarrow> rd8 input (2 * i);
        ch1 \<leftarrow> rd8 input (2 * i + 1);
        out \<leftarrow> hexstr_loop input input_len output_len (Suc i) n;
        Some ((push_bit 4 (hexval_of_char ch0) OR hexval_of_char ch1) # out) }
      else Some [])"

definition LITE_hexstr_convert :: "byte list \<Rightarrow> int \<Rightarrow> int \<Rightarrow> byte list option" where
  "LITE_hexstr_convert input input_len output_len =
     (if input_len smod 2 \<noteq> 0 then Some []
      else hexstr_loop input input_len output_len 0 (nat input_len))"

subsection \<open>Decimal\<close>

text \<open>The digits are stored from the last to the first in an array of 10, then copied backwards.\<close>

function int2str_digits :: "u32 \<Rightarrow> nat \<Rightarrow> byte list \<Rightarrow> byte list option" where
  "int2str_digits input i tmp =
     (if 10 \<le> i then None
      else let tmp = tmp @ [ucast (input mod 10) + 0x30];
               input = input div 10
           in if 0 < input then int2str_digits input (Suc i) tmp else Some tmp)"
  by pat_completeness auto
termination by (relation "measure (\<lambda>(input, i, tmp). 10 - i)") auto

declare int2str_digits.simps [simp del]

definition infra_int2str :: "u32 \<Rightarrow> byte list option" where
  "infra_int2str input = do { tmp \<leftarrow> int2str_digits input 0 []; Some (rev tmp) }"

text \<open>A sum that leaves the range of \<open>int\<close> has no defined value.\<close>

fun str2int_loop :: "byte list \<Rightarrow> int \<Rightarrow> int option" where
  "str2int_loop [] temp = None"
| "str2int_loop (c # cs) temp =
     (if c = 0 \<or> c < 0x30 \<or> 0x39 < c then Some temp
      else let temp = temp * 10 + (uint c - 0x30) in if temp < 2 ^ 31 then str2int_loop cs temp else None)"

fun skip_spaces :: "byte list \<Rightarrow> byte list option" where
  "skip_spaces [] = None"
| "skip_spaces (c # cs) = (if c = 0x20 then skip_spaces cs else Some (c # cs))"

definition infra_str2int :: "byte list option \<Rightarrow> (int \<times> int option) option" where
  "infra_str2int input =
     (case input of None \<Rightarrow> Some (-1, None)
      | Some input \<Rightarrow> do {
          s \<leftarrow> skip_spaces input;
          c \<leftarrow> rd8 s 0;
          v \<leftarrow> str2int_loop (if c = 0x2B \<or> c = 0x2D then drop 1 s else s) 0;
          Some (0, Some (if c = 0x2D then - v else v)) })"

subsection \<open>Round trips\<close>

lemma hex_pair_digits:
  "hex_pair u a = [x, y] \<Longrightarrow> push_bit 4 (hexval_of_char x) OR hexval_of_char y = a"
proof -
  assume h: "hex_pair u a = [x, y]"
  have digit: "hexval_of_char (zEncode u ! k) = of_nat k" if "k < 16" for k
  proof -
    have "k \<in> {0, 1, 2, 3, 4, 5, 6, 7, 8, 9, 10, 11, 12, 13, 14, 15}" using that by (simp, presburger)
    then show ?thesis by (elim insertE emptyE) (simp_all add: zEncode_def hexval_of_char_def)
  qed
  have lo: "unat (b AND 0xf :: byte) < 16" for b
  proof -
    have "b AND 0xf = take_bit 4 b" by (simp add: take_bit_eq_mask mask_eq_exp_minus_1)
    then show ?thesis by (simp add: take_bit_eq_mod unat_mod)
  qed
  have "hexval_of_char x = drop_bit 4 a AND 0xf" "hexval_of_char y = a AND 0xf"
    using h digit [OF lo [of "drop_bit 4 a"]] digit [OF lo [of a]] by (auto simp: hex_pair_def)
  then show ?thesis by (simp add: byte_bits_eq_iff bit_simps)
qed
lemma length_hex_pair [simp]: "length (hex_pair u a) = 2"
  by (simp add: hex_pair_def)

lemma length_hex_pairs [simp]: "length (concat (map (hex_pair u) bs)) = 2 * length bs"
  by (induction bs) auto

lemma hexstr_loop_back:
  assumes "length pre = 2 * i" and "length bs \<le> n" and "input_len = 2 * int (i + length bs)" and "int (i + length bs) \<le> output_len"
  shows "hexstr_loop (pre @ concat (map (hex_pair u) bs) @ rest) input_len output_len i n = Some bs"
  using assms
proof (induction bs arbitrary: pre i n)
  case Nil
  then show ?case by (cases n) auto
next
  case (Cons a bs)
  obtain m where n: "n = Suc m" using Cons.prems(2) by (cases n) auto
  obtain x y where xy: "hex_pair u a = [x, y]" by (auto simp: hex_pair_def)
  have "hexstr_loop ((pre @ [x, y]) @ concat (map (hex_pair u) bs) @ rest) input_len output_len (Suc i) m = Some bs"
    by (rule Cons.IH) (use Cons.prems n in auto)
  then show ?case
    using Cons.prems hex_pair_digits [OF xy] by (simp add: n xy nth_append)
qed

fun dec_value :: "byte list \<Rightarrow> int" where
  "dec_value [] = 0"
| "dec_value (d # ds) = (uint d - 0x30) + 10 * dec_value ds"

abbreviation dec_digits :: "byte list \<Rightarrow> bool" where
  "dec_digits ds \<equiv> (\<forall>d \<in> set ds. 0x30 \<le> d \<and> d \<le> 0x39)"

lemma uint_numeral_10: "uint (10 :: u32) = 10"
  by simp

lemma int2str_digits_eq:
  assumes "i < 10" and "uint input < 10 ^ (10 - i)"
  shows "\<exists>ds. int2str_digits input i tmp = Some (tmp @ ds) \<and> dec_value ds = uint input \<and> dec_digits ds \<and> ds \<noteq> []"
  using assms
proof (induction input i tmp rule: int2str_digits.induct)
  case (1 input i tmp)
  let ?d = "ucast (input mod 10) + 0x30 :: byte"
  have m: "uint (input mod 10) < 10" by (simp add: uint_mod)
  then have u: "uint (ucast (input mod 10) :: byte) = uint (input mod 10)"
    by (simp add: unsigned_ucast_eq take_bit_int_eq_self)
  have d: "uint ?d = uint (input mod 10) + 48"
    using m u by (subst uint_add_lem [THEN iffD1]) auto
  then have dig: "0x30 \<le> ?d" "?d \<le> 0x39" using m by (auto simp: word_le_def)
  show ?case
  proof (cases "0 < input div 10")
    case True
    have q: "uint (input div 10) = uint input div 10" by (simp add: uint_div)
    have i: "Suc i < 10"
    proof (rule ccontr)
      assume "\<not> Suc i < 10"
      then have "i = 9" using 1(2) by simp
      then have "uint input div 10 = 0" using 1(3) by simp
      then show False using True q by (simp add: word_less_def)
    qed
    have "10 - i = Suc (10 - Suc i)" using i by simp
    then have "uint (input div 10) < 10 ^ (10 - Suc i)" using 1(3) q by simp
    then obtain ds where "int2str_digits (input div 10) (Suc i) (tmp @ [?d]) = Some ((tmp @ [?d]) @ ds)"
      "dec_value ds = uint (input div 10)" "dec_digits ds"
      using 1(1) [OF _ refl refl True i] 1(2) by auto
    moreover have "uint (input mod 10) + 10 * (uint input div 10) = uint input"
      by (simp add: uint_mod)
    ultimately show ?thesis
      using 1(2) True dig d q by (subst int2str_digits.simps) (auto intro!: exI [of _ "?d # ds"])
  next
    case False
    then have "input div 10 = 0" by (simp add: word_neq_0_conv [symmetric])
    then have "uint input div 10 = 0" by (metis uint_div uint_numeral_10 unsigned_0)
    moreover have "0 \<le> uint input" by simp
    ultimately have "uint input mod 10 = uint input" by presburger
    then have "uint (input mod 10) = uint input" by (simp add: uint_mod)
    then show ?thesis
      using False 1(2) dig d by (subst int2str_digits.simps) auto
  qed
qed

lemma dec_value_nonneg: "dec_digits ds \<Longrightarrow> 0 \<le> dec_value ds"
  by (induction ds) (auto simp: word_le_def)

lemma str2int_loop_digits:
  assumes "dec_digits ds" and "0 \<le> acc" and "acc * 10 ^ length ds + dec_value ds < 2 ^ 31"
  shows "str2int_loop (rev ds @ rest) acc = str2int_loop rest (acc * 10 ^ length ds + dec_value ds)"
  using assms
proof (induction ds arbitrary: rest)
  case Nil
  then show ?case by simp
next
  case (Cons d ds)
  have d: "0x30 \<le> d" "d \<le> 0x39" and ds: "dec_digits ds" using Cons.prems(1) by auto
  have u: "0 \<le> uint d - 0x30" "uint d - 0x30 \<le> 9" using d by (auto simp: word_le_def)
  let ?v = "acc * 10 ^ length ds + dec_value ds"
  have "0 \<le> ?v" using dec_value_nonneg [OF ds] Cons.prems(2) by simp
  then have "?v < 2 ^ 31" and t: "?v * 10 + (uint d - 0x30) < 2 ^ 31"
    using Cons.prems(3) u by (auto simp: algebra_simps)
  then have "str2int_loop (rev ds @ d # rest) acc = str2int_loop (d # rest) ?v"
    using Cons.IH [OF ds Cons.prems(2)] by simp
  moreover have "\<not> (d = 0 \<or> d < 0x30 \<or> 0x39 < d)" using d by auto
  ultimately show ?case using t by (simp add: algebra_simps)
qed


lemma int2str_digits_length:
  "int2str_digits input i tmp = Some ds \<Longrightarrow> length tmp = i \<Longrightarrow> length ds \<le> 10"
proof (induction input i tmp rule: int2str_digits.induct)
  case (1 input i tmp)
  note h = 1(2) [unfolded int2str_digits.simps [of input i tmp]]
  show ?case using 1(1) [OF _ refl refl] h 1(3) by (cases "0 < input div 10") (auto simp: Let_def split: if_splits)
qed

lemma int2str_length: "infra_int2str n = Some text \<Longrightarrow> length text \<le> 10"
  using int2str_digits_length [of n 0 "[]"] by (auto simp: infra_int2str_def split: option.splits Option.bind_splits)

lemma dec_value_length: "dec_digits ds \<Longrightarrow> dec_value ds < 10 ^ length ds"
  by (induction ds) (auto simp: word_le_def)

lemma skip_spaces_digit: "ds \<noteq> [] \<Longrightarrow> dec_digits ds \<Longrightarrow> skip_spaces (ds @ rest) = Some (ds @ rest)"
  by (cases ds) auto

lemma int2str_value:
  "\<exists>ds. infra_int2str n = Some (rev ds) \<and> dec_value ds = uint n \<and> dec_digits ds \<and> ds \<noteq> []"
proof -
  have "uint n < 2 ^ 32" using uint_bounded [of n] by simp
  then show ?thesis using int2str_digits_eq [of 0 n "[]"] by (auto simp: infra_int2str_def)
qed

subsection \<open>Properties\<close>

text \<open>
  The hexadecimal conversions are inverse to each other.  The digits \<open>LITE_hexbuf_convert\<close> writes for
  any bytes, in either case, are twice as many, and \<open>LITE_hexstr_convert\<close> reads the bytes back from them, whatever
  follows; \<open>infra_hex2str\<close> writes the digits of the upper case.
\<close>

theorem hex_roundtrip:
  assumes "n = length bs" and "n \<le> room"
  shows "\<exists>text. LITE_hexbuf_convert bs (int n) upper = Some text \<and> length text = 2 * n
       \<and> LITE_hexstr_convert (text @ rest) (int (2 * n)) (int room) = Some bs
       \<and> (n < 2 ^ 16 \<longrightarrow> upper \<longrightarrow> infra_hex2str bs (of_nat n) = Some text)"
proof -
  have "hexstr_loop ([] @ concat (map (hex_pair upper) bs) @ rest) (int (2 * n)) (int room) 0 (2 * n) = Some bs"
    by (rule hexstr_loop_back) (use assms in auto)
  then show ?thesis
    using assms
    by (auto simp: LITE_hexbuf_convert_def LITE_hexstr_convert_def infra_hex2str_def unat_of_nat nat_mult_distrib signed_modulo_int_def)
qed

theorem hex_roundtrip_witness:
  "LITE_hexbuf_convert [0x1f, 0xa0] 2 False = Some (str ''1fa0'')
     \<and> LITE_hexstr_convert (str ''1fa0'') 4 2 = Some [0x1f, 0xa0]"
  using hex_roundtrip [of 2 "[0x1f, 0xa0]" 2 False "[]"]
  by (simp add: LITE_hexbuf_convert_def hex_pair_def zEncode_def)

text \<open>
  An unsigned number survives \<open>infra_int2str\<close> and \<open>infra_str2int\<close>.  The digits fit the ten bytes of
  the output for every number; read back from a string that ends them, they give the number, as
  long as it is in the range of \<open>int\<close>.
\<close>

theorem decimal_roundtrip:
  "\<exists>text. infra_int2str n = Some text \<and> text \<noteq> [] \<and> length text \<le> 10
     \<and> (uint n < 2 ^ 31 \<longrightarrow> infra_str2int (Some (text @ 0 # rest)) = Some (0, Some (uint n)))"
proof -
  obtain ds where ds: "infra_int2str n = Some (rev ds)" "dec_value ds = uint n" "dec_digits ds" "ds \<noteq> []"
    using int2str_value by blast
  have "length ds \<le> 10" using ds(1) int2str_length by fastforce
  moreover have "infra_str2int (Some (rev ds @ 0 # rest)) = Some (0, Some (uint n))" if "uint n < 2 ^ 31"
  proof -
    obtain c cs where c: "rev ds = c # cs" using ds(4) by (cases "rev ds") auto
    then have "c \<in> set ds" by (metis list.set_intros(1) set_rev)
    then have "0x30 \<le> c" "c \<le> 0x39" using ds(3) by auto
    then have "c \<noteq> 0x2B" "c \<noteq> 0x2D" "c \<noteq> 0x20" by auto
    moreover have "str2int_loop (rev ds @ 0 # rest) 0 = Some (uint n)"
      using str2int_loop_digits [of ds 0 "0 # rest"] ds that by simp
    ultimately show ?thesis by (simp add: infra_str2int_def c)
  qed
  ultimately show ?thesis using ds(1, 4) by auto
qed

theorem decimal_roundtrip_witness:
  "\<exists>text. infra_int2str 4096 = Some text \<and> infra_str2int (Some (text @ [0])) = Some (0, Some 4096)"
  using decimal_roundtrip [of 4096 "[]"] by auto

end
