(* ===== verification/DevSign.thy ===== *)
theory DevSign
  imports InfraSha InfraText
begin

text \<open>
  How a device proves who it is: \<open>dev_sign/dev_sign_mqtt.c\<close> turns the product key, the device name and the device
  secret into the host, client identifier, user name and password of the CONNECT packet.  Strings live in
  arrays of fixed size, as in the code, and are appended at the first zero byte of the array;
  a read or write beyond an array is the value None.
\<close>

subsection \<open>Constants and types\<close>

definition IOTX_PRODUCT_KEY_LEN :: nat where "IOTX_PRODUCT_KEY_LEN = 20"
definition IOTX_DEVICE_NAME_LEN :: nat where "IOTX_DEVICE_NAME_LEN = 32"
definition IOTX_DEVICE_SECRET_LEN :: nat where "IOTX_DEVICE_SECRET_LEN = 64"
definition DEV_SIGN_SOURCE_MAXLEN :: nat where "DEV_SIGN_SOURCE_MAXLEN = 200"
definition DEV_SIGN_HOSTNAME_MAXLEN :: nat where "DEV_SIGN_HOSTNAME_MAXLEN = 64"
definition DEV_SIGN_CLIENT_ID_MAXLEN :: nat where "DEV_SIGN_CLIENT_ID_MAXLEN = 200"
definition DEV_SIGN_USERNAME_MAXLEN :: nat where "DEV_SIGN_USERNAME_MAXLEN = 64"
definition DEV_SIGN_PASSWORD_MAXLEN :: nat where "DEV_SIGN_PASSWORD_MAXLEN = 65"
definition IOTX_MQTT_DOMAIN_NUMBER :: nat where "IOTX_MQTT_DOMAIN_NUMBER = 6"
definition IOTX_CLOUD_REGION_CUSTOM :: nat where "IOTX_CLOUD_REGION_CUSTOM = 5"
definition ERROR_DEV_SIGN_CUSTOM_DOMAIN_IS_NULL :: int where "ERROR_DEV_SIGN_CUSTOM_DOMAIN_IS_NULL = -1105"
definition ERROR_DEV_SIGN_SOURCE_TOO_SHORT :: int where "ERROR_DEV_SIGN_SOURCE_TOO_SHORT = -1104"
definition ERROR_DEV_SIGN_USERNAME_TOO_SHORT :: int where "ERROR_DEV_SIGN_USERNAME_TOO_SHORT = -1102"
definition ERROR_DEV_SIGN_CLIENT_ID_TOO_SHORT :: int where "ERROR_DEV_SIGN_CLIENT_ID_TOO_SHORT = -1101"
definition ERROR_DEV_SIGN_HOST_NAME_TOO_SHORT :: int where "ERROR_DEV_SIGN_HOST_NAME_TOO_SHORT = -1100"

lemmas sign_sizes = IOTX_PRODUCT_KEY_LEN_def IOTX_DEVICE_NAME_LEN_def IOTX_DEVICE_SECRET_LEN_def
  DEV_SIGN_SOURCE_MAXLEN_def DEV_SIGN_HOSTNAME_MAXLEN_def DEV_SIGN_CLIENT_ID_MAXLEN_def DEV_SIGN_USERNAME_MAXLEN_def
  DEV_SIGN_PASSWORD_MAXLEN_def

text \<open>The initial table of domains; the entry for a custom region is set at run time.\<close>

definition g_infra_mqtt_domain :: "cstring option list" where
  "g_infra_mqtt_domain =
     [Some (str ''iot-as-mqtt.cn-shanghai.aliyuncs.com''),
      Some (str ''iot-as-mqtt.ap-southeast-1.aliyuncs.com''),
      Some (str ''iot-as-mqtt.ap-northeast-1.aliyuncs.com''),
      Some (str ''iot-as-mqtt.us-west-1.aliyuncs.com''),
      Some (str ''iot-as-mqtt.eu-central-1.aliyuncs.com''),
      None]"

record iotx_dev_meta_info =
  product_key :: "byte list"
  product_secret :: "byte list"
  device_name :: "byte list"
  device_secret :: "byte list"

record iotx_sign_mqtt =
  so_hostname :: "byte list"
  so_port :: u16
  so_clientid :: "byte list"
  so_username :: "byte list"
  so_password :: "byte list"

definition TIMESTAMP_VALUE :: cstring where "TIMESTAMP_VALUE = str ''2524608000000''"

text \<open>The build option: the configuration connects to the broker directly or asks an authentication server first.\<close>

definition SECURE_MODE :: "bool \<Rightarrow> cstring" where
  "SECURE_MODE mqtt_direct = (if mqtt_direct then str ''2'' else str ''-1'')"

definition clientid_kv :: "bool \<Rightarrow> (cstring \<times> cstring) list" where
  "clientid_kv mqtt_direct =
     [(str ''timestamp'', TIMESTAMP_VALUE), (str ''securemode'', SECURE_MODE mqtt_direct),
      (str ''signmethod'', str ''hmacsha256''), (str ''gw'', str ''0''), (str ''ext'', str ''0''), (str ''_v'', str ''sdk-c-3.0.1'')]"

subsection \<open>The client identifier\<close>

text \<open>\<open>cstr\<close> is the string in an array, None when the array has no zero byte.\<close>

definition cstr :: "byte list \<Rightarrow> cstring option" where
  "cstr buf = (if 0 \<in> set buf then Some (takeWhile (\<lambda>b. b \<noteq> 0) buf) else None)"

fun clientid_loop :: "(cstring \<times> cstring) list \<Rightarrow> byte list \<Rightarrow> (bool \<times> byte list) option" where
  "clientid_loop [] buf = Some (True, buf)"
| "clientid_loop ((k, v) # kv) buf = do {
     n \<leftarrow> strlen_at buf 0;
     if DEV_SIGN_CLIENT_ID_MAXLEN \<le> n + length k + length v + 2 then Some (False, buf)
     else do {
       buf \<leftarrow> str_append buf k;
       buf \<leftarrow> str_append buf (str ''='');
       buf \<leftarrow> str_append buf v;
       buf \<leftarrow> str_append buf (str '','');
       clientid_loop kv buf } }"

definition sign_get_clientid :: "bool \<Rightarrow> byte list \<Rightarrow> (bool \<times> byte list) option" where
  "sign_get_clientid mqtt_direct device_id = do {
     let clientid_string = replicate DEV_SIGN_CLIENT_ID_MAXLEN 0;
     dev \<leftarrow> cstr device_id;
     clientid_string \<leftarrow> wr_bytes clientid_string 0 dev;
     clientid_string \<leftarrow> str_append clientid_string (str ''|'');
     (ok, clientid_string) \<leftarrow> clientid_loop (clientid_kv mqtt_direct) clientid_string;
     if \<not> ok then Some (False, clientid_string)
     else do {
       n \<leftarrow> strlen_at clientid_string 0;
       clientid_string \<leftarrow> wr_bytes clientid_string (n - 1) (str ''|'');
       Some (True, clientid_string) } }"

subsection \<open>The password\<close>

definition hex2str :: "byte list \<Rightarrow> byte list" where
  "hex2str input = concat (map (hex_pair True) input)"

definition write_signsource :: "cstring \<Rightarrow> cstring \<Rightarrow> cstring \<Rightarrow> byte list option" where
  "write_signsource dev name key = do {
     signsource \<leftarrow> wr_bytes (replicate DEV_SIGN_SOURCE_MAXLEN 0) 0 (str ''clientId'');
     signsource \<leftarrow> str_append signsource dev;
     signsource \<leftarrow> str_append signsource (str ''deviceName'');
     signsource \<leftarrow> str_append signsource name;
     signsource \<leftarrow> str_append signsource (str ''productKey'');
     signsource \<leftarrow> str_append signsource key;
     signsource \<leftarrow> str_append signsource (str ''timestamp'');
     str_append signsource TIMESTAMP_VALUE }"

text \<open>
  \<open>sizeof(sign_fmt)\<close> is 46.  The result is the error code, or the digits written to \<open>sign_string\<close>, an array of
  65 bytes.  The key of the digest is at most 64 bytes long, or the array \<open>sign_hex\<close> keeps its zeros.
\<close>

definition iotx_generate_sign_string ::
  "byte list \<Rightarrow> byte list \<Rightarrow> byte list \<Rightarrow> byte list \<Rightarrow> byte list \<Rightarrow> (int + byte list) option" where
  "iotx_generate_sign_string device_id dn pk ds sign_string = do {
     dev \<leftarrow> cstr device_id;
     name \<leftarrow> cstr dn;
     key \<leftarrow> cstr pk;
     let signsource_len = (46 + length dev + length name + length key + length TIMESTAMP_VALUE) mod 2 ^ 16;
     if DEV_SIGN_SOURCE_MAXLEN \<le> signsource_len then Some (Inl ERROR_DEV_SIGN_SOURCE_TOO_SHORT)
     else do {
       signsource \<leftarrow> write_signsource dev name key;
       n \<leftarrow> strlen_at signsource 0;
       secret \<leftarrow> cstr ds;
       r \<leftarrow> utils_hmac_sha256 (Some signsource) (of_nat n) (Some secret) (of_nat (length secret));
       let sign_hex = (case r of Some h \<Rightarrow> h | None \<Rightarrow> replicate 32 0);
       sign_string \<leftarrow> wr_bytes sign_string 0 (hex2str sign_hex);
       Some (Inr sign_string) } }"

subsection \<open>Signing\<close>

text \<open>
  \<open>region\<close> is the number of the region, \<open>domain\<close> the table of domains.  The port is the one of a build with TLS.
  What an earlier step wrote stays in \<open>signout\<close> when a later one fails.
\<close>

definition sign_hostname :: "cstring option list \<Rightarrow> nat \<Rightarrow> byte list \<Rightarrow> (int + byte list) option" where
  "sign_hostname domain region pk =
     (if region = IOTX_CLOUD_REGION_CUSTOM then
        (case domain ! region of
           None \<Rightarrow> Some (Inl ERROR_DEV_SIGN_CUSTOM_DOMAIN_IS_NULL)
         | Some d \<Rightarrow>
             let len = (length d + 1) mod 2 ^ 16
             in if DEV_SIGN_HOSTNAME_MAXLEN \<le> len then Some (Inl ERROR_DEV_SIGN_HOST_NAME_TOO_SHORT)
             else do { h \<leftarrow> wr_bytes (replicate DEV_SIGN_HOSTNAME_MAXLEN 0) 0 d; Some (Inr h) })
      else do {
        d \<leftarrow> domain ! region;
        key \<leftarrow> cstr pk;
        let len = (length key + length d + 2) mod 2 ^ 16;
        if DEV_SIGN_HOSTNAME_MAXLEN \<le> len then Some (Inl ERROR_DEV_SIGN_HOST_NAME_TOO_SHORT)
        else do {
          h \<leftarrow> wr_bytes (replicate DEV_SIGN_HOSTNAME_MAXLEN 0) 0 key;
          h \<leftarrow> str_append h (str ''.'');
          h \<leftarrow> str_append h d;
          Some (Inr h) } })"

definition sign_username :: "byte list \<Rightarrow> byte list \<Rightarrow> (int + byte list) option" where
  "sign_username dn pk = do {
     name \<leftarrow> cstr dn;
     key \<leftarrow> cstr pk;
     let len = (length name + length key + 2) mod 2 ^ 16;
     if DEV_SIGN_USERNAME_MAXLEN \<le> len then Some (Inl ERROR_DEV_SIGN_USERNAME_TOO_SHORT)
     else do {
       u \<leftarrow> wr_bytes (replicate DEV_SIGN_USERNAME_MAXLEN 0) 0 name;
       u \<leftarrow> str_append u (str ''&'');
       u \<leftarrow> str_append u key;
       Some (Inr u) } }"

definition sign_device_id :: "iotx_dev_meta_info \<Rightarrow> byte list option" where
  "sign_device_id meta = do {
     key \<leftarrow> cstr (product_key meta);
     device_id \<leftarrow> wr_bytes (replicate (IOTX_PRODUCT_KEY_LEN + IOTX_DEVICE_NAME_LEN + 1) 0) 0 key;
     device_id \<leftarrow> str_append device_id (str ''.'');
     name \<leftarrow> cstr (device_name meta);
     str_append device_id name }"

definition zero_signout :: iotx_sign_mqtt where
  "zero_signout =
     \<lparr>so_hostname = replicate DEV_SIGN_HOSTNAME_MAXLEN 0, so_port = 0,
      so_clientid = replicate DEV_SIGN_CLIENT_ID_MAXLEN 0, so_username = replicate DEV_SIGN_USERNAME_MAXLEN 0,
      so_password = replicate DEV_SIGN_PASSWORD_MAXLEN 0\<rparr>"

definition IOT_Sign_MQTT ::
  "bool \<Rightarrow> cstring option list \<Rightarrow> nat \<Rightarrow> iotx_dev_meta_info option \<Rightarrow> iotx_sign_mqtt \<Rightarrow> (int \<times> iotx_sign_mqtt) option" where
  "IOT_Sign_MQTT mqtt_direct domain region meta signout =
     (if IOTX_MQTT_DOMAIN_NUMBER \<le> region \<or> meta = None then Some (-1, signout)
      else do {
        meta \<leftarrow> meta;
        let signout = zero_signout;
        device_id \<leftarrow> sign_device_id meta;
        (ok, clientid) \<leftarrow> sign_get_clientid mqtt_direct device_id;
        let signout = signout\<lparr>so_clientid := clientid\<rparr>;
        if \<not> ok then Some (ERROR_DEV_SIGN_CLIENT_ID_TOO_SHORT, signout) else do {
        res \<leftarrow> iotx_generate_sign_string device_id (device_name meta) (product_key meta) (device_secret meta) (so_password signout);
        case res of Inl e \<Rightarrow> Some (e, signout) | Inr password \<Rightarrow> do {
        let signout = signout\<lparr>so_password := password\<rparr>;
        res \<leftarrow> sign_hostname domain region (product_key meta);
        case res of Inl e \<Rightarrow> Some (e, signout) | Inr h \<Rightarrow> do {
        let signout = signout\<lparr>so_hostname := h\<rparr>;
        res \<leftarrow> sign_username (device_name meta) (product_key meta);
        case res of Inl e \<Rightarrow> Some (e, signout) | Inr u \<Rightarrow>
        Some (0, signout\<lparr>so_username := u, so_port := 443\<rparr>) } } } })"

subsection \<open>What is written\<close>

lemma cstr_str_buf: "0 \<notin> set s \<Longrightarrow> length s < n \<Longrightarrow> cstr (str_buf s n) = Some s"
  using takeWhile_zero [of s] by (cases "n - length s") (auto simp: cstr_def str_buf_def)

lemma cstr_str_buf_full: "0 \<notin> set s \<Longrightarrow> length s = n \<Longrightarrow> cstr (str_buf s n) = None"
  by (simp add: cstr_def str_buf_def)

lemma str_buf_start [simp]: "length s \<le> n \<Longrightarrow> splice_at (replicate n 0) 0 s = str_buf s n"
  by (simp add: str_buf_def splice_at_def)

definition kv_text :: "(cstring \<times> cstring) list \<Rightarrow> cstring" where
  "kv_text kv = concat (map (\<lambda>(k, v). k @ str ''='' @ v @ str '','') kv)"

lemma clientid_loop_text:
  assumes "0 \<notin> set s" and "\<forall>(k, v) \<in> set kv. 0 \<notin> set k \<and> 0 \<notin> set v" and "length s + length (kv_text kv) < 200"
  shows "clientid_loop kv (str_buf s 200) = Some (True, str_buf (s @ kv_text kv) 200)"
  using assms
proof (induction kv arbitrary: s)
  case Nil
  then show ?case by (simp add: kv_text_def)
next
  case (Cons p kv)
  obtain k v where p: "p = (k, v)" by (cases p)
  let ?s = "s @ k @ str ''='' @ v @ str '',''"
  have len: "length s + length k + length v + 2 + length (kv_text kv) < 200"
    using Cons.prems(3) by (simp add: kv_text_def p)
  have "clientid_loop kv (str_buf ?s 200) = Some (True, str_buf (?s @ kv_text kv) 200)"
    by (rule Cons.IH) (use Cons.prems len p in \<open>auto simp: str_def\<close>)
  then show ?case
    using Cons.prems(1, 2) len
    by (simp add: p sign_sizes str_buf_strlen str_buf_append kv_text_def)
qed


lemma str_buf_last: "length s < n \<Longrightarrow> wr_bytes (str_buf (s @ [a]) n) (length s) [b] = Some (str_buf (s @ [b]) n)"
  by (simp add: str_buf_def splice_at_def)

lemma clientid_text:
  assumes "0 \<notin> set dev" and "length dev \<le> 52"
  shows "sign_get_clientid direct (str_buf dev 53) =
    Some (True, str_buf (dev @ str ''|timestamp=2524608000000,securemode='' @ SECURE_MODE direct
      @ str '',signmethod=hmacsha256,gw=0,ext=0,_v=sdk-c-3.0.1|'') 200)"
proof -
  let ?s = "dev @ str ''|timestamp=2524608000000,securemode='' @ SECURE_MODE direct
      @ str '',signmethod=hmacsha256,gw=0,ext=0,_v=sdk-c-3.0.1''"
  have spelled: "(dev @ str ''|'') @ kv_text (clientid_kv direct) = ?s @ str '',''"
    by (simp add: kv_text_def clientid_kv_def TIMESTAMP_VALUE_def)
  have mode: "length (SECURE_MODE direct) \<le> 2" "0 \<notin> set (SECURE_MODE direct)"
    by (auto simp: SECURE_MODE_def)
  have "length ((dev @ str ''|'') @ kv_text (clientid_kv direct)) < 200"
    unfolding spelled using assms(2) mode(1) by simp
  then have loop: "clientid_loop (clientid_kv direct) (str_buf (dev @ str ''|'') 200) = Some (True, str_buf (?s @ str '','') 200)"
    using assms mode clientid_loop_text [of "dev @ str ''|''" "clientid_kv direct"]
    by (simp add: spelled [simplified]) (simp add: clientid_kv_def TIMESTAMP_VALUE_def)
  have zero: "0 \<notin> set (?s @ str '','')" using assms mode by simp
  have len: "length (?s @ str '','') < 200" using assms mode by simp
  have last: "wr_bytes (str_buf (?s @ str '','') 200) (length ?s) (str ''|'') = Some (str_buf (?s @ str ''|'') 200)"
    using str_buf_last [of ?s 200] assms mode by simp
  show ?thesis
    using assms loop str_buf_strlen [OF zero len] last
    by (simp add: sign_get_clientid_def cstr_str_buf sign_sizes str_buf_start str_buf_append del: append_assoc)
      (simp add: ac_simps)
qed

definition sign_source :: "cstring \<Rightarrow> cstring \<Rightarrow> cstring \<Rightarrow> cstring" where
  "sign_source dev name key =
     str ''clientId'' @ dev @ str ''deviceName'' @ name @ str ''productKey'' @ key @ str ''timestamp2524608000000''"

lemma hmac_size: "length (hmac_of SHA256 k m) = 32"
  by (simp add: hmac_of_def sha256.digest_size)

lemma length_hex2str [simp]: "length (hex2str bs) = 2 * length bs"
  by (simp add: hex2str_def)

lemma sign_string_text:
  assumes "0 \<notin> set dev" "0 \<notin> set name" "0 \<notin> set key" "0 \<notin> set secret"
    and "length dev \<le> 52" "length name \<le> 32" "length key \<le> 20" "length secret \<le> 64"
  shows "iotx_generate_sign_string (str_buf dev 53) (str_buf name 33) (str_buf key 21) (str_buf secret 65) (replicate 65 0)
     = Some (Inr (str_buf (hex2str (hmac_of SHA256 secret (sign_source dev name key))) 65))"
proof -
  have buf: "write_signsource dev name key = Some (str_buf (sign_source dev name key) 200)"
    unfolding write_signsource_def sign_sizes sign_source_def TIMESTAMP_VALUE_def using assms(1-3, 5-7)
    by (simp add: str_buf_append)
  have zero: "0 \<notin> set (sign_source dev name key)" and len: "length (sign_source dev name key) \<le> 157"
    using assms by (auto simp: sign_source_def)
  let ?buf = "str_buf (sign_source dev name key) 200"
  have "utils_hmac_sha256 (Some ?buf) (of_nat (length (sign_source dev name key))) (Some secret) (of_nat (length secret))
      = Some (Some (hmac_of SHA256 secret (sign_source dev name key)))"
    using sha256.hmac_digest [of "of_nat (length secret)" secret "of_nat (length (sign_source dev name key))" ?buf] assms len
    by (simp add: utils_hmac_sha256_def unsigned_of_nat take_bit_nat_eq_self) (simp add: str_buf_def)
  moreover have "strlen_at ?buf 0 = Some (length (sign_source dev name key))"
    using zero len by (simp add: str_buf_strlen)
  ultimately show ?thesis using buf assms
    by (simp add: iotx_generate_sign_string_def cstr_str_buf sign_sizes hmac_size)
      (simp add: TIMESTAMP_VALUE_def)
qed

lemma hostname_text:
  assumes "0 \<notin> set key" "length key \<le> 20" "region < 5"
  shows "sign_hostname g_infra_mqtt_domain region (str_buf key 21)
    = Some (Inr (str_buf (key @ str ''.'' @ the (g_infra_mqtt_domain ! region)) 64))"
proof -
  have "region \<in> {0, 1, 2, 3, 4}" using assms(3) by auto
  then show ?thesis using assms(1,2)
    by (elim insertE emptyE)
      (simp_all add: sign_hostname_def g_infra_mqtt_domain_def IOTX_CLOUD_REGION_CUSTOM_def sign_sizes cstr_str_buf
        str_buf_append)
qed

lemma username_text:
  assumes "0 \<notin> set name" "0 \<notin> set key" "length name \<le> 32" "length key \<le> 20"
  shows "sign_username (str_buf name 33) (str_buf key 21) = Some (Inr (str_buf (name @ str ''&'' @ key) 64))"
  using assms by (simp add: sign_username_def sign_sizes cstr_str_buf str_buf_append)

lemma device_id_text:
  assumes "0 \<notin> set name" "0 \<notin> set key" "length name \<le> 32" "length key \<le> 20"
  shows "sign_device_id \<lparr>product_key = str_buf key 21, product_secret = ps, device_name = str_buf name 33, device_secret = ds\<rparr>
    = Some (str_buf (key @ str ''.'' @ name) 53)"
  using assms by (simp add: sign_device_id_def sign_sizes cstr_str_buf str_buf_append)

subsection \<open>Properties\<close>

text \<open>
  C21: what \<open>IOT_Sign_MQTT\<close> makes of a device's identity.  For every product key, device name and secret that fit
  their arrays and every region with a domain, no write leaves its array and the result holds the host
  \<open>key.domain\<close>, port 443, the client identifier \<open>key.name|...|\<close> with its six parameters, the user
  \<open>name&key\<close> and, as password, the digits of the HMAC-SHA-256 under the secret of the identity and the time
  stamp --- unless key and name both have their full length of 20 and 32 characters: \<open>key.name\<close> then
  fills the 53 bytes of \<open>device_id\<close> without a terminating zero, and its length is read beyond the array.
\<close>

theorem device_signed:
  assumes "0 \<notin> set key" "0 \<notin> set name" "0 \<notin> set secret"
    and "length key \<le> 20" "length name \<le> 32" "length secret \<le> 64" and "region < 5"
  shows "IOT_Sign_MQTT direct g_infra_mqtt_domain region
      (Some \<lparr>product_key = str_buf key 21, product_secret = ps, device_name = str_buf name 33, device_secret = str_buf secret 65\<rparr>) old
    = (if length key = 20 \<and> length name = 32 then None
       else Some (0,
         \<lparr>so_hostname = str_buf (key @ str ''.'' @ the (g_infra_mqtt_domain ! region)) 64,
          so_port = 443,
          so_clientid = str_buf (key @ str ''.'' @ name @ str ''|timestamp=2524608000000,securemode='' @ SECURE_MODE direct
            @ str '',signmethod=hmacsha256,gw=0,ext=0,_v=sdk-c-3.0.1|'') 200,
          so_username = str_buf (name @ str ''&'' @ key) 64,
          so_password = str_buf (hex2str (hmac_of SHA256 secret (sign_source (key @ str ''.'' @ name) name key))) 65\<rparr>))"
proof -
  note id = device_id_text [OF assms(2,1,5,4)]
  show ?thesis
  proof (cases "length key = 20 \<and> length name = 32")
    case True
    then have "cstr (str_buf (key @ str ''.'' @ name) 53) = None"
      using assms by (intro cstr_str_buf_full) auto
    then show ?thesis
      using True assms(7) id by (simp add: IOT_Sign_MQTT_def IOTX_MQTT_DOMAIN_NUMBER_def sign_get_clientid_def sign_sizes)
  next
    case False
    then have dev: "0 \<notin> set (key @ str ''.'' @ name)" "length (key @ str ''.'' @ name) \<le> 52" using assms by auto
    show ?thesis
      using False assms(7) id clientid_text [OF dev, of direct]
        sign_string_text [OF dev(1) assms(2,1,3) dev(2) assms(5,4,6)]
        hostname_text [OF assms(1,4,7)] username_text [OF assms(2,1,5,4)]
      by (simp add: IOT_Sign_MQTT_def IOTX_MQTT_DOMAIN_NUMBER_def zero_signout_def sign_sizes del: str_simps)
  qed
qed

theorem device_signed_witness:
  "IOT_Sign_MQTT True g_infra_mqtt_domain 0
      (Some \<lparr>product_key = str_buf (replicate 20 0x61) 21, product_secret = [], device_name = str_buf (replicate 32 0x62) 33,
         device_secret = str_buf [] 65\<rparr>) zero_signout = None
   \<and> (\<exists>signout. IOT_Sign_MQTT True g_infra_mqtt_domain 0
      (Some \<lparr>product_key = str_buf (str ''k'') 21, product_secret = [], device_name = str_buf (str ''n'') 33,
         device_secret = str_buf (str ''s'') 65\<rparr>) zero_signout = Some (0, signout)
      \<and> so_hostname signout = str_buf (str ''k.iot-as-mqtt.cn-shanghai.aliyuncs.com'') 64)"
  using device_signed [of "replicate 20 0x61" "replicate 32 0x62" "[]" 0 True "[]" zero_signout]
    device_signed [of "str ''k''" "str ''n''" "str ''s''" 0 True "[]" zero_signout]
  by (simp add: g_infra_mqtt_domain_def)

end
