(* ===== verification/ZconfigCodec.thy ===== *)
theory ZconfigCodec
  imports Prelude
begin

text \<open>
  The encodings of Wi-Fi provisioning: the checksum and the UTF-8 test of \<open>wifi_provision/frameworks/utils/zconfig_utils.c\<close>,
  and the packing of 8-bit characters into fewer bits of \<open>zconfig_protocol.c\<close>.  Arrays on the stack and heap
  have their size; an access outside one is None.
\<close>

definition ZC_MAX_SSID_LEN :: nat where "ZC_MAX_SSID_LEN = 33"

subsection \<open>The checksum\<close>

definition zconfig_checksum_v3 :: "byte list \<Rightarrow> byte \<Rightarrow> u16 option" where
  "zconfig_checksum_v3 data len = do {
     bs \<leftarrow> rd_block data 0 (unat len);
     let sum = (sum_list (map ucast bs) :: u16);
     let res = sum AND 0x3F;
     let res = res OR push_bit 2 (sum AND 0xFC0);
     let res = (if res AND 0x00FF = 0 then res OR 0x0001 else res);
     let res = (if res AND 0xFF00 = 0 then res OR 0x0100 else res);
     Some res }"

subsection \<open>Characters as bits\<close>

text \<open>The bits of characters, least significant first, and characters from bits.\<close>

definition char_bits :: "nat \<Rightarrow> byte list \<Rightarrow> bool list" where
  "char_bits k bs = concat (map (\<lambda>b. map (bit b) [0..<k]) bs)"

definition bits_char :: "bool list \<Rightarrow> byte" where
  "bits_char bs = horner_sum of_bool 2 bs"

definition gather :: "bool list \<Rightarrow> nat \<Rightarrow> nat \<Rightarrow> byte list option" where
  "gather bs k n = (if n * k \<le> length bs then Some (map (\<lambda>i. bits_char (take k (drop (i * k) bs))) [0..<n]) else None)"

text \<open>
  The result is \<open>out\<close> and the length stored through \<open>out_len\<close>, if any.  The array of bits has room for
  33 characters.
\<close>

definition encode_chinese :: "byte list \<Rightarrow> byte \<Rightarrow> byte list \<Rightarrow> byte \<Rightarrow> (byte list \<times> byte option) option" where
  "encode_chinese input in_len out bits =
     (if bits = 0 \<or> 7 < bits then Some (out, None)
      else do {
        bs \<leftarrow> rd_block input 0 (unat in_len);
        if ZC_MAX_SSID_LEN * 8 < 8 * length bs then None
        else do {
          let bs = splice_at (replicate (ZC_MAX_SSID_LEN * 8) False) 0 (char_bits 8 bs);
          let output_len = (word_of_nat ((unat in_len * 8 + unat bits - 1) div unat bits) :: byte);
          out \<leftarrow> wr_bytes out (unat output_len) [0];
          vals \<leftarrow> gather bs (unat bits) (unat output_len);
          out \<leftarrow> wr_bytes out 0 vals;
          Some (out, Some output_len) } })"

text \<open>\<open>mem\<close>: \<open>os_zalloc\<close> returned memory.\<close>

definition decode_chinese :: "bool \<Rightarrow> byte list \<Rightarrow> byte \<Rightarrow> byte list \<Rightarrow> byte \<Rightarrow> (byte list \<times> byte option) option" where
  "decode_chinese mem input in_len out bits =
     (if bits = 0 \<or> 7 < bits \<or> in_len = 0 \<or> \<not> mem then Some (out, None)
      else do {
        bs \<leftarrow> rd_block input 0 (unat in_len);
        let output_len = (word_of_nat (unat in_len * unat bits div 8) :: byte);
        out \<leftarrow> wr_bytes out (unat output_len) [0];
        vals \<leftarrow> gather (char_bits (unat bits) bs) 8 (unat output_len);
        out \<leftarrow> wr_bytes out 0 vals;
        Some (out, Some output_len) })"

subsection \<open>The test for UTF-8\<close>

function utf8_loop :: "byte list \<Rightarrow> int \<Rightarrow> nat \<Rightarrow> bool option" where
  "utf8_loop s len i =
     (if int i < len then do {
        c \<leftarrow> rd8 s i;
        if 0x80 AND c = 0 then utf8_loop s len (i + 1)
        else if 0xE0 AND c = 0xC0 then do {
          c1 \<leftarrow> rd8 s (i + 1);
          if c1 = 0 then Some False
          else if 0xC0 AND c1 = 0x80 then utf8_loop s len (i + 2)
          else Some False }
        else if 0xF0 AND c = 0xE0 then do {
          c1 \<leftarrow> rd8 s (i + 1);
          if c1 = 0 then Some False
          else do {
            c2 \<leftarrow> rd8 s (i + 2);
            if c2 = 0 then Some False
            else if 0xC0 AND c1 = 0x80 \<and> 0xC0 AND c2 = 0x80 then utf8_loop s len (i + 3)
            else Some False } }
        else Some False }
      else Some True)"
  by pat_completeness auto
termination by (relation "measure (\<lambda>(s, len, i). nat len - i)") auto

declare utf8_loop.simps [simp del]

definition is_utf8 :: "byte list \<Rightarrow> int \<Rightarrow> bool option" where
  "is_utf8 ansi_str len = utf8_loop ansi_str len 0"

subsection \<open>Lemmas\<close>

lemma length_char_bits [simp]: "length (char_bits k bs) = k * length bs"
  by (induction bs) (simp_all add: char_bits_def)

lemma char_bits_append [simp]: "char_bits k (xs @ ys) = char_bits k xs @ char_bits k ys"
  by (simp add: char_bits_def)

lemma bits_char_bits: "length bs = 8 \<Longrightarrow> bits_char (map (bit b) [0..<8]) = (b :: byte)"
  by (simp add: bits_char_def horner_sum_bit_eq_take_bit take_bit_word_eq_self)

lemma bit_bits_char: "k \<le> 8 \<Longrightarrow> length bs = k \<Longrightarrow> bit (bits_char bs) j = (j < k \<and> bs ! j)"
  by (auto simp: bits_char_def bit_horner_sum_bit_iff)

lemma char_bits_nth:
  "i < k * length bs \<Longrightarrow> 0 < k \<Longrightarrow> char_bits k bs ! i = bit (bs ! (i div k)) (i mod k)"
proof (induction bs arbitrary: i)
  case (Cons b bs)
  show ?case
  proof (cases "i < k")
    case True
    then show ?thesis by (simp add: char_bits_def nth_append)
  next
    case False
    then have "i - k < k * length bs" "i div k = Suc ((i - k) div k)" "i mod k = (i - k) mod k"
      using Cons.prems by (auto simp: le_div_geq le_mod_geq)
    then show ?thesis using False Cons.IH [of "i - k"] Cons.prems(2) by (simp add: char_bits_def nth_append)
  qed
qed simp

lemma gather_bits:
  assumes "0 < k" and "k \<le> 8" and "n * k \<le> length bs"
  shows "gather bs k n = Some (map (\<lambda>i. bits_char (take k (drop (i * k) bs))) [0..<n])"
    and "char_bits k (map (\<lambda>i. bits_char (take k (drop (i * k) bs))) [0..<n]) = take (n * k) bs"
proof -
  show "gather bs k n = Some (map (\<lambda>i. bits_char (take k (drop (i * k) bs))) [0..<n])" using assms(3) by (simp add: gather_def)
  show "char_bits k (map (\<lambda>i. bits_char (take k (drop (i * k) bs))) [0..<n]) = take (n * k) bs" (is "char_bits k ?cs = _")
  proof (rule nth_equalityI)
    show "length (char_bits k ?cs) = length (take (n * k) bs)" using assms(3) by (simp add: mult.commute)
    fix i assume "i < length (char_bits k ?cs)"
    then have i: "i < k * n" by simp
    then have d: "i div k < n" "i mod k < k" "i div k * k + i mod k = i"
      using assms(1) by (auto simp: less_mult_imp_div_less mult.commute)
    have "k * n \<le> length bs" using assms(3) by (simp add: mult.commute)
    then have fits: "i div k * k + k \<le> length bs"
      using d(1) assms(3) by (metis Suc_leI add.commute le_trans mult_Suc mult_le_mono1)
    then have "bit (bits_char (take k (drop (i div k * k) bs))) (i mod k) = bs ! i"
      using assms(2) d by (subst bit_bits_char [of k]) (auto simp: min_def)
    then show "char_bits k ?cs ! i = take (n * k) bs ! i"
      using i d assms(1) by (simp add: char_bits_nth mult.commute)
  qed
qed

lemma chars_of_bits:
  "map (\<lambda>i. bits_char (take 8 (drop (i * 8) (take m (char_bits 8 s @ r))))) [0..<length s] = s" if "8 * length s \<le> m"
proof (rule nth_equalityI)
  fix i assume "i < length (map (\<lambda>i. bits_char (take 8 (drop (i * 8) (take m (char_bits 8 s @ r))))) [0..<length s])"
  then have i: "i < length s" by simp
  have "take 8 (drop (i * 8) (take m (char_bits 8 s @ r))) = map (bit (s ! i)) [0..<8]"
  proof (rule nth_equalityI)
    show "length (take 8 (drop (i * 8) (take m (char_bits 8 s @ r)))) = length (map (bit (s ! i)) [0..<8])" using i that by simp
    fix j assume "j < length (take 8 (drop (i * 8) (take m (char_bits 8 s @ r))))"
    then have j: "j < 8" by (simp only: length_take min_less_iff_conj)
    have "(i * 8 + j) div 8 = i" "(i * 8 + j) mod 8 = j" using j by simp_all
    then show "take 8 (drop (i * 8) (take m (char_bits 8 s @ r))) ! j = map (bit (s ! i)) [0..<8] ! j"
      using i j that by (simp add: nth_append char_bits_nth)
  qed
  then show "map (\<lambda>i. bits_char (take 8 (drop (i * 8) (take m (char_bits 8 s @ r))))) [0..<length s] ! i = s ! i"
    using i by (simp add: bits_char_bits [of "replicate 8 True"])
qed simp

text \<open>The number of characters of \<open>k\<close> bits that \<open>n\<close> characters need.\<close>

definition packed_len :: "nat \<Rightarrow> nat \<Rightarrow> nat" where
  "packed_len k n = (n * 8 + k - 1) div k"

lemma packed_len:
  assumes "0 < k" and "k \<le> 7"
  shows "8 * n \<le> packed_len k n * k" and "packed_len k n * k \<le> 8 * n + 6" and "packed_len k n * k div 8 = n"
    and "packed_len k n \<le> 8 * n"
proof -
  let ?m = "packed_len k n"
  have d: "?m * k + (n * 8 + k - 1) mod k = n * 8 + k - 1" unfolding packed_len_def by (rule div_mult_mod_eq)
  moreover have "(n * 8 + k - 1) mod k < k" using assms(1) by simp
  ultimately show "8 * n \<le> ?m * k" "?m * k \<le> 8 * n + 6" using assms by linarith+
  then show "?m * k div 8 = n" by (intro div_nat_eqI) simp_all
  show "?m \<le> 8 * n"
  proof (cases "n = 0")
    case True
    then show ?thesis using assms(1) by (simp add: packed_len_def)
  next
    case False
    have "?m * k < (8 * n + 1) * k"
    proof -
      have "?m * k \<le> 8 * n + k - 1" using d by linarith
      also have "\<dots> < 8 * n + k" using assms(1) by linarith
      also have "\<dots> \<le> 8 * n * k + k" using assms(1) by simp
      finally show ?thesis by (simp add: algebra_simps)
    qed
    then show ?thesis by (metis add.commute less_Suc_eq_le mult_less_cancel2 plus_1_eq_Suc)
  qed
qed

lemma encoded:
  assumes "0 < bits" and "bits \<le> 7" and "length s \<le> 31" and "packed_len (unat bits) (length s) < length out"
  obtains vals where "encode_chinese (s @ rest) (of_nat (length s)) out bits
      = Some (vals @ 0 # drop (Suc (length vals)) out, Some (of_nat (length vals)))"
    "length vals = packed_len (unat bits) (length s)"
    "char_bits (unat bits) vals = take (length vals * unat bits) (char_bits 8 s @ replicate (264 - 8 * length s) False)"
proof -
  let ?k = "unat bits" and ?m = "packed_len (unat bits) (length s)"
  let ?bs = "char_bits 8 s @ replicate (264 - 8 * length s) False"
  have k: "0 < ?k" "?k \<le> 7" using assms(1,2) by (simp_all add: word_less_nat_alt word_le_nat_alt)
  note m = packed_len [OF k, of "length s"]
  have n: "unat (of_nat (length s) :: byte) = length s" "unat (of_nat ?m :: byte) = ?m"
    using assms(3) m(4) by (simp_all add: unsigned_of_nat take_bit_nat_eq_self)
  have len: "length ?bs = 264" using assms(3) by simp
  have fits: "?m * ?k \<le> length ?bs" using m(2) assms(3) len by linarith
  define vals where "vals = map (\<lambda>i. bits_char (take ?k (drop (i * ?k) ?bs))) [0..<?m]"
  have g: "gather ?bs ?k ?m = Some vals" "char_bits ?k vals = take (?m * ?k) ?bs"
    using gather_bits [OF k(1) _ fits] k(2) by (simp_all add: vals_def)
  have lv: "length vals = ?m" by (simp add: vals_def)
  have b: "bits \<noteq> 0" "\<not> 7 < bits" using assms(1,2) by auto
  have pl: "(length s * 8 + ?k - Suc 0) div ?k = ?m" by (simp add: packed_len_def)
  have "splice_at (replicate 264 False) 0 (char_bits 8 s) = ?bs" using assms(3) by (simp add: splice_at_def)
  moreover have "splice_at (splice_at out ?m [0]) 0 vals = vals @ 0 # drop (Suc ?m) out"
    using assms(4) lv by (simp add: splice_at_def)
  ultimately have "encode_chinese (s @ rest) (of_nat (length s)) out bits = Some (vals @ 0 # drop (Suc ?m) out, Some (of_nat ?m))"
    using assms(3,4) n g(1) lv b by (simp add: encode_chinese_def ZC_MAX_SSID_LEN_def pl)
  then show thesis using g(2) lv by (intro that [of vals]) simp_all
qed

text \<open>
  C38: names survive the packing into fewer bits.  A text of 1 to 31 bytes, packed by \<open>encode_chinese\<close> into characters of
  1 to 7 bits and unpacked by \<open>decode_chinese\<close>, is the same text, followed by a zero; the packed
  text has one character per \<open>bits\<close> bits begun, each fits in them, and it too is followed by a zero.
\<close>

theorem chinese_roundtrip:
  assumes "0 < bits" and "bits \<le> 7" and "s \<noteq> []" and "length s \<le> 31"
    and "packed_len (unat bits) (length s) < length out" and "length s < length out'"
  shows "\<exists>vals. encode_chinese s (of_nat (length s)) out bits
        = Some (vals @ 0 # drop (Suc (length vals)) out, Some (of_nat (length vals)))
     \<and> length vals = packed_len (unat bits) (length s)
     \<and> decode_chinese True (vals @ 0 # drop (Suc (length vals)) out) (of_nat (length vals)) out' bits
        = Some (s @ 0 # drop (Suc (length s)) out', Some (of_nat (length s)))"
proof -
  let ?k = "unat bits"
  obtain vals where v: "encode_chinese s (of_nat (length s)) out bits = Some (vals @ 0 # drop (Suc (length vals)) out, Some (of_nat (length vals)))"
    "length vals = packed_len ?k (length s)"
    "char_bits ?k vals = take (length vals * ?k) (char_bits 8 s @ replicate (264 - 8 * length s) False)"
    using encoded [OF assms(1,2,4,5), of "[]"] by auto
  have k: "0 < ?k" "?k \<le> 7" using assms(1,2) by (simp_all add: word_less_nat_alt word_le_nat_alt)
  note m = packed_len [OF k, of "length s", folded v(2)]
  have n: "unat (of_nat (length s) :: byte) = length s" "unat (of_nat (length vals) :: byte) = length vals"
    using assms(4) m(4) by (simp_all add: unsigned_of_nat take_bit_nat_eq_self)
  have pos: "of_nat (length vals) \<noteq> (0 :: byte)"
    using n(2) m(1) assms(3) by (metis mult_is_0 length_0_conv le_zero_eq unat_0 zero_neq_numeral)
  have "gather (char_bits ?k vals) 8 (length s) = Some s"
    unfolding v(3) using chars_of_bits [OF m(1), of "replicate (264 - 8 * length s) False"] m(1,2) assms(4)
    by (simp add: gather_def del: take_append)
  moreover have "splice_at (splice_at out' (length s) [0]) 0 s = s @ 0 # drop (Suc (length s)) out'"
    using assms(6) by (simp add: splice_at_def)
  ultimately have "decode_chinese True (vals @ 0 # drop (Suc (length vals)) out) (of_nat (length vals)) out' bits
        = Some (s @ 0 # drop (Suc (length s)) out', Some (of_nat (length s)))"
    using assms(1,2,6) n pos m(3) by (simp add: decode_chinese_def not_less)
  then show ?thesis using v(1,2) by blast
qed

theorem chinese_roundtrip_witness:
  "\<exists>vals. length vals = 8 \<and> decode_chinese True (vals @ [0]) 8 (replicate 7 0) 6 = Some ([0xE4, 0xB8, 0xAD, 0xE5, 0x9B, 0xBD, 0], Some 6)"
proof -
  let ?s = "[0xE4, 0xB8, 0xAD, 0xE5, 0x9B, 0xBD] :: byte list"
  obtain vals where "length vals = packed_len 6 6"
    "decode_chinese True (vals @ 0 # drop (Suc (length vals)) (replicate 9 0)) (of_nat (length vals)) (replicate 7 0) 6 = Some (?s @ [0], Some 6)"
    using chinese_roundtrip [of 6 ?s "replicate 9 0" "replicate 7 0"] by (auto simp: packed_len_def)
  then show ?thesis by (intro exI [of _ vals]) (simp add: packed_len_def)
qed

subsection \<open>UTF-8\<close>

text \<open>Texts of characters of one to three bytes.\<close>

definition continuation :: "byte \<Rightarrow> bool" where
  "continuation c \<longleftrightarrow> bit c 7 \<and> \<not> bit c 6"

inductive utf8 :: "byte list \<Rightarrow> bool" where
  empty: "utf8 []"
| one: "\<not> bit c 7 \<Longrightarrow> utf8 t \<Longrightarrow> utf8 (c # t)"
| two: "bit c 7 \<Longrightarrow> bit c 6 \<Longrightarrow> \<not> bit c 5 \<Longrightarrow> continuation c1 \<Longrightarrow> utf8 t \<Longrightarrow> utf8 (c # c1 # t)"
| three: "bit c 7 \<Longrightarrow> bit c 6 \<Longrightarrow> bit c 5 \<Longrightarrow> \<not> bit c 4 \<Longrightarrow> continuation c1 \<Longrightarrow> continuation c2 \<Longrightarrow> utf8 t \<Longrightarrow> utf8 (c # c1 # c2 # t)"

inductive_simps utf8_Nil [simp]: "utf8 []"
inductive_simps utf8_Cons: "utf8 (c # t)"

lemma utf8_masks:
  "0x80 AND (c :: byte) = 0 \<longleftrightarrow> \<not> bit c 7" "0xE0 AND c = 0xC0 \<longleftrightarrow> bit c 7 \<and> bit c 6 \<and> \<not> bit c 5"
  "0xF0 AND c = 0xE0 \<longleftrightarrow> bit c 7 \<and> bit c 6 \<and> bit c 5 \<and> \<not> bit c 4" "0xC0 AND c = 0x80 \<longleftrightarrow> continuation c"
  by (auto simp: byte_bits_eq_iff bit_simps continuation_def)

lemma utf8_loop_eq:
  "0 \<notin> set s \<Longrightarrow> utf8_loop (pre @ s @ 0 # rest) (int (length pre + length s)) (length pre) = Some (utf8 s)"
proof (induction "length s" arbitrary: s pre rule: less_induct)
  case less
  show ?case
  proof (cases s)
    case Nil
    then show ?thesis by (subst utf8_loop.simps) simp
  next
    case (Cons c t)
    let ?b = "pre @ s @ 0 # rest"
    have IH: "utf8_loop ?b (int (length pre) + int (length s)) (length pre + n) = Some (utf8 (drop n s))"
      if "0 < n" "n \<le> length s" for n
    proof -
      have b: "(pre @ take n s) @ drop n s @ 0 # rest = ?b" by simp
      have "0 \<notin> set (drop n s)" using less.prems in_set_dropD by fast
      then have "utf8_loop ((pre @ take n s) @ drop n s @ 0 # rest) (int (length (pre @ take n s) + length (drop n s)))
          (length (pre @ take n s)) = Some (utf8 (drop n s))"
        using that by (intro less.hyps) auto
      then show ?thesis unfolding b using that by simp
    qed
    have rd: "rd8 ?b (length pre + k) = rd8 (s @ 0 # rest) k" for k by simp
    have rd0: "rd8 ?b (length pre) = Some c" using rd [of 0] Cons by simp
    have u: "utf8_loop ?b (int (length pre) + int (length s)) (length pre) = (if \<not> bit c 7 then utf8_loop ?b (int (length pre) + int (length s)) (length pre + 1)
        else if bit c 6 \<and> \<not> bit c 5 then do {
          c1 \<leftarrow> rd8 (t @ 0 # rest) 0;
          if c1 = 0 then Some False else if continuation c1 then utf8_loop ?b (int (length pre) + int (length s)) (length pre + 2) else Some False }
        else if bit c 6 \<and> bit c 5 \<and> \<not> bit c 4 then do {
          c1 \<leftarrow> rd8 (t @ 0 # rest) 0;
          if c1 = 0 then Some False
          else do {
            c2 \<leftarrow> rd8 (t @ 0 # rest) 1;
            if c2 = 0 then Some False
            else if continuation c1 \<and> continuation c2 then utf8_loop ?b (int (length pre) + int (length s)) (length pre + 3) else Some False } }
        else Some False)"
      using rd [of 1] rd [of 2] rd0 Cons by (subst utf8_loop.simps) (simp add: utf8_masks numeral_2_eq_2 del: rd8_append_length cong: if_cong)
    define b where "b = ?b"
    define L where "L = int (length pre) + int (length s)"
    note u = u [folded b_def L_def] and IH = IH [folded b_def L_def]
    have z: "\<not> continuation 0" by (simp add: continuation_def)
    consider "t = []" | c1 where "t = [c1]" | c1 c2 v where "t = c1 # c2 # v" by (metis list.exhaust)
    then have "utf8_loop b L (length pre) = Some (utf8 s)"
    proof cases
      case 1
      then show ?thesis using u IH [of 1] Cons by (simp add: utf8_Cons)
    next
      case 2
      then show ?thesis using u IH [of 1] IH [of 2] Cons less.prems by (auto simp: utf8_Cons z)
    next
      case 3
      then show ?thesis using u IH [of 1] IH [of 2] IH [of 3] Cons less.prems by (auto simp: utf8_Cons numeral_3_eq_3)
    qed
    then show ?thesis unfolding b_def L_def by simp
  qed
qed

text \<open>
  The test of a decrypted password.  For a text that ends with its first zero byte, \<open>is_utf8\<close> stays inside it and is
  true exactly for sequences of characters of one, two or three bytes; the four-byte characters of UTF-8 are refused.
\<close>

theorem utf8_decided:
  assumes "0 \<notin> set s"
  shows "is_utf8 (s @ 0 # rest) (int (length s)) = Some (utf8 s)"
  using utf8_loop_eq [OF assms, of "[]" rest] by (simp add: is_utf8_def)

theorem utf8_decided_witness:
  "is_utf8 [0x41, 0xE4, 0xB8, 0xAD, 0] 4 = Some True \<and> is_utf8 [0xF0, 0x9F, 0x98, 0x80, 0] 4 = Some False"
  using utf8_decided [of "[0x41, 0xE4, 0xB8, 0xAD]" "[]"] utf8_decided [of "[0xF0, 0x9F, 0x98, 0x80]" "[]"]
  by (simp add: utf8_Cons continuation_def)

end
