(* ===== verification/DevBindSha.thy ===== *)
theory DevBindSha
  imports InfraSha
begin

text \<open>
  The second SHA-256 of the repository, \<open>dev_bind/impl/sha256.c\<close>, which Wi-Fi provisioning and binding use
  for their keys.  It takes its input byte by byte into a context whose buffer is not initialised; the
  model keeps that buffer as an arbitrary list of 64 bytes.  The lemmas show that it computes the digest
  of \<open>infra/infra_sha256.c\<close> (theory \<open>InfraSha\<close>).
\<close>

record SHA256_CTX =
  sha_count :: u64
  sha_buf :: "byte list"
  sha_state :: "u32 list"

definition ror :: "u32 \<Rightarrow> nat \<Rightarrow> u32" where "ror x n = drop_bit n x OR push_bit (32 - n) x"

definition transform_word :: "byte list \<Rightarrow> nat \<Rightarrow> u32" where
  "transform_word p t = push_bit 24 (ucast (p ! (4 * t))) OR push_bit 16 (ucast (p ! (4 * t + 1)))
     OR push_bit 8 (ucast (p ! (4 * t + 2))) OR ucast (p ! (4 * t + 3))"

definition transform_next :: "u32 list \<Rightarrow> nat \<Rightarrow> u32" where
  "transform_next W t =
     (let s0 = ror (W ! (t - 15)) 7 XOR ror (W ! (t - 15)) 18 XOR drop_bit 3 (W ! (t - 15));
          s1 = ror (W ! (t - 2)) 17 XOR ror (W ! (t - 2)) 19 XOR drop_bit 10 (W ! (t - 2))
      in W ! (t - 16) + s0 + W ! (t - 7) + s1)"

fun transform_round :: "u32 list \<Rightarrow> sha256_regs \<Rightarrow> nat \<Rightarrow> sha256_regs" where
  "transform_round W (A, B, C, D, E, F, G, H) t =
     (let s0 = ror A 2 XOR ror A 13 XOR ror A 22;
          maj = (A AND B) XOR (A AND C) XOR (B AND C);
          t2 = s0 + maj;
          s1 = ror E 6 XOR ror E 11 XOR ror E 25;
          ch = (E AND F) XOR (NOT E AND G);
          t1 = H + s1 + ch + sha256_K ! t + W ! t
      in (t1 + t2, A, B, C, D + t1, E, F, G))"

definition transform_state :: "u32 list \<Rightarrow> byte list \<Rightarrow> u32 list" where
  "transform_state st p =
     (let W = map (transform_word p) [0..<16];
          W = foldl (\<lambda>W t. W @ [transform_next W t]) W [16..<64];
          (A, B, C, D, E, F, G, H) =
            foldl (transform_round W) (st ! 0, st ! 1, st ! 2, st ! 3, st ! 4, st ! 5, st ! 6, st ! 7) [0..<64]
      in [st ! 0 + A, st ! 1 + B, st ! 2 + C, st ! 3 + D, st ! 4 + E, st ! 5 + F, st ! 6 + G, st ! 7 + H])"

definition SHA256_Transform :: "SHA256_CTX \<Rightarrow> SHA256_CTX" where
  "SHA256_Transform ctx = ctx\<lparr>sha_state := transform_state (sha_state ctx) (sha_buf ctx)\<rparr>"

definition SHA256_init :: "SHA256_CTX \<Rightarrow> SHA256_CTX" where
  "SHA256_init ctx = ctx\<lparr>sha_state := [0x6a09e667, 0xbb67ae85, 0x3c6ef372, 0xa54ff53a, 0x510e527f, 0x9b05688c, 0x1f83d9ab, 0x5be0cd19],
     sha_count := 0\<rparr>"

primrec update_loop :: "byte list \<Rightarrow> nat \<Rightarrow> SHA256_CTX \<Rightarrow> SHA256_CTX" where
  "update_loop [] i ctx = ctx"
| "update_loop (b # p) i ctx =
     (let ctx = ctx\<lparr>sha_buf := (sha_buf ctx)[i := b]\<rparr>
      in if i + 1 = 64 then update_loop p 0 (SHA256_Transform ctx) else update_loop p (i + 1) ctx)"

text \<open>\<open>data\<close> stands for the \<open>len\<close> bytes at the pointer.\<close>

definition SHA256_update :: "SHA256_CTX \<Rightarrow> byte list \<Rightarrow> SHA256_CTX" where
  "SHA256_update ctx data = update_loop data (unat (sha_count ctx AND 63)) (ctx\<lparr>sha_count := sha_count ctx + of_nat (length data)\<rparr>)"

lemma low_bits_u64: "unat (c AND 63 :: u64) = unat c mod 64"
proof -
  have "c AND 63 = take_bit 6 c" by (simp add: take_bit_eq_mask mask_eq_exp_minus_1)
  then show ?thesis by (simp add: unsigned_take_bit_eq take_bit_nat_def)
qed

lemma unat_numeral_56: "unat (56 :: u64) = 56" by simp

lemma uint_numeral_56: "uint (56 :: u64) = 56" by simp

lemma update_loop_count [simp]: "sha_count (update_loop p i ctx) = sha_count ctx"
  by (induction p arbitrary: i ctx) (simp_all add: Let_def SHA256_Transform_def)

function pad_loop :: "SHA256_CTX \<Rightarrow> SHA256_CTX" where
  "pad_loop ctx = (if sha_count ctx AND 63 \<noteq> 56 then pad_loop (SHA256_update ctx [0]) else ctx)"
  by pat_completeness auto
termination
proof (relation "measure (\<lambda>ctx. nat ((56 - uint (sha_count ctx)) mod 64))")
  fix ctx :: SHA256_CTX
  let ?c = "uint (sha_count ctx)"
  assume ne: "sha_count ctx AND 63 \<noteq> 56"
  have "uint (sha_count ctx AND 63) = ?c mod 64" using low_bits_u64 [of "sha_count ctx"] by (metis of_nat_numeral uint_nat zmod_int)
  then have "?c mod 64 \<noteq> 56" using ne by (metis uint_numeral_56 word_uint_eq_iff)
  moreover have "uint (sha_count ctx + 1) mod 64 = (?c + 1) mod 64"
    by (simp add: uint_word_ariths mod_mod_cancel)
  moreover have "sha_count (SHA256_update ctx [0]) = sha_count ctx + 1" by (simp add: SHA256_update_def del: update_loop.simps)
  moreover have "c' mod 64 = (c + 1) mod 64 \<Longrightarrow> c mod 64 \<noteq> 56 \<Longrightarrow> (56 - c') mod 64 < (56 - c) mod 64" for c c' :: int
  proof -
    assume a: "c' mod 64 = (c + 1) mod 64" "c mod 64 \<noteq> 56"
    have "(56 - c') mod 64 = (56 - (c + 1)) mod 64" using a(1) by (metis mod_diff_right_eq)
    also have "\<dots> < (56 - c) mod 64"
    proof -
      define q r where "q = (56 - c) div 64" and "r = (56 - c) mod 64"
      have d: "56 - c = 64 * q + r" "0 \<le> r" "r < 64" by (simp_all add: q_def r_def)
      have "r \<noteq> 0"
      proof
        assume "r = 0"
        then have "c = 56 + 64 * (- q)" using d(1) by simp
        then show False using a(2) by (simp only: mod_mult_self2) simp
      qed
      have e: "56 - (c + 1) = (r - 1) + 64 * q" using d(1) by linarith
      have "(56 - (c + 1)) mod 64 = (r - 1) mod 64" unfolding e by (rule mod_mult_self2)
      also have "\<dots> < r" using d(2,3) \<open>r \<noteq> 0\<close> by simp
      finally show ?thesis unfolding r_def .
    qed
    finally show ?thesis .
  qed
  ultimately have "(56 - uint (sha_count (SHA256_update ctx [0]))) mod 64 < (56 - ?c) mod 64" by simp
  then show "(SHA256_update ctx [0], ctx) \<in> measure (\<lambda>ctx. nat ((56 - uint (sha_count ctx)) mod 64))" by (simp add: nat_mono_iff)
qed simp

declare pad_loop.simps [simp del]

definition SHA256_final :: "SHA256_CTX \<Rightarrow> SHA256_CTX" where
  "SHA256_final ctx =
     (let cnt = sha_count ctx * 8;
          ctx = SHA256_update ctx [0x80];
          ctx = pad_loop ctx;
          ctx = foldl (\<lambda>ctx i. SHA256_update ctx [ucast (drop_bit ((7 - i) * 8) cnt)]) ctx [0..<8]
      in ctx\<lparr>sha_buf := splice_at (sha_buf ctx) 0
           (concat (map (\<lambda>i. let tmp = sha_state ctx ! i
              in [ucast (drop_bit 24 tmp), ucast (drop_bit 16 tmp), ucast (drop_bit 8 tmp), ucast tmp]) [0..<8]))\<rparr>)"

definition SHA256_DIGEST_SIZE :: nat where "SHA256_DIGEST_SIZE = 32"

text \<open>\<open>stack\<close>: the context before it is initialised.  A negative length would never count down to zero.\<close>

definition SHA256_hash :: "SHA256_CTX \<Rightarrow> byte list \<Rightarrow> int \<Rightarrow> byte list option" where
  "SHA256_hash stack data len =
     (if len < 0 then None
      else do {
        bs \<leftarrow> rd_block data 0 (nat len);
        rd_block (sha_buf (SHA256_final (SHA256_update (SHA256_init stack) bs))) 0 SHA256_DIGEST_SIZE })"

subsection \<open>The compression\<close>

lemma mask_u32: "x AND 0xFFFFFFFF = (x :: u32)"
proof -
  have "(0xFFFFFFFF :: u32) = - 1" by simp
  then show ?thesis by (simp only: and.right_neutral)
qed

lemma ror_ROTR: "ror x n = ROTR x n"
  by (simp add: ror_def ROTR_def SHR_def mask_u32 or.commute)


lemma get_u32_word: "get_u32_be p (4 * t) = transform_word p t"
  by (simp add: get_u32_be_def transform_word_def)

lemma sha_choose: "(E AND F) XOR (NOT E AND G) = sha256_F1 E F (G :: u32)"
  by (rule bit_word_eqI) (auto simp: sha256_F1_def bit_simps)

lemma sha_majority: "(A AND B) XOR (A AND C) XOR (B AND C) = sha256_F0 A B (C :: u32)"
  by (rule bit_word_eqI) (auto simp: sha256_F0_def bit_simps)

lemma transform_round_eq: "transform_round W r t = sha256_P r (W ! t) (sha256_K ! t)"
proof -
  obtain A B C D E F G H where "r = (A, B, C, D, E, F, G, H)" by (metis prod.exhaust)
  then show ?thesis
    by (simp add: Let_def sha_choose sha_majority ror_ROTR sha256_S2_def sha256_S3_def)
qed

text \<open>The schedule: computed in advance here, along with the rounds in \<open>utils_sha256_process\<close>.\<close>

definition schedule :: "byte list \<Rightarrow> nat \<Rightarrow> u32 list" where
  "schedule p n = foldl (\<lambda>W t. W @ [sha256_W p W t]) [] [0..<n]"

lemma schedule_Suc: "schedule p (Suc n) = schedule p n @ [sha256_W p (schedule p n) n]"
  by (simp add: schedule_def)

lemma length_schedule [simp]: "length (schedule p n) = n"
  by (induction n) (simp_all add: schedule_Suc, simp add: schedule_def)

lemma schedule_nth: "i < n \<Longrightarrow> n \<le> m \<Longrightarrow> schedule p m ! i = schedule p n ! i"
proof (induction m)
  case (Suc m)
  then show ?case by (cases "n = Suc m") (simp_all add: schedule_Suc nth_append)
qed simp

lemma schedule_first: "n \<le> 16 \<Longrightarrow> schedule p n = map (transform_word p) [0..<n]"
  by (induction n) (simp_all add: schedule_Suc sha256_W_def get_u32_word, simp add: schedule_def)

lemma schedule_rest:
  "foldl (\<lambda>W t. W @ [transform_next W t]) (schedule p 16) [16..<16 + n] = schedule p (16 + n)"
proof (induction n)
  case (Suc n)
  have "transform_next W t = sha256_W p W t" if "16 \<le> t" for W t
    using that by (simp add: transform_next_def sha256_W_def Let_def sha256_S0_def sha256_S1_def ror_ROTR SHR_def ac_simps mask_u32)
  then have "transform_next (schedule p (16 + n)) (16 + n) = sha256_W p (schedule p (16 + n)) (16 + n)" by simp
  then show ?case using Suc by (simp only: upt_Suc_append add_Suc_right schedule_Suc foldl_append foldl.simps le_add1)
qed simp

lemma rounds_eq:
  "n \<le> 64 \<Longrightarrow> foldl (sha256_step p) ([], r) [0..<n] = (schedule p n, foldl (transform_round (schedule p 64)) r [0..<n])"
proof (induction n)
  case (Suc n)
  then have "schedule p 64 ! n = sha256_W p (schedule p n) n"
    using schedule_nth [of n "Suc n" 64 p] by (simp add: schedule_Suc nth_append)
  then show ?case using Suc by (simp add: schedule_Suc transform_round_eq)
qed (simp add: schedule_def)

lemma transform_state_eq: "transform_state st p = utils_sha256_process st p"
proof -
  have W: "foldl (\<lambda>W t. W @ [transform_next W t]) (map (transform_word p) [0..<16]) [16..<64] = schedule p 64"
  proof -
    have e: "16 + 48 = (64 :: nat)" by simp
    show ?thesis using schedule_rest [of p 48] unfolding e schedule_first [OF order_refl] .
  qed
  show ?thesis
    by (simp only: transform_state_def utils_sha256_process_def Let_def W rounds_eq [OF order_refl] prod.case)
qed


subsection \<open>The digest\<close>

text \<open>The context after the bytes \<open>m\<close>.\<close>

definition holds :: "SHA256_CTX \<Rightarrow> byte list \<Rightarrow> bool" where
  "holds ctx m \<longleftrightarrow> length (sha_buf ctx) = 64 \<and> sha_state ctx = absorb utils_sha256_process sha256_iv m
     \<and> take (length m mod 64) (sha_buf ctx) = rest_of m \<and> sha_count ctx = of_nat (length m)"

lemma update_byte:
  assumes "holds ctx m"
  shows "holds (SHA256_update ctx [b]) (m @ [b])"
proof -
  let ?r = "length m mod 64"
  have h: "length (sha_buf ctx) = 64" "sha_state ctx = absorb utils_sha256_process sha256_iv m"
    "take ?r (sha_buf ctx) = rest_of m" "sha_count ctx = of_nat (length m)" using assms by (simp_all add: holds_def)
  have i: "unat (sha_count ctx AND 63) = ?r"
    unfolding low_bits_u64 h(4) by (simp add: unsigned_of_nat take_bit_nat_def mod_mod_cancel)
  have r: "?r < 64" by simp
  have filled: "take (Suc ?r) ((sha_buf ctx)[?r := b]) = rest_of m @ [b]"
    using h(1,3) r by (simp add: take_Suc_conv_app_nth )
  have st: "absorb utils_sha256_process sha256_iv (m @ [b]) = absorb utils_sha256_process (sha_state ctx) (rest_of m @ [b])"
    unfolding h(2) by (rule absorb_rest)
  show ?thesis
  proof (cases "?r = 63")
    case True
    have buf: "(sha_buf ctx)[?r := b] = rest_of m @ [b]" using filled h(1) True by simp
    have "length (rest_of m @ [b]) = 64" using True by simp
    then have "absorb utils_sha256_process (sha_state ctx) (rest_of m @ [b]) = utils_sha256_process (sha_state ctx) (rest_of m @ [b])"
      using absorb_block [of "rest_of m @ [b]" utils_sha256_process "sha_state ctx" "[]"] by simp
    moreover have "length (m @ [b]) mod 64 = 0" using True by (simp add: mod_Suc)
    ultimately show ?thesis
      using h(1,4) i True buf st
      by (simp add: holds_def SHA256_update_def SHA256_Transform_def transform_state_eq rest_of_def Let_def mod_0_imp_dvd minus_mod_eq_mult_div [symmetric])
  next
    case False
    then have l: "length (m @ [b]) mod 64 = Suc ?r" using r by (simp add: mod_Suc)
    then have "rest_of (m @ [b]) = rest_of m @ [b]"
      using False r by (simp add: rest_of_append [of m "[b]"] rest_of_def [of "rest_of m @ [b]"])
    then show ?thesis
      using h(1,4) i False l filled st r by (simp add: holds_def SHA256_update_def Let_def)
  qed
qed


lemma update_bytes: "holds ctx m \<Longrightarrow> holds (foldl (\<lambda>ctx b. SHA256_update ctx [b]) ctx bs) (m @ bs)"
proof (induction bs arbitrary: ctx m)
  case (Cons b bs)
  then show ?case using Cons.IH [OF update_byte [OF Cons.prems]] by simp
qed simp

lemma transform_count: "SHA256_Transform (ctx\<lparr>sha_count := k\<rparr>) = (SHA256_Transform ctx)\<lparr>sha_count := k\<rparr>"
  by (cases ctx) (simp add: SHA256_Transform_def)

lemma buf_count: "ctx\<lparr>sha_count := k, sha_buf := x\<rparr> = ctx\<lparr>sha_buf := x, sha_count := k\<rparr>"
  by (cases ctx) simp

lemma loop_count: "update_loop bs i (ctx\<lparr>sha_count := k\<rparr>) = (update_loop bs i ctx)\<lparr>sha_count := k\<rparr>"
  by (induction bs arbitrary: i ctx) (simp_all add: Let_def buf_count transform_count)

lemma update_eq: "SHA256_update ctx bs
  = (update_loop bs (unat (sha_count ctx AND 63)) ctx)\<lparr>sha_count := sha_count ctx + of_nat (length bs)\<rparr>"
  by (simp add: SHA256_update_def loop_count)

lemma update_one_by_one: "SHA256_update ctx bs = foldl (\<lambda>ctx b. SHA256_update ctx [b]) ctx bs"
proof (induction bs arbitrary: ctx)
  case (Cons b bs)
  let ?i = "unat (sha_count ctx AND 63)"
  let ?j = "unat (sha_count ctx + 1 AND 63)"
  define z where "z = update_loop [b] ?i ctx"
  have "unat (sha_count ctx + 1) mod 64 = (unat (sha_count ctx) + 1) mod 64"
    by (simp add: unat_word_ariths mod_mod_cancel)
  then have j: "?j = (if ?i + 1 = 64 then 0 else ?i + 1)" unfolding low_bits_u64 by (simp add: mod_Suc)
  have "SHA256_update ctx [b] = z\<lparr>sha_count := sha_count ctx + 1\<rparr>" by (simp add: update_eq z_def)
  moreover have "update_loop (b # bs) ?i ctx = update_loop bs ?j z" unfolding z_def j by (simp add: Let_def)
  moreover have "SHA256_update (z\<lparr>sha_count := sha_count ctx + 1\<rparr>) bs
      = (update_loop bs ?j z)\<lparr>sha_count := sha_count ctx + 1 + of_nat (length bs)\<rparr>"
    by (simp add: update_eq loop_count)
  ultimately show ?case using Cons.IH [of "SHA256_update ctx [b]"] by (simp add: update_eq [of ctx "b # bs"] add.assoc)
qed (simp add: update_eq)

lemma update_holds: "holds ctx m \<Longrightarrow> holds (SHA256_update ctx bs) (m @ bs)"
  using update_bytes [of ctx m bs] by (simp add: update_one_by_one [of ctx bs])

lemma pad_holds:
  "holds ctx m \<Longrightarrow> (length m + n) mod 64 = 56 \<Longrightarrow> n < 64 \<Longrightarrow> holds (pad_loop ctx) (m @ replicate n 0)"
proof (induction n arbitrary: ctx m)
  case 0
  then have "unat (sha_count ctx AND 63) = 56"
    unfolding low_bits_u64 holds_def by (simp add: unsigned_of_nat take_bit_nat_def mod_mod_cancel)
  then have "sha_count ctx AND 63 = 56" by (metis unat_numeral_56 unsigned_word_eqI)
  then show ?case using 0 by (simp add: pad_loop.simps)
next
  case (Suc n)
  have "sha_count ctx AND 63 \<noteq> 56"
  proof
    assume a: "sha_count ctx AND 63 = 56"
    have "unat (sha_count ctx AND 63) = length m mod 64"
      using Suc.prems(1) unfolding low_bits_u64 holds_def by (simp add: unsigned_of_nat take_bit_nat_def mod_mod_cancel)
    then have "length m mod 64 = 56" using a by simp
    then have "(56 + Suc n) mod 64 = 56" using Suc.prems(2) mod_add_left_eq [of "length m" 64 "Suc n"] by simp
    then show False using Suc.prems(3) by (cases "n < 7") (simp_all add: le_mod_geq)
  qed
  then have "pad_loop ctx = pad_loop (SHA256_update ctx [0])" by (simp add: pad_loop.simps [of ctx])
  then show ?case using Suc.IH [OF update_byte [OF Suc.prems(1), of 0]] Suc.prems(2,3) by simp
qed

lemma count_bytes:
  assumes "n < 2 ^ 60"
  shows "map (\<lambda>i. ucast (drop_bit ((7 - i) * 8) (of_nat n * 8 :: u64))) [0..<8]
    = be_put_len (of_nat (8 * n div 2 ^ 32)) (of_nat (8 * n))"
proof -
  define c where "c = (of_nat n * 8 :: u64)"
  have u: "unat c = 8 * n" using assms unfolding c_def by (simp add: unat_word_ariths unsigned_of_nat take_bit_nat_def)
  have "of_nat (8 * n div 2 ^ 32) = (ucast (drop_bit 32 c) :: u32)"
  proof -
    have "8 * n div 2 ^ 32 = unat (drop_bit 32 c)" unfolding u [symmetric] unat_drop_bit_eq drop_bit_nat_def by (rule refl)
    then show ?thesis by (simp only: of_nat_unat)
  qed
  moreover have "of_nat (8 * n) = (ucast c :: u32)" by (simp add: u [symmetric] of_nat_unat)
  moreover have "map (\<lambda>i. ucast (drop_bit ((7 - i) * 8) c)) [0..<8] = put_u32_be (ucast (drop_bit 32 c)) @ put_u32_be (ucast c)"
      by (simp add: put_u32_be_def upt_rec) (intro conjI; rule bit_word_eqI; simp add: bit_simps)
  ultimately show ?thesis unfolding c_def [symmetric] be_put_len_def by simp
qed

lemma final_digest:
  assumes "holds ctx m" and "length m < 2 ^ 60"
  shows "take 32 (sha_buf (SHA256_final ctx)) = SHA256 m" and "length (sha_buf (SHA256_final ctx)) = 64"
proof -
  let ?n = "pad_length (length m) - 1"
  let ?cnt = "map (\<lambda>i. ucast (drop_bit ((7 - i) * 8) (sha_count ctx * 8))) [0..<8] :: byte list"
  define c1 where "c1 = pad_loop (SHA256_update ctx [0x80])"
  define c2 where "c2 = foldl (\<lambda>ctx b. SHA256_update ctx [b]) c1 ?cnt"
  have n: "(length (m @ [0x80 :: byte]) + ?n) mod 64 = 56" "?n < 64" "pad_length (length m) = Suc ?n"
  proof -
    have "pad_length l = Suc (pad_length l - 1)" "pad_length l - 1 < 64" "(Suc l + (pad_length l - 1)) mod 64 = 56" for l
    proof -
      have l: "l = 64 * (l div 64) + l mod 64" "l mod 64 < 64" by simp_all
      show "pad_length l = Suc (pad_length l - 1)" "pad_length l - 1 < 64" using l(2) by (auto simp: pad_length_def)
      have "Suc l + (pad_length l - 1) = 64 * (if l mod 64 < 56 then l div 64 else Suc (l div 64)) + 56"
        using l by (auto simp: pad_length_def; linarith)
      then show "(Suc l + (pad_length l - 1)) mod 64 = 56" by (simp only: mod_mult_self2) simp
    qed
    then show "(length (m @ [0x80 :: byte]) + ?n) mod 64 = 56" "?n < 64" "pad_length (length m) = Suc ?n" by simp_all
  qed
  have "holds c1 ((m @ [0x80]) @ replicate ?n 0)"
    unfolding c1_def using pad_holds [OF update_byte [OF assms(1)] n(1,2)] .
  then have h: "holds c2 (((m @ [0x80]) @ replicate ?n 0) @ ?cnt)" unfolding c2_def by (rule update_bytes)
  have "take (pad_length (length m)) digest_padding = 0x80 # replicate ?n 0"
    using n(2) by (subst n(3)) (simp add: digest_padding_def)
  moreover have "?cnt = be_put_len (of_nat (8 * length m div 2 ^ 32)) (of_nat (8 * length m))"
    using count_bytes [OF assms(2)] assms(1) by (simp add: holds_def)
  ultimately have "((m @ [0x80]) @ replicate ?n 0) @ ?cnt = padded be_put_len m" by (simp add: padded_def)
  then have st: "sha_state c2 = absorb utils_sha256_process sha256_iv (padded be_put_len m)" "length (sha_buf c2) = 64"
    using h by (simp_all add: holds_def)
  have "sha_buf (SHA256_final ctx) = splice_at (sha_buf c2) 0 (sha256_put_state (sha_state c2))"
    by (simp add: SHA256_final_def Let_def c2_def c1_def foldl_map sha256_put_state_def put_u32_be_def)
  moreover have "length (sha256_put_state (sha_state c2)) = 32"
    by (simp add: sha256_put_state_def put_u32_be_def length_concat comp_def sum_list_triv)
  ultimately show "take 32 (sha_buf (SHA256_final ctx)) = SHA256 m" "length (sha_buf (SHA256_final ctx)) = 64"
    using st by (simp_all add: splice_at_def digest_of_def)
qed

lemma SHA256_hash_eq:
  assumes "length (sha_buf stack) = 64" and "nat len \<le> length data" and "0 \<le> len" and "len < 2 ^ 31"
  shows "SHA256_hash stack data len = Some (SHA256 (take (nat len) data))"
proof -
  let ?m = "take (nat len) data"
  have "holds (SHA256_init stack) []"
    using assms(1) by (simp add: holds_def SHA256_init_def sha256_iv_def rest_of_def)
  then have h: "holds (SHA256_update (SHA256_init stack) ?m) ?m" using update_holds [of _ "[]"] by simp
  have "length ?m < 2 ^ 60" using assms(2-4) by simp
  then show ?thesis
    using final_digest [OF h] assms(2,3) by (simp add: SHA256_hash_def SHA256_DIGEST_SIZE_def)
qed

text \<open>
  C24: the two SHA-256 of the repository agree.  Whatever the context on the stack held, \<open>SHA256_hash\<close> returns the SHA-256 of
  the first \<open>len\<close> bytes, which is also what \<open>utils_sha256\<close> returns.
\<close>

theorem sha256_implementations_agree:
  assumes "length (sha_buf stack) = 64" and "nat len \<le> length data" and "0 \<le> len" and "len < 2 ^ 31"
  shows "SHA256_hash stack data len = Some (SHA256 (take (nat len) data))
    \<and> SHA256_hash stack data len = utils_sha256 data (of_int len)"
proof -
  have "unat (of_int len :: u32) = nat len" using assms(3,4) by (simp add: unsigned_of_int take_bit_int_eq_self)
  then show ?thesis using SHA256_hash_eq [OF assms] sha256.call_digest [of "of_int len" data] assms(2) by (simp add: utils_sha256_def)
qed

theorem sha256_implementations_agree_witness:
  "SHA256_hash \<lparr>sha_count = 7, sha_buf = replicate 64 0xA5, sha_state = []\<rparr> (str ''secret,tail'') 7 = utils_sha256 (str ''secret,tail'') 7"
  using sha256_implementations_agree [of "\<lparr>sha_count = 7, sha_buf = replicate 64 0xA5, sha_state = []\<rparr>" 7 "str ''secret,tail''"]
  by auto

end
