(* ===== verification/WifiState.thy ===== *)
theory WifiState
  imports ZconfigCodec DevBindSha
begin

text \<open>
  The state of Wi-Fi provisioning (\<open>wifi_provision/\<close>): the receiver's data of \<open>zconfig_protocol.h\<close>, the list of
  access points of \<open>aplist/awss_aplist.c\<close>, the channel scan of \<open>zconfig_vendor_common.c\<close>, and the parts of
  the platform they use.  The macros \<open>zc_...\<close> and \<open>aws_...\<close> of the code name the fields.  The argument \<open>tods\<close>,
  0 or 1 in the code, is a truth value; an array indexed by it is a function.
\<close>

subsection \<open>Constants\<close>

definition ZC_MAX_PASSWD_LEN :: nat where "ZC_MAX_PASSWD_LEN = 65"
definition MAX_APLIST_NUM :: nat where "MAX_APLIST_NUM = 100"
definition MAX_PKG_NUMS :: nat where "MAX_PKG_NUMS = 128"
definition GROUP_NUMBER :: nat where "GROUP_NUMBER = 8"
definition ETH_ALEN :: nat where "ETH_ALEN = 6"
definition AWS_MAX_CHN_NUMS :: nat where "AWS_MAX_CHN_NUMS = 31"
definition ZC_AUTH_TYPE_INVALID :: byte where "ZC_AUTH_TYPE_INVALID = 0xff"
definition ZC_AUTH_TYPE_MAX :: byte where "ZC_AUTH_TYPE_MAX = 6"
definition ZC_ENC_TYPE_MAX :: byte where "ZC_ENC_TYPE_MAX = 4"
definition ZC_ENC_TYPE_INVALID :: byte where "ZC_ENC_TYPE_INVALID = 0xff"
definition zc_default_ssid :: cstring where "zc_default_ssid = str ''aha''"
definition zc_adha_ssid :: cstring where "zc_adha_ssid = str ''adha''"
definition br_mac :: "byte list" where "br_mac = replicate ETH_ALEN 0xff"
definition zero_mac :: "byte list" where "zero_mac = replicate ETH_ALEN 0"

subsection \<open>States\<close>

datatype state_machine = STATE_CHN_SCANNING | STATE_CHN_LOCKED_BY_P2P | STATE_CHN_LOCKED_BY_BR
  | STATE_GOT_BEACON | STATE_RCV_IN_PROGRESS | STATE_RCV_COMPLETE | STATE_RCV_DONE

text \<open>The enumeration is ordered as declared: states are compared with \<open><\<close>.\<close>

fun state_rank :: "state_machine \<Rightarrow> nat" where
  "state_rank STATE_CHN_SCANNING = 0"
| "state_rank STATE_CHN_LOCKED_BY_P2P = 1"
| "state_rank STATE_CHN_LOCKED_BY_BR = 2"
| "state_rank STATE_GOT_BEACON = 3"
| "state_rank STATE_RCV_IN_PROGRESS = 4"
| "state_rank STATE_RCV_COMPLETE = 5"
| "state_rank STATE_RCV_DONE = 6"

lemma state_rank_inject: "state_rank x = state_rank y \<Longrightarrow> x = y"
  by (cases x; cases y) simp_all

instantiation state_machine :: linorder
begin

definition less_eq_state_machine :: "state_machine \<Rightarrow> state_machine \<Rightarrow> bool" where
  "x \<le> y \<longleftrightarrow> state_rank x \<le> state_rank y"

definition less_state_machine :: "state_machine \<Rightarrow> state_machine \<Rightarrow> bool" where
  "x < y \<longleftrightarrow> state_rank x < state_rank y"

instance
  by standard (auto simp: less_eq_state_machine_def less_state_machine_def intro: state_rank_inject)

end

datatype aws_enum = AWS_SCANNING | AWS_CHN_LOCKED | AWS_SUCCESS | AWS_TIMEOUT | AWS_STOPPING | AWS_STOPPED

record package =
  plen :: u16
  pscore :: byte

text \<open>The state for one direction of the frames, to or from the access point.\<close>

record zc_side =
  zc_state :: state_machine
  zc_frame_offset :: byte
  zc_group_pos :: byte
  zc_cur_pos :: byte
  zc_max_pos :: byte
  zc_last_index :: byte
  zc_replace :: byte
  zc_score_uplimit :: byte
  zc_pos_unsync :: byte
  zc_group_sn :: u16
  zc_prev_sn :: u16
  zc_last_len :: u16
  zc_timestamp :: u32

text \<open>Whether the mutex is not NULL is all that counts of it here.\<close>

record zconfig_data =
  zc_data :: "bool \<Rightarrow> zc_side"
  zc_pkg :: "bool \<Rightarrow> package list"
  zc_tmp :: "bool \<Rightarrow> package list"
  zc_src_mac :: "byte list"
  zc_channel :: byte
  zc_ssid :: "byte list"
  zc_passwd :: "byte list"
  zc_bssid :: "byte list"
  zc_ssid_is_gbk :: byte
  zc_ssid_auto_complete_disable :: byte
  zc_pre_ssid :: "byte list"
  zc_android_ssid :: "byte list"
  zc_android_bssid :: "byte list"
  zc_android_src :: "byte list"
  zc_mutex :: bool

record ap_info =
  ap_auth :: byte
  ap_channel :: byte
  ap_encry :: "bool \<Rightarrow> byte"
  ap_mac :: "byte list"
  ap_ssid :: "byte list"
  ap_rssi :: byte

text \<open>What the provisioning code asks of the platform and of its other parts, in order.\<close>

datatype awss_call = Event_lock_chan | Event_cs_err | Event_passwd_err | Event_got_ssid_passwd
  | Switch_channel byte | Close_monitor

record wifi = zconfig_data +
  zconfig_channel_locked :: byte
  zconfig_finished :: bool
  zconfig_aplist :: "ap_info list"
  zconfig_aplist_num :: byte
  adha_cnt :: byte
  adha_list :: "byte list"
  aws_state :: aws_enum
  aws_cur_chn :: byte
  aws_chn_index :: byte
  aws_locked_chn :: byte
  aws_chn_list :: "byte list"
  aws_stop :: aws_enum
  aws_chn_timestamp :: u32
  aws_start_timestamp :: u32
  aws_amend_dst_chan :: int
  aws_result_ssid :: "byte list"
  aws_result_passwd :: "byte list"
  aws_result_bssid :: "byte list"
  aws_result_channel :: byte
  aws_result_encry :: byte
  aws_result_auth :: byte
  fixed_delta :: u32
  n_uptime :: nat
  n_zalloc :: nat
  awss_calls :: "awss_call list"

text \<open>
  The environment: the clock, whether the n-th \<open>os_zalloc\<close> has memory, the product secret, the AES of the
  platform in cipher feedback mode (None: it failed and wrote nothing), and the memory the SHA-256 context is laid on.
\<close>

record wifi_env =
  uptime_ms :: "nat \<Rightarrow> u64"
  zalloc_ok :: "nat \<Rightarrow> bool"
  product_secret :: cstring
  aes_cfb_decrypt :: "byte list \<Rightarrow> byte list \<Rightarrow> byte list \<Rightarrow> byte list option"
  sha_stack :: SHA256_CTX

definition os_zalloc :: "wifi_env \<Rightarrow> wifi \<Rightarrow> bool \<times> wifi" where
  "os_zalloc E s = (zalloc_ok E (n_zalloc s), s\<lparr>n_zalloc := Suc (n_zalloc s)\<rparr>)"

definition HAL_UptimeMs :: "wifi_env \<Rightarrow> wifi \<Rightarrow> u64 \<times> wifi" where
  "HAL_UptimeMs E s = (uptime_ms E (n_uptime s), s\<lparr>n_uptime := Suc (n_uptime s)\<rparr>)"

definition os_get_time_ms :: "wifi_env \<Rightarrow> wifi \<Rightarrow> u32 \<times> wifi" where
  "os_get_time_ms E s =
     (let s = (if fixed_delta s = 0
               then let (t, s) = HAL_UptimeMs E s in s\<lparr>fixed_delta := ucast t - 0xFFFF0000\<rparr>
               else s);
          (t, s) = HAL_UptimeMs E s
      in (ucast t - fixed_delta s, s))"

definition time_elapsed_ms_since :: "wifi_env \<Rightarrow> u32 \<Rightarrow> wifi \<Rightarrow> u32 \<times> wifi" where
  "time_elapsed_ms_since E start_timestamp s = (let (now, s) = os_get_time_ms E s in (now - start_timestamp, s))"

abbreviation call :: "awss_call \<Rightarrow> wifi \<Rightarrow> wifi" where
  "call x s \<equiv> s\<lparr>awss_calls := awss_calls s @ [x]\<rparr>"

abbreviation set_side :: "bool \<Rightarrow> (zc_side \<Rightarrow> zc_side) \<Rightarrow> wifi \<Rightarrow> wifi" where
  "set_side tods f s \<equiv> s\<lparr>zc_data := (zc_data s)(tods := f (zc_data s tods))\<rparr>"

definition set_pkg :: "bool \<Rightarrow> nat \<Rightarrow> package \<Rightarrow> wifi \<Rightarrow> wifi" where
  "set_pkg tods n p s = s\<lparr>zc_pkg := (zc_pkg s)(tods := (zc_pkg s tods)[n := p])\<rparr>"

definition set_tmp :: "bool \<Rightarrow> nat \<Rightarrow> package \<Rightarrow> wifi \<Rightarrow> wifi" where
  "set_tmp tods n p s = s\<lparr>zc_tmp := (zc_tmp s)(tods := (zc_tmp s tods)[n := p])\<rparr>"

subsection \<open>Memory\<close>

definition zero_side :: zc_side where
  "zero_side = \<lparr>zc_state = STATE_CHN_SCANNING, zc_frame_offset = 0, zc_group_pos = 0, zc_cur_pos = 0, zc_max_pos = 0,
     zc_last_index = 0, zc_replace = 0, zc_score_uplimit = 0, zc_pos_unsync = 0, zc_group_sn = 0, zc_prev_sn = 0,
     zc_last_len = 0, zc_timestamp = 0\<rparr>"

definition zero_package :: package where "zero_package = \<lparr>plen = 0, pscore = 0\<rparr>"

definition zero_zconfig_data :: zconfig_data where
  "zero_zconfig_data = \<lparr>zc_data = \<lambda>_. zero_side, zc_pkg = \<lambda>_. replicate MAX_PKG_NUMS zero_package,
     zc_tmp = \<lambda>_. replicate (GROUP_NUMBER + 1) zero_package, zc_src_mac = zero_mac, zc_channel = 0,
     zc_ssid = replicate ZC_MAX_SSID_LEN 0, zc_passwd = replicate ZC_MAX_PASSWD_LEN 0, zc_bssid = zero_mac,
     zc_ssid_is_gbk = 0, zc_ssid_auto_complete_disable = 0, zc_pre_ssid = replicate ZC_MAX_SSID_LEN 0,
     zc_android_ssid = replicate ZC_MAX_SSID_LEN 0, zc_android_bssid = zero_mac, zc_android_src = zero_mac, zc_mutex = False\<rparr>"

text \<open>\<open>memset(zconfig_data, 0, sizeof(*zconfig_data))\<close>\<close>

definition clear_zconfig_data :: "wifi \<Rightarrow> wifi" where
  "clear_zconfig_data s = zconfig_data.extend zero_zconfig_data (zconfig_data.more s)"

text \<open>\<open>strncpy\<close>, on a source that has its zero byte among the first \<open>n\<close> or has at least \<open>n\<close> bytes.\<close>

definition strncpy :: "byte list \<Rightarrow> byte list \<Rightarrow> nat \<Rightarrow> byte list option" where
  "strncpy dst src n =
     (if 0 \<in> set (take n src) \<or> n \<le> length src
      then wr_bytes dst 0 (take n (takeWhile (\<lambda>b. b \<noteq> 0) src @ replicate n 0))
      else None)"

text \<open>Equality under \<open>strncmp\<close> and \<open>strcmp\<close>, of texts as far as their terminating zeros.\<close>

definition strncmp_eq :: "byte list \<Rightarrow> byte list \<Rightarrow> nat \<Rightarrow> bool" where
  "strncmp_eq a b n \<longleftrightarrow> take n (takeWhile (\<lambda>c. c \<noteq> 0) a) = take n (takeWhile (\<lambda>c. c \<noteq> 0) b)"

definition strcmp_eq :: "byte list \<Rightarrow> byte list \<Rightarrow> bool" where
  "strcmp_eq a b \<longleftrightarrow> takeWhile (\<lambda>c. c \<noteq> 0) a = takeWhile (\<lambda>c. c \<noteq> 0) b"

end
