(* ===== verification/WifiAplist.thy ===== *)
theory WifiAplist
  imports WifiState
begin

text \<open>
  The list of access points, \<open>frameworks/aplist/awss_aplist.c\<close>, with the channel list of
  \<open>frameworks/zconfig_vendor_common.c\<close> it feeds.  Entry 0 of the list is the spare one that is overwritten when the list is
  full; the searches begin at entry 1.
\<close>

subsection \<open>Channels\<close>

definition ZC_MAX_CHANNEL :: int where "ZC_MAX_CHANNEL = 14"
definition ZC_MIN_CHANNEL :: int where "ZC_MIN_CHANNEL = 1"

definition zconfig_is_valid_channel :: "int \<Rightarrow> bool" where
  "zconfig_is_valid_channel channel \<longleftrightarrow> ZC_MIN_CHANNEL \<le> channel \<and> channel \<le> ZC_MAX_CHANNEL"

definition aws_fixed_scanning_channels :: "byte list" where
  "aws_fixed_scanning_channels = [1, 6, 11, 1, 2, 3, 4, 5, 6, 7, 8, 9, 10, 11, 12, 13]"

definition zconfig_add_active_channel :: "int \<Rightarrow> wifi \<Rightarrow> (int \<times> wifi) option" where
  "zconfig_add_active_channel channel s =
     (if \<not> zconfig_is_valid_channel channel then Some (-1, s)
      else do {
        l \<leftarrow> wr_bytes (aws_chn_list s) (length aws_fixed_scanning_channels + nat channel) [of_int channel];
        Some (0, s\<lparr>aws_chn_list := l\<rparr>) })"

subsection \<open>The list\<close>

definition zero_ap_info :: ap_info where
  "zero_ap_info = \<lparr>ap_auth = 0, ap_channel = 0, ap_encry = \<lambda>_. 0, ap_mac = zero_mac, ap_ssid = replicate ZC_MAX_SSID_LEN 0, ap_rssi = 0\<rparr>"

definition awss_init_ieee80211_aplist :: "wifi_env \<Rightarrow> wifi \<Rightarrow> int \<times> wifi" where
  "awss_init_ieee80211_aplist E s =
     (if zconfig_aplist s \<noteq> [] then (0, s)
      else let (mem, s) = os_zalloc E s in
        if mem then (0, s\<lparr>zconfig_aplist := replicate MAX_APLIST_NUM zero_ap_info, zconfig_aplist_num := 0\<rparr>) else (-1, s))"

definition awss_deinit_ieee80211_aplist :: "wifi \<Rightarrow> int \<times> wifi" where
  "awss_deinit_ieee80211_aplist s =
     (if zconfig_aplist s = [] then (0, s) else (0, s\<lparr>zconfig_aplist := [], zconfig_aplist_num := 0\<rparr>))"

definition awss_clear_aplist :: "wifi \<Rightarrow> wifi" where
  "awss_clear_aplist s = s\<lparr>zconfig_aplist := replicate MAX_APLIST_NUM zero_ap_info, adha_cnt := 0,
     adha_list := replicate MAX_APLIST_NUM 0, zconfig_aplist_num := 0\<rparr>"

text \<open>The entries a search looks at.\<close>

definition listed :: "wifi \<Rightarrow> ap_info list" where
  "listed s = drop 1 (take (unat (zconfig_aplist_num s)) (zconfig_aplist s))"

definition zconfig_get_apinfo :: "wifi \<Rightarrow> byte list \<Rightarrow> ap_info option" where
  "zconfig_get_apinfo s mac = List.find (\<lambda>ap. ap_mac ap = mac) (listed s)"

definition zconfig_get_apinfo_by_ssid :: "wifi \<Rightarrow> byte list \<Rightarrow> ap_info option" where
  "zconfig_get_apinfo_by_ssid s ssid = List.find (\<lambda>ap. strcmp_eq (ap_ssid ap) ssid) (listed s)"

definition zconfig_get_apinfo_by_ssid_prefix :: "wifi \<Rightarrow> cstring \<Rightarrow> ap_info option" where
  "zconfig_get_apinfo_by_ssid_prefix s ssid_prefix =
     (if ssid_prefix = [] then None
      else List.find (\<lambda>ap. strncmp_eq (ap_ssid ap) ssid_prefix (length ssid_prefix)) (listed s))"

definition str_end_with :: "cstring \<Rightarrow> cstring \<Rightarrow> bool" where
  "str_end_with s suffix \<longleftrightarrow>
     (if length s < length suffix then False else strncmp_eq (drop (length s - length suffix) s) suffix (length suffix))"

definition zconfig_get_apinfo_by_ssid_suffix :: "wifi \<Rightarrow> cstring \<Rightarrow> ap_info option" where
  "zconfig_get_apinfo_by_ssid_suffix s ssid_suffix =
     (if ssid_suffix = [] then None
      else List.find (\<lambda>ap. str_end_with (takeWhile (\<lambda>b. b \<noteq> 0) (ap_ssid ap)) ssid_suffix) (listed s))"

subsection \<open>Saving\<close>

definition same_bss :: "byte list \<Rightarrow> byte list \<Rightarrow> ap_info \<Rightarrow> bool" where
  "same_bss ssid bssid ap \<longleftrightarrow> strncmp_eq (ap_ssid ap) ssid ZC_MAX_SSID_LEN \<and> ap_mac ap = bssid"

definition complete_apinfo :: "byte \<Rightarrow> byte \<Rightarrow> byte \<Rightarrow> byte \<Rightarrow> ap_info \<Rightarrow> ap_info" where
  "complete_apinfo channel auth pairwise_cipher group_cipher ap =
     (let ap = (if ap_channel ap = 0 then ap\<lparr>ap_channel := channel\<rparr> else ap);
          ap = (if ap_auth ap = ZC_AUTH_TYPE_INVALID then ap\<lparr>ap_auth := auth\<rparr> else ap);
          ap = (if ap_encry ap False = ZC_ENC_TYPE_INVALID then ap\<lparr>ap_encry := (ap_encry ap)(False := group_cipher)\<rparr> else ap);
          ap = (if ap_encry ap True = ZC_ENC_TYPE_INVALID then ap\<lparr>ap_encry := (ap_encry ap)(True := pairwise_cipher)\<rparr> else ap)
      in ap)"

text \<open>The first entry from \<open>i\<close> on, below the number of entries, with the same name and address.\<close>

fun find_bss :: "byte list \<Rightarrow> byte list \<Rightarrow> ap_info list \<Rightarrow> nat \<Rightarrow> nat option" where
  "find_bss ssid bssid [] i = None"
| "find_bss ssid bssid (ap # aps) i = (if same_bss ssid bssid ap then Some i else find_bss ssid bssid aps (Suc i))"

text \<open>\<open>store_apinfo i\<close>: the body after the loop, for the entry chosen.\<close>

definition store_apinfo :: "nat \<Rightarrow> byte list \<Rightarrow> byte list \<Rightarrow> byte \<Rightarrow> byte \<Rightarrow> byte \<Rightarrow> byte \<Rightarrow> byte \<Rightarrow> wifi \<Rightarrow> wifi option" where
  "store_apinfo i ssid bssid channel auth pairwise_cipher group_cipher rssi s =
     (if length (zconfig_aplist s) \<le> i then None
      else do {
        name \<leftarrow> strncpy (ap_ssid (zconfig_aplist s ! i)) ssid (ZC_MAX_SSID_LEN - 1);
        let ap = \<lparr>ap_auth = auth, ap_channel = channel, ap_encry = (\<lambda>tods. if tods then pairwise_cipher else group_cipher),
                  ap_mac = bssid, ap_ssid = name, ap_rssi = rssi\<rparr>;
        let s = s\<lparr>zconfig_aplist := (zconfig_aplist s)[i := ap]\<rparr>;
        s \<leftarrow> (if (strcmp_eq ssid zc_adha_ssid \<or> strcmp_eq ssid zc_default_ssid) \<and> unat (adha_cnt s) < MAX_APLIST_NUM
              then do {
                l \<leftarrow> wr_bytes (adha_list s) (unat (adha_cnt s)) [of_nat i];
                Some (s\<lparr>adha_list := l, adha_cnt := adha_cnt s + 1\<rparr>) }
              else Some s);
        if zc_bssid s = bssid \<and> ssid \<noteq> [] \<and> ssid ! 0 \<noteq> 0
        then do { name \<leftarrow> strncpy (zc_ssid s) ssid (ZC_MAX_SSID_LEN - 1); Some (s\<lparr>zc_ssid := name\<rparr>) }
        else Some s })"

definition awss_save_apinfo ::
  "byte list \<Rightarrow> byte list \<Rightarrow> byte \<Rightarrow> byte \<Rightarrow> byte \<Rightarrow> byte \<Rightarrow> byte \<Rightarrow> wifi \<Rightarrow> wifi option" where
  "awss_save_apinfo ssid bssid channel auth pairwise_cipher group_cipher rssi s = do {
     (channel, s) \<leftarrow>
       (if uint channel > ZC_MAX_CHANNEL \<or> uint channel < ZC_MIN_CHANNEL then Some (0, s)
        else do { (r, s) \<leftarrow> zconfig_add_active_channel (uint channel) s; Some (channel, s) });
     let auth = (if auth > ZC_AUTH_TYPE_MAX then ZC_AUTH_TYPE_INVALID else auth);
     let pairwise_cipher = (if pairwise_cipher > ZC_ENC_TYPE_MAX then ZC_ENC_TYPE_INVALID else pairwise_cipher);
     let group_cipher = (if group_cipher > ZC_ENC_TYPE_MAX then ZC_ENC_TYPE_INVALID else group_cipher);
     let pairwise_cipher = (if pairwise_cipher = 4 then 3 else pairwise_cipher);
     let s = (if zconfig_aplist_num s = 0 then s\<lparr>zconfig_aplist_num := 1\<rparr> else s);
     (case find_bss ssid bssid (listed s) 1 of
        Some i \<Rightarrow> Some (s\<lparr>zconfig_aplist := (zconfig_aplist s)[i := complete_apinfo channel auth pairwise_cipher group_cipher (zconfig_aplist s ! i)]\<rparr>)
      | None \<Rightarrow>
          let i = unat (zconfig_aplist_num s);
              (i, s) = (if i < MAX_APLIST_NUM then (i, s\<lparr>zconfig_aplist_num := zconfig_aplist_num s + 1\<rparr>) else (0, s))
          in store_apinfo i ssid bssid channel auth pairwise_cipher group_cipher rssi s) }"

text \<open>
  \<open>awss_get_auth_info\<close>: whether an access point was found, then the values stored through the pointers (its
  entry, and the address written to \<open>bssid\<close>).
\<close>

definition awss_get_auth_info :: "wifi \<Rightarrow> byte list \<Rightarrow> byte list \<Rightarrow> (byte \<times> byte \<times> byte \<times> byte list) option" where
  "awss_get_auth_info s ssid bssid =
     (let valid = (bssid \<noteq> zero_mac)
      in case (if valid then zconfig_get_apinfo s bssid else zconfig_get_apinfo_by_ssid s ssid) of
           None \<Rightarrow> None
         | Some ap \<Rightarrow> Some (ap_auth ap, ap_encry ap True, ap_channel ap, if valid then bssid else ap_mac ap))"

end
