(* ===== verification/SmartConfig.thy ===== *)
theory SmartConfig
  imports WifiAplist
begin

text \<open>
  The receiver of Wi-Fi provisioning by broadcast frames: \<open>smartconfig/awss_smartconfig.c\<close>, the state changes of
  \<open>frameworks/zconfig_protocol.c\<close> with the callbacks of \<open>frameworks/zconfig_vendor_common.c\<close>, and the
  decryption of \<open>frameworks/utils/awss_crypt.c\<close>.  A frame carries its information in its length.  The type \<open>char\<close> is
  unsigned on the target.  Statistics and trace messages are left out, and so is \<open>zc_mutex\<close>,
  which \<open>zconfig_set_state\<close> takes for \<open>STATE_RCV_DONE\<close> only; an access outside an array is None.
\<close>

subsection \<open>Frames\<close>

definition START_FRAME :: u16 where "START_FRAME = 0x4E0"
definition GROUP_FRAME :: u16 where "GROUP_FRAME = 0x3E0"
definition GROUP_FRAME_END :: u16 where "GROUP_FRAME_END = 0x3F0"
definition PAYLOAD_BITS_CNT :: nat where "PAYLOAD_BITS_CNT = 7"
definition PAYLOAD_BITS_MASK :: u16 where "PAYLOAD_BITS_MASK = 0x7F"
definition ZC_GRP_PKT_IDX_START :: byte where "ZC_GRP_PKT_IDX_START = 2"
definition ZC_GRP_PKT_IDX_END :: byte where "ZC_GRP_PKT_IDX_END = 9"

definition score_max :: byte where "score_max = 100"
definition score_mid :: byte where "score_mid = 50"
definition score_low :: byte where "score_low = 1"
definition score_min :: byte where "score_min = 0"
definition time_interval :: u32 where "time_interval = 300"
definition INVALID_CHANNEL :: byte where "INVALID_CHANNEL = 0"

definition SSID_EXIST_MASK :: byte where "SSID_EXIST_MASK = 1"
definition SSID_ENCODE_MASK :: byte where "SSID_ENCODE_MASK = 0x20"
definition PASSWD_ENCRYPT_MASK :: byte where "PASSWD_ENCRYPT_MASK = 0x06"
definition PASSWD_ENCRYPT_CIPHER :: byte where "PASSWD_ENCRYPT_CIPHER = 1"

datatype pkg_type = PKG_INVALID | PKG_BC_FRAME | PKG_START_FRAME | PKG_DATA_FRAME | PKG_ALINK_ROUTER | PKG_GROUP_FRAME | PKG_END

record parser_res =
  res_src :: "byte list"
  res_dst :: "byte list"
  res_bssid :: "byte list"
  res_tods :: bool
  res_channel :: byte
  br_encry_type :: byte
  br_data_len :: u16
  br_sn :: u16

definition is_start_frame :: "u16 \<Rightarrow> bool" where
  "is_start_frame l \<longleftrightarrow> l = START_FRAME"

definition is_group_frame :: "u16 \<Rightarrow> bool" where
  "is_group_frame l \<longleftrightarrow> GROUP_FRAME < l \<and> l \<le> GROUP_FRAME_END"

definition is_data_frame :: "u16 \<Rightarrow> bool" where
  "is_data_frame l =
     (if is_start_frame l then False
      else if is_group_frame l then False
      else let index = (ucast (drop_bit PAYLOAD_BITS_CNT l AND 0xF) :: byte)
           in ZC_GRP_PKT_IDX_START \<le> index \<and> index \<le> ZC_GRP_PKT_IDX_END)"

definition get_group_index :: "u16 \<Rightarrow> byte" where
  "get_group_index l = (if is_start_frame l then 0 else ucast ((l - GROUP_FRAME) * of_nat GROUP_NUMBER))"

definition get_data_index :: "u16 \<Rightarrow> byte" where
  "get_data_index l = ucast (drop_bit PAYLOAD_BITS_CNT l AND 0xF) - (ZC_GRP_PKT_IDX_START - 1)"

definition sn_minus :: "u16 \<Rightarrow> u16 \<Rightarrow> u16" where "sn_minus a b = (a - b) AND 0xfff"

definition sn_compare :: "u16 \<Rightarrow> u16 \<Rightarrow> int" where
  "sn_compare a b = (let res = sn_minus a b in if res < 1000 then uint res else -1)"

text \<open>The stored packages; \<open>n\<close> is below 128.\<close>

definition pkg_len :: "wifi \<Rightarrow> bool \<Rightarrow> nat \<Rightarrow> u16" where "pkg_len s tods n = plen (zc_pkg s tods ! n)"
definition pkg_score :: "wifi \<Rightarrow> bool \<Rightarrow> nat \<Rightarrow> byte" where "pkg_score s tods n = pscore (zc_pkg s tods ! n)"

definition set_pkg_len :: "bool \<Rightarrow> nat \<Rightarrow> u16 \<Rightarrow> wifi \<Rightarrow> wifi" where
  "set_pkg_len tods n l s = set_pkg tods n ((zc_pkg s tods ! n)\<lparr>plen := l\<rparr>) s"

definition set_pkg_score :: "bool \<Rightarrow> nat \<Rightarrow> byte \<Rightarrow> wifi \<Rightarrow> wifi" where
  "set_pkg_score tods n sc s = set_pkg tods n ((zc_pkg s tods ! n)\<lparr>pscore := sc\<rparr>) s"

text \<open>Checked reading, for a computed position.\<close>

definition at_pkg :: "package list \<Rightarrow> nat \<Rightarrow> package option" where
  "at_pkg ps n = (if n < length ps then Some (ps ! n) else None)"

abbreviation payload_of :: "u16 \<Rightarrow> byte" where
  "payload_of l \<equiv> ucast (l AND PAYLOAD_BITS_MASK)"

subsection \<open>Completeness\<close>

definition zconfig_get_data_len :: "wifi \<Rightarrow> int" where
  "zconfig_get_data_len s =
     (let (len, score) =
            (if pkg_score s True 1 > pkg_score s False 1 then (payload_of (pkg_len s True 1), pkg_score s True 1)
             else (payload_of (pkg_len s False 1), pkg_score s False 1));
          len = (if len \<noteq> 0 \<and> score > score_mid then len
                 else if zc_max_pos (zc_data s True) > zc_max_pos (zc_data s False) then zc_max_pos (zc_data s True)
                 else zc_max_pos (zc_data s False))
      in if unat len < GROUP_NUMBER then int GROUP_NUMBER
         else if MAX_PKG_NUMS \<le> unat len then int MAX_PKG_NUMS - int GROUP_NUMBER - 1 else uint len)"

definition SSID_AUTO_COMPLETE_SCORE :: byte where "SSID_AUTO_COMPLETE_SCORE = score_max + 1"

text \<open>\<open>pkg_len(n) = v; pkg_score(n) = SSID_AUTO_COMPLETE_SCORE\<close> for \<open>n = 5, 6, ...\<close> and the values \<open>vs\<close>.\<close>

fun complete_pkgs :: "bool \<Rightarrow> nat \<Rightarrow> u16 list \<Rightarrow> wifi \<Rightarrow> wifi" where
  "complete_pkgs tods i [] s = s"
| "complete_pkgs tods i (v # vs) s =
     complete_pkgs tods (Suc i) vs
       (set_pkg_score tods i SSID_AUTO_COMPLETE_SCORE
         (set_pkg_len tods i (v OR (0x100 + 0x80 * (of_nat ((i - 1) mod GROUP_NUMBER)))) s))"

text \<open>
  The completion of the name from the list of access points: the name length to go on with, or None when memory is
  short and the caller returns 0.
\<close>

definition ssid_auto_complete :: "wifi_env \<Rightarrow> bool \<Rightarrow> byte \<Rightarrow> byte \<Rightarrow> wifi \<Rightarrow> (byte option \<times> wifi) option" where
  "ssid_auto_complete E tods flag ssid_len s =
     (if zc_ssid s ! 0 \<noteq> 0 \<and> flag AND SSID_EXIST_MASK \<noteq> 0 \<and> pkg_score s tods 2 < SSID_AUTO_COMPLETE_SCORE
         \<and> pkg_score s tods 3 > score_mid \<and> zc_ssid_auto_complete_disable s = 0
      then do {
        n \<leftarrow> strlen_at (zc_ssid s) 0;
        let ssid_len = (word_of_nat n :: byte);
        let ssid_len = (if unat ssid_len > ZC_MAX_SSID_LEN - 1 then of_nat (ZC_MAX_SSID_LEN - 1) else ssid_len);
        if flag AND SSID_ENCODE_MASK = 0
        then
          if (ucast ssid_len OR 0x200) \<noteq> pkg_len s tods 3
          then Some (Some ssid_len, s\<lparr>zc_ssid_auto_complete_disable := 1\<rparr>)
          else do {
            let s = set_pkg_score tods 2 SSID_AUTO_COMPLETE_SCORE s;
            let s = set_pkg_score tods 3 SSID_AUTO_COMPLETE_SCORE (set_pkg_len tods 3 (ucast ssid_len OR 0x200) s);
            let s = complete_pkgs tods 5 (map (\<lambda>b. ucast b - 32) (take (unat ssid_len) (zc_ssid s))) s;
            Some (Some ssid_len, s) }
        else do {
          let ssid_encode_len = (word_of_nat ((unat ssid_len * 8 + 5) div 6) :: byte);
          if (ucast ssid_encode_len OR 0x200) \<noteq> pkg_len s tods 3
          then Some (Some ssid_len, s\<lparr>zc_ssid_is_gbk := 1, zc_ssid_auto_complete_disable := 1\<rparr>)
          else do {
            let s = s\<lparr>zc_ssid_is_gbk := 0\<rparr>;
            let (mem, s) = os_zalloc E s;
            if \<not> mem then Some (None, s)
            else do {
              (buf, n) \<leftarrow> encode_chinese (zc_ssid s) ssid_len (replicate (unat ssid_encode_len + 1) 0) 6;
              let buf_len = (case n of Some n \<Rightarrow> n | None \<Rightarrow> 0);
              let s = set_pkg_score tods 2 SSID_AUTO_COMPLETE_SCORE s;
              let s = set_pkg_score tods 3 SSID_AUTO_COMPLETE_SCORE (set_pkg_len tods 3 (ucast buf_len OR 0x200) s);
              vs \<leftarrow> rd_block buf 0 (unat buf_len);
              let s = complete_pkgs tods 5 (map ucast vs) s;
              Some (Some ssid_len, s) } } } }
      else Some (Some ssid_len, s))"

definition zconfig_recv_completed :: "wifi_env \<Rightarrow> bool \<Rightarrow> wifi \<Rightarrow> (bool \<times> wifi) option" where
  "zconfig_recv_completed E tods s =
     (let len = payload_of (pkg_len s tods 1);
          flag = payload_of (pkg_len s tods 2);
          (ssid_len, passwd_len) =
            (if flag AND SSID_EXIST_MASK \<noteq> 0 then (payload_of (pkg_len s tods 3), payload_of (pkg_len s tods 4))
             else (0, payload_of (pkg_len s tods 3)))
      in if len = 0 \<or> pkg_score s tods 1 \<le> score_min then Some (False, s)
      else do {
        (r, s) \<leftarrow> ssid_auto_complete E tods flag ssid_len s;
        case r of
          None \<Rightarrow> Some (False, s)
        | Some ssid_len \<Rightarrow>
            if zc_max_pos (zc_data s tods) < len then Some (False, s)
            else if \<not> list_all (\<lambda>i. pkg_score s tods i > score_min) [1..<unat len + 1] then Some (False, s)
            else if flag AND SSID_EXIST_MASK \<noteq> 0
            then Some (unat len = unat ssid_len + unat passwd_len + 4 + 2, s)
            else Some (unat len = unat passwd_len + 3 + 2, s) })"

subsection \<open>Decryption\<close>

definition KEY_MAX_LEN :: nat where "KEY_MAX_LEN = 40"
definition AES128_KEY_LEN :: nat where "AES128_KEY_LEN = 16"
definition RANDOM_MAX_LEN :: nat where "RANDOM_MAX_LEN = 16"

definition cal_passwd :: "wifi_env \<Rightarrow> cstring \<Rightarrow> byte list \<Rightarrow> byte list option" where
  "cal_passwd E key random = do {
     let key_len = min (length key) KEY_MAX_LEN;
     src \<leftarrow> wr_bytes (replicate (KEY_MAX_LEN + RANDOM_MAX_LEN + 2) 0) 0 (take key_len key);
     src \<leftarrow> wr_bytes src key_len (str '','');
     random \<leftarrow> rd_block random 0 RANDOM_MAX_LEN;
     src \<leftarrow> wr_bytes src (key_len + 1) random;
     digest \<leftarrow> SHA256_hash (sha_stack E) src (int (key_len + 1 + RANDOM_MAX_LEN));
     rd_block digest 0 AES128_KEY_LEN }"

text \<open>
  \<open>aes_decrypt_string\<close> as provisioning by broadcast calls it: bytes, not digits, the security level 3 (a key from the product
  secret), cipher feedback and no random number.  The result is \<open>plain\<close>.
\<close>

definition aes_decrypt_string :: "wifi_env \<Rightarrow> byte list \<Rightarrow> byte list \<Rightarrow> nat \<Rightarrow> wifi \<Rightarrow> (byte list \<times> wifi) option" where
  "aes_decrypt_string E cipher plain len s = do {
     let (mem, s) = os_zalloc E s;
     if \<not> mem then Some (plain, s)
     else do {
       decoded \<leftarrow> rd_block cipher 0 len;
       let random = replicate RANDOM_MAX_LEN 0;
       key \<leftarrow> cal_passwd E (product_secret E) random;
       plain \<leftarrow> wr_bytes plain 0 [0];
       (case aes_cfb_decrypt E key random decoded of
          None \<Rightarrow> Some (plain, s)
        | Some text \<Rightarrow> do { plain \<leftarrow> wr_bytes plain 0 text; Some (plain, s) }) } }"

subsection \<open>State changes\<close>

definition is_channel_locked :: "wifi \<Rightarrow> bool" where
  "is_channel_locked s \<longleftrightarrow> zconfig_channel_locked s \<noteq> INVALID_CHANNEL"

definition zconfig_channel_locked_callback :: "byte \<Rightarrow> wifi \<Rightarrow> wifi" where
  "zconfig_channel_locked_callback primary_channel s =
     (let s = s\<lparr>aws_locked_chn := primary_channel\<rparr>;
          s = (if aws_state s = AWS_SCANNING then s\<lparr>aws_state := AWS_CHN_LOCKED\<rparr> else s)
      in call Event_lock_chan s)"

definition zconfig_callback_channel_locked :: "byte \<Rightarrow> wifi \<Rightarrow> wifi" where
  "zconfig_callback_channel_locked channel s =
     (let s = (if channel \<noteq> zconfig_channel_locked s then s\<lparr>zconfig_channel_locked := channel\<rparr> else s)
      in zconfig_channel_locked_callback channel s)"

definition zconfig_got_ssid_passwd_callback ::
  "byte list \<Rightarrow> byte list \<Rightarrow> byte list \<Rightarrow> byte \<Rightarrow> byte \<Rightarrow> byte \<Rightarrow> wifi \<Rightarrow> wifi option" where
  "zconfig_got_ssid_passwd_callback ssid passwd bssid auth encry channel s = do {
     ssid \<leftarrow> strncpy (replicate (ZC_MAX_SSID_LEN + 1) 0) ssid (ZC_MAX_SSID_LEN - 1);
     passwd \<leftarrow> strncpy (replicate (ZC_MAX_PASSWD_LEN + 1) 0) passwd (ZC_MAX_PASSWD_LEN - 1);
     Some (call Event_got_ssid_passwd (s\<lparr>aws_result_ssid := ssid, aws_result_passwd := passwd, aws_result_bssid := bssid,
       aws_result_auth := auth, aws_result_encry := encry, aws_result_channel := channel, aws_state := AWS_SUCCESS\<rparr>)) }"

text \<open>Called with the buffers of the state, to whose address the one found for a name is written.\<close>

definition zconfig_callback_over :: "wifi \<Rightarrow> wifi option" where
  "zconfig_callback_over s =
     (if zconfig_finished s then Some s
      else do {
        let (auth, encry, channel, bssid) =
          (case awss_get_auth_info s (zc_ssid s) (zc_bssid s) of
             None \<Rightarrow> (ZC_AUTH_TYPE_INVALID, ZC_ENC_TYPE_INVALID, 0, zc_bssid s)
           | Some r \<Rightarrow> r);
        let s = s\<lparr>zc_bssid := bssid\<rparr>;
        s \<leftarrow> zconfig_got_ssid_passwd_callback (zc_ssid s) (zc_passwd s) (zc_bssid s) auth encry channel s;
        Some (call Close_monitor (s\<lparr>zconfig_finished := True\<rparr>)) })"

definition zconfig_set_state :: "state_machine \<Rightarrow> bool \<Rightarrow> byte \<Rightarrow> wifi \<Rightarrow> wifi option" where
  "zconfig_set_state state tods channel s = do {
     s \<leftarrow> (case state of
        STATE_CHN_LOCKED_BY_P2P \<Rightarrow> Some (zconfig_callback_channel_locked channel s)
      | STATE_CHN_LOCKED_BY_BR \<Rightarrow> Some (zconfig_callback_channel_locked (if zc_channel s \<noteq> 0 then zc_channel s else channel) s)
      | STATE_RCV_DONE \<Rightarrow>
          zconfig_callback_over (if is_channel_locked s then s else zconfig_callback_channel_locked channel s)
      | _ \<Rightarrow> Some s);
     Some (if zc_state (zc_data s tods) < state then set_side tods (zc_state_update (\<lambda>_. state)) s else s) }"

definition aws_set_dst_chan :: "int \<Rightarrow> wifi \<Rightarrow> wifi" where
  "aws_set_dst_chan channel s = s\<lparr>aws_amend_dst_chan := channel\<rparr>"

subsection \<open>Name and password\<close>

definition get_be16 :: "byte list \<Rightarrow> nat \<Rightarrow> u16" where
  "get_be16 b i = push_bit 8 (ucast (b ! i)) OR ucast (b ! (i + 1))"

text \<open>Half the scores of a message with a wrong checksum, or at most 0x60.\<close>

definition lower_score :: "package \<Rightarrow> package" where
  "lower_score p = p\<lparr>pscore := (if pscore p > 0x60 then 0x60 else drop_bit 1 (pscore p))\<rparr>"

definition lower_scores :: "nat \<Rightarrow> wifi \<Rightarrow> wifi" where
  "lower_scores package_num s =
     s\<lparr>zc_pkg := \<lambda>tods. map (\<lambda>i. if 1 \<le> i \<and> i \<le> package_num then lower_score (zc_pkg s tods ! i) else zc_pkg s tods ! i)
        [0..<length (zc_pkg s tods)]\<rparr>"

definition amend_ssid :: "wifi \<Rightarrow> wifi option" where
  "amend_ssid s =
     (case zconfig_get_apinfo s (zc_bssid s) of
        None \<Rightarrow> Some s
      | Some ap \<Rightarrow>
          if ap_ssid ap ! 0 = 0 then Some s
          else if strncmp_eq (ap_ssid ap) zc_adha_ssid ZC_MAX_SSID_LEN \<or> strncmp_eq (ap_ssid ap) zc_default_ssid ZC_MAX_SSID_LEN
          then Some (s\<lparr>zc_bssid := zero_mac\<rparr>)
          else do { name \<leftarrow> strncpy (zc_ssid s) (ap_ssid ap) (ZC_MAX_SSID_LEN - 1); Some (s\<lparr>zc_ssid := name\<rparr>) })"

text \<open>\<open>take_ssid\<close>: the branch for a message with a name; \<open>tmp\<close> is the scratch buffer.\<close>

definition take_ssid :: "wifi_env \<Rightarrow> byte list \<Rightarrow> byte \<Rightarrow> byte \<Rightarrow> byte list \<Rightarrow> wifi \<Rightarrow> (byte list \<times> wifi) option" where
  "take_ssid E pbuf flag ssid_len tmp s = do {
     (tmp, s) \<leftarrow>
       (if flag AND SSID_ENCODE_MASK = 0
        then do {
          bs \<leftarrow> rd_block pbuf 0 (unat ssid_len);
          tmp \<leftarrow> wr_bytes tmp (unat ssid_len) [0];
          tmp \<leftarrow> wr_bytes tmp 0 (map (\<lambda>b. b + 32) bs);
          Some (tmp, s) }
        else do {
          let (mem, s') = os_zalloc E s;
          (tmp, _) \<leftarrow> decode_chinese mem pbuf ssid_len tmp 6;
          Some (tmp, if ssid_len = 0 then s else s') });
     s \<leftarrow> (if zc_ssid s ! 0 = 0 \<or> zc_ssid_auto_complete_disable s \<noteq> 0
          then do { name \<leftarrow> strncpy (zc_ssid s) tmp (ZC_MAX_SSID_LEN - 1); Some (s\<lparr>zc_ssid := name\<rparr>) }
          else Some s);
     s \<leftarrow> amend_ssid s;
     Some (tmp, s) }"

text \<open>\<open>take_passwd\<close>: the branch for an encrypted password.\<close>

definition take_passwd :: "wifi_env \<Rightarrow> byte list \<Rightarrow> byte \<Rightarrow> byte list \<Rightarrow> wifi \<Rightarrow> (int \<times> wifi) option" where
  "take_passwd E pbuf passwd_len tmp s = do {
     let (mem, s') = os_zalloc E s;
     (tmp, n) \<leftarrow> decode_chinese mem pbuf passwd_len tmp 6;
     let s = (if passwd_len = 0 then s else s');
     let passwd_len = (case n of Some n \<Rightarrow> n | None \<Rightarrow> 0);
     (plain, s) \<leftarrow> aes_decrypt_string E tmp (replicate ZC_MAX_PASSWD_LEN 0) (unat passwd_len) s;
     let s = s\<lparr>zc_passwd := plain\<rparr>;
     ok \<leftarrow> is_utf8 plain (uint passwd_len);
     if \<not> ok then Some (-1, call Event_passwd_err (clear_zconfig_data s))
     else Some (0, s) }"

definition zconfig_get_ssid_passwd :: "wifi_env \<Rightarrow> bool \<Rightarrow> wifi \<Rightarrow> (int \<times> wifi) option" where
  "zconfig_get_ssid_passwd E tods s = do {
     (done, s) \<leftarrow> zconfig_recv_completed E tods s;
     if \<not> done then Some (-1, s)
     else do {
       let (mem, s) = os_zalloc E s;
       if \<not> mem then Some (-1, s)
       else do {
         let (mem, s) = os_zalloc E s;
         if \<not> mem then Some (-1, s)
         else do {
           let package_num = unat (pkg_len s tods 1 AND PAYLOAD_BITS_MASK);
           buf \<leftarrow> wr_bytes (replicate 256 0) 0 (map (\<lambda>i. payload_of (pkg_len s tods i)) [1..<package_num + 1]);
           tmp \<leftarrow> wr_bytes (replicate 128 0) 0 (map (\<lambda>i. pkg_score s tods i) [1..<package_num + 1]);
           if package_num < 2 then None
           else do {
             let crc = get_be16 buf (package_num - 2);
             let flag = buf ! 1;
             let passwd_encrypt = drop_bit 1 (flag AND PASSWD_ENCRYPT_MASK);
             if passwd_encrypt \<le> PASSWD_ENCRYPT_CIPHER then Some (-1, s)
             else do {
               cal_crc \<leftarrow> zconfig_checksum_v3 buf (of_nat (package_num - 2));
               if crc \<noteq> cal_crc then Some (-1, call Event_cs_err (lower_scores package_num s))
               else if flag AND SSID_EXIST_MASK \<noteq> 0
               then do {
                 let ssid_len = buf ! 2;
                 let passwd_len = buf ! 3;
                 (tmp, s) \<leftarrow> take_ssid E (drop 4 buf) flag ssid_len tmp s;
                 take_passwd E (drop (4 + unat ssid_len) buf) passwd_len tmp s }
               else take_passwd E (drop 3 buf) (buf ! 2) tmp s } } } } } }"

subsection \<open>Hint frames\<close>

definition zconfig_fixed_offset :: "byte list" where
  "zconfig_fixed_offset = [36, 44, 56, 52, 56]"

definition zconfig_hint_frame :: "u16 list" where
  "zconfig_hint_frame = [START_FRAME, GROUP_FRAME + 1, GROUP_FRAME + 2, GROUP_FRAME + 3, GROUP_FRAME + 4,
     GROUP_FRAME + 5, GROUP_FRAME + 6, GROUP_FRAME + 7]"

fun index_of :: "int \<Rightarrow> u16 list \<Rightarrow> nat \<Rightarrow> nat option" where
  "index_of l [] i = None"
| "index_of l (f # fs) i = (if uint f = l then Some i else index_of l fs (Suc i))"

text \<open>The access point the frame came from: its channel and its name are taken over.\<close>

definition fix_channel :: "byte list \<Rightarrow> bool \<Rightarrow> byte \<Rightarrow> byte \<Rightarrow> wifi \<Rightarrow> wifi option" where
  "fix_channel bssid tods encry channel s =
     (case zconfig_get_apinfo s bssid of
        None \<Rightarrow> Some s
      | Some ap \<Rightarrow> do {
          let s = (if ap_encry ap tods = encry \<and> ap_channel ap \<noteq> 0 \<and> channel \<noteq> ap_channel ap
                   then aws_set_dst_chan (uint (ap_channel ap)) (s\<lparr>zc_channel := ap_channel ap\<rparr>) else s);
          name \<leftarrow> strncpy (zc_ssid s) (ap_ssid ap) (ZC_MAX_SSID_LEN - 1);
          Some (s\<lparr>zc_ssid := name\<rparr>) })"

definition is_hint_frame :: "byte \<Rightarrow> int \<Rightarrow> byte list \<Rightarrow> byte list \<Rightarrow> byte \<Rightarrow> bool \<Rightarrow> u16 \<Rightarrow> wifi \<Rightarrow> (bool \<times> wifi) option" where
  "is_hint_frame encry len bssid src channel tods sn s =
     (if encry > ZC_ENC_TYPE_MAX then Some (False, s)
      else let offset = zconfig_fixed_offset ! unat encry
      in case index_of (len - uint offset) zconfig_hint_frame 0 of
           None \<Rightarrow> Some (False, s)
         | Some i \<Rightarrow> do {
             (go, s) \<leftarrow>
               (if zc_bssid s = zero_mac then Some (True, s\<lparr>zc_bssid := bssid, zc_src_mac := src\<rparr>)
                else if zc_src_mac s \<noteq> src then Some (False, s)
                else if zc_bssid s \<noteq> bssid
                then if tods
                     then (let s = s\<lparr>zc_bssid := bssid, zc_src_mac := src\<rparr>
                           in Some (True, if zc_state (zc_data s False) = STATE_CHN_LOCKED_BY_BR
                                          then set_side False (zc_state_update (\<lambda>_. STATE_CHN_SCANNING)) s else s))
                     else Some (False, s)
                else Some (True, s));
             if \<not> go then Some (False, s)
             else do {
               let s = set_side tods (\<lambda>d. d\<lparr>zc_frame_offset := offset, zc_group_pos := of_nat (i * GROUP_NUMBER),
                 zc_cur_pos := of_nat (i * GROUP_NUMBER), zc_group_sn := sn, zc_prev_sn := sn, zc_score_uplimit := score_max\<rparr>) s;
               let s = s\<lparr>zc_ssid := replicate ZC_MAX_SSID_LEN 0\<rparr>;
               s \<leftarrow> fix_channel bssid tods encry channel s;
               Some (True, s) } })"

subsection \<open>Scores\<close>

fun level_loop :: "u16 \<Rightarrow> (u16 \<times> byte) list \<Rightarrow> byte" where
  "level_loop delta [] = score_max"
| "level_loop delta ((bound, level) # ls) = (if delta > bound then level_loop delta ls else level)"

definition score_level :: "(u16 \<times> byte) list" where
  "score_level = [(0, 0), (1, 2), (4, 8), (8, 16), (15, 30), (40, 40), (0xFFFF, score_max)]"

definition get_data_score :: "wifi \<Rightarrow> u16 \<Rightarrow> u16 \<Rightarrow> byte \<Rightarrow> byte \<Rightarrow> bool \<Rightarrow> byte" where
  "get_data_score s group_sn sn_now index_now index_last tods =
     (let sn_delta = sn_minus sn_now group_sn - 1;
          index_delta = (ucast index_now - ucast index_last) - 1;
          delta = sn_delta + index_delta;
          d = zc_data s tods
      in if sn_compare sn_now group_sn \<le> 0 \<or> sn_compare sn_now (zc_prev_sn d) \<le> 0 then score_min
         else if index_now \<le> index_last then score_min
         else let res = level_loop delta score_level
              in if zc_score_uplimit d > res then zc_score_uplimit d - res else score_low)"

subsection \<open>Finding the group of frames out of step\<close>

text \<open>
  The inner loop of \<open>try_to_sync_pos\<close>: the packages set aside, from number \<open>j\<close> on, against the group at \<open>i\<close>.  The
  result is the number of matches, the least score and \<open>j\<close> when the loop ends.
\<close>

fun match_group_loop :: "wifi \<Rightarrow> bool \<Rightarrow> bool \<Rightarrow> nat \<Rightarrow> nat list \<Rightarrow> int \<Rightarrow> int \<Rightarrow> (int \<times> int \<times> nat) option" where
  "match_group_loop s tods empty_match i [] m score = Some (m, score, GROUP_NUMBER + 1)"
| "match_group_loop s tods empty_match i (j # js) m score =
     (if pscore (zc_tmp s tods ! j) = 0 then match_group_loop s tods empty_match i js m score
      else do {
        p \<leftarrow> at_pkg (zc_pkg s tods) (i + j);
        if empty_match
        then if pscore p \<le> 1 then match_group_loop s tods empty_match i js (m + 1) 1
             else match_group_loop s tods empty_match i js m score
        else if plen p = 0 then match_group_loop s tods empty_match i js m score
        else if plen p = plen (zc_tmp s tods ! j)
        then match_group_loop s tods empty_match i js (m + 1) (if score > uint (pscore p) then uint (pscore p) else score)
        else Some (m, score, j) })"

text \<open>The outer loop: \<open>max_match\<close>, \<open>match_group\<close>, \<open>match_end\<close> and \<open>match_score\<close>.\<close>

type_synonym best_match = "int \<times> int \<times> int \<times> int"

fun best_group_loop :: "wifi \<Rightarrow> bool \<Rightarrow> bool \<Rightarrow> nat list \<Rightarrow> best_match \<Rightarrow> best_match option" where
  "best_group_loop s tods empty_match [] b = Some b"
| "best_group_loop s tods empty_match (i # is) (max_match, match_group, match_end, match_score) = do {
     (m, score, j) \<leftarrow> match_group_loop s tods empty_match i [1..<GROUP_NUMBER + 1] 0 (uint score_max);
     best_group_loop s tods empty_match is
       (if m > max_match then (m, int i, int j - 1, score) else (max_match, match_group, match_end, match_score)) }"

definition group_starts :: "wifi \<Rightarrow> nat list" where
  "group_starts s = map (\<lambda>k. k * GROUP_NUMBER) [0..<nat (zconfig_get_data_len s) div GROUP_NUMBER + 1]"

text \<open>Where the packages belong: \<open>final_pos\<close>, \<open>match_end\<close> and \<open>match_score\<close>, or None for \<open>goto clear\<close>.\<close>

definition sync_decision :: "wifi \<Rightarrow> bool \<Rightarrow> int \<Rightarrow> best_match \<Rightarrow> (int \<times> int \<times> int) option" where
  "sync_decision s empty_match group_pos b =
     (let (max_match, match_group, match_end, match_score) = b;
          guess_pos = (if group_pos = -1 then -1
                       else if group_pos - int GROUP_NUMBER < 0 then zconfig_get_data_len s div int GROUP_NUMBER * int GROUP_NUMBER
                       else group_pos - int GROUP_NUMBER)
      in if group_pos \<noteq> -1 \<and> (max_match = 0 \<or> empty_match) then Some (guess_pos, match_end, 2)
         else if max_match > 0
         then if max_match > int GROUP_NUMBER then None
              else let match_score = (if max_match = 1 then min match_score 10
                                      else if max_match = 2 then min match_score 20 else min match_score 30)
              in if guess_pos \<noteq> -1
                 then if guess_pos = match_group then Some (match_group, int GROUP_NUMBER, match_score + 2)
                      else Some (if max_match \<ge> 2 \<and> \<not> empty_match then match_group else guess_pos, match_end, match_score)
                 else Some (match_group, match_end, match_score)
         else None)"

text \<open>The packages set aside, from number \<open>j\<close> on, are put in place, from position \<open>i\<close> on.\<close>

fun replace_loop :: "bool \<Rightarrow> int \<Rightarrow> nat list \<Rightarrow> nat \<Rightarrow> wifi \<Rightarrow> wifi" where
  "replace_loop tods match_score [] i s = s"
| "replace_loop tods match_score (j # js) i s =
     (if MAX_PKG_NUMS \<le> i then s
      else let p = zc_pkg s tods ! i; t = zc_tmp s tods ! j
      in if uint (pscore p) < match_score \<and> pscore t \<noteq> 0
         then let sc = (if match_score > uint (pscore t) - 1 then match_score - (uint (pscore t) - 1) else match_score);
                  s = set_pkg tods i \<lparr>plen = plen t, pscore = of_int sc\<rparr> s;
                  s = set_side tods (\<lambda>d. d\<lparr>zc_replace := 1,
                        zc_max_pos := (if uint (zc_max_pos d) < int i then of_nat i else zc_max_pos d)\<rparr>) s
              in replace_loop tods match_score js (Suc i) s
         else replace_loop tods match_score js (Suc i) s)"

definition try_to_sync_pos :: "bool \<Rightarrow> int \<Rightarrow> wifi \<Rightarrow> wifi option" where
  "try_to_sync_pos tods group_pos s = do {
     b \<leftarrow> best_group_loop s tods False (group_starts s) (0, -1, int GROUP_NUMBER, 0);
     (empty_match, b) \<leftarrow>
       (if fst b = 0 then do { b \<leftarrow> best_group_loop s tods True (group_starts s) b; Some (True, b) } else Some (False, b));
     let s = (case sync_decision s empty_match group_pos b of
        None \<Rightarrow> s
      | Some (final_pos, match_end, match_score) \<Rightarrow>
          if final_pos \<noteq> -1
          then replace_loop tods match_score [1..<min (nat match_end) GROUP_NUMBER + 1] (nat (final_pos + 1)) s
          else s);
     Some (set_side tods (zc_pos_unsync_update (\<lambda>_. 0))
       (s\<lparr>zc_tmp := (zc_tmp s)(tods := replicate (GROUP_NUMBER + 1) zero_package)\<rparr>)) }"

text \<open>The other places of the same number in their group, from \<open>i\<close> on: whether they hold the old and the new value.\<close>

definition try_to_replace_same_pos :: "bool \<Rightarrow> nat \<Rightarrow> u16 \<Rightarrow> wifi \<Rightarrow> (bool \<times> wifi) option" where
  "try_to_replace_same_pos tods pos new_len s =
     (let places = filter (\<lambda>i. i mod GROUP_NUMBER = pos mod GROUP_NUMBER) [pos mod GROUP_NUMBER..<nat (zconfig_get_data_len s) + 1]
      in if \<not> list_all (\<lambda>i. i < length (zc_pkg s tods)) places then None
         else let old_match = list_ex (\<lambda>i. i \<noteq> pos \<and> pkg_len s tods i = pkg_len s tods pos) places;
                  new_match = list_ex (\<lambda>i. pkg_len s tods i = new_len) places
              in if (old_match \<and> \<not> new_match) \<or> \<not> tods then Some (True, set_pkg_len tods pos new_len s)
                 else Some (False, s))"

subsection \<open>Receiving\<close>

text \<open>The label \<open>update_sn\<close>: the result, the sequence number, the time and the place are kept.\<close>

definition update_sn :: "pkg_type \<Rightarrow> bool \<Rightarrow> u16 \<Rightarrow> u32 \<Rightarrow> u16 \<Rightarrow> u16 \<Rightarrow> wifi \<Rightarrow> pkg_type \<times> wifi" where
  "update_sn pkg_type tods sn timestamp index len s =
     (pkg_type, set_side tods (\<lambda>d. d\<lparr>zc_prev_sn := sn, zc_timestamp := timestamp, zc_last_index := ucast index, zc_last_len := len\<rparr>) s)"

text \<open>The label \<open>is_recv_completed\<close>; \<open>Inl\<close> is a return, \<open>Inr\<close> goes on to \<open>update_sn\<close>.\<close>

definition check_completed :: "wifi_env \<Rightarrow> parser_res \<Rightarrow> wifi \<Rightarrow> (pkg_type option \<times> wifi) option" where
  "check_completed E res s = do {
     let tods = res_tods res;
     let s = set_side tods (\<lambda>d. d\<lparr>zc_max_pos := (if zc_max_pos d < zc_cur_pos d then zc_cur_pos d else zc_max_pos d)\<rparr>) s;
     if zc_replace (zc_data s tods) = 0 then Some (None, s)
     else do {
       (done, s) \<leftarrow> zconfig_recv_completed E tods s;
       if \<not> done then Some (None, s)
       else do {
         let s = set_side tods (zc_replace_update (\<lambda>_. 0)) s;
         let s = s\<lparr>zc_bssid := res_bssid res\<rparr>;
         (r, s) \<leftarrow> zconfig_get_ssid_passwd E tods s;
         if r = 0
         then do { s \<leftarrow> zconfig_set_state STATE_RCV_DONE tods (res_channel res) s; Some (Some PKG_END, s) }
         else Some (None, s) } } }"

text \<open>The label \<open>pos_unsync\<close>, out of step: the package is set aside.\<close>

definition set_aside :: "bool \<Rightarrow> u16 \<Rightarrow> u16 \<Rightarrow> u16 \<Rightarrow> wifi \<Rightarrow> wifi" where
  "set_aside tods index len sn s =
     (let d = zc_data s tods;
          sc = (if zc_pos_unsync d = 1 then 1 else ucast (sn - zc_prev_sn d));
          s = set_tmp tods (unat index) \<lparr>plen = len, pscore = sc\<rparr> s
      in set_side tods (zc_pos_unsync_update (\<lambda>n. n + 1)) s)"

text \<open>
  The body of the loop over the two directions, for the side \<open>t\<close>.  The truth value says that the frame
  contradicts a better one and has to be set aside (\<open>goto pos_unsync\<close>).
\<close>

definition store_package :: "bool \<Rightarrow> bool \<Rightarrow> nat \<Rightarrow> byte \<Rightarrow> u16 \<Rightarrow> wifi \<Rightarrow> (bool \<times> wifi) option" where
  "store_package tods t pos score len s =
     (let equal = (pkg_len s t pos = len); now = pkg_score s t pos
      in if score > now
         then let s = set_pkg_score t pos score s
              in if equal then Some (False, s)
                 else Some (False, set_pkg_len t pos len (set_side t (zc_replace_update (\<lambda>_. 1)) s))
         else if score = now
         then if equal then Some (False, set_pkg_score t pos (now + 1) s)
              else do {
                (replace, s) \<leftarrow> try_to_replace_same_pos t pos len s;
                if replace then Some (False, s)
                else Some (False, set_pkg_score t pos (pkg_score s t pos div 2) s) }
         else if t = tods
         then if \<not> equal
              then if zc_pos_unsync (zc_data s t) \<noteq> 0 then Some (False, s)
                   else Some (True, set_side t (zc_pos_unsync_update (\<lambda>_. 1)) s)
              else let up = zc_score_uplimit (zc_data s t)
                   in if up \<ge> score_mid \<and> uint now - uint score < 10
                      then Some (False, set_side t (zc_score_uplimit_update (\<lambda>_. word_of_nat ((unat up + unat now) div 2))) s)
                      else Some (False, s)
         else Some (False, s))"

text \<open>A data frame in step, from the computation of its score on.\<close>

definition accept_data :: "wifi_env \<Rightarrow> parser_res \<Rightarrow> u32 \<Rightarrow> u16 \<Rightarrow> u16 \<Rightarrow> u16 \<Rightarrow> wifi \<Rightarrow> (pkg_type \<times> wifi) option" where
  "accept_data E res timestamp index pos len s = do {
     let tods = res_tods res;
     let sn = br_sn res;
     let d = zc_data s tods;
     let score = get_data_score s (zc_group_sn d) sn (ucast pos) (zc_cur_pos d) tods;
     if score = score_min then Some (update_sn PKG_DATA_FRAME tods sn timestamp index len s)
     else do {
       let s = set_side tods (\<lambda>d. d\<lparr>zc_score_uplimit := (if zc_score_uplimit d > score then score else zc_score_uplimit d),
             zc_group_sn := sn\<rparr>) s;
       if pos = 0 then Some (PKG_INVALID, s)
       else do {
         let s = set_side tods (zc_cur_pos_update (\<lambda>_. ucast pos)) s;
         (aside, s) \<leftarrow> store_package tods False (unat pos) score len s;
         (aside, s) \<leftarrow> (if aside then Some (True, s) else store_package tods True (unat pos) score len s);
         if aside then Some (update_sn PKG_DATA_FRAME tods sn timestamp index len (set_aside tods index len sn s))
         else do {
           (r, s) \<leftarrow> check_completed E res s;
           (case r of Some r \<Rightarrow> Some (r, s) | None \<Rightarrow> Some (update_sn PKG_DATA_FRAME tods sn timestamp index len s)) } } } }"

definition recv_data :: "wifi_env \<Rightarrow> parser_res \<Rightarrow> u32 \<Rightarrow> bool \<Rightarrow> u16 \<Rightarrow> wifi \<Rightarrow> (pkg_type \<times> wifi) option" where
  "recv_data E res timestamp timeout len s = do {
     let tods = res_tods res;
     let d = zc_data s tods;
     let index = (ucast (get_data_index len) :: u16);
     let pos = ucast (zc_group_pos d) + index;
     if unat index > GROUP_NUMBER \<or> MAX_PKG_NUMS \<le> unat pos then Some (PKG_INVALID, s)
     else do {
       s \<leftarrow> (if index < ucast (zc_last_index d) \<or> (index = ucast (zc_last_index d) \<and> len \<noteq> zc_last_len d) \<or> timeout
            then do {
              s \<leftarrow> (if zc_pos_unsync d \<noteq> 0 then try_to_sync_pos tods (-1) s else Some s);
              Some (set_side tods (zc_pos_unsync_update (\<lambda>_. 1)) s) }
            else Some s);
       if zc_pos_unsync (zc_data s tods) \<noteq> 0
       then Some (update_sn PKG_DATA_FRAME tods (br_sn res) timestamp index len (set_aside tods index len (br_sn res) s))
       else accept_data E res timestamp index pos len s } }"

definition recv_group :: "wifi_env \<Rightarrow> parser_res \<Rightarrow> u32 \<Rightarrow> u16 \<Rightarrow> wifi \<Rightarrow> (pkg_type \<times> wifi) option" where
  "recv_group E res timestamp len s = do {
     let tods = res_tods res;
     let group = get_group_index len;
     s \<leftarrow> (if zc_pos_unsync (zc_data s tods) \<noteq> 0 then try_to_sync_pos tods (uint group) s else Some s);
     let s = set_side tods (\<lambda>d. d\<lparr>zc_cur_pos := group, zc_group_pos := group, zc_group_sn := br_sn res, zc_score_uplimit := score_max\<rparr>) s;
     s \<leftarrow> zconfig_set_state STATE_CHN_LOCKED_BY_BR tods (res_channel res) s;
     (r, s) \<leftarrow> check_completed E res s;
     (case r of Some r \<Rightarrow> Some (r, s) | None \<Rightarrow> Some (update_sn PKG_START_FRAME tods (br_sn res) timestamp 0 len s)) }"

text \<open>A frame in the state \<open>STATE_CHN_LOCKED_BY_BR\<close>.\<close>

definition recv_locked :: "wifi_env \<Rightarrow> parser_res \<Rightarrow> u32 \<Rightarrow> wifi \<Rightarrow> (pkg_type \<times> wifi) option" where
  "recv_locked E res timestamp s = do {
     let tods = res_tods res;
     let d = zc_data s tods;
     let len = br_data_len res;
     if res_src res \<noteq> zc_src_mac s \<or> res_dst res \<noteq> br_mac \<or> res_bssid res \<noteq> zc_bssid s then Some (PKG_INVALID, s)
     else do {
       let timeout = (timestamp - zc_timestamp d > time_interval);
       let ret = sn_compare (br_sn res) (zc_prev_sn d);
       let s = (if ret \<le> 0 then set_side tods (zc_timestamp_update (\<lambda>_. timestamp)) s else s);
       if ret = 0 then Some (PKG_INVALID, s)
       else if ret < 0 \<and> \<not> timeout then Some (update_sn PKG_INVALID tods (br_sn res) timestamp 0 len s)
       else if len \<le> ucast (zc_frame_offset d) then Some (PKG_INVALID, s)
       else let len = len - ucast (zc_frame_offset d)
       in if is_data_frame len then recv_data E res timestamp timeout len s
          else if is_start_frame len \<or> is_group_frame len then recv_group E res timestamp len s
          else Some (PKG_INVALID, s) } }"

definition awss_recv_callback_smartconfig :: "wifi_env \<Rightarrow> parser_res \<Rightarrow> wifi \<Rightarrow> (pkg_type \<times> wifi) option" where
  "awss_recv_callback_smartconfig E res s = do {
     let (timestamp, s) = os_get_time_ms E s;
     let tods = res_tods res;
     let sn = br_sn res;
     let len = br_data_len res;
     let state = zc_state (zc_data s tods);
     if state = STATE_CHN_LOCKED_BY_P2P \<or> state = STATE_CHN_SCANNING
     then do {
       (hint, s) \<leftarrow> is_hint_frame (br_encry_type res) (uint len) (res_bssid res) (res_src res) (res_channel res) tods sn s;
       if hint
       then do {
         s \<leftarrow> zconfig_set_state STATE_CHN_LOCKED_BY_BR tods (res_channel res) s;
         Some (update_sn PKG_START_FRAME tods sn timestamp 0 len s) }
       else if zc_android_src s = res_src res
       then
         (case zconfig_get_apinfo s (res_bssid res) of
            None \<Rightarrow> Some (update_sn PKG_INVALID tods sn timestamp 0 len s)
          | Some ap \<Rightarrow> do {
              s \<leftarrow> (if ap_ssid ap ! 0 \<noteq> 0 \<and> ap_ssid ap ! 0 \<noteq> 0xFF
                   then do { name \<leftarrow> strncpy (zc_android_ssid s) (ap_ssid ap) (ZC_MAX_SSID_LEN - 1); Some (s\<lparr>zc_android_ssid := name\<rparr>) }
                   else Some s);
              Some (update_sn PKG_INVALID tods sn timestamp 0 len (s\<lparr>zc_android_bssid := res_bssid res\<rparr>)) })
       else Some (update_sn PKG_INVALID tods sn timestamp 0 len s) }
     else if state = STATE_CHN_LOCKED_BY_BR then recv_locked E res timestamp s
     else Some (update_sn PKG_INVALID tods sn timestamp 0 len s) }"

end
