(* ===== verification/WifiDelivery.thy ===== *)
theory WifiDelivery
  imports SmartConfig
begin

text \<open>
  The broadcast protocol end to end: what a phone sends, and that the receiver of theory \<open>SmartConfig\<close> gets the name of the network and
  the password from it.
\<close>

subsection \<open>What is sent\<close>

text \<open>A payload byte at position \<open>p\<close>, counted from 1, is the length of a frame.\<close>

definition frame_len :: "nat \<Rightarrow> byte \<Rightarrow> u16" where
  "frame_len p v = 0x100 + 0x80 * of_nat ((p - 1) mod 8) OR ucast v"

text \<open>Positions whose payload cannot be mistaken for a start or group frame.\<close>

definition clear_payload :: "nat \<Rightarrow> byte \<Rightarrow> bool" where
  "clear_payload p v \<longleftrightarrow> v < 0x80 \<and> ((p - 1) mod 8 = 7 \<longrightarrow> v \<noteq> 0x60) \<and> ((p - 1) mod 8 = 5 \<longrightarrow> v \<le> 0x60 \<or> 0x70 < v)"

lemma unat_frame_len:
  assumes "v < 0x80"
  shows "unat (frame_len p v) = 256 + 128 * ((p - 1) mod 8) + unat v"
proof -
  let ?i = "(p - 1) mod 8"
  have i: "?i < 8" by simp
  have v: "unat v < 128" using assms by (simp add: word_less_nat_alt)
  have "(0x100 + 0x80 * of_nat ?i :: u16) = push_bit 7 (of_nat (2 + ?i))" by (simp add: push_bit_eq_mult)
  then have "frame_len p v = push_bit 7 (of_nat (2 + ?i)) OR ucast v" by (simp add: frame_len_def)
  also have "\<dots> = push_bit 7 (of_nat (2 + ?i)) + ucast v"
  proof (rule disjunctive_add [symmetric])
    fix n
    show "\<not> bit (push_bit 7 (of_nat (2 + ?i)) :: u16) n \<or> \<not> bit (ucast v :: u16) n"
      using word_small_bit [of v 7 n] assms by (auto simp: bit_simps word_less_def)
  qed
  also have "\<dots> = of_nat (256 + 128 * ?i + unat v)" by (simp add: push_bit_eq_mult)
  finally have "unat (frame_len p v) = unat (of_nat (256 + 128 * ?i + unat v) :: u16)" by (rule arg_cong)
  then show ?thesis using i v by (simp only: unsigned_of_nat) (simp add: take_bit_nat_eq_self)
qed

lemma u16_bits: "unat (l AND 0x7F :: u16) = unat l mod 128" "unat (drop_bit 7 l AND 0xF :: u16) = unat l div 128 mod 16"
proof -
  have "l AND 0x7F = take_bit 7 l" "drop_bit 7 l AND 0xF = take_bit 4 (drop_bit 7 l)"
    by (simp_all add: take_bit_eq_mask mask_eq_exp_minus_1)
  then show "unat (l AND 0x7F) = unat l mod 128" "unat (drop_bit 7 l AND 0xF) = unat l div 128 mod 16"
    by (simp_all add: unsigned_take_bit_eq take_bit_nat_def unat_drop_bit_eq drop_bit_nat_def)
qed

lemma data_frame:
  assumes "clear_payload p v"
  shows "is_data_frame (frame_len p v)" and "get_data_index (frame_len p v) = of_nat ((p - 1) mod 8) + 1"
    and "payload_of (frame_len p v) = v" and "\<not> is_start_frame (frame_len p v)" and "\<not> is_group_frame (frame_len p v)"
proof -
  let ?i = "(p - 1) mod 8" and ?l = "frame_len p v"
  have i: "?i < 8" by simp
  have v: "unat v < 128" "?i = 7 \<longrightarrow> unat v \<noteq> 96" "?i = 5 \<longrightarrow> unat v \<le> 96 \<or> 112 < unat v"
    using assms by (auto simp: clear_payload_def word_less_nat_alt word_le_nat_alt word_unat_eq_iff)
  have l: "unat ?l = 256 + 128 * ?i + unat v"
    using assms by (intro unat_frame_len) (simp add: clear_payload_def)
  have d: "unat ?l div 128 = 2 + ?i" "unat ?l mod 128 = unat v"
  proof -
    have e: "unat ?l = unat v + 128 * (2 + ?i)" unfolding l by simp
    show "unat ?l div 128 = 2 + ?i" unfolding e using v(1) by (subst div_mult_self2) simp_all
    show "unat ?l mod 128 = unat v" unfolding e using v(1) by (subst mod_mult_self2) simp
  qed
  show s: "\<not> is_start_frame ?l"
  proof
    assume "is_start_frame ?l"
    then have eq: "unat ?l = 1248" by (simp add: is_start_frame_def START_FRAME_def)
    then have "?i = 7" using l v(1) by linarith
    then show False using l v(2) eq by simp
  qed
  show g: "\<not> is_group_frame ?l"
  proof
    assume "is_group_frame ?l"
    then have "992 < unat ?l \<and> unat ?l \<le> 1008"
      by (simp add: is_group_frame_def GROUP_FRAME_def GROUP_FRAME_END_def word_less_nat_alt word_le_nat_alt)
    then have b: "992 < 256 + 128 * ?i + unat v" "256 + 128 * ?i + unat v \<le> 1008" unfolding l by simp_all
    then have "?i = 5" using v(1) by linarith
    then show False using v(3) b by simp
  qed
  have "unat (drop_bit 7 ?l AND 0xF) = 2 + ?i" unfolding u16_bits d using i by simp
  then have x: "ucast (drop_bit 7 ?l AND 0xF) = (of_nat (2 + ?i) :: byte)" by (metis of_nat_unat)
  have "unat (of_nat (2 + ?i) :: byte) = 2 + ?i" using i by (simp only: unsigned_of_nat) (simp add: take_bit_nat_eq_self)
  then show "is_data_frame ?l"
    using s g i by (simp add: is_data_frame_def PAYLOAD_BITS_CNT_def x ZC_GRP_PKT_IDX_START_def ZC_GRP_PKT_IDX_END_def word_le_nat_alt Let_def del: of_nat_add)
  show "get_data_index ?l = of_nat ?i + 1" by (simp add: get_data_index_def PAYLOAD_BITS_CNT_def x ZC_GRP_PKT_IDX_START_def)
  have "unat (?l AND 0x7F) = unat v" unfolding u16_bits d ..
  then have "ucast (?l AND 0x7F) = (of_nat (unat v) :: byte)" by (metis of_nat_unat)
  then show "payload_of ?l = v" by (simp add: PAYLOAD_BITS_MASK_def)
qed

text \<open>A phone that broadcasts from one place: its address, the access point's and the direction of its frames.\<close>

record sender =
  tx_src :: "byte list"
  tx_bssid :: "byte list"
  tx_tods :: bool
  tx_channel :: byte
  tx_encry :: byte

definition tx_offset :: "sender \<Rightarrow> byte" where "tx_offset x = zconfig_fixed_offset ! unat (tx_encry x)"

definition frame :: "sender \<Rightarrow> u16 \<Rightarrow> u16 \<Rightarrow> parser_res" where
  "frame x sn l = \<lparr>res_src = tx_src x, res_dst = br_mac, res_bssid = tx_bssid x, res_tods = tx_tods x, res_channel = tx_channel x,
     br_encry_type = tx_encry x, br_data_len = l + ucast (tx_offset x), br_sn = sn\<rparr>"

lemma frame_simps [simp]: "res_src (frame x sn l) = tx_src x" "res_dst (frame x sn l) = br_mac" "res_bssid (frame x sn l) = tx_bssid x"
  "res_tods (frame x sn l) = tx_tods x" "res_channel (frame x sn l) = tx_channel x" "br_encry_type (frame x sn l) = tx_encry x"
  "br_data_len (frame x sn l) = l + ucast (tx_offset x)" "br_sn (frame x sn l) = sn"
  by (simp_all add: frame_def)

definition next_sn :: "u16 \<Rightarrow> u16" where "next_sn sn = (sn + 1) AND 0xfff"

subsection \<open>The receiver in step\<close>

text \<open>The packages after the first \<open>k\<close> bytes of the message.\<close>

definition stored :: "byte list \<Rightarrow> nat \<Rightarrow> package list" where
  "stored m k = zero_package # map (\<lambda>i. \<lparr>plen = frame_len (Suc i) (m ! i), pscore = 100\<rparr>) [0..<k] @ replicate (127 - k) zero_package"

lemma length_stored [simp]: "k \<le> 127 \<Longrightarrow> length (stored m k) = 128"
  by (simp add: stored_def)

lemma stored_nth: "1 \<le> i \<Longrightarrow> i \<le> k \<Longrightarrow> stored m k ! i = \<lparr>plen = frame_len i (m ! (i - 1)), pscore = 100\<rparr>"
  by (cases i) (simp_all add: stored_def nth_append)

lemma stored_next: "k < i \<Longrightarrow> i < 128 \<Longrightarrow> stored m k ! i = zero_package"
  by (cases i) (simp_all add: stored_def nth_append)

lemma stored_Suc: "k < 127 \<Longrightarrow> (stored m k)[Suc k := \<lparr>plen = frame_len (Suc k) (m ! k), pscore = 100\<rparr>] = stored m (Suc k)"
proof -
  assume k: "k < 127"
  then have "127 - k = Suc (127 - Suc k)" by simp
  then have "replicate (127 - k) zero_package = zero_package # replicate (127 - Suc k) zero_package" by (simp only: replicate_Suc)
  then show ?thesis using k by (simp add: stored_def list_update_append)
qed

definition unknown_ap :: "wifi \<Rightarrow> byte list \<Rightarrow> bool" where
  "unknown_ap s bssid \<longleftrightarrow> List.find (\<lambda>ap. ap_mac ap = bssid) (drop 1 (take (unat (zconfig_aplist_num s)) (zconfig_aplist s))) = None"

lemma unknown_apinfo: "unknown_ap s bssid \<Longrightarrow> zconfig_get_apinfo s bssid = None"
  by (simp add: unknown_ap_def zconfig_get_apinfo_def listed_def)

text \<open>In step after \<open>k\<close> bytes, the group at \<open>g\<close> being received and \<open>sn\<close> the number of the last frame.\<close>

definition ready :: "sender \<Rightarrow> byte list \<Rightarrow> nat \<Rightarrow> nat \<Rightarrow> u16 \<Rightarrow> wifi \<Rightarrow> bool" where
  "ready x m g k sn s \<longleftrightarrow>
     (let d = zc_data s (tx_tods x)
      in zc_state d = STATE_CHN_LOCKED_BY_BR \<and> zc_frame_offset d = tx_offset x \<and> zc_group_pos d = of_nat g
         \<and> zc_cur_pos d = of_nat k \<and> zc_max_pos d \<le> of_nat k \<and> zc_score_uplimit d = score_max \<and> zc_pos_unsync d = 0
         \<and> zc_group_sn d = sn \<and> (0 < k \<longrightarrow> zc_replace d \<noteq> 0))
     \<and> zc_src_mac s = tx_src x \<and> zc_bssid s = tx_bssid x \<and> zc_ssid s = replicate ZC_MAX_SSID_LEN 0 \<and> fixed_delta s \<noteq> 0
     \<and> zc_pkg s = (\<lambda>_. stored m k) \<and> \<not> zconfig_finished s \<and> unknown_ap s (tx_bssid x)"

definition caught :: "wifi_env \<Rightarrow> sender \<Rightarrow> byte list \<Rightarrow> nat \<Rightarrow> nat \<Rightarrow> u16 \<Rightarrow> wifi \<Rightarrow> bool" where
  "caught E x m g k sn s \<longleftrightarrow> ready x m g k sn s
     \<and> (let d = zc_data s (tx_tods x)
        in zc_prev_sn d = sn \<and> zc_last_index d = of_nat (k - g) \<and> zc_max_pos d = of_nat k
           \<and> zc_timestamp d = ucast (uptime_ms E (n_uptime s - 1)) - fixed_delta s) \<and> 0 < n_uptime s"

text \<open>Frames follow one another within 300 ms.\<close>

definition prompt_frames :: "wifi_env \<Rightarrow> bool" where
  "prompt_frames E \<longleftrightarrow> (\<forall>n. (ucast (uptime_ms E (Suc n)) - ucast (uptime_ms E n) :: u32) \<le> 300)"

lemma time_read:
  assumes "fixed_delta s \<noteq> 0"
  shows "os_get_time_ms E s = (ucast (uptime_ms E (n_uptime s)) - fixed_delta s, s\<lparr>n_uptime := Suc (n_uptime s)\<rparr>)"
  using assms by (simp add: os_get_time_ms_def HAL_UptimeMs_def Let_def)

lemma next_sn_newer:
  assumes "sn < 0x1000"
  shows "sn_minus (next_sn sn) sn = 1" and "sn_compare (next_sn sn) sn = 1" and "next_sn sn < 0x1000"
proof -
  have m: "(w :: u16) AND 0xfff = take_bit 12 w" for w by (simp add: take_bit_eq_mask mask_eq_exp_minus_1)
  have nx: "next_sn sn = (if sn = 0xfff then 0 else sn + 1)"
  proof (cases "sn = 0xfff")
    case False
    then have "unat (sn + 1) < 2 ^ 12" using assms by (simp add: word_less_nat_alt unat_word_ariths word_unat_eq_iff)
    then have "take_bit 12 (sn + 1) = sn + 1" by (simp add: word_unat_eq_iff unsigned_take_bit_eq take_bit_nat_def)
    then show ?thesis using False by (simp add: next_sn_def m)
  qed (simp add: next_sn_def)
  show r: "sn_minus (next_sn sn) sn = 1" by (auto simp: sn_minus_def nx)
  then show "sn_compare (next_sn sn) sn = 1" by (simp add: sn_compare_def)
  have "unat (take_bit 12 (sn + 1)) < 4096" by (simp add: unsigned_take_bit_eq take_bit_nat_def)
  then show "next_sn sn < 0x1000" by (simp add: next_sn_def m word_less_nat_alt)
qed

lemma readyD:
  assumes "ready x m g k sn s"
  shows "zc_state (zc_data s (tx_tods x)) = STATE_CHN_LOCKED_BY_BR" "zc_frame_offset (zc_data s (tx_tods x)) = tx_offset x"
    "zc_group_pos (zc_data s (tx_tods x)) = of_nat g" "zc_cur_pos (zc_data s (tx_tods x)) = of_nat k"
    "zc_max_pos (zc_data s (tx_tods x)) \<le> of_nat k" "zc_score_uplimit (zc_data s (tx_tods x)) = score_max"
    "zc_pos_unsync (zc_data s (tx_tods x)) = 0" "zc_group_sn (zc_data s (tx_tods x)) = sn"
    "0 < k \<Longrightarrow> zc_replace (zc_data s (tx_tods x)) \<noteq> 0" "zc_src_mac s = tx_src x" "zc_bssid s = tx_bssid x"
    "zc_ssid s = replicate ZC_MAX_SSID_LEN 0" "fixed_delta s \<noteq> 0" "zc_pkg s = (\<lambda>_. stored m k)" "\<not> zconfig_finished s"
    "unknown_ap s (tx_bssid x)"
  using assms by (simp_all add: ready_def Let_def)

text \<open>A message: its length comes first, and no byte is mistaken for a control frame.\<close>

definition sendable :: "byte list \<Rightarrow> bool" where
  "sendable m \<longleftrightarrow> 4 < length m \<and> length m \<le> 127 \<and> unat (m ! 0) = length m \<and> (\<forall>i<length m. clear_payload (Suc i) (m ! i))"

lemma stored_payload:
  assumes "sendable m" and "i < k" and "k \<le> length m"
  shows "payload_of (plen (stored m k ! Suc i)) = m ! i" and "pscore (stored m k ! Suc i) = 100"
    and "plen (stored m k ! Suc i) = frame_len (Suc i) (m ! i)"
proof -
  have "clear_payload (Suc i) (m ! i)" using assms by (simp add: sendable_def)
  moreover have e: "stored m k ! Suc i = \<lparr>plen = frame_len (Suc i) (m ! i), pscore = 100\<rparr>" using assms(2) stored_nth [of "Suc i" k m] by simp
  ultimately show "payload_of (plen (stored m k ! Suc i)) = m ! i" using data_frame(3) by simp
  show "pscore (stored m k ! Suc i) = 100" "plen (stored m k ! Suc i) = frame_len (Suc i) (m ! i)" using e by simp_all
qed

lemma no_auto_complete:
  "zc_ssid s = replicate ZC_MAX_SSID_LEN 0 \<Longrightarrow> ssid_auto_complete E tods flag ssid_len s = Some (Some ssid_len, s)"
  by (simp add: ssid_auto_complete_def ZC_MAX_SSID_LEN_def)

lemma recv_incomplete:
  assumes r: "ready x m g k sn s" and m: "sendable m" and k: "1 \<le> k" "k < length m"
    and max: "zc_max_pos (zc_data s (tx_tods x)) = of_nat k"
  shows "zconfig_recv_completed E (tx_tods x) s = Some (False, s)"
proof -
  note D = readyD [OF r]
  have kk: "k < 128" using m k by (simp add: sendable_def)
  have p: "payload_of (plen (stored m k ! Suc 0)) = m ! 0" "pscore (stored m k ! Suc 0) = 100"
    using stored_payload [OF m, of 0 k] k by simp_all
  have n: "unat (m ! 0) = length m" using m by (simp add: sendable_def)
  then have "m ! 0 \<noteq> 0" using k by auto
  moreover have "(of_nat k :: byte) < m ! 0" using n k kk by (simp add: word_less_nat_alt unsigned_of_nat take_bit_nat_eq_self)
  ultimately show ?thesis
    using max by (simp add: zconfig_recv_completed_def pkg_len_def pkg_score_def D(14) p Let_def score_min_def
        no_auto_complete [OF D(12)] split: prod.split)
qed

lemma recv_complete:
  assumes d: "zc_pkg s = (\<lambda>_. stored m (length m))" "zc_ssid s = replicate ZC_MAX_SSID_LEN 0" and m: "sendable m"
    and max: "zc_max_pos (zc_data s tods) = of_nat (length m)"
    and lens: "if m ! 1 AND SSID_EXIST_MASK \<noteq> 0 then length m = unat (m ! 2) + unat (m ! 3) + 6 else length m = unat (m ! 2) + 5"
  shows "zconfig_recv_completed E tods s = Some (True, s)"
proof -
  have p: "payload_of (plen (stored m (length m) ! Suc i)) = m ! i" "pscore (stored m (length m) ! Suc i) = 100" if "i < length m" for i
    using stored_payload [OF m that] by simp_all
  have n: "unat (m ! 0) = length m" "4 < length m" "length m \<le> 127" using m by (simp_all add: sendable_def)
  then have ne: "m ! 0 \<noteq> 0" by auto
  have mx: "\<not> (of_nat (length m) :: byte) < m ! 0" using n by (simp add: word_less_nat_alt unsigned_of_nat take_bit_nat_eq_self)
  have all: "list_all (\<lambda>i. score_min < pscore (stored m (length m) ! i)) [Suc 0..<Suc (length m)]"
  proof (unfold list_all_iff, intro ballI)
    fix i assume "i \<in> set [Suc 0..<Suc (length m)]"
    then have "0 < i" "i < Suc (length m)" by (simp_all only: set_upt atLeastLessThan_iff Suc_le_eq)
    then obtain j where "i = Suc j" "j < length m" by (cases i) auto
    then show "score_min < pscore (stored m (length m) ! i)" using p(2) by (simp add: score_min_def)
  qed
  have m0: "m \<noteq> []" using n(2) by auto
  have pl: "payload_of (plen (stored m (length m) ! Suc 0)) = m ! 0" "payload_of (plen (stored m (length m) ! 2)) = m ! 1"
    "payload_of (plen (stored m (length m) ! 3)) = m ! 2" "payload_of (plen (stored m (length m) ! 4)) = m ! 3"
    "pscore (stored m (length m) ! Suc 0) = 100"
    using p(1) [of 0] p(1) [of 1] p(1) [of 2] p(1) [of 3] p(2) [of 0] n(2) m0 by (simp_all add: eval_nat_numeral)
  have "zconfig_recv_completed E tods s = Some (if m ! 1 AND SSID_EXIST_MASK \<noteq> 0
      then unat (m ! 0) = unat (m ! 2) + unat (m ! 3) + 4 + 2 else unat (m ! 0) = unat (m ! 2) + 3 + 2, s)"
    using ne mx all max n(1)
    by (simp add: zconfig_recv_completed_def pkg_len_def pkg_score_def d(1) pl Let_def no_auto_complete [OF d(2)] score_min_def)
  then show ?thesis using lens n(1) by (auto split: if_splits)
qed

subsection \<open>Frames in step\<close>

lemma score_in_step:
  assumes "sn < 0x1000" and "k < 127" and "zc_prev_sn (zc_data s tods) = sn" and "zc_score_uplimit (zc_data s tods) = score_max"
  shows "get_data_score s sn (next_sn sn) (of_nat (Suc k)) (of_nat k) tods = score_max"
proof -
  note n = next_sn_newer [OF assms(1)]
  have i: "unat (of_nat k :: byte) = k" "unat (of_nat (Suc k) :: byte) = Suc k"
    using assms(2) by (simp_all only: unsigned_of_nat) (simp_all add: take_bit_nat_eq_self)
  then have le: "\<not> (of_nat (Suc k) :: byte) \<le> of_nat k" unfolding word_le_nat_alt by simp
  have "(ucast (of_nat (Suc k) :: byte) :: u16) = of_nat (Suc k)" "(ucast (of_nat k :: byte) :: u16) = of_nat k"
    using i by (metis of_nat_unat)+
  then have "(ucast (of_nat (Suc k) :: byte) - ucast (of_nat k :: byte) :: u16) = 1" by simp
  then show ?thesis
    using n le assms(3,4) by (simp add: get_data_score_def Let_def score_level_def score_max_def del: of_nat_Suc)
qed

lemma store_new:
  assumes "zc_pkg s t ! n = zero_package" and "n < length (zc_pkg s t)" and "0 < plen p" and "0 < pscore p"
  shows "store_package tods t n (pscore p) (plen p) s
    = Some (False, set_pkg t n p (set_side t (zc_replace_update (\<lambda>_. 1)) s))"
  using assms by (cases p) (auto simp: store_package_def pkg_len_def pkg_score_def set_pkg_score_def set_pkg_len_def set_pkg_def zero_package_def Let_def fun_upd_same)

lemma ucast_of_small: "n < 256 \<Longrightarrow> ucast (of_nat n :: u16) = (of_nat n :: byte)"
proof -
  assume "n < 256"
  then have "unat (of_nat n :: u16) = n" by (simp only: unsigned_of_nat) (simp add: take_bit_nat_eq_self)
  then show ?thesis by (metis of_nat_unat)
qed

text \<open>A frame that is accepted whatever it is: address, time and sequence number are in step.\<close>

lemma in_step:
  assumes c: "caught E x m g k sn s" and sn: "sn < 0x1000" and clock: "prompt_frames E" and l: "256 \<le> unat l" "unat l < 2048"
  shows "awss_recv_callback_smartconfig E (frame x (next_sn sn) l) s
    = (let s1 = s\<lparr>n_uptime := Suc (n_uptime s)\<rparr>; time = ucast (uptime_ms E (n_uptime s)) - fixed_delta s; res = frame x (next_sn sn) l
       in if is_data_frame l then recv_data E res time False l s1
          else if is_start_frame l \<or> is_group_frame l then recv_group E res time l s1
          else Some (PKG_INVALID, s1))"
proof -
  let ?res = "frame x (next_sn sn) l" and ?t = "tx_tods x"
  let ?time = "ucast (uptime_ms E (n_uptime s)) - fixed_delta s :: u32"
  have r: "ready x m g k sn s" and prev: "zc_prev_sn (zc_data s ?t) = sn" and up: "0 < n_uptime s"
    and time: "zc_timestamp (zc_data s ?t) = ucast (uptime_ms E (n_uptime s - 1)) - fixed_delta s"
    using c by (simp_all add: caught_def Let_def)
  note D = readyD [OF r]
  note N = next_sn_newer [OF sn]
  define s1 where "s1 = s\<lparr>n_uptime := Suc (n_uptime s)\<rparr>"
  have t1: "os_get_time_ms E s = (?time, s1)" unfolding s1_def by (rule time_read [OF D(13)])
  have "?time - zc_timestamp (zc_data s ?t) \<le> 300"
  proof -
    obtain j where j: "n_uptime s = Suc j" using up by (cases "n_uptime s") auto
    have "?time - zc_timestamp (zc_data s ?t) = ucast (uptime_ms E (Suc j)) - ucast (uptime_ms E j)" by (simp add: time j)
    then show ?thesis using clock by (simp add: prompt_frames_def)
  qed
  then have ontime: "\<not> time_interval < ?time - zc_timestamp (zc_data s ?t)" by (simp add: time_interval_def not_less)
  have off: "\<not> l + ucast (tx_offset x) \<le> ucast (zc_frame_offset (zc_data s ?t))"
  proof -
    have "unat (tx_offset x) < 256" using unsigned_less [of "tx_offset x"] by simp
    then have "unat (ucast (tx_offset x) :: u16) < 256" by (simp add: unsigned_ucast_eq take_bit_nat_eq_self)
    then have "unat (l + ucast (tx_offset x)) = unat l + unat (ucast (tx_offset x) :: u16)"
      using l by (intro unat_add_lem [THEN iffD1]) simp
    then show ?thesis unfolding D(2) word_le_nat_alt using l by simp
  qed
  have "awss_recv_callback_smartconfig E ?res s = recv_locked E ?res ?time s1"
    by (simp add: awss_recv_callback_smartconfig_def t1 s1_def D(1))
  also have "\<dots> = (if is_data_frame l then recv_data E ?res ?time False l s1
          else if is_start_frame l \<or> is_group_frame l then recv_group E ?res ?time l s1 else Some (PKG_INVALID, s1))"
    using ontime off N(2) D(2) by (simp add: recv_locked_def s1_def D(10,11) prev Let_def)
  finally show ?thesis by (simp add: s1_def Let_def)
qed

text \<open>The next data frame is taken for what it is: its place is the next one.\<close>

lemma data_in_place:
  assumes c: "caught E x m g k sn s" and m: "sendable m" and k: "k < length m" "k < g + 8" "g \<le> k" "8 dvd g"
    and sn: "sn < 0x1000" and clock: "prompt_frames E"
  shows "awss_recv_callback_smartconfig E (frame x (next_sn sn) (frame_len (Suc k) (m ! k))) s
    = accept_data E (frame x (next_sn sn) (frame_len (Suc k) (m ! k))) (ucast (uptime_ms E (n_uptime s)) - fixed_delta s)
        (of_nat (Suc k - g)) (of_nat (Suc k)) (frame_len (Suc k) (m ! k)) (s\<lparr>n_uptime := Suc (n_uptime s)\<rparr>)"
proof -
  let ?res = "frame x (next_sn sn) (frame_len (Suc k) (m ! k))" and ?t = "tx_tods x" and ?l = "frame_len (Suc k) (m ! k)"
  let ?time = "ucast (uptime_ms E (n_uptime s)) - fixed_delta s :: u32"
  have r: "ready x m g k sn s" and last: "zc_last_index (zc_data s ?t) = of_nat (k - g)"
    using c by (simp_all add: caught_def Let_def)
  note D = readyD [OF r]
  have k127: "k < 127" using k(1) m by (simp add: sendable_def)
  have clear: "clear_payload (Suc k) (m ! k)" using m k(1) by (simp add: sendable_def)
  note F = data_frame [OF clear]
  define s1 where "s1 = s\<lparr>n_uptime := Suc (n_uptime s)\<rparr>"
  have l: "unat ?l = 256 + 128 * (k mod 8) + unat (m ! k)" "unat (m ! k) < 128" "k mod 8 < 8"
    using clear unat_frame_len [of "m ! k" "Suc k"] by (auto simp: clear_payload_def word_less_nat_alt)
  then have call: "awss_recv_callback_smartconfig E ?res s = recv_data E ?res ?time False ?l s1"
    using in_step [OF c sn clock, of ?l] F(1) by (simp add: s1_def Let_def)
  have g: "k mod 8 = k - g" "g + (k - g) = k"
  proof -
    obtain q where "g = 8 * q" using k(4) by (elim dvdE)
    then show "k mod 8 = k - g" using k(2,3) by (simp add: mod_nat_eqI)
    show "g + (k - g) = k" using k(3) by simp
  qed
  define index where "index = (of_nat (Suc k - g) :: u16)"
  have small: "unat (of_nat j :: byte) = j" "unat (of_nat j :: u16) = j" if "j \<le> 128" for j
    using that by (simp_all only: unsigned_of_nat) (simp_all add: take_bit_nat_eq_self)
  have up: "(ucast (of_nat j :: byte) :: u16) = of_nat j" if "j \<le> 128" for j
    using small(1) [OF that] by (metis of_nat_unat)
  have ix: "(ucast (get_data_index ?l) :: u16) = index"
  proof -
    have "get_data_index ?l = of_nat (Suc k - g)" using F(2) g(1) k(3) by (simp add: Suc_diff_le add.commute)
    then show ?thesis using up [of "Suc k - g"] k by (simp add: index_def)
  qed
  have pos: "ucast (zc_group_pos (zc_data s ?t)) + index = (of_nat (Suc k) :: u16)"
  proof -
    have "g + (Suc k - g) = Suc k" using k(3) by simp
    then have "of_nat g + index = (of_nat (Suc k) :: u16)" unfolding index_def by (metis of_nat_add)
    then show ?thesis using up [of g] k(3) k127 by (simp add: D(3))
  qed
  have il: "unat index = Suc k - g" "(ucast (zc_last_index (zc_data s ?t)) :: u16) = of_nat (k - g)" "unat (of_nat (k - g) :: u16) = k - g"
    using small(2) [of "Suc k - g"] small(2) [of "k - g"] up [of "k - g"] k k127 by (simp_all add: index_def last)
  have data: "recv_data E ?res ?time False ?l s1 = accept_data E ?res ?time index (of_nat (Suc k)) ?l s1"
  proof -
    have c: "\<not> GROUP_NUMBER < unat index" "\<not> MAX_PKG_NUMS \<le> unat (of_nat (Suc k) :: u16)"
      using il(1) k(2,3) k127 small(2) [of "Suc k"] by (simp_all add: GROUP_NUMBER_def MAX_PKG_NUMS_def del: of_nat_Suc)
    have "\<not> index \<le> ucast (zc_last_index (zc_data s ?t))"
      using il k(3) unfolding word_le_nat_alt il(2) by simp
    then have "\<not> index < ucast (zc_last_index (zc_data s ?t))" "index \<noteq> ucast (zc_last_index (zc_data s ?t))" by auto
    then show ?thesis
      by (simp add: recv_data_def s1_def ix pos Let_def c D(7) del: of_nat_Suc)
  qed
  show ?thesis using call data by (simp add: s1_def index_def)
qed

text \<open>An accepted frame at a free place is stored for both directions, and the message is tested for completeness.\<close>

lemma data_accepted:
  assumes r: "ready x m g k sn s1" and prev: "zc_prev_sn (zc_data s1 (tx_tods x)) = sn" and max: "zc_max_pos (zc_data s1 (tx_tods x)) = of_nat k"
    and m: "sendable m" and k: "k < length m" and sn: "sn < 0x1000"
  obtains s' where "ready x m g (Suc k) (next_sn sn) s'" "zc_prev_sn (zc_data s' (tx_tods x)) = sn"
    "n_uptime s' = n_uptime s1" "fixed_delta s' = fixed_delta s1"
    "accept_data E (frame x (next_sn sn) (frame_len (Suc k) (m ! k))) time index (of_nat (Suc k)) (frame_len (Suc k) (m ! k)) s1
     = Option.bind (check_completed E (frame x (next_sn sn) (frame_len (Suc k) (m ! k))) s')
         (\<lambda>(r, s''). case r of Some r \<Rightarrow> Some (r, s'')
            | None \<Rightarrow> Some (update_sn PKG_DATA_FRAME (tx_tods x) (next_sn sn) time index (frame_len (Suc k) (m ! k)) s''))"
proof -
  let ?res = "frame x (next_sn sn) (frame_len (Suc k) (m ! k))" and ?t = "tx_tods x" and ?l = "frame_len (Suc k) (m ! k)"
  note D = readyD [OF r]
  have k127: "k < 127" using k m by (simp add: sendable_def)
  have "m ! k < 0x80" using m k by (simp add: sendable_def clear_payload_def)
  then have l: "unat ?l = 256 + 128 * (k mod 8) + unat (m ! k)" using unat_frame_len [of "m ! k" "Suc k"] by simp
  have small: "unat (of_nat j :: byte) = j" "unat (of_nat j :: u16) = j" if "j \<le> 128" for j
    using that by (simp_all only: unsigned_of_nat) (simp_all add: take_bit_nat_eq_self)
  define p where "p = \<lparr>plen = ?l, pscore = score_max\<rparr>"
  define s3 where "s3 = set_side ?t (\<lambda>d. d\<lparr>zc_score_uplimit := score_max, zc_group_sn := next_sn sn, zc_cur_pos := of_nat (Suc k)\<rparr>) s1"
  define s4 where "s4 = set_pkg False (Suc k) p (set_side False (zc_replace_update (\<lambda>_. 1)) s3)"
  define s5 where "s5 = set_pkg True (Suc k) p (set_side True (zc_replace_update (\<lambda>_. 1)) s4)"
  have bpos: "ucast (of_nat (Suc k) :: u16) = (of_nat (Suc k) :: byte)"
  proof -
    have "unat (of_nat (Suc k) :: u16) = Suc k" using small(2) [of "Suc k"] k127 by simp
    then show ?thesis by (metis of_nat_unat)
  qed
  have score: "get_data_score s1 (zc_group_sn (zc_data s1 ?t)) (next_sn sn) (ucast (of_nat (Suc k) :: u16)) (zc_cur_pos (zc_data s1 ?t)) ?t = score_max"
    using score_in_step [of sn k s1 ?t] sn k127 D(4,6,8) prev unfolding bpos by (simp del: of_nat_Suc)
  have p: "0 < plen p" "0 < pscore p" "plen p = ?l" "pscore p = score_max"
  proof -
    have "unat ?l \<noteq> 0" using l by simp
    then show "0 < plen p" "0 < pscore p" "plen p = ?l" "pscore p = score_max"
      by (simp_all add: p_def score_max_def word_gt_0 unat_eq_0)
  qed
  have st3: "store_package ?t False (Suc k) score_max ?l s3 = Some (False, s4)"
    using store_new [of s3 False "Suc k" p ?t] p k127 by (simp add: s3_def D(14) stored_next s4_def)
  have st4: "store_package ?t True (Suc k) score_max ?l s4 = Some (False, s5)"
    using store_new [of s4 True "Suc k" p ?t] p k127 by (simp add: s4_def s3_def D(14) stored_next s5_def set_pkg_def)
  have pos0: "(of_nat (Suc k) :: u16) \<noteq> 0" "unat (of_nat (Suc k) :: u16) = Suc k"
    using small(2) [of "Suc k"] k127 by (auto simp del: of_nat_Suc)
  have acc: "accept_data E ?res time index (of_nat (Suc k)) ?l s1
      = Option.bind (check_completed E ?res s5) (\<lambda>(r, s''). case r of Some r \<Rightarrow> Some (r, s'')
          | None \<Rightarrow> Some (update_sn PKG_DATA_FRAME ?t (next_sn sn) time index ?l s''))"
  proof -
    have s2: "set_side ?t (zc_cur_pos_update (\<lambda>_. ucast (of_nat (Suc k) :: u16)))
        (set_side ?t (\<lambda>d. d\<lparr>zc_score_uplimit := if zc_score_uplimit d > score_max then score_max else zc_score_uplimit d, zc_group_sn := next_sn sn\<rparr>) s1) = s3"
      by (simp add: s3_def D(6) bpos del: of_nat_Suc)
    have ne: "score_max \<noteq> score_min" by (simp add: score_max_def score_min_def)
    show ?thesis
      unfolding accept_data_def Let_def frame_simps score using pos0 ne st3 st4 s2 by (simp del: of_nat_Suc)
  qed
  have mx: "of_nat k \<le> (1 + of_nat k :: byte)"
    unfolding word_le_nat_alt using small(1) [of k] small(1) [of "Suc k"] k127 by simp
  have rd: "ready x m g (Suc k) (next_sn sn) s5"
    using D k127 max mx by (cases ?t)
      (simp_all add: ready_def s5_def s4_def s3_def Let_def set_pkg_def p_def stored_Suc score_max_def unknown_ap_def fun_eq_iff)
  have ps: "zc_prev_sn (zc_data s5 ?t) = sn"
    using prev by (cases ?t) (simp_all add: s5_def s4_def s3_def set_pkg_def)
  have nu: "n_uptime s5 = n_uptime s1" "fixed_delta s5 = fixed_delta s1" by (simp_all add: s5_def s4_def s3_def set_pkg_def)
  show thesis by (rule that [OF rd ps nu acc])
qed

text \<open>The next data frame, up to the test for completeness.\<close>

lemma data_received:
  assumes c: "caught E x m g k sn s" and m: "sendable m" and k: "k < length m" "k < g + 8" "g \<le> k" "8 dvd g"
    and sn: "sn < 0x1000" and clock: "prompt_frames E"
  obtains s' where "ready x m g (Suc k) (next_sn sn) s'" "zc_prev_sn (zc_data s' (tx_tods x)) = sn"
    "n_uptime s' = Suc (n_uptime s)" "fixed_delta s' = fixed_delta s"
    "awss_recv_callback_smartconfig E (frame x (next_sn sn) (frame_len (Suc k) (m ! k))) s
     = Option.bind (check_completed E (frame x (next_sn sn) (frame_len (Suc k) (m ! k))) s')
         (\<lambda>(r, s''). case r of Some r \<Rightarrow> Some (r, s'')
            | None \<Rightarrow> Some (update_sn PKG_DATA_FRAME (tx_tods x) (next_sn sn) (ucast (uptime_ms E (n_uptime s)) - fixed_delta s)
                (of_nat (Suc k - g)) (frame_len (Suc k) (m ! k)) s''))"
proof -
  define s1 where "s1 = s\<lparr>n_uptime := Suc (n_uptime s)\<rparr>"
  have "ready x m g k sn s1" "zc_prev_sn (zc_data s1 (tx_tods x)) = sn" "zc_max_pos (zc_data s1 (tx_tods x)) = of_nat k"
    using c by (simp_all add: caught_def ready_def Let_def unknown_ap_def s1_def)
  then show thesis
    by (rule data_accepted [OF _ _ _ m k(1) sn]) (rule that, assumption+, simp_all add: s1_def data_in_place [OF c m k sn clock])
qed

text \<open>After the test, when the message is not complete.\<close>

lemma not_completed:
  assumes r: "ready x m g k sn s" and m: "sendable m" and k: "1 \<le> k" "k < length m"
    and res: "res_tods res = tx_tods x"
  shows "check_completed E res s = Some (None, set_side (tx_tods x) (zc_max_pos_update (\<lambda>_. of_nat k)) s)"
proof -
  note D = readyD [OF r]
  let ?s = "set_side (tx_tods x) (zc_max_pos_update (\<lambda>_. of_nat k)) s"
  have max: "(if zc_max_pos (zc_data s (tx_tods x)) < zc_cur_pos (zc_data s (tx_tods x)) then zc_cur_pos (zc_data s (tx_tods x))
      else zc_max_pos (zc_data s (tx_tods x))) = of_nat k"
    using D(4,5) by auto
  have "ready x m g k sn ?s" using r by (simp add: ready_def Let_def unknown_ap_def)
  then have "zconfig_recv_completed E (tx_tods x) ?s = Some (False, ?s)" by (rule recv_incomplete [OF _ m k]) simp
  then show ?thesis using D(9) k(1) max by (simp add: check_completed_def res Let_def)
qed

lemma data_step:
  assumes c: "caught E x m g k sn s" and m: "sendable m" and k: "Suc k < length m" "k < g + 8" "g \<le> k" "8 dvd g"
    and sn: "sn < 0x1000" and clock: "prompt_frames E"
  shows "\<exists>s'. awss_recv_callback_smartconfig E (frame x (next_sn sn) (frame_len (Suc k) (m ! k))) s = Some (PKG_DATA_FRAME, s')
     \<and> caught E x m g (Suc k) (next_sn sn) s'"
proof -
  have k': "k < length m" using k(1) by simp
  let ?f = "frame x (next_sn sn) (frame_len (Suc k) (m ! k))"
  obtain s1 where s1: "ready x m g (Suc k) (next_sn sn) s1" "zc_prev_sn (zc_data s1 (tx_tods x)) = sn" "n_uptime s1 = Suc (n_uptime s)" "fixed_delta s1 = fixed_delta s"
    "awss_recv_callback_smartconfig E ?f s
     = Option.bind (check_completed E ?f s1)
         (\<lambda>(r, s''). case r of Some r \<Rightarrow> Some (r, s'')
            | None \<Rightarrow> Some (update_sn PKG_DATA_FRAME (tx_tods x) (next_sn sn) (ucast (uptime_ms E (n_uptime s)) - fixed_delta s)
                (of_nat (Suc k - g)) (frame_len (Suc k) (m ! k)) s''))"
    by (rule data_received [OF c m k' k(2-4) sn clock])
  have cc: "check_completed E ?f s1 = Some (None, set_side (tx_tods x) (zc_max_pos_update (\<lambda>_. of_nat (Suc k))) s1)"
    using k(1) by (intro not_completed [OF s1(1) m]) simp_all
  have ix: "ucast (of_nat (Suc k - g) :: u16) = (of_nat (Suc k - g) :: byte)"
    using k by (intro ucast_of_small) simp
  show ?thesis
    unfolding s1(5) cc using s1(1-4)
    by (simp add: update_sn_def caught_def ready_def Let_def unknown_ap_def ix del: of_nat_Suc)
qed

lemma channel_locked_keeps [simp]:
  "zc_data (zconfig_callback_channel_locked c s) = zc_data s" "zc_pkg (zconfig_callback_channel_locked c s) = zc_pkg s"
  "zc_src_mac (zconfig_callback_channel_locked c s) = zc_src_mac s" "zc_bssid (zconfig_callback_channel_locked c s) = zc_bssid s"
  "zc_ssid (zconfig_callback_channel_locked c s) = zc_ssid s" "zc_passwd (zconfig_callback_channel_locked c s) = zc_passwd s"
  "fixed_delta (zconfig_callback_channel_locked c s) = fixed_delta s"
  "zconfig_finished (zconfig_callback_channel_locked c s) = zconfig_finished s"
  "zconfig_aplist (zconfig_callback_channel_locked c s) = zconfig_aplist s"
  "zconfig_aplist_num (zconfig_callback_channel_locked c s) = zconfig_aplist_num s"
  "n_uptime (zconfig_callback_channel_locked c s) = n_uptime s"
  by (simp_all add: zconfig_callback_channel_locked_def zconfig_channel_locked_callback_def Let_def)

lemma locked_again:
  "zc_state (zc_data s tods) = STATE_CHN_LOCKED_BY_BR \<Longrightarrow>
     zconfig_set_state STATE_CHN_LOCKED_BY_BR tods c s = Some (zconfig_callback_channel_locked (if zc_channel s \<noteq> 0 then zc_channel s else c) s)"
  by (simp add: zconfig_set_state_def)

lemma group_frame:
  assumes "1 \<le> j" and "j \<le> 15"
  shows "is_group_frame (GROUP_FRAME + of_nat j)" and "\<not> is_start_frame (GROUP_FRAME + of_nat j)"
    and "\<not> is_data_frame (GROUP_FRAME + of_nat j)" and "get_group_index (GROUP_FRAME + of_nat j) = of_nat (8 * j)"
    and "unat (GROUP_FRAME + of_nat j) = 992 + j"
proof -
  have j: "unat (of_nat j :: u16) = j" using assms(2) by (simp only: unsigned_of_nat) (simp add: take_bit_nat_eq_self)
  then show u: "unat (GROUP_FRAME + of_nat j) = 992 + j" using assms(2) by (simp add: GROUP_FRAME_def unat_word_ariths)
  show "is_group_frame (GROUP_FRAME + of_nat j)"
    using assms u by (simp add: is_group_frame_def GROUP_FRAME_END_def word_less_nat_alt word_le_nat_alt) (simp add: GROUP_FRAME_def)
  then show "\<not> is_data_frame (GROUP_FRAME + of_nat j)" by (simp add: is_data_frame_def)
  show s: "\<not> is_start_frame (GROUP_FRAME + of_nat j)" using assms u by (auto simp: is_start_frame_def START_FRAME_def)
  have "GROUP_FRAME + of_nat j - GROUP_FRAME = (of_nat j :: u16)" by simp
  then have "(GROUP_FRAME + of_nat j - GROUP_FRAME) * of_nat GROUP_NUMBER = (of_nat (8 * j) :: u16)"
    by (simp add: GROUP_NUMBER_def)
  then show "get_group_index (GROUP_FRAME + of_nat j) = of_nat (8 * j)"
    using s ucast_of_small [of "8 * j"] assms(2) by (simp add: get_group_index_def)
qed

lemma group_step:
  assumes c: "caught E x m g (8 * j) sn s" and m: "sendable m" and j: "1 \<le> j" "8 * j < length m"
    and sn: "sn < 0x1000" and clock: "prompt_frames E"
  shows "\<exists>s'. awss_recv_callback_smartconfig E (frame x (next_sn sn) (GROUP_FRAME + of_nat j)) s = Some (PKG_START_FRAME, s')
     \<and> caught E x m (8 * j) (8 * j) (next_sn sn) s'"
proof -
  let ?l = "GROUP_FRAME + of_nat j" and ?t = "tx_tods x"
  let ?res = "frame x (next_sn sn) ?l"
  let ?time = "ucast (uptime_ms E (n_uptime s)) - fixed_delta s :: u32"
  have r: "ready x m g (8 * j) sn s" using c by (simp add: caught_def)
  note D = readyD [OF r]
  have j15: "j \<le> 15" using m j(2) by (simp add: sendable_def)
  note G = group_frame [OF j(1) j15]
  define s1 where "s1 = s\<lparr>n_uptime := Suc (n_uptime s)\<rparr>"
  have call: "awss_recv_callback_smartconfig E ?res s = recv_group E ?res ?time ?l s1"
    using in_step [OF c sn clock, of ?l] G j15 by (simp add: s1_def Let_def)
  define s2 where "s2 = set_side ?t (\<lambda>d. d\<lparr>zc_cur_pos := of_nat (8 * j), zc_group_pos := of_nat (8 * j), zc_group_sn := next_sn sn,
     zc_score_uplimit := score_max\<rparr>) s1"
  define s3 where "s3 = zconfig_callback_channel_locked (if zc_channel s2 \<noteq> 0 then zc_channel s2 else tx_channel x) s2"
  have set: "zconfig_set_state STATE_CHN_LOCKED_BY_BR ?t (tx_channel x) s2 = Some s3"
    unfolding s3_def by (rule locked_again) (simp add: s2_def s1_def D(1))
  have "ready x m (8 * j) (8 * j) (next_sn sn) s3"
    using D by (simp add: ready_def s3_def s2_def s1_def Let_def unknown_ap_def)
  then have cc: "check_completed E ?res s3 = Some (None, set_side ?t (zc_max_pos_update (\<lambda>_. of_nat (8 * j))) s3)"
    using j by (intro not_completed [OF _ m]) simp_all
  have "recv_group E ?res ?time ?l s1
      = Some (update_sn PKG_START_FRAME ?t (next_sn sn) ?time 0 ?l (set_side ?t (zc_max_pos_update (\<lambda>_. of_nat (8 * j))) s3))"
    using set cc D(7) G(4) by (simp add: recv_group_def s2_def s1_def Let_def)
  then show ?thesis
    unfolding call using D by (simp add: update_sn_def caught_def ready_def s3_def s2_def s1_def Let_def unknown_ap_def)
qed

subsection \<open>The whole transmission\<close>

text \<open>
  A receiver that is scanning: nothing of a message has been stored, the access point the sender talks to is not in
  the list (so no name is completed or amended from it), and the clock has been read before.
\<close>

definition scanning :: "sender \<Rightarrow> wifi \<Rightarrow> bool" where
  "scanning x s \<longleftrightarrow> zc_state (zc_data s (tx_tods x)) = STATE_CHN_SCANNING \<and> zc_max_pos (zc_data s (tx_tods x)) = 0
     \<and> zc_pos_unsync (zc_data s (tx_tods x)) = 0 \<and> zc_pkg s = (\<lambda>_. replicate MAX_PKG_NUMS zero_package) \<and> zc_bssid s = zero_mac
     \<and> \<not> zconfig_finished s \<and> unknown_ap s (tx_bssid x) \<and> fixed_delta s \<noteq> 0"

lemma start_step:
  assumes s: "scanning x s" and enc: "tx_encry x \<le> ZC_ENC_TYPE_MAX"
  shows "\<exists>s'. awss_recv_callback_smartconfig E (frame x sn START_FRAME) s = Some (PKG_START_FRAME, s') \<and> caught E x m 0 0 sn s'"
proof -
  let ?t = "tx_tods x" and ?off = "tx_offset x"
  let ?time = "ucast (uptime_ms E (n_uptime s)) - fixed_delta s :: u32"
  have S: "zc_state (zc_data s ?t) = STATE_CHN_SCANNING" "zc_max_pos (zc_data s ?t) = 0" "zc_pos_unsync (zc_data s ?t) = 0"
    "zc_pkg s = (\<lambda>_. replicate MAX_PKG_NUMS zero_package)" "zc_bssid s = zero_mac" "\<not> zconfig_finished s" "unknown_ap s (tx_bssid x)"
    "fixed_delta s \<noteq> 0" using s by (simp_all add: scanning_def)
  define s1 where "s1 = s\<lparr>n_uptime := Suc (n_uptime s)\<rparr>"
  have t1: "os_get_time_ms E s = (?time, s1)" unfolding s1_def by (rule time_read [OF S(8)])
  have len: "uint (START_FRAME + ucast ?off) - uint ?off = uint START_FRAME"
  proof -
    have b: "uint ?off < 256" using uint_bounded [of ?off] by simp
    then have "uint (ucast ?off :: u16) = uint ?off" by (simp add: unsigned_ucast_eq take_bit_int_eq_self)
    then have "uint (START_FRAME + ucast ?off) = uint START_FRAME + uint ?off"
      using b by (simp add: START_FRAME_def uint_word_ariths)
    then show ?thesis by simp
  qed
  define s2 where "s2 = (set_side ?t (\<lambda>d. d\<lparr>zc_frame_offset := ?off, zc_group_pos := 0, zc_cur_pos := 0, zc_group_sn := sn, zc_prev_sn := sn,
     zc_score_uplimit := score_max\<rparr>) (s1\<lparr>zc_bssid := tx_bssid x, zc_src_mac := tx_src x\<rparr>))\<lparr>zc_ssid := replicate ZC_MAX_SSID_LEN 0\<rparr>"
  have un: "unknown_ap s2 (tx_bssid x)" using S(7) by (simp add: s2_def s1_def unknown_ap_def)
  have hint: "is_hint_frame (tx_encry x) (uint (START_FRAME + ucast ?off)) (tx_bssid x) (tx_src x) (tx_channel x) ?t sn s1 = Some (True, s2)"
    using enc len unknown_apinfo [OF un] S(5)
    by (simp add: is_hint_frame_def tx_offset_def [symmetric] zconfig_hint_frame_def Let_def fix_channel_def s2_def s1_def not_less)
  define s3 where "s3 = zconfig_callback_channel_locked (if zc_channel s2 \<noteq> 0 then zc_channel s2 else tx_channel x) s2"
  have set: "zconfig_set_state STATE_CHN_LOCKED_BY_BR ?t (tx_channel x) s2 = Some (set_side ?t (zc_state_update (\<lambda>_. STATE_CHN_LOCKED_BY_BR)) s3)"
    using S(1) by (simp add: zconfig_set_state_def s3_def s2_def s1_def less_state_machine_def)
  have "stored m 0 = replicate MAX_PKG_NUMS zero_package" by (simp add: stored_def MAX_PKG_NUMS_def flip: replicate_Suc)
  then have "caught E x m 0 0 sn (snd (update_sn PKG_START_FRAME ?t sn ?time 0 (START_FRAME + ucast ?off)
      (set_side ?t (zc_state_update (\<lambda>_. STATE_CHN_LOCKED_BY_BR)) s3)))"
    using S by (simp add: caught_def ready_def update_sn_def s3_def s2_def s1_def Let_def unknown_ap_def)
  moreover have "awss_recv_callback_smartconfig E (frame x sn START_FRAME) s = Some (update_sn PKG_START_FRAME ?t sn ?time 0 (START_FRAME + ucast ?off)
      (set_side ?t (zc_state_update (\<lambda>_. STATE_CHN_LOCKED_BY_BR)) s3))"
    using S(1) hint set by (simp add: awss_recv_callback_smartconfig_def t1 s1_def Let_def)
  ultimately show ?thesis by (simp add: update_sn_def)
qed

subsection \<open>The message\<close>

lemma byte_lt_64: "take_bit 6 v = v \<Longrightarrow> v < (0x40 :: byte)"
proof -
  assume e: "take_bit 6 v = v"
  have "unat (take_bit 6 v) < 64" by (simp add: unsigned_take_bit_eq take_bit_nat_def)
  then show "v < 0x40" unfolding e by (simp add: word_less_nat_alt)
qed

text \<open>Bytes in characters of 6 bits.\<close>

definition pack6 :: "byte list \<Rightarrow> byte list" where
  "pack6 s = map (\<lambda>i. bits_char (take 6 (drop (i * 6) (char_bits 8 s @ replicate 6 False)))) [0..<packed_len 6 (length s)]"

lemma length_pack6 [simp]: "length (pack6 s) = packed_len 6 (length s)"
  by (simp add: pack6_def)

lemma pack6_small: "v \<in> set (pack6 s) \<Longrightarrow> v < 0x40"
proof -
  assume "v \<in> set (pack6 s)"
  then obtain bs where v: "v = bits_char (take 6 bs)" unfolding pack6_def set_map by blast
  show "v < 0x40"
    by (rule byte_lt_64, rule bit_word_eqI) (auto simp: v bits_char_def bit_simps bit_horner_sum_bit_iff)
qed

lemma decode_pack6:
  assumes "s \<noteq> []" and "length s \<le> 96" and "length s < length out"
  shows "decode_chinese True (pack6 s @ rest) (of_nat (packed_len 6 (length s))) out 6
    = Some (s @ 0 # drop (Suc (length s)) out, Some (of_nat (length s)))"
proof -
  let ?n = "packed_len 6 (length s)" and ?bs = "char_bits 8 s @ replicate 6 False"
  have six: "0 < (6 :: nat)" "(6 :: nat) \<le> 7" by simp_all
  note m = packed_len [OF six, of "length s"]
  have fits: "?n * 6 \<le> length ?bs" using m(2) by simp
  have bits: "char_bits 6 (pack6 s) = take (?n * 6) ?bs"
    using gather_bits(2) [of 6 ?n ?bs] fits unfolding pack6_def by simp
  have "?n * 6 \<le> 774" using m(2) assms(2) by linarith
  then have n: "unat (of_nat ?n :: byte) = ?n" "unat (of_nat (length s) :: byte) = length s"
    using assms(2) by (simp_all add: unsigned_of_nat take_bit_nat_eq_self)
  have pos: "of_nat ?n \<noteq> (0 :: byte)"
    using n(1) m(1) assms(1) by (metis mult_is_0 length_0_conv le_zero_eq unat_0 zero_neq_numeral)
  have "gather (char_bits 6 (pack6 s)) 8 (length s) = Some s"
    unfolding bits using chars_of_bits [OF m(1), of "replicate 6 False"] m(1,2) fits
    by (simp add: gather_def del: take_append)
  moreover have "splice_at (splice_at out (length s) [0]) 0 s = s @ 0 # drop (Suc (length s)) out"
    using assms(3) by (simp add: splice_at_def)
  ultimately show ?thesis
    using assms(3) n pos m(3) by (simp add: decode_chinese_def not_less)
qed

definition checksum :: "byte list \<Rightarrow> u16" where
  "checksum bs = (case zconfig_checksum_v3 bs (of_nat (length bs)) of Some c \<Rightarrow> c | None \<Rightarrow> 0)"

lemma checksum_eq:
  assumes "length bs < 256"
  shows "zconfig_checksum_v3 (bs @ rest) (of_nat (length bs)) = Some (checksum bs)"
proof -
  have "unat (of_nat (length bs) :: byte) = length bs" using assms by (simp only: unsigned_of_nat) (simp add: take_bit_nat_eq_self)
  then show ?thesis by (simp add: checksum_def zconfig_checksum_v3_def Let_def)
qed

lemma checksum_bytes:
  assumes "length bs < 256"
  shows "ucast (checksum bs) < (0x40 :: byte)" and "ucast (drop_bit 8 (checksum bs)) < (0x40 :: byte)"
proof -
  have "unat (of_nat (length bs) :: byte) = length bs" using assms by (simp only: unsigned_of_nat) (simp add: take_bit_nat_eq_self)
  then have bit: "\<not> bit (checksum bs) n" if "n \<in> {6, 7, 14, 15}" for n
    using that by (auto simp: checksum_def zconfig_checksum_v3_def Let_def bit_simps)
  show "ucast (checksum bs) < (0x40 :: byte)"
  proof (rule byte_lt_64, rule bit_word_eqI)
    fix n assume "n < LENGTH(8)"
    then show "bit (take_bit 6 (ucast (checksum bs) :: byte)) n = bit (ucast (checksum bs) :: byte) n"
      using bit [of n] by (cases "n = 6 \<or> n = 7") (auto simp: bit_simps)
  qed
  show "ucast (drop_bit 8 (checksum bs)) < (0x40 :: byte)"
  proof (rule byte_lt_64, rule bit_word_eqI)
    fix n assume "n < LENGTH(8)"
    then show "bit (take_bit 6 (ucast (drop_bit 8 (checksum bs)) :: byte)) n = bit (ucast (drop_bit 8 (checksum bs)) :: byte) n"
      using bit [of "n + 8"] by (cases "n = 6 \<or> n = 7") (auto simp: bit_simps)
  qed
qed

text \<open>
  Length, flags (a name, encoded or not, and an encrypted password), the lengths of the two parts, the parts and the checksum.
\<close>

definition wifi_name :: "bool \<Rightarrow> cstring \<Rightarrow> byte list" where
  "wifi_name enc ssid = (if enc then pack6 ssid else map (\<lambda>b. b - 32) ssid)"

definition wifi_body :: "bool \<Rightarrow> cstring \<Rightarrow> byte list \<Rightarrow> byte list" where
  "wifi_body enc ssid cipher =
     (let name = wifi_name enc ssid; p = pack6 cipher
      in [of_nat (6 + length name + length p), if enc then 0x25 else 5, of_nat (length name), of_nat (length p)] @ name @ p)"

definition wifi_message :: "bool \<Rightarrow> cstring \<Rightarrow> byte list \<Rightarrow> byte list" where
  "wifi_message enc ssid cipher =
     (let body = wifi_body enc ssid cipher; c = checksum body in body @ [ucast (drop_bit 8 c), ucast c])"

definition announceable :: "bool \<Rightarrow> cstring \<Rightarrow> byte list \<Rightarrow> bool" where
  "announceable enc ssid cipher \<longleftrightarrow> ssid \<noteq> [] \<and> length ssid \<le> 32 \<and> 0 \<notin> set ssid \<and> (enc \<or> (\<forall>b\<in>set ssid. 0x20 \<le> b \<and> b < 0x80))
     \<and> cipher \<noteq> [] \<and> length cipher \<le> 64 \<and> 6 + length (wifi_name enc ssid) + packed_len 6 (length cipher) \<le> 127"

lemma length_message: "length (wifi_message enc ssid cipher) = 6 + length (wifi_name enc ssid) + packed_len 6 (length cipher)"
  by (simp add: wifi_message_def wifi_body_def Let_def)

lemma message_nth:
  "wifi_message enc ssid cipher ! 0 = of_nat (length (wifi_message enc ssid cipher))"
  "wifi_message enc ssid cipher ! 1 = (if enc then 0x25 else 5)"
  "wifi_message enc ssid cipher ! 2 = of_nat (length (wifi_name enc ssid))"
  "wifi_message enc ssid cipher ! 3 = of_nat (packed_len 6 (length cipher))"
  by (simp_all add: wifi_message_def wifi_body_def Let_def eval_nat_numeral)

lemma clear_small: "v < 0x60 \<Longrightarrow> clear_payload p v"
  by (auto simp: clear_payload_def word_less_nat_alt word_le_nat_alt)

lemma message_sendable:
  assumes "announceable enc ssid cipher"
  shows "sendable (wifi_message enc ssid cipher)"
proof -
  let ?m = "wifi_message enc ssid cipher" and ?name = "wifi_name enc ssid" and ?p = "pack6 cipher"
  have len: "length ?m = 6 + length ?name + length ?p" "length ?m \<le> 127"
    using assms by (simp_all add: length_message announceable_def)
  have body: "length (wifi_body enc ssid cipher) < 256" using len by (simp add: wifi_body_def Let_def)
  have name: "v < 0x60" if "v \<in> set ?name" for v
  proof (cases enc)
    case True
    then have "v < 0x40" using that pack6_small by (simp add: wifi_name_def)
    then show ?thesis by (simp add: word_less_nat_alt)
  next
    case False
    then have "v \<in> (\<lambda>b. b - 32) ` set ssid" using that by (simp add: wifi_name_def)
    then obtain b where b: "v = b - 32" "b \<in> set ssid" by blast
    then have b: "v = b - 32" "0x20 \<le> b" "b < 0x80" using False assms by (auto simp: announceable_def)
    then have "unat v = unat b - 32" by (simp add: unat_sub_if_size word_le_nat_alt)
    then show ?thesis using b by (simp add: word_less_nat_alt word_le_nat_alt)
  qed
  have pack: "v < 0x60" if "v \<in> set ?p" for v
    using pack6_small [OF that] by (simp add: word_less_nat_alt)
  have small: "unat (of_nat j :: byte) = j" if "j \<le> 127" for j
    using that by (simp only: unsigned_of_nat) (simp add: take_bit_nat_eq_self)
  have "clear_payload (Suc i) (?m ! i)" if i: "i < length ?m" for i
  proof -
    consider "i = 0" | "i = 1" | "i = 2" | "i = 3" | "4 \<le> i" by linarith
    then show ?thesis
    proof cases
      case 5
      have "?m ! i = (?name @ ?p @ [ucast (drop_bit 8 (checksum (wifi_body enc ssid cipher))), ucast (checksum (wifi_body enc ssid cipher))]) ! (i - 4)"
        using 5 by (simp add: wifi_message_def Let_def wifi_body_def nth_Cons' eval_nat_numeral)
      also have "\<dots> \<in> set (?name @ ?p @ [ucast (drop_bit 8 (checksum (wifi_body enc ssid cipher))), ucast (checksum (wifi_body enc ssid cipher))])"
        using 5 i len by (intro nth_mem) simp
      finally have "?m ! i < 0x60" using name pack checksum_bytes [OF body] by (auto simp: word_less_nat_alt)
      then show ?thesis by (rule clear_small)
    next
      case 1
      then show ?thesis using small [OF len(2)] len(2) by (simp add: message_nth clear_payload_def word_less_nat_alt)
    next
      case 2
      then show ?thesis by (simp add: message_nth(2) [unfolded One_nat_def] clear_payload_def word_less_nat_alt)
    next
      case 3
      then show ?thesis using small [of "length ?name"] len by (simp add: message_nth clear_payload_def word_less_nat_alt)
    next
      case 4
      then show ?thesis using small [of "length ?p"] len by (simp add: message_nth clear_payload_def word_less_nat_alt)
    qed
  qed
  moreover have "unat (?m ! 0) = length ?m" using small [OF len(2)] by (simp only: message_nth)
  ultimately show ?thesis using len assms by (auto simp: sendable_def announceable_def wifi_name_def)
qed

subsection \<open>Name and password are read\<close>

text \<open>The key: the first half of the SHA-256 of the product secret, a comma and 16 zeros.\<close>

definition aes_key :: "wifi_env \<Rightarrow> byte list" where
  "aes_key E = take 16 (SHA256 (take 40 (product_secret E) @ str '','' @ replicate 16 0))"

text \<open>An environment with memory, in which the phone's \<open>cipher\<close> decrypts to the password \<open>pw\<close>.\<close>

definition decrypts :: "wifi_env \<Rightarrow> byte list \<Rightarrow> cstring \<Rightarrow> bool" where
  "decrypts E cipher pw \<longleftrightarrow> (\<forall>n. zalloc_ok E n) \<and> length (sha_buf (sha_stack E)) = 64
     \<and> aes_cfb_decrypt E (aes_key E) (replicate 16 0) cipher = Some pw \<and> length pw = length cipher \<and> 0 \<notin> set pw \<and> utf8 pw"

lemma cal_passwd_eq:
  assumes "length (sha_buf (sha_stack E)) = 64"
  shows "cal_passwd E (product_secret E) (replicate 16 0) = Some (aes_key E)"
proof -
  let ?k = "min (length (product_secret E)) 40"
  have src: "splice_at (splice_at (splice_at (replicate 58 0) 0 (take ?k (product_secret E))) ?k (str '','')) (?k + 1) (replicate 16 0)
      = take 40 (product_secret E) @ str '','' @ replicate 16 0 @ replicate (41 - ?k) 0"
    by (simp add: splice_at_def min_def)
  have l: "length (str '','') = 1" by simp
  have "length (SHA256 m) = 32" for m by (rule sha256.digest_size)
  moreover have "SHA256_hash (sha_stack E) (take 40 (product_secret E) @ str '','' @ replicate 16 0 @ replicate (41 - ?k) 0) (int (?k + 1 + 16))
      = Some (SHA256 (take 40 (product_secret E) @ str '','' @ replicate 16 0))"
    using SHA256_hash_eq [OF assms, of "int (?k + 1 + 16)"] by (simp add: nat_add_distrib min_def)
  ultimately show ?thesis
    using src by (simp add: cal_passwd_def KEY_MAX_LEN_def RANDOM_MAX_LEN_def AES128_KEY_LEN_def aes_key_def Let_def)
qed

lemma strncpy_text:
  assumes "0 \<notin> set t" and "length t \<le> n" and "n \<le> a"
  shows "strncpy (replicate a 0) (t @ 0 # r) n = Some (t @ replicate (a - length t) 0)"
proof -
  have tw: "takeWhile (\<lambda>b. b \<noteq> 0) (t @ 0 # r) = t" using assms(1) by (rule takeWhile_zero)
  have "0 \<in> set (take n (t @ 0 # r)) \<or> n \<le> length (t @ 0 # r)"
    using assms(2) by (cases "n = length t") (auto simp: take_Cons')
  moreover have "splice_at (replicate a 0) 0 (take n (t @ replicate n 0)) = t @ replicate (a - length t) 0"
    using assms(2,3) by (simp add: splice_at_def flip: replicate_add)
  ultimately show ?thesis using assms(3) by (simp add: strncpy_def tw)
qed

lemma passwd_read:
  assumes d: "decrypts E cipher pw" and c: "cipher \<noteq> []" "length cipher \<le> 64" and tmp: "length tmp = 128"
  shows "\<exists>k. take_passwd E (pack6 cipher @ rest) (of_nat (packed_len 6 (length cipher))) tmp s
     = Some (0, s\<lparr>n_zalloc := k, zc_passwd := pw @ replicate (65 - length pw) 0\<rparr>)"
proof -
  let ?n = "packed_len 6 (length cipher)"
  have D: "zalloc_ok E n" "length (sha_buf (sha_stack E)) = 64"
    "aes_cfb_decrypt E (aes_key E) (replicate 16 0) cipher = Some pw" "length pw = length cipher" "0 \<notin> set pw" "utf8 pw" for n
    using d by (simp_all add: decrypts_def)
  have dec: "decode_chinese True (pack6 cipher @ rest) (of_nat ?n) tmp 6
      = Some (cipher @ 0 # drop (Suc (length cipher)) tmp, Some (of_nat (length cipher)))"
    using c tmp by (intro decode_pack6) simp_all
  have n: "unat (of_nat (length cipher) :: byte) = length cipher" "uint (of_nat (length cipher) :: byte) = int (length cipher)"
    using c(2) by (simp_all only: unsigned_of_nat) (simp_all add: take_bit_nat_eq_self take_bit_int_eq_self)
  have ne: "of_nat ?n \<noteq> (0 :: byte)"
  proof -
    have "8 * length cipher \<le> ?n * 6" "?n * 6 \<le> 8 * length cipher + 6" by (rule packed_len; simp)+
    then have "0 < ?n" "?n < 256" using c by (simp_all, cases "?n = 0", simp_all)
    then have "unat (of_nat ?n :: byte) \<noteq> 0" by (simp only: unsigned_of_nat) (simp add: take_bit_nat_eq_self)
    then show ?thesis by auto
  qed
  have plain: "splice_at (splice_at (replicate 65 0) 0 [0]) 0 pw = pw @ 0 # replicate (64 - length pw) 0"
  proof -
    have "65 - length pw = Suc (64 - length pw)" using D(4) c(2) by simp
    then show ?thesis by (simp add: splice_at_def flip: replicate_Suc)
  qed
  have utf: "is_utf8 (pw @ 0 # replicate (64 - length pw) 0) (int (length cipher)) = Some True"
    using utf8_loop_eq [of pw "[]" "replicate (64 - length pw) 0"] D(4-6) by (simp add: is_utf8_def)
  have aes: "aes_decrypt_string E (cipher @ 0 # drop (Suc (length cipher)) tmp) (replicate 65 0) (length cipher) s'
      = Some (pw @ 0 # replicate (64 - length pw) 0, s'\<lparr>n_zalloc := Suc (n_zalloc s')\<rparr>)" for s'
    using D c(2) plain cal_passwd_eq [OF D(2)]
    by (simp add: aes_decrypt_string_def os_zalloc_def RANDOM_MAX_LEN_def Let_def)
  have pad: "pw @ 0 # replicate (64 - length pw) 0 = pw @ replicate (65 - length pw) 0"
    using D(4) c(2) by (simp flip: replicate_Suc)
  have "take_passwd E (pack6 cipher @ rest) (of_nat ?n) tmp s
     = Some (0, s\<lparr>n_zalloc := Suc (Suc (n_zalloc s)), zc_passwd := pw @ replicate (65 - length pw) 0\<rparr>)"
    using ne by (simp add: take_passwd_def os_zalloc_def D(1) dec n aes ZC_MAX_PASSWD_LEN_def utf [unfolded pad] Let_def pad)
  then show ?thesis by blast
qed

lemma ssid_read:
  assumes ann: "announceable enc ssid cipher" and mem: "\<And>n. zalloc_ok E n" and tmp: "length tmp = 128"
    and s: "zc_ssid s = replicate 33 0" "unknown_ap s (zc_bssid s)"
  shows "\<exists>tmp' k. take_ssid E (wifi_name enc ssid @ rest) (if enc then 0x25 else 5) (of_nat (length (wifi_name enc ssid))) tmp s
     = Some (tmp', s\<lparr>n_zalloc := k, zc_ssid := ssid @ replicate (33 - length ssid) 0\<rparr>) \<and> length tmp' = 128"
proof -
  have A: "ssid \<noteq> []" "length ssid \<le> 32" "0 \<notin> set ssid" "length (wifi_name enc ssid) \<le> 127"
    using ann by (simp_all add: announceable_def)
  have n: "unat (of_nat (length (wifi_name enc ssid)) :: byte) = length (wifi_name enc ssid)"
    using A(4) by (simp only: unsigned_of_nat) (simp add: take_bit_nat_eq_self)
  let ?tmp = "ssid @ 0 # drop (Suc (length ssid)) tmp"
  have am: "amend_ssid (s\<lparr>n_zalloc := k, zc_ssid := b\<rparr>) = Some (s\<lparr>n_zalloc := k, zc_ssid := b\<rparr>)" for k b
    using unknown_apinfo [of "s\<lparr>n_zalloc := k, zc_ssid := b\<rparr>" "zc_bssid s"] s(2) by (simp add: amend_ssid_def unknown_ap_def)
  have am0: "amend_ssid (s\<lparr>zc_ssid := b\<rparr>) = Some (s\<lparr>zc_ssid := b\<rparr>)" for b
    using am [where k = "n_zalloc s" and b = b] by simp
  have cp: "strncpy (replicate 33 0) ?tmp 32 = Some (ssid @ replicate (33 - length ssid) 0)"
    using A by (intro strncpy_text) simp_all
  have l: "length ?tmp = 128" using A(2) tmp by simp
  show ?thesis
  proof (cases enc)
    case True
    have "decode_chinese True (wifi_name enc ssid @ rest) (of_nat (length (wifi_name enc ssid))) tmp 6 = Some (?tmp, Some (of_nat (length ssid)))"
      unfolding wifi_name_def using True A tmp by simp (intro decode_pack6; simp)
    then have "take_ssid E (wifi_name enc ssid @ rest) (if enc then 0x25 else 5) (of_nat (length (wifi_name enc ssid))) tmp s
       = Some (?tmp, s\<lparr>n_zalloc := if of_nat (length (wifi_name enc ssid)) = (0 :: byte) then n_zalloc s else Suc (n_zalloc s), zc_ssid := ssid @ replicate (33 - length ssid) 0\<rparr>)"
      using s cp am am0 True by (simp add: take_ssid_def os_zalloc_def mem SSID_ENCODE_MASK_def ZC_MAX_SSID_LEN_def Let_def)
    then show ?thesis using l by blast
  next
    case False
    have sp: "splice_at (splice_at tmp (length ssid) [0]) 0 ssid = ?tmp"
      using A(2) tmp by (simp add: splice_at_def)
    have "take_ssid E (wifi_name enc ssid @ rest) (if enc then 0x25 else 5) (of_nat (length (wifi_name enc ssid))) tmp s
       = Some (?tmp, s\<lparr>n_zalloc := n_zalloc s, zc_ssid := ssid @ replicate (33 - length ssid) 0\<rparr>)"
      using s cp am0 n False A(2) tmp sp
      by (simp add: take_ssid_def SSID_ENCODE_MASK_def ZC_MAX_SSID_LEN_def wifi_name_def comp_def)
    then show ?thesis using l by blast
  qed
qed

lemma message_parts:
  assumes ann: "announceable enc ssid cipher"
  shows "4 \<le> length (wifi_body enc ssid cipher)" and "length (wifi_body enc ssid cipher) < 128"
    and "wifi_message enc ssid cipher = wifi_body enc ssid cipher
        @ [ucast (drop_bit 8 (checksum (wifi_body enc ssid cipher))), ucast (checksum (wifi_body enc ssid cipher))]"
    and "drop 4 (wifi_message enc ssid cipher @ r) = wifi_name enc ssid @ pack6 cipher
        @ [ucast (drop_bit 8 (checksum (wifi_body enc ssid cipher))), ucast (checksum (wifi_body enc ssid cipher))] @ r"
    and "drop (4 + length (wifi_name enc ssid)) (wifi_message enc ssid cipher @ r) = pack6 cipher
        @ [ucast (drop_bit 8 (checksum (wifi_body enc ssid cipher))), ucast (checksum (wifi_body enc ssid cipher))] @ r"
proof -
  show "4 \<le> length (wifi_body enc ssid cipher)" "length (wifi_body enc ssid cipher) < 128"
    "wifi_message enc ssid cipher = wifi_body enc ssid cipher
        @ [ucast (drop_bit 8 (checksum (wifi_body enc ssid cipher))), ucast (checksum (wifi_body enc ssid cipher))]"
    using ann by (simp_all add: wifi_message_def wifi_body_def Let_def announceable_def)
  show d: "drop 4 (wifi_message enc ssid cipher @ r) = wifi_name enc ssid @ pack6 cipher
        @ [ucast (drop_bit 8 (checksum (wifi_body enc ssid cipher))), ucast (checksum (wifi_body enc ssid cipher))] @ r"
    by (simp add: wifi_message_def wifi_body_def Let_def)
  have dd: "drop (4 + k) l = drop k (drop 4 l)" for k and l :: "byte list" by (simp add: add.commute)
  show "drop (4 + length (wifi_name enc ssid)) (wifi_message enc ssid cipher @ r) = pack6 cipher
        @ [ucast (drop_bit 8 (checksum (wifi_body enc ssid cipher))), ucast (checksum (wifi_body enc ssid cipher))] @ r"
    unfolding dd d by simp
qed

lemma be16: "push_bit 8 (ucast (ucast (drop_bit 8 c) :: byte)) OR ucast (ucast c :: byte) = (c :: u16)"
  by (rule bit_word_eqI) (auto simp: bit_simps)

text \<open>The payloads of the packages are the message again, with its checksum at the end.\<close>

lemma message_stored:
  assumes send: "sendable m" and pkg: "zc_pkg s = (\<lambda>_. stored m (length m))"
  shows "unat (pkg_len s tods 1 AND PAYLOAD_BITS_MASK) = length m"
    and "map (\<lambda>i. payload_of (pkg_len s tods i)) [1..<length m + 1] = m"
proof -
  let ?n = "length m"
  have n: "4 < ?n" "?n \<le> 127" and m0: "unat (m ! 0) = ?n" using send by (simp_all add: sendable_def)
  show "unat (pkg_len s tods 1 AND PAYLOAD_BITS_MASK) = ?n"
  proof -
    have "pkg_len s tods 1 = frame_len 1 (m ! 0)" using pkg n(1) stored_nth [of 1 ?n m] by (simp add: pkg_len_def)
    moreover have "unat (frame_len 1 (m ! 0)) = 256 + unat (m ! 0)"
      using n(2) m0 unat_frame_len [of "m ! 0" 1] by (simp add: word_less_nat_alt)
    moreover have "(256 + ?n) mod 128 = ?n" using n(2) mod_mult_self1 [of ?n 2 128] by (simp add: add.commute)
    ultimately show ?thesis using n(2) m0 u16_bits(1) by (simp add: PAYLOAD_BITS_MASK_def)
  qed
  show "map (\<lambda>i. payload_of (pkg_len s tods i)) [1..<?n + 1] = m"
  proof (rule nth_equalityI)
    fix i assume "i < length (map (\<lambda>i. payload_of (pkg_len s tods i)) [1..<?n + 1])"
    then have i: "i < ?n" by (simp del: upt_Suc)
    then show "map (\<lambda>i. payload_of (pkg_len s tods i)) [1..<?n + 1] ! i = m ! i"
      using stored_payload(1) [OF send i] pkg by (simp add: pkg_len_def del: upt_Suc)
  qed (simp del: upt_Suc)
qed

lemma message_checked:
  assumes ann: "announceable enc ssid cipher" and m: "m = wifi_message enc ssid cipher"
  shows "get_be16 (m @ replicate (256 - length m) 0) (length m - 2) = checksum (wifi_body enc ssid cipher)"
    and "zconfig_checksum_v3 (m @ replicate (256 - length m) 0) (of_nat (length m - 2)) = Some (checksum (wifi_body enc ssid cipher))"
proof -
  let ?body = "wifi_body enc ssid cipher"
  note P = message_parts [OF ann]
  have nb: "length m = length ?body + 2" unfolding m P(3) by simp
  show "get_be16 (m @ replicate (256 - length m) 0) (length m - 2) = checksum ?body"
    using be16 [of "checksum ?body"] by (simp add: get_be16_def nb nth_append P(3) [folded m])
  show "zconfig_checksum_v3 (m @ replicate (256 - length m) 0) (of_nat (length m - 2)) = Some (checksum ?body)"
    using checksum_eq [of ?body] P(2) by (simp add: P(3) [folded m] nb)
qed

lemma credentials_read:
  assumes ann: "announceable enc ssid cipher" and dec: "decrypts E cipher pw"
    and pkg: "zc_pkg s = (\<lambda>_. stored m (length m))" and m: "m = wifi_message enc ssid cipher"
    and name: "zc_ssid s = replicate ZC_MAX_SSID_LEN 0" and max: "zc_max_pos (zc_data s tods) = of_nat (length m)"
    and un: "unknown_ap s (zc_bssid s)"
  shows "\<exists>k. zconfig_get_ssid_passwd E tods s
    = Some (0, s\<lparr>n_zalloc := k, zc_ssid := ssid @ replicate (33 - length ssid) 0, zc_passwd := pw @ replicate (65 - length pw) 0\<rparr>)"
proof -
  let ?body = "wifi_body enc ssid cipher" and ?name = "wifi_name enc ssid" and ?n = "length m"
  let ?c = "checksum ?body"
  note P = message_parts [OF ann]
  have send: "sendable m" unfolding m by (rule message_sendable [OF ann])
  then have n: "4 < ?n" "?n \<le> 127" by (simp_all add: sendable_def)
  have small: "unat (of_nat j :: byte) = j" if "j \<le> 127" for j
    using that by (simp only: unsigned_of_nat) (simp add: take_bit_nat_eq_self)
  have lens: "length ?name \<le> 127" "packed_len 6 (length cipher) \<le> 127" "?n = 6 + length ?name + packed_len 6 (length cipher)"
    using ann by (simp_all add: announceable_def m length_message)
  have M: "m ! 0 = of_nat ?n" "m ! 1 = (if enc then 0x25 else 5)" "m ! 2 = of_nat (length ?name)" "m ! 3 = of_nat (packed_len 6 (length cipher))"
    unfolding m by (rule message_nth)+
  have flag: "m ! 1 AND SSID_EXIST_MASK \<noteq> 0" unfolding M(2) by (simp add: SSID_EXIST_MASK_def)
  have fin: "zconfig_recv_completed E tods s = Some (True, s)"
    using flag lens small M by (intro recv_complete [OF pkg name send max]) simp
  have mem: "zalloc_ok E j" for j using dec by (simp add: decrypts_def)
  define s2 where "s2 = s\<lparr>n_zalloc := Suc (Suc (n_zalloc s))\<rparr>"
  note num = message_stored(1) [OF send pkg] and pay = message_stored(2) [OF send pkg]
  let ?buf = "m @ replicate (256 - ?n) 0"
  have buf: "splice_at (replicate 256 0) 0 m = ?buf" using n by (simp add: splice_at_def)
  note crc = message_checked(1) [OF ann m] and cal = message_checked(2) [OF ann m]
  have at: "?buf ! 1 = m ! 1" "?buf ! 2 = m ! 2" "?buf ! 3 = m ! 3" using n by (simp_all add: nth_append)
  have pe: "\<not> drop_bit 1 (m ! 1 AND PASSWD_ENCRYPT_MASK) \<le> PASSWD_ENCRYPT_CIPHER"
    unfolding M(2) by (simp add: PASSWD_ENCRYPT_MASK_def PASSWD_ENCRYPT_CIPHER_def word_le_nat_alt)
  define tmp where "tmp = splice_at (replicate 128 0) 0 (map (\<lambda>i. pkg_score s tods i) [1..<?n + 1])"
  have tmp: "length tmp = 128" using n(2) by (simp add: tmp_def splice_at_def)
  have un2: "unknown_ap s2 (zc_bssid s2)" "zc_ssid s2 = replicate 33 0"
    using un name by (simp_all add: s2_def unknown_ap_def ZC_MAX_SSID_LEN_def)
  obtain tmp' k where S: "take_ssid E (drop 4 ?buf) (m ! 1) (m ! 2) tmp s2
      = Some (tmp', s2\<lparr>n_zalloc := k, zc_ssid := ssid @ replicate (33 - length ssid) 0\<rparr>)" "length tmp' = 128"
    unfolding M(2,3) unfolding m P(4) using ssid_read [OF ann mem tmp un2(2,1)] by blast
  have "unat (m ! 2) = length ?name" unfolding M(3) by (rule small [OF lens(1)])
  then have rest: "drop (4 + unat (m ! 2)) ?buf = pack6 cipher @ [ucast (drop_bit 8 ?c), ucast ?c] @ replicate (256 - ?n) 0"
    using P(5) by (simp only: m)
  have cl: "cipher \<noteq> []" "length cipher \<le> 64" using ann by (simp_all add: announceable_def)
  define s3 where "s3 = s2\<lparr>n_zalloc := k, zc_ssid := ssid @ replicate (33 - length ssid) 0\<rparr>"
  obtain k' where W: "take_passwd E (drop (4 + unat (m ! 2)) ?buf) (m ! 3) tmp' s3
      = Some (0, s3\<lparr>n_zalloc := k', zc_passwd := pw @ replicate (65 - length pw) 0\<rparr>)"
    using passwd_read [OF dec cl S(2), of _ s3] unfolding rest M(4) by blast
  have w: "wr_bytes (replicate 256 0) 0 m = Some ?buf" "wr_bytes (replicate 128 0) 0 (map (\<lambda>i. pkg_score s tods i) [1..<?n + 1]) = Some tmp"
    using n buf by (simp_all add: tmp_def del: upt_Suc)
  have alloc: "os_zalloc E s = (True, s\<lparr>n_zalloc := Suc (n_zalloc s)\<rparr>)" "os_zalloc E (s\<lparr>n_zalloc := Suc (n_zalloc s)\<rparr>) = (True, s2)"
    using mem by (simp_all add: os_zalloc_def s2_def)
  have same: "pkg_len s2 tods i = pkg_len s tods i" "pkg_score s2 tods = pkg_score s tods" for i
    by (simp_all add: s2_def pkg_len_def pkg_score_def fun_eq_iff)
  have n2: "\<not> ?n < 2" using n(1) by linarith
  have "zconfig_get_ssid_passwd E tods s
     = Some (0, s3\<lparr>n_zalloc := k', zc_passwd := pw @ replicate (65 - length pw) 0\<rparr>)"
    unfolding zconfig_get_ssid_passwd_def fin Let_def
    by (simp only: Option.bind.simps(2) prod.case alloc simp_thms if_True if_False not_True_eq_False same num pay w n2 crc cal at flag pe
        S(1) [folded s3_def] W)
  then show ?thesis by (intro exI [of _ k']) (simp add: s3_def s2_def)
qed

text \<open>What the receiver has when the transmission is over.\<close>

definition delivered :: "sender \<Rightarrow> cstring \<Rightarrow> cstring \<Rightarrow> wifi \<Rightarrow> bool" where
  "delivered x ssid pw s \<longleftrightarrow> aws_state s = AWS_SUCCESS \<and> aws_result_ssid s = ssid @ replicate (34 - length ssid) 0
     \<and> aws_result_passwd s = pw @ replicate (66 - length pw) 0 \<and> aws_result_bssid s = tx_bssid x \<and> zconfig_finished s
     \<and> zc_state (zc_data s (tx_tods x)) = STATE_RCV_DONE"

lemma text_pad: "length t < a \<Longrightarrow> t @ replicate (a - length t) 0 = t @ 0 # replicate (a - Suc (length t)) (0 :: byte)"
  by (metis Suc_diff_Suc replicate_Suc)

lemma completed:
  assumes r: "ready x m g (length m) sn s" and ann: "announceable enc ssid cipher" and dec: "decrypts E cipher pw"
    and m: "m = wifi_message enc ssid cipher" and res: "res_tods res = tx_tods x" "res_bssid res = tx_bssid x"
    and mac: "tx_bssid x \<noteq> zero_mac"
  shows "\<exists>s'. check_completed E res s = Some (Some PKG_END, s') \<and> delivered x ssid pw s'"
proof -
  note D = readyD [OF r]
  let ?t = "tx_tods x"
  define s1 where "s1 = set_side ?t (zc_max_pos_update (\<lambda>_. of_nat (length m))) s"
  define s2 where "s2 = (set_side ?t (zc_replace_update (\<lambda>_. 0)) s1)\<lparr>zc_bssid := tx_bssid x\<rparr>"
  have send: "sendable m" unfolding m by (rule message_sendable [OF ann])
  then have n: "4 < length m" "length m \<le> 127" by (simp_all add: sendable_def)
  have small: "unat (of_nat j :: byte) = j" if "j \<le> 127" for j
    using that by (simp only: unsigned_of_nat) (simp add: take_bit_nat_eq_self)
  have M: "m ! 1 = (if enc then 0x25 else 5)" "m ! 2 = of_nat (length (wifi_name enc ssid))" "m ! 3 = of_nat (packed_len 6 (length cipher))"
    "length m = 6 + length (wifi_name enc ssid) + packed_len 6 (length cipher)"
    unfolding m by (rule message_nth length_message)+
  have max: "(if zc_max_pos (zc_data s ?t) < zc_cur_pos (zc_data s ?t) then zc_cur_pos (zc_data s ?t) else zc_max_pos (zc_data s ?t)) = of_nat (length m)"
    using D(4,5) by auto
  have fin: "zconfig_recv_completed E ?t s1 = Some (True, s1)"
    using D(12,14) M n small by (intro recv_complete [OF _ _ send]) (simp_all add: s1_def SSID_EXIST_MASK_def)
  have un: "unknown_ap s2 (zc_bssid s2)" using D(16) by (simp add: s2_def s1_def unknown_ap_def)
  obtain k where got: "zconfig_get_ssid_passwd E ?t s2
    = Some (0, s2\<lparr>n_zalloc := k, zc_ssid := ssid @ replicate (33 - length ssid) 0, zc_passwd := pw @ replicate (65 - length pw) 0\<rparr>)"
    using credentials_read [OF ann dec _ m _ _ un, of ?t] D(12,14) by (auto simp: s2_def s1_def)
  define s3 where "s3 = s2\<lparr>n_zalloc := k, zc_ssid := ssid @ replicate (33 - length ssid) 0, zc_passwd := pw @ replicate (65 - length pw) 0\<rparr>"
  have nz: "0 \<notin> set ssid" "length ssid \<le> 32" "0 \<notin> set pw" "length pw \<le> 64"
    using ann dec by (simp_all add: announceable_def decrypts_def)
  have c: "strncpy (replicate 34 0) (ssid @ replicate (33 - length ssid) 0) 32 = Some (ssid @ replicate (34 - length ssid) 0)"
    "strncpy (replicate 66 0) (pw @ replicate (65 - length pw) 0) 64 = Some (pw @ replicate (66 - length pw) 0)"
    using nz text_pad [of ssid 33] text_pad [of pw 65] by (simp_all add: strncpy_text del: replicate_Suc)
  define s4 where "s4 = (if is_channel_locked s3 then s3 else zconfig_callback_channel_locked (res_channel res) s3)"
  have s4: "zc_ssid s4 = ssid @ replicate (33 - length ssid) 0" "zc_passwd s4 = pw @ replicate (65 - length pw) 0"
    "zc_bssid s4 = tx_bssid x" "\<not> zconfig_finished s4" "unknown_ap s4 (tx_bssid x)" "zc_data s4 = zc_data s2"
    using D(15) un by (simp_all add: s4_def s3_def s2_def s1_def unknown_ap_def)
  have st: "zc_state (zc_data s4 ?t) = STATE_CHN_LOCKED_BY_BR" unfolding s4(6) by (simp add: s2_def s1_def D(1))
  have over: "\<exists>s5. zconfig_callback_over s4 = Some s5 \<and> delivered x ssid pw (set_side ?t (zc_state_update (\<lambda>_. STATE_RCV_DONE)) s5)
      \<and> zc_data s5 = zc_data s4"
    using s4 c mac unknown_apinfo [OF s4(5)]
    by (simp add: zconfig_callback_over_def awss_get_auth_info_def zconfig_got_ssid_passwd_callback_def ZC_MAX_SSID_LEN_def
        ZC_MAX_PASSWD_LEN_def delivered_def)
  then obtain s5 where s5: "zconfig_callback_over s4 = Some s5" "delivered x ssid pw (set_side ?t (zc_state_update (\<lambda>_. STATE_RCV_DONE)) s5)"
      "zc_data s5 = zc_data s4" by blast
  have "zconfig_set_state STATE_RCV_DONE ?t (res_channel res) s3 = Some (set_side ?t (zc_state_update (\<lambda>_. STATE_RCV_DONE)) s5)"
    using s5 st by (simp add: zconfig_set_state_def s4_def [symmetric] less_state_machine_def)
  moreover have "zc_replace (zc_data s ?t) \<noteq> 0" using n(1) by (intro D(9)) linarith
  ultimately have "check_completed E res s = Some (Some PKG_END, set_side ?t (zc_state_update (\<lambda>_. STATE_RCV_DONE)) s5)"
    using fin got max by (simp add: check_completed_def res Let_def s1_def [symmetric] s2_def [symmetric] s3_def [symmetric])
  then show ?thesis using s5(2) by blast
qed

subsection \<open>The transmission\<close>

text \<open>The frames of byte \<open>k\<close>: its group is announced when it is the first one of it.\<close>

definition byte_frames :: "byte list \<Rightarrow> nat \<Rightarrow> u16 list" where
  "byte_frames m k = (if k mod 8 = 0 \<and> 0 < k then [GROUP_FRAME + of_nat (k div 8)] else []) @ [frame_len (Suc k) (m ! k)]"

definition transmission :: "byte list \<Rightarrow> u16 list" where
  "transmission m = START_FRAME # concat (map (byte_frames m) [0..<length m])"

fun numbered :: "sender \<Rightarrow> u16 \<Rightarrow> u16 list \<Rightarrow> parser_res list" where
  "numbered x sn [] = []"
| "numbered x sn (l # ls) = frame x sn l # numbered x (next_sn sn) ls"

fun receive :: "wifi_env \<Rightarrow> parser_res list \<Rightarrow> wifi \<Rightarrow> (pkg_type list \<times> wifi) option" where
  "receive E [] s = Some ([], s)"
| "receive E (f # fs) s = do {
     (r, s) \<leftarrow> awss_recv_callback_smartconfig E f s;
     (rs, s) \<leftarrow> receive E fs s;
     Some (r # rs, s) }"

lemma numbered_append: "numbered x sn (a @ b) = numbered x sn a @ numbered x ((next_sn ^^ length a) sn) b"
  by (induction a arbitrary: sn) (simp_all add: funpow_swap1)

lemma receive_append:
  "receive E (a @ b) s = do { (rs, s) \<leftarrow> receive E a s; (rs', s) \<leftarrow> receive E b s; Some (rs @ rs', s) }"
  by (induction a arbitrary: s) (auto split: Option.bind_splits)

lemma next_sn_small: "sn < 0x1000 \<Longrightarrow> (next_sn ^^ n) sn < 0x1000"
  by (induction n) (simp_all add: next_sn_newer(3))

text \<open>Up to the frame of byte \<open>k\<close> itself.\<close>

lemma group_announced:
  assumes c: "caught E x m (8 * ((k - 1) div 8)) k sn s" and m: "sendable m" and k: "k < length m"
    and sn: "sn < 0x1000" and clock: "prompt_frames E"
  obtains ls rs s' where "byte_frames m k = ls @ [frame_len (Suc k) (m ! k)]" "receive E (numbered x (next_sn sn) ls) s = Some (rs, s')"
    "PKG_END \<notin> set rs" "caught E x m (8 * (k div 8)) k ((next_sn ^^ length ls) sn) s'"
proof (cases "k mod 8 = 0 \<and> 0 < k")
  case True
  then obtain j where j: "k = 8 * j" by auto
  then have j1: "1 \<le> j" "8 * j < length m" using True k by auto
  obtain s' where "awss_recv_callback_smartconfig E (frame x (next_sn sn) (GROUP_FRAME + of_nat j)) s = Some (PKG_START_FRAME, s')"
      "caught E x m (8 * j) (8 * j) (next_sn sn) s'"
    using group_step [OF c [unfolded j] m j1 sn clock] by blast
  then show ?thesis
    using True j by (intro that [of "[GROUP_FRAME + of_nat j]" "[PKG_START_FRAME]" s']) (simp_all add: byte_frames_def)
next
  case False
  have "(k - 1) div 8 = k div 8"
  proof (cases k)
    case (Suc i)
    then have "Suc i mod 8 \<noteq> 0" using False by simp
    then show ?thesis using Suc by (simp add: div_Suc)
  qed simp
  then show ?thesis using c False by (intro that [of "[]" "[]" s]) (auto simp: byte_frames_def)
qed

lemma byte_received:
  assumes c: "caught E x m (8 * ((k - 1) div 8)) k sn s" and m: "sendable m" and k: "Suc k < length m"
    and sn: "sn < 0x1000" and clock: "prompt_frames E"
  shows "\<exists>rs s'. receive E (numbered x (next_sn sn) (byte_frames m k)) s = Some (rs, s') \<and> PKG_END \<notin> set rs
    \<and> caught E x m (8 * (k div 8)) (Suc k) ((next_sn ^^ length (byte_frames m k)) sn) s'"
proof -
  have k1: "k < length m" using k by simp
  obtain ls rs s' where g: "byte_frames m k = ls @ [frame_len (Suc k) (m ! k)]" "receive E (numbered x (next_sn sn) ls) s = Some (rs, s')"
    "PKG_END \<notin> set rs" "caught E x m (8 * (k div 8)) k ((next_sn ^^ length ls) sn) s'"
    by (rule group_announced [OF c m k1 sn clock])
  have d: "k < 8 * (k div 8) + 8" "8 * (k div 8) \<le> k" "8 dvd 8 * (k div 8)" by simp_all
  show ?thesis
    using data_step [OF g(4) m k d next_sn_small [OF sn] clock] g
    by (auto simp: numbered_append receive_append funpow_swap1)
qed

lemma last_received:
  assumes c: "caught E x m (8 * ((k - 1) div 8)) k sn s" and k: "Suc k = length m" and sn: "sn < 0x1000" and clock: "prompt_frames E"
    and ann: "announceable enc ssid cipher" and dec: "decrypts E cipher pw" and m: "m = wifi_message enc ssid cipher"
    and mac: "tx_bssid x \<noteq> zero_mac"
  shows "\<exists>rs s'. receive E (numbered x (next_sn sn) (byte_frames m k)) s = Some (rs @ [PKG_END], s') \<and> PKG_END \<notin> set rs \<and> delivered x ssid pw s'"
proof -
  have send: "sendable m" unfolding m by (rule message_sendable [OF ann])
  have k1: "k < length m" using k by simp
  obtain ls rs s' where g: "byte_frames m k = ls @ [frame_len (Suc k) (m ! k)]" "receive E (numbered x (next_sn sn) ls) s = Some (rs, s')"
    "PKG_END \<notin> set rs" "caught E x m (8 * (k div 8)) k ((next_sn ^^ length ls) sn) s'"
    by (rule group_announced [OF c send k1 sn clock])
  have d: "k < 8 * (k div 8) + 8" "8 * (k div 8) \<le> k" "8 dvd 8 * (k div 8)" by simp_all
  let ?sn = "(next_sn ^^ length ls) sn"
  let ?f = "frame x (next_sn ?sn) (frame_len (Suc k) (m ! k))"
  obtain s1 where s1: "ready x m (8 * (k div 8)) (Suc k) (next_sn ?sn) s1"
    "awss_recv_callback_smartconfig E ?f s' = Option.bind (check_completed E ?f s1)
         (\<lambda>(r, s''). case r of Some r \<Rightarrow> Some (r, s'')
            | None \<Rightarrow> Some (update_sn PKG_DATA_FRAME (tx_tods x) (next_sn ?sn) (ucast (uptime_ms E (n_uptime s')) - fixed_delta s')
                (of_nat (Suc k - 8 * (k div 8))) (frame_len (Suc k) (m ! k)) s''))"
    by (rule data_received [OF g(4) send k1 d next_sn_small [OF sn] clock])
  obtain s2 where "check_completed E ?f s1 = Some (Some PKG_END, s2)" "delivered x ssid pw s2"
    using completed [OF s1(1) [unfolded k] ann dec m _ _ mac, of ?f] by auto
  then show ?thesis
    using g s1(2) by (auto simp: numbered_append receive_append funpow_swap1)
qed

lemma bytes_received:
  assumes c: "caught E x m 0 0 sn s" and m: "sendable m" and k: "k < length m" and sn: "sn < 0x1000" and clock: "prompt_frames E"
  shows "\<exists>rs s'. receive E (numbered x (next_sn sn) (concat (map (byte_frames m) [0..<k]))) s = Some (rs, s') \<and> PKG_END \<notin> set rs
    \<and> caught E x m (8 * ((k - 1) div 8)) k ((next_sn ^^ length (concat (map (byte_frames m) [0..<k]))) sn) s'"
  using k
proof (induction k)
  case 0
  then show ?case using c by simp
next
  case (Suc k)
  let ?ls = "concat (map (byte_frames m) [0..<k])"
  obtain rs s' where IH: "receive E (numbered x (next_sn sn) ?ls) s = Some (rs, s')" "PKG_END \<notin> set rs"
    "caught E x m (8 * ((k - 1) div 8)) k ((next_sn ^^ length ?ls) sn) s'"
    using Suc by auto
  obtain rs' s'' where "receive E (numbered x (next_sn ((next_sn ^^ length ?ls) sn)) (byte_frames m k)) s' = Some (rs', s'')" "PKG_END \<notin> set rs'"
    "caught E x m (8 * (k div 8)) (Suc k) ((next_sn ^^ length (byte_frames m k)) ((next_sn ^^ length ?ls) sn)) s''"
    using byte_received [OF IH(3) m Suc.prems next_sn_small [OF sn] clock] by blast
  then show ?case using IH(1,2) by (simp add: numbered_append receive_append funpow_swap1 funpow_add add.commute)
qed

text \<open>A device to try it on, whose cipher is the identity.\<close>

definition plain_env :: wifi_env where
  "plain_env = \<lparr>uptime_ms = of_nat, zalloc_ok = (\<lambda>_. True), product_secret = str ''secret'', aes_cfb_decrypt = (\<lambda>_ _ c. Some c),
     sha_stack = \<lparr>sha_count = 0, sha_buf = replicate 64 0, sha_state = []\<rparr>\<rparr>"

definition idle_wifi :: wifi where
  "idle_wifi = zconfig_data.extend (zero_zconfig_data\<lparr>zc_mutex := True\<rparr>) (wifi.fields 0 False (replicate 100 zero_ap_info) 0 0 (replicate 100 0)
     AWS_SCANNING 1 0 0 (replicate 31 0) AWS_SCANNING 0 0 0 (replicate 34 0) (replicate 66 0) zero_mac 0 0xff 0xff 1 0 0 [])"

definition phone :: sender where
  "phone = \<lparr>tx_src = [1, 2, 3, 4, 5, 6], tx_bssid = [9, 9, 9, 9, 9, 9], tx_tods = True, tx_channel = 6, tx_encry = 3\<rparr>"

lemma idle_scanning: "scanning phone idle_wifi"
  by (simp add: scanning_def idle_wifi_def zconfig_data.defs wifi.defs zero_zconfig_data_def zero_side_def unknown_ap_def phone_def)

lemma plain_prompt: "prompt_frames plain_env"
proof -
  have "(ucast (of_nat n :: u64) :: u32) = of_nat n" for n by (rule bit_word_eqI) (simp add: bit_simps)
  then show ?thesis by (simp add: prompt_frames_def plain_env_def del: of_nat_Suc) simp
qed

lemma transmission_received:
  assumes "scanning x s" and "tx_encry x \<le> ZC_ENC_TYPE_MAX" and "tx_bssid x \<noteq> zero_mac" and "prompt_frames E" and "sn < 0x1000"
    and "announceable enc ssid cipher" and "decrypts E cipher pw"
  shows "\<exists>rs s'. receive E (numbered x sn (transmission (wifi_message enc ssid cipher))) s = Some (rs @ [PKG_END], s')
    \<and> PKG_END \<notin> set rs \<and> delivered x ssid pw s'"
proof -
  let ?m = "wifi_message enc ssid cipher"
  have m: "sendable ?m" using assms(6) by (rule message_sendable)
  then obtain k where k: "length ?m = Suc k" by (cases "length ?m") (simp_all add: sendable_def)
  let ?ls = "concat (map (byte_frames ?m) [0..<k])"
  have split: "transmission ?m = START_FRAME # ?ls @ byte_frames ?m k" by (simp add: transmission_def k)
  obtain s0 where s0: "awss_recv_callback_smartconfig E (frame x sn START_FRAME) s = Some (PKG_START_FRAME, s0)" "caught E x ?m 0 0 sn s0"
    using start_step [OF assms(1,2)] by blast
  obtain rs s1 where s1: "receive E (numbered x (next_sn sn) ?ls) s0 = Some (rs, s1)" "PKG_END \<notin> set rs"
    "caught E x ?m (8 * ((k - 1) div 8)) k ((next_sn ^^ length ?ls) sn) s1"
    using bytes_received [OF s0(2) m _ assms(5,4), of k] k by auto
  obtain rs' s2 where s2: "receive E (numbered x (next_sn ((next_sn ^^ length ?ls) sn)) (byte_frames ?m k)) s1 = Some (rs' @ [PKG_END], s2)"
    "PKG_END \<notin> set rs'" "delivered x ssid pw s2"
    using last_received [OF s1(3) k [symmetric] next_sn_small [OF assms(5)] assms(4,6,7) refl assms(3)] by blast
  have "receive E (numbered x sn (transmission ?m)) s = Some ((PKG_START_FRAME # rs @ rs') @ [PKG_END], s2)"
    unfolding split using s0(1) s1(1) s2(1) by (simp add: numbered_append receive_append funpow_swap1)
  moreover have "PKG_END \<notin> set (PKG_START_FRAME # rs @ rs')" using s1(2) s2(2) by simp
  ultimately show ?thesis using s2(3) by blast
qed

lemma phone_announces:
  "announceable False (str ''home'') (str ''pass1234'')" "decrypts plain_env (str ''pass1234'') (str ''pass1234'')"
  "tx_bssid phone \<noteq> zero_mac" "tx_encry phone \<le> ZC_ENC_TYPE_MAX" "(0xffe :: u16) < 0x1000"
proof -
  show "announceable False (str ''home'') (str ''pass1234'')" by code_simp
  show "decrypts plain_env (str ''pass1234'') (str ''pass1234'')"
    by (simp add: decrypts_def plain_env_def) (intro utf8.one utf8.empty; code_simp)
  show "tx_bssid phone \<noteq> zero_mac" by code_simp
qed (simp_all add: phone_def ZC_ENC_TYPE_MAX_def word_le_nat_alt word_less_nat_alt)

lemma phone_heard:
  "\<exists>rs s'. receive plain_env (numbered phone 0xffe (transmission (wifi_message False (str ''home'') (str ''pass1234'')))) idle_wifi
      = Some (rs @ [PKG_END], s') \<and> PKG_END \<notin> set rs \<and> delivered phone (str ''home'') (str ''pass1234'') s'"
  by (rule transmission_received [OF idle_scanning phone_announces(4,3) plain_prompt phone_announces(5,1,2)])

text \<open>
  C4: a receiver that scans, and does not have the access point of the phone in its list, gets what the phone broadcasts:
  from the frames that announce a message of a network name (in the clear or encoded) and an encrypted password, sent in order with rising sequence numbers, one every 300 ms at most, the callback returns for
  every frame and reports the end exactly at the last one; the result it hands over is the name, the password decrypted
  with the key of the product secret and the address of the access point.
\<close>

theorem credentials_delivered:
  assumes "scanning x s" and "tx_encry x \<le> ZC_ENC_TYPE_MAX" and "tx_bssid x \<noteq> zero_mac" and "prompt_frames E" and "sn < 0x1000"
    and "announceable enc ssid cipher" and "decrypts E cipher pw"
  shows "\<exists>rs s'. receive E (numbered x sn (transmission (wifi_message enc ssid cipher))) s = Some (rs @ [PKG_END], s')
    \<and> PKG_END \<notin> set rs \<and> delivered x ssid pw s'"
  by (rule transmission_received [OF assms])

lemma credentials_delivered_witness:
  "\<exists>rs s'. receive plain_env (numbered phone 0xffe (transmission (wifi_message False (str ''home'') (str ''pass1234'')))) idle_wifi
      = Some (rs @ [PKG_END], s') \<and> PKG_END \<notin> set rs \<and> delivered phone (str ''home'') (str ''pass1234'') s'"
  by (rule credentials_delivered [OF idle_scanning phone_announces(4,3) plain_prompt phone_announces(5,1,2)])

end
