(* ===== verification/WifiLimits.thy ===== *)
theory WifiLimits
  imports WifiDelivery
begin

text \<open>
  The edges of provisioning by broadcast: which payloads the frame classes keep apart, what the list of access points keeps, and the
  password that does not fit.
\<close>

subsection \<open>Frame classes\<close>

text \<open>
  C39: a payload of 7 bits at a position is classified as data exactly when it does not coincide with the start frame (0x60 at the
  last place of a group) or a group frame (0x61 to 0x70 at the sixth place); then index and payload are read back.
\<close>

theorem data_frames_decided:
  assumes "v < 0x80"
  shows "(is_data_frame (frame_len p v) \<longleftrightarrow> \<not> ((p - 1) mod 8 = 7 \<and> v = 0x60 \<or> (p - 1) mod 8 = 5 \<and> 0x60 < v \<and> v \<le> 0x70))
    \<and> (is_data_frame (frame_len p v) \<longrightarrow> get_data_index (frame_len p v) = of_nat ((p - 1) mod 8 + 1) \<and> payload_of (frame_len p v) = v)"
proof -
  let ?i = "(p - 1) mod 8" and ?l = "frame_len p v"
  have l: "unat ?l = 256 + 128 * ?i + unat v" using assms by (rule unat_frame_len)
  have clear: "clear_payload p v \<longleftrightarrow> \<not> (?i = 7 \<and> v = 0x60 \<or> ?i = 5 \<and> 0x60 < v \<and> v \<le> 0x70)"
    using assms by (auto simp: clear_payload_def not_le not_less)
  have control: "is_start_frame ?l \<or> is_group_frame ?l" if c: "\<not> clear_payload p v"
  proof -
    consider "?i = 7" "v = 0x60" | "?i = 5" "0x60 < v" "v \<le> 0x70" using c clear by blast
    then show ?thesis
    proof cases
      case 1
      then have "unat ?l = 1248" using l by simp
      then show ?thesis by (simp add: is_start_frame_def START_FRAME_def word_unat_eq_iff)
    next
      case 2
      then have "992 < unat ?l" "unat ?l \<le> 1008" using l by (simp_all add: word_less_nat_alt word_le_nat_alt)
      then show ?thesis
        by (simp add: is_group_frame_def GROUP_FRAME_def GROUP_FRAME_END_def word_less_nat_alt word_le_nat_alt)
    qed
  qed
  have d: "is_data_frame ?l \<longleftrightarrow> \<not> (?i = 7 \<and> v = 0x60 \<or> ?i = 5 \<and> 0x60 < v \<and> v \<le> 0x70)"
  proof (cases "clear_payload p v")
    case True
    then show ?thesis using clear data_frame(1) by blast
  next
    case False
    then have "\<not> is_data_frame ?l" using control by (auto simp: is_data_frame_def)
    then show ?thesis using False clear by blast
  qed
  have "get_data_index ?l = of_nat (?i + 1) \<and> payload_of ?l = v" if "is_data_frame ?l"
    using that d clear data_frame(2,3) [of p v] by simp
  then show ?thesis using d by blast
qed

lemma data_frames_decided_witness:
  "\<not> is_data_frame (frame_len 6 0x61) \<and> is_data_frame (frame_len 5 0x61) \<and> get_data_index (frame_len 5 0x61) = 5
    \<and> payload_of (frame_len 5 0x61) = 0x61"
  using data_frames_decided [of "0x61" 6] data_frames_decided [of "0x61" 5] by simp

subsection \<open>The list of access points\<close>

text \<open>The list as it is allocated: 100 entries, each name with its room.\<close>

definition aplist_ok :: "wifi \<Rightarrow> bool" where
  "aplist_ok s \<longleftrightarrow> length (zconfig_aplist s) = MAX_APLIST_NUM \<and> (\<forall>ap\<in>set (zconfig_aplist s). length (ap_ssid ap) = ZC_MAX_SSID_LEN \<and> ap_ssid ap ! (ZC_MAX_SSID_LEN - 1) = 0)
     \<and> length (adha_list s) = MAX_APLIST_NUM \<and> length (aws_chn_list s) = AWS_MAX_CHN_NUMS \<and> length (zc_ssid s) = ZC_MAX_SSID_LEN
     \<and> unat (zconfig_aplist_num s) \<le> MAX_APLIST_NUM"

lemma add_active_channel:
  assumes "length (aws_chn_list s) = AWS_MAX_CHN_NUMS" and "1 \<le> uint c" and "uint c \<le> 14"
  shows "\<exists>l. zconfig_add_active_channel (uint c) s = Some (0, s\<lparr>aws_chn_list := l\<rparr>) \<and> length l = AWS_MAX_CHN_NUMS"
proof -
  let ?n = "length aws_fixed_scanning_channels"
  have n: "?n = 16" by (simp add: aws_fixed_scanning_channels_def)
  have c: "nat (uint c) \<le> 14" using assms(3) by linarith
  then have "zconfig_add_active_channel (uint c) s = Some (0, s\<lparr>aws_chn_list := splice_at (aws_chn_list s) (?n + nat (uint c)) [of_int (uint c)]\<rparr>)"
    using assms n by (simp add: zconfig_add_active_channel_def zconfig_is_valid_channel_def ZC_MIN_CHANNEL_def ZC_MAX_CHANNEL_def AWS_MAX_CHN_NUMS_def)
  moreover have "length (splice_at (aws_chn_list s) (?n + nat (uint c)) [of_int (uint c)]) = AWS_MAX_CHN_NUMS"
    using assms(1) c n by (simp add: AWS_MAX_CHN_NUMS_def)
  ultimately show ?thesis by blast
qed

lemma strncpy_name:
  assumes "0 \<in> set ssid \<or> 32 \<le> length ssid" and "length b = 33" and "b ! 32 = 0"
  shows "\<exists>t. strncpy b ssid 32 = Some t \<and> length t = 33 \<and> t ! 32 = 0
     \<and> takeWhile (\<lambda>c. c \<noteq> 0) t = take 32 (takeWhile (\<lambda>c. c \<noteq> 0) ssid)"
proof -
  let ?w = "takeWhile (\<lambda>c. c \<noteq> 0) ssid"
  let ?t = "take 32 (?w @ replicate 32 0) @ drop 32 b"
  have m: "min (length ?w) 32 + (32 - length ?w) = 32" by (simp add: min_def)
  have "0 \<in> set (take 32 ssid) \<or> 32 \<le> length ssid" using assms(1) by (cases "32 \<le> length ssid") simp_all
  then have "strncpy b ssid 32 = Some ?t"
    using assms(2) m by (simp add: strncpy_def splice_at_def)
  moreover have d: "drop 32 b = [0]"
    using assms(2,3) by (metis Cons_nth_drop_Suc drop_all eval_nat_numeral(3) le_refl lessI numeral_eq_Suc pred_numeral_simps(3))
  have nz: "0 \<notin> set (take 32 ?w)" by (metis (mono_tags, lifting) in_set_takeD set_takeWhileD)
  have "?t = take 32 ?w @ 0 # replicate (32 - length ?w) 0"
    by (cases "length ?w \<le> 32") (auto simp: d simp flip: replicate_append_same)
  then have "takeWhile (\<lambda>c. c \<noteq> 0) ?t = take 32 ?w" using nz by (simp add: takeWhile_zero)
  moreover have "length ?t = 33" "?t ! 32 = 0"
  proof -
    have "length (take 32 (?w @ replicate 32 0)) = 32" using m by simp
    then show "length ?t = 33" "?t ! 32 = 0" unfolding d by (simp_all only: length_append nth_append) simp_all
  qed
  ultimately show ?thesis by blast
qed

lemma listed_added:
  assumes "1 \<le> n" and "n < length aps"
  shows "drop 1 (take (Suc n) (aps[n := ap])) = drop 1 (take n aps) @ [ap]"
  using assms by (simp add: take_Suc_conv_app_nth)

lemma listed_zero: "drop 1 (take n (aps[0 := ap])) = drop 1 (take n aps)"
  by (cases aps; cases n) simp_all

lemma find_bss_none: "(\<forall>ap\<in>set aps. ap_mac ap \<noteq> bssid) \<Longrightarrow> find_bss ssid bssid aps i = None"
  by (induction aps arbitrary: i) (simp_all add: same_bss_def)

lemma find_append: "List.find P (xs @ ys) = (case List.find P xs of Some x \<Rightarrow> Some x | None \<Rightarrow> List.find P ys)"
  by (induction xs) simp_all

lemma unknown_listed: "unknown_ap s bssid \<longleftrightarrow> (\<forall>ap\<in>set (listed s). ap_mac ap \<noteq> bssid)"
  by (auto simp: unknown_ap_def listed_def find_None_iff)

lemma wf_update:
  assumes "\<forall>ap\<in>set aps. P ap" and "P x"
  shows "\<forall>ap\<in>set (aps[i := x]). P ap"
  using assms set_update_subset_insert [of aps i x] by blast

lemma stored_apinfo:
  assumes ok: "aplist_ok s" and i: "i < MAX_APLIST_NUM" and ssid: "0 \<in> set ssid \<or> 32 \<le> length ssid"
  shows "\<exists>s' name. store_apinfo i ssid bssid channel auth pcipher gcipher rssi s = Some s' \<and> aplist_ok s'
     \<and> zconfig_aplist s' = (zconfig_aplist s)[i := \<lparr>ap_auth = auth, ap_channel = channel,
          ap_encry = (\<lambda>tods. if tods then pcipher else gcipher), ap_mac = bssid, ap_ssid = name, ap_rssi = rssi\<rparr>]
     \<and> takeWhile (\<lambda>c. c \<noteq> 0) name = take 32 (takeWhile (\<lambda>c. c \<noteq> 0) ssid) \<and> zconfig_aplist_num s' = zconfig_aplist_num s"
proof -
  let ?aps = "zconfig_aplist s"
  have O: "length ?aps = 100" "\<forall>ap\<in>set ?aps. length (ap_ssid ap) = 33 \<and> ap_ssid ap ! 32 = 0" "length (adha_list s) = 100"
    "length (zc_ssid s) = 33"
    using ok by (simp_all add: aplist_ok_def MAX_APLIST_NUM_def ZC_MAX_SSID_LEN_def)
  then have "length (ap_ssid (?aps ! i)) = 33" "ap_ssid (?aps ! i) ! 32 = 0" using i by (simp_all add: MAX_APLIST_NUM_def)
  then obtain name where name: "strncpy (ap_ssid (?aps ! i)) ssid 32 = Some name" "length name = 33" "name ! 32 = 0"
    "takeWhile (\<lambda>c. c \<noteq> 0) name = take 32 (takeWhile (\<lambda>c. c \<noteq> 0) ssid)"
    using strncpy_name [OF ssid] by blast
  let ?ap = "\<lparr>ap_auth = auth, ap_channel = channel, ap_encry = (\<lambda>tods. if tods then pcipher else gcipher), ap_mac = bssid, ap_ssid = name, ap_rssi = rssi\<rparr>"
  define s1 where "s1 = s\<lparr>zconfig_aplist := ?aps[i := ?ap]\<rparr>"
  have "\<forall>ap\<in>set (?aps[i := ?ap]). length (ap_ssid ap) = 33 \<and> ap_ssid ap ! 32 = 0" using O(2) name by (intro wf_update) simp_all
  then have s1: "aplist_ok s1" using ok by (simp add: aplist_ok_def s1_def ZC_MAX_SSID_LEN_def)
  define s2 where "s2 = (if (strcmp_eq ssid zc_adha_ssid \<or> strcmp_eq ssid zc_default_ssid) \<and> unat (adha_cnt s) < MAX_APLIST_NUM
     then s1\<lparr>adha_list := splice_at (adha_list s) (unat (adha_cnt s)) [of_nat i], adha_cnt := adha_cnt s + 1\<rparr> else s1)"
  have s2: "aplist_ok s2" "zc_ssid s2 = zc_ssid s" "zc_bssid s2 = zc_bssid s" "zconfig_aplist s2 = ?aps[i := ?ap]" "zconfig_aplist_num s2 = zconfig_aplist_num s"
    using s1 O(3) by (auto simp: s2_def aplist_ok_def s1_def MAX_APLIST_NUM_def)
  obtain z where z: "strncpy (zc_ssid s) ssid 32 = Some z" "length z = 33"
  proof (cases "zc_ssid s ! 32 = 0")
    case True
    then show ?thesis using strncpy_name [OF ssid O(4)] that by blast
  next
    case False
    then show ?thesis using ssid O(4) that by (cases "32 \<le> length ssid") (auto simp: strncpy_def)
  qed
  have "store_apinfo i ssid bssid channel auth pcipher gcipher rssi s
     = (if zc_bssid s = bssid \<and> ssid \<noteq> [] \<and> ssid ! 0 \<noteq> 0 then Some (s2\<lparr>zc_ssid := z\<rparr>) else Some s2)"
    using i O name(1) z s2(2,3) by (simp add: store_apinfo_def ZC_MAX_SSID_LEN_def MAX_APLIST_NUM_def Let_def s2_def s1_def)
  then show ?thesis using s2 z(2) name(4) by (auto simp: aplist_ok_def ZC_MAX_SSID_LEN_def)
qed

lemma channel_taken:
  fixes channel :: byte
  assumes "length (aws_chn_list s) = AWS_MAX_CHN_NUMS"
  obtains l where "(if uint channel > ZC_MAX_CHANNEL \<or> uint channel < ZC_MIN_CHANNEL then Some (0, s)
        else do { (r, s) \<leftarrow> zconfig_add_active_channel (uint channel) s; Some (channel, s) })
      = Some (if 1 \<le> channel \<and> channel \<le> 14 then channel else 0, s\<lparr>aws_chn_list := l\<rparr>)"
    and "length l = AWS_MAX_CHN_NUMS"
proof (cases "1 \<le> channel \<and> channel \<le> 14")
  case True
  then have "1 \<le> uint channel" "uint channel \<le> 14" by (simp_all add: word_le_def)
  then show ?thesis
    using that True add_active_channel [of s channel] assms by (auto simp: ZC_MAX_CHANNEL_def ZC_MIN_CHANNEL_def)
next
  case False
  then have "uint channel > 14 \<or> uint channel < 1" by (auto simp: word_le_def)
  then show ?thesis
    using that [of "aws_chn_list s"] False assms by (auto simp: ZC_MAX_CHANNEL_def ZC_MIN_CHANNEL_def)
qed

lemma listed_after:
  assumes "length (zconfig_aplist s) = 100" and num: "unat num = max 1 (unat (zconfig_aplist_num s))"
    and aps: "zconfig_aplist s' = (zconfig_aplist s)[if unat num < 100 then unat num else 0 := ap]"
    and count: "unat (zconfig_aplist_num s') = (if unat num < 100 then unat num + 1 else unat num)"
  shows "listed s' = (if unat (zconfig_aplist_num s) < 100 then listed s @ [ap] else listed s)"
proof -
  have same: "listed s = drop 1 (take (unat num) (zconfig_aplist s))"
    unfolding listed_def num by (cases "unat (zconfig_aplist_num s) = 0") simp_all
  have "unat (zconfig_aplist_num s) < 100 \<longleftrightarrow> unat num < 100" "1 \<le> unat num" using num by simp_all
  then show ?thesis
    using listed_added [of "unat num" "zconfig_aplist s" ap] listed_zero [of "unat num" "zconfig_aplist s" ap] assms(1)
    unfolding same by (simp add: listed_def aps count)
qed

text \<open>The entry made for an access point.\<close>

definition saved_entry :: "byte \<Rightarrow> byte \<Rightarrow> byte \<Rightarrow> byte \<Rightarrow> byte list \<Rightarrow> byte list \<Rightarrow> byte \<Rightarrow> ap_info" where
  "saved_entry channel auth pcipher gcipher bssid name rssi =
     \<lparr>ap_auth = (if auth \<le> ZC_AUTH_TYPE_MAX then auth else ZC_AUTH_TYPE_INVALID),
      ap_channel = (if 1 \<le> channel \<and> channel \<le> 14 then channel else 0),
      ap_encry = (\<lambda>tods. let c = (if tods then pcipher else gcipher) in if c > 4 then ZC_ENC_TYPE_INVALID else if tods \<and> c = 4 then 3 else c),
      ap_mac = bssid, ap_ssid = name, ap_rssi = rssi\<rparr>"

lemma new_apinfo_listed:
  assumes ok: "aplist_ok s" and new: "unknown_ap s bssid" and ssid: "0 \<in> set ssid \<or> 32 \<le> length ssid"
  shows "\<exists>s' name. awss_save_apinfo ssid bssid channel auth pcipher gcipher rssi s = Some s' \<and> aplist_ok s'
     \<and> takeWhile (\<lambda>c. c \<noteq> 0) name = take 32 (takeWhile (\<lambda>c. c \<noteq> 0) ssid)
     \<and> listed s' = (if unat (zconfig_aplist_num s) < 100 then listed s @ [saved_entry channel auth pcipher gcipher bssid name rssi] else listed s)
     \<and> zconfig_aplist s' = (zconfig_aplist s)[if max 1 (unat (zconfig_aplist_num s)) < 100 then max 1 (unat (zconfig_aplist_num s)) else 0 :=
          saved_entry channel auth pcipher gcipher bssid name rssi]
     \<and> unat (zconfig_aplist_num s') = min 100 (max 1 (unat (zconfig_aplist_num s)) + 1)"
proof -
  let ?ch = "if 1 \<le> channel \<and> channel \<le> 14 then channel else 0"
  let ?auth = "if auth > ZC_AUTH_TYPE_MAX then ZC_AUTH_TYPE_INVALID else auth"
  let ?gc = "if gcipher > ZC_ENC_TYPE_MAX then ZC_ENC_TYPE_INVALID else gcipher"
  let ?pv = "if pcipher > ZC_ENC_TYPE_MAX then ZC_ENC_TYPE_INVALID else pcipher"
  let ?pc = "if ?pv = 4 then 3 else ?pv"
  have n: "unat (zconfig_aplist_num s) \<le> 100" "length (zconfig_aplist s) = 100" using ok by (simp_all add: aplist_ok_def MAX_APLIST_NUM_def)
  have "length (aws_chn_list s) = AWS_MAX_CHN_NUMS" using ok by (simp add: aplist_ok_def)
  then obtain l where l: "(if uint channel > ZC_MAX_CHANNEL \<or> uint channel < ZC_MIN_CHANNEL then Some (0, s)
        else do { (r, s) \<leftarrow> zconfig_add_active_channel (uint channel) s; Some (channel, s) }) = Some (?ch, s\<lparr>aws_chn_list := l\<rparr>)"
      "length l = AWS_MAX_CHN_NUMS"
    by (rule channel_taken)
  define num where "num = (if zconfig_aplist_num s = 0 then 1 else zconfig_aplist_num s)"
  define s1 where "s1 = s\<lparr>aws_chn_list := l, zconfig_aplist_num := num\<rparr>"
  define i where "i = (if unat num < 100 then unat num else 0)"
  define s2 where "s2 = (if unat num < 100 then s1\<lparr>zconfig_aplist_num := num + 1\<rparr> else s1)"
  have num: "unat num = max 1 (unat (zconfig_aplist_num s))" using n(1) by (auto simp: num_def max_def word_unat_eq_iff)
  have nx: "unat (num + 1) = unat num + 1" using num n(1) by (simp add: unat_word_ariths)
  have s2: "aplist_ok s2" using ok l(2) n num nx by (simp add: aplist_ok_def s2_def s1_def MAX_APLIST_NUM_def)
  have "listed s1 = listed s" by (cases "unat (zconfig_aplist_num s) = 0") (simp_all add: listed_def s1_def num max_def)
  then have none: "find_bss ssid bssid (listed s1) 1 = None" using new by (intro find_bss_none) (simp add: unknown_listed)
  have i: "i < MAX_APLIST_NUM" by (simp add: i_def MAX_APLIST_NUM_def)
  obtain s' name where st: "store_apinfo i ssid bssid ?ch ?auth ?pc ?gc rssi s2 = Some s'" "aplist_ok s'"
    "zconfig_aplist s' = (zconfig_aplist s2)[i := \<lparr>ap_auth = ?auth, ap_channel = ?ch, ap_encry = (\<lambda>tods. if tods then ?pc else ?gc),
       ap_mac = bssid, ap_ssid = name, ap_rssi = rssi\<rparr>]"
    "takeWhile (\<lambda>c. c \<noteq> 0) name = take 32 (takeWhile (\<lambda>c. c \<noteq> 0) ssid)" "zconfig_aplist_num s' = zconfig_aplist_num s2"
    using stored_apinfo [OF s2 i ssid, of bssid ?ch ?auth ?pc ?gc rssi] by blast
  have e1: "(if zconfig_aplist_num (s\<lparr>aws_chn_list := l\<rparr>) = 0 then s\<lparr>aws_chn_list := l, zconfig_aplist_num := 1\<rparr> else s\<lparr>aws_chn_list := l\<rparr>) = s1"
    and e2: "(if unat (zconfig_aplist_num s1) < MAX_APLIST_NUM then (unat (zconfig_aplist_num s1), s1\<lparr>zconfig_aplist_num := zconfig_aplist_num s1 + 1\<rparr>)
        else (0, s1)) = (i, s2)"
    by (simp_all add: s1_def num_def i_def s2_def MAX_APLIST_NUM_def)
  have saved: "awss_save_apinfo ssid bssid channel auth pcipher gcipher rssi s = Some s'"
    unfolding awss_save_apinfo_def l(1) Let_def by (simp only: Option.bind.simps(2) prod.case e1 none option.case e2 st(1))
  have "(\<lambda>tods. if tods then ?pc else ?gc)
      = (\<lambda>tods. let c = (if tods then pcipher else gcipher) in if c > 4 then ZC_ENC_TYPE_INVALID else if tods \<and> c = 4 then 3 else c)"
    by (auto simp: Let_def fun_eq_iff ZC_ENC_TYPE_MAX_def ZC_ENC_TYPE_INVALID_def)
  then have aps: "zconfig_aplist s' = (zconfig_aplist s)[i := saved_entry channel auth pcipher gcipher bssid name rssi]"
    unfolding st(3) saved_entry_def by (simp add: s2_def s1_def flip: not_le)
  have count: "unat (zconfig_aplist_num s') = min 100 (max 1 (unat (zconfig_aplist_num s)) + 1)"
    using num n(1) by (auto simp: st(5) s2_def s1_def nx)
  have "listed s' = (if unat (zconfig_aplist_num s) < 100 then listed s @ [saved_entry channel auth pcipher gcipher bssid name rssi] else listed s)"
    by (rule listed_after [OF n(2) num aps [unfolded i_def]]) (simp add: st(5) s2_def s1_def nx)
  then show ?thesis using saved st(2,4) aps count unfolding i_def num by blast
qed

text \<open>
  C40: an access point with a new address is kept: with its channel (0 when it is no valid one), its modes (the
  invalid mark for unknown ones, and AES for a pair that also allows TKIP) and at most 32 bytes of its name.  As long as there is
  room it becomes the next entry, and the search by address finds it.  When the list is full it overwrites entry 0,
  all others being as before, where no search looks: neither its address nor its name is found, and the searches by name, by a
  prefix and by a suffix of the name answer as before.  In both cases every other address is found as before.
\<close>

theorem apinfo_saved:
  assumes ok: "aplist_ok s" and new: "unknown_ap s bssid" and ssid: "0 \<in> set ssid \<or> 32 \<le> length ssid"
  shows "\<exists>s' name. awss_save_apinfo ssid bssid channel auth pcipher gcipher rssi s = Some s' \<and> aplist_ok s'
     \<and> takeWhile (\<lambda>c. c \<noteq> 0) name = take 32 (takeWhile (\<lambda>c. c \<noteq> 0) ssid)
     \<and> (let ap = saved_entry channel auth pcipher gcipher bssid name rssi; n = max 1 (unat (zconfig_aplist_num s)) in
          if n < MAX_APLIST_NUM
          then zconfig_aplist s' = (zconfig_aplist s)[n := ap] \<and> unat (zconfig_aplist_num s') = n + 1 \<and> zconfig_get_apinfo s' bssid = Some ap
          else zconfig_aplist s' = (zconfig_aplist s)[0 := ap] \<and> zconfig_aplist s' ! 0 = ap \<and> zconfig_aplist_num s' = zconfig_aplist_num s
            \<and> zconfig_get_apinfo s' bssid = None \<and> zconfig_get_apinfo_by_ssid s' = zconfig_get_apinfo_by_ssid s
            \<and> zconfig_get_apinfo_by_ssid_prefix s' = zconfig_get_apinfo_by_ssid_prefix s
            \<and> zconfig_get_apinfo_by_ssid_suffix s' = zconfig_get_apinfo_by_ssid_suffix s)
     \<and> (\<forall>mac. mac \<noteq> bssid \<longrightarrow> zconfig_get_apinfo s' mac = zconfig_get_apinfo s mac)"
proof -
  let ?ap = "saved_entry channel auth pcipher gcipher bssid" and ?n = "max 1 (unat (zconfig_aplist_num s))"
  have len: "length (zconfig_aplist s) = 100" "unat (zconfig_aplist_num s) \<le> 100" using ok by (simp_all add: aplist_ok_def MAX_APLIST_NUM_def)
  obtain s' name where s': "awss_save_apinfo ssid bssid channel auth pcipher gcipher rssi s = Some s'" "aplist_ok s'"
    "takeWhile (\<lambda>c. c \<noteq> 0) name = take 32 (takeWhile (\<lambda>c. c \<noteq> 0) ssid)"
    and l: "listed s' = (if unat (zconfig_aplist_num s) < 100 then listed s @ [?ap name rssi] else listed s)"
    and aps: "zconfig_aplist s' = (zconfig_aplist s)[if ?n < 100 then ?n else 0 := ?ap name rssi]"
    and num: "unat (zconfig_aplist_num s') = min 100 (?n + 1)"
    using new_apinfo_listed [OF assms] by blast
  have f: "List.find (\<lambda>ap. ap_mac ap = bssid) (listed s) = None" "ap_mac (?ap name rssi) = bssid"
    using new by (simp_all add: unknown_ap_def listed_def saved_entry_def)
  have others: "\<forall>mac. mac \<noteq> bssid \<longrightarrow> zconfig_get_apinfo s' mac = zconfig_get_apinfo s mac"
    using f by (auto simp: zconfig_get_apinfo_def l find_append split: option.splits)
  show ?thesis
  proof (cases "?n < MAX_APLIST_NUM")
    case True
    then have "zconfig_get_apinfo s' bssid = Some (?ap name rssi)"
      using f by (simp add: zconfig_get_apinfo_def l find_append MAX_APLIST_NUM_def)
    then show ?thesis using s' aps num others True
      by (intro exI [of _ s'] exI [of _ name]) (simp add: MAX_APLIST_NUM_def Let_def)
  next
    case False
    then have full: "unat (zconfig_aplist_num s) = 100" using len(2) by (simp add: MAX_APLIST_NUM_def max_def split: if_splits)
    then have same: "listed s' = listed s" "zconfig_aplist_num s' = zconfig_aplist_num s"
      using l num by (simp_all add: word_unat_eq_iff)
    then have "zconfig_get_apinfo_by_ssid s' = zconfig_get_apinfo_by_ssid s"
      "zconfig_get_apinfo_by_ssid_prefix s' = zconfig_get_apinfo_by_ssid_prefix s"
      "zconfig_get_apinfo_by_ssid_suffix s' = zconfig_get_apinfo_by_ssid_suffix s" "zconfig_get_apinfo s' bssid = None"
      using f(1) by (auto simp: fun_eq_iff zconfig_get_apinfo_by_ssid_def zconfig_get_apinfo_by_ssid_prefix_def
          zconfig_get_apinfo_by_ssid_suffix_def zconfig_get_apinfo_def)
    then show ?thesis using s' aps others full same(2) len(1)
      by (intro exI [of _ s'] exI [of _ name]) (simp add: MAX_APLIST_NUM_def Let_def)
  qed
qed

text \<open>A list with room, and a full one.\<close>

lemma idle_aplist:
  "aplist_ok idle_wifi" "unknown_ap idle_wifi [1, 2, 3, 4, 5, 6]" "zconfig_aplist_num idle_wifi = 0"
  "aplist_ok (idle_wifi\<lparr>zconfig_aplist_num := 100\<rparr>)" "unknown_ap (idle_wifi\<lparr>zconfig_aplist_num := 100\<rparr>) [1, 2, 3, 4, 5, 6]"
proof -
  have "zero_mac \<noteq> [1, 2, 3, 4, 5, 6]" by code_simp
  then show "aplist_ok idle_wifi" "unknown_ap idle_wifi [1, 2, 3, 4, 5, 6]" "zconfig_aplist_num idle_wifi = 0"
    "aplist_ok (idle_wifi\<lparr>zconfig_aplist_num := 100\<rparr>)" "unknown_ap (idle_wifi\<lparr>zconfig_aplist_num := 100\<rparr>) [1, 2, 3, 4, 5, 6]"
    by (simp_all add: aplist_ok_def unknown_ap_def idle_wifi_def zconfig_data.defs wifi.defs zero_zconfig_data_def zero_ap_info_def
      MAX_APLIST_NUM_def AWS_MAX_CHN_NUMS_def ZC_MAX_SSID_LEN_def find_None_iff)
qed

lemma home_entry:
  "saved_entry 6 4 4 2 mac name 200 = \<lparr>ap_auth = 4, ap_channel = 6, ap_encry = (\<lambda>tods. if tods then 3 else 2),
     ap_mac = mac, ap_ssid = name, ap_rssi = 200\<rparr>"
  by (simp add: saved_entry_def fun_eq_iff ZC_AUTH_TYPE_MAX_def word_le_nat_alt word_less_nat_alt)

lemma apinfo_saved_witness:
  "(\<exists>s' name. awss_save_apinfo (str ''home'' @ [0]) [1, 2, 3, 4, 5, 6] 6 4 4 2 200 idle_wifi = Some s'
     \<and> takeWhile (\<lambda>c. c \<noteq> 0) name = str ''home''
     \<and> zconfig_get_apinfo s' [1, 2, 3, 4, 5, 6] = Some \<lparr>ap_auth = 4, ap_channel = 6, ap_encry = (\<lambda>tods. if tods then 3 else 2),
          ap_mac = [1, 2, 3, 4, 5, 6], ap_ssid = name, ap_rssi = 200\<rparr>)
   \<and> (\<exists>s' name. awss_save_apinfo (str ''home'' @ [0]) [1, 2, 3, 4, 5, 6] 6 4 4 2 200 (idle_wifi\<lparr>zconfig_aplist_num := 100\<rparr>) = Some s'
     \<and> zconfig_aplist s' ! 0 = \<lparr>ap_auth = 4, ap_channel = 6, ap_encry = (\<lambda>tods. if tods then 3 else 2),
          ap_mac = [1, 2, 3, 4, 5, 6], ap_ssid = name, ap_rssi = 200\<rparr>
     \<and> zconfig_get_apinfo s' [1, 2, 3, 4, 5, 6] = None)"
proof -
  have ssid: "0 \<in> set (str ''home'' @ [0]) \<or> 32 \<le> length (str ''home'' @ [0])" by simp
  have "take 32 (takeWhile (\<lambda>c. c \<noteq> 0) (str ''home'' @ [0])) = str ''home''" by simp
  then show ?thesis
    using apinfo_saved [OF idle_aplist(1,2) ssid, of 6 4 4 2 200] apinfo_saved [OF idle_aplist(4,5) ssid, of 6 4 4 2 200]
    by (auto simp: home_entry Let_def MAX_APLIST_NUM_def idle_aplist(3) simp del: str_simps)
qed

subsection \<open>A password that does not fit\<close>

text \<open>
  C33: an encrypted password of more than 65 bytes, which fits into a message, is decrypted into the 65 bytes of \<open>passwd\<close>: the write goes past
  the end, whatever the key, before the text is looked at.
\<close>

theorem long_password_overruns:
  assumes c: "65 < length cipher" "length cipher \<le> 96" and mem: "\<And>n. zalloc_ok E n" and sha: "length (sha_buf (sha_stack E)) = 64"
    and aes: "aes_cfb_decrypt E (aes_key E) (replicate 16 0) cipher = Some pw" "length pw = length cipher" and tmp: "length tmp = 128"
  shows "take_passwd E (pack6 cipher @ rest) (of_nat (packed_len 6 (length cipher))) tmp s = None"
proof -
  have dec: "decode_chinese True (pack6 cipher @ rest) (of_nat (packed_len 6 (length cipher))) tmp 6
      = Some (cipher @ 0 # drop (Suc (length cipher)) tmp, Some (of_nat (length cipher)))"
    using c tmp by (intro decode_pack6) auto
  have n: "unat (of_nat (length cipher) :: byte) = length cipher"
    using c(2) by (simp only: unsigned_of_nat) (simp add: take_bit_nat_eq_self)
  have "aes_decrypt_string E (cipher @ 0 # drop (Suc (length cipher)) tmp) (replicate 65 0) (length cipher) s' = None" for s'
    using mem aes c(1) cal_passwd_eq [OF sha]
    by (simp add: aes_decrypt_string_def os_zalloc_def RANDOM_MAX_LEN_def splice_at_def wr_bytes_def Let_def)
  then show ?thesis
    by (simp add: take_passwd_def os_zalloc_def mem dec n ZC_MAX_PASSWD_LEN_def Let_def)
qed

lemma long_password_overruns_witness:
  "take_passwd plain_env (pack6 (replicate 70 1) @ []) (of_nat (packed_len 6 (length (replicate 70 (1 :: byte))))) (replicate 128 0) idle_wifi = None"
  by (rule long_password_overruns [where pw = "replicate 70 1"]) (simp_all add: plain_env_def)

end
