(* ===== verification/WifiSafety.thy ===== *)
theory WifiSafety
  imports WifiLimits
begin

text \<open>
  When the receiver of Wi-Fi provisioning reports a network name and a password: only for a message that is complete,
  has the right checksum and an encrypted password, and only at a frame of the sender it has locked on.
\<close>

subsection \<open>Nothing reported\<close>

definition unreported :: "wifi \<Rightarrow> bool" where
  "unreported s \<longleftrightarrow> aws_state s \<noteq> AWS_SUCCESS"

named_theorems quiet \<open>operations that report nothing\<close>

lemma unreported_simps [simp]:
  "unreported (s\<lparr>zc_data := d\<rparr>) = unreported s" "unreported (s\<lparr>n_zalloc := n\<rparr>) = unreported s" "unreported (s\<lparr>n_uptime := n\<rparr>) = unreported s"
  "unreported (s\<lparr>fixed_delta := dt\<rparr>) = unreported s" "unreported (s\<lparr>zc_pkg := ps\<rparr>) = unreported s" "unreported (s\<lparr>zc_tmp := ps\<rparr>) = unreported s"
  "unreported (s\<lparr>zc_channel := ch\<rparr>) = unreported s" "unreported (s\<lparr>aws_amend_dst_chan := i\<rparr>) = unreported s"
  "unreported (s\<lparr>aws_state := st\<rparr>) \<longleftrightarrow> st \<noteq> AWS_SUCCESS" "unreported (s\<lparr>awss_calls := cs\<rparr>) = unreported s"
  "unreported (s\<lparr>aws_locked_chn := ch\<rparr>) = unreported s" "unreported (s\<lparr>zconfig_channel_locked := ch\<rparr>) = unreported s"
  "unreported (s\<lparr>zc_ssid_is_gbk := g\<rparr>) = unreported s" "unreported (s\<lparr>zc_ssid_auto_complete_disable := g\<rparr>) = unreported s"
  "unreported (s\<lparr>zc_bssid := b\<rparr>) = unreported s" "unreported (s\<lparr>zc_src_mac := b\<rparr>) = unreported s"
  "unreported (s\<lparr>zc_ssid := b\<rparr>) = unreported s" "unreported (s\<lparr>zc_passwd := b\<rparr>) = unreported s"
  "unreported (s\<lparr>zc_android_ssid := b\<rparr>) = unreported s" "unreported (s\<lparr>zc_android_bssid := b\<rparr>) = unreported s"
  by (auto simp: unreported_def)

lemma unreported_pkg [simp]:
  "unreported (set_pkg t n p s) = unreported s" "unreported (set_tmp t n p s) = unreported s"
  "unreported (set_pkg_len t n l s) = unreported s" "unreported (set_pkg_score t n c s) = unreported s"
  "unreported (lower_scores n s) = unreported s"
  by (simp_all add: set_pkg_def set_tmp_def set_pkg_len_def set_pkg_score_def lower_scores_def)

lemma unreported_clear [simp]: "unreported (clear_zconfig_data s) = unreported s"
  by (cases s) (simp add: unreported_def clear_zconfig_data_def zero_zconfig_data_def zconfig_data.defs)

text \<open>A result, if there is one, in which nothing was reported; its rules follow the shape of the programs.\<close>

definition quiet_result :: "('a \<times> wifi) option \<Rightarrow> bool" where
  "quiet_result m \<longleftrightarrow> (\<forall>r s. m = Some (r, s) \<longrightarrow> unreported s)"

definition quiet_state :: "wifi option \<Rightarrow> bool" where
  "quiet_state m \<longleftrightarrow> (\<forall>s. m = Some s \<longrightarrow> unreported s)"

lemma result_Some [simp]: "quiet_result (Some (r, s)) \<longleftrightarrow> unreported s" "quiet_result None" "quiet_state (Some s) \<longleftrightarrow> unreported s" "quiet_state None"
  by (simp_all add: quiet_result_def quiet_state_def)

lemma result_if: "(c \<Longrightarrow> quiet_result a) \<Longrightarrow> (\<not> c \<Longrightarrow> quiet_result b) \<Longrightarrow> quiet_result (if c then a else b)"
  and state_if: "(c \<Longrightarrow> quiet_state d) \<Longrightarrow> (\<not> c \<Longrightarrow> quiet_state e) \<Longrightarrow> quiet_state (if c then d else e)"
  by simp_all

lemma result_let: "(\<And>x. x = e \<Longrightarrow> quiet_result (f x)) \<Longrightarrow> quiet_result (Let e f)"
  and state_let: "(\<And>x. x = e \<Longrightarrow> quiet_state (g x)) \<Longrightarrow> quiet_state (Let e g)"
  and result_alloc: "(\<And>m k. quiet_result (h m (s\<lparr>n_zalloc := k\<rparr>))) \<Longrightarrow> quiet_result (Let (os_zalloc E s) (\<lambda>(m, s). h m s))"
  by (simp_all add: Let_def os_zalloc_def)

lemma result_bind: "quiet_result m \<Longrightarrow> (\<And>r s. m = Some (r, s) \<Longrightarrow> unreported s \<Longrightarrow> quiet_result (f (r, s))) \<Longrightarrow> quiet_result (Option.bind m f)"
  and state_bind: "quiet_result m \<Longrightarrow> (\<And>r s. m = Some (r, s) \<Longrightarrow> unreported s \<Longrightarrow> quiet_state (g (r, s))) \<Longrightarrow> quiet_state (Option.bind m g)"
  by (cases m; auto simp: quiet_result_def)+

lemma result_bind_state: "quiet_state w \<Longrightarrow> (\<And>s. w = Some s \<Longrightarrow> unreported s \<Longrightarrow> quiet_result (f s)) \<Longrightarrow> quiet_result (Option.bind w f)"
  and state_bind_state: "quiet_state w \<Longrightarrow> (\<And>s. w = Some s \<Longrightarrow> unreported s \<Longrightarrow> quiet_state (g s)) \<Longrightarrow> quiet_state (Option.bind w g)"
  by (cases w; simp add: quiet_state_def)+

lemma result_bind_value: "(\<And>x. v = Some x \<Longrightarrow> quiet_result (f x)) \<Longrightarrow> quiet_result (Option.bind v f)"
  and state_bind_value: "(\<And>x. v = Some x \<Longrightarrow> quiet_state (g x)) \<Longrightarrow> quiet_state (Option.bind v g)"
  by (cases v; simp)+

lemma result_option: "(v = None \<Longrightarrow> quiet_result a) \<Longrightarrow> (\<And>x. v = Some x \<Longrightarrow> quiet_result (f x)) \<Longrightarrow> quiet_result (case v of None \<Rightarrow> a | Some x \<Rightarrow> f x)"
  and state_option: "(v = None \<Longrightarrow> quiet_state b) \<Longrightarrow> (\<And>x. v = Some x \<Longrightarrow> quiet_state (g x)) \<Longrightarrow> quiet_state (case v of None \<Rightarrow> b | Some x \<Rightarrow> g x)"
  by (cases v; simp)+

lemma result_prod: "(\<And>a b. q = (a, b) \<Longrightarrow> quiet_result (f a b)) \<Longrightarrow> quiet_result (case q of (a, b) \<Rightarrow> f a b)"
  and state_prod: "(\<And>a b. q = (a, b) \<Longrightarrow> quiet_state (g a b)) \<Longrightarrow> quiet_state (case q of (a, b) \<Rightarrow> g a b)"
  by (cases q; simp)+

lemmas quiet_rules = result_if state_if result_alloc result_let state_let result_bind state_bind result_bind_state state_bind_state
  result_bind_value state_bind_value result_option state_option result_prod state_prod


lemma quiet_complete [simp]: "unreported (complete_pkgs t i vs s) = unreported s"
  by (induction t i vs s rule: complete_pkgs.induct) simp_all

lemma quiet_ssid_auto_complete [quiet]: "unreported s \<Longrightarrow> quiet_result (ssid_auto_complete E t flag l s)"
  unfolding ssid_auto_complete_def by (rule quiet_rules | (simp; fail))+


lemma quiet_locked [simp]: "unreported (zconfig_callback_channel_locked c s) = unreported s"
  by (simp add: zconfig_callback_channel_locked_def zconfig_channel_locked_callback_def Let_def, simp add: unreported_def)

lemma quiet_set_state [quiet]: "unreported s \<Longrightarrow> st \<noteq> STATE_RCV_DONE \<Longrightarrow> quiet_state (zconfig_set_state st t c s)"
  unfolding zconfig_set_state_def by (cases st; simp only: state_machine.case; (rule quiet_rules | (simp add: quiet; fail))+)

lemma quiet_amend [quiet]: "unreported s \<Longrightarrow> quiet_state (amend_ssid s)"
  unfolding amend_ssid_def by (rule quiet_rules | (simp add: quiet; fail))+

lemma quiet_take_ssid [quiet]: "unreported s \<Longrightarrow> quiet_result (take_ssid E p flag l tmp s)"
  unfolding take_ssid_def by (rule quiet_rules | (simp add: quiet; fail))+

lemma quiet_aes [quiet]: "unreported s \<Longrightarrow> quiet_result (aes_decrypt_string E p plain n s)"
  unfolding aes_decrypt_string_def by (rule quiet_rules | (simp add: quiet split: option.split; fail))+

lemma quiet_take_passwd [quiet]: "unreported s \<Longrightarrow> quiet_result (take_passwd E p n tmp s)"
  unfolding take_passwd_def by (rule quiet_rules | (simp add: quiet; fail))+


lemma quiet_fix_channel [quiet]: "unreported s \<Longrightarrow> quiet_state (fix_channel b t e c s)"
  unfolding fix_channel_def by (rule quiet_rules | (simp add: quiet aws_set_dst_chan_def; fail))+

lemma quiet_hint [quiet]: "unreported s \<Longrightarrow> quiet_result (is_hint_frame e l b a c t sn s)"
  unfolding is_hint_frame_def by (rule quiet_rules | (simp add: quiet; fail))+

lemma quiet_replace_loop [simp]: "unreported (replace_loop t m js i s) = unreported s"
  by (induction t m js i s rule: replace_loop.induct) (simp add: Let_def)+

lemma quiet_sync [quiet]: "unreported s \<Longrightarrow> quiet_state (try_to_sync_pos t g s)"
  unfolding try_to_sync_pos_def by (rule quiet_rules | (simp add: quiet split: option.split prod.split; fail))+

lemma quiet_same_pos [quiet]: "unreported s \<Longrightarrow> quiet_result (try_to_replace_same_pos t p l s)"
  unfolding try_to_replace_same_pos_def by (rule quiet_rules | (simp add: quiet; fail))+

lemma quiet_update_sn [simp]: "update_sn p t sn time i l s = (p', s') \<Longrightarrow> unreported s' = unreported s"
  "unreported (snd (update_sn p t sn time i l s)) = unreported s"
  by (auto simp: update_sn_def)

lemma quiet_aside [simp]: "unreported (set_aside t i l sn s) = unreported s"
  by (simp add: set_aside_def Let_def)

lemma quiet_store [quiet]: "unreported s \<Longrightarrow> quiet_result (store_package t u p c l s)"
  unfolding store_package_def by (rule quiet_rules | (simp add: quiet; fail))+

subsection \<open>A message that is accepted\<close>












lemma pkg_alloc [simp]: "pkg_len (s\<lparr>n_zalloc := k\<rparr>) = pkg_len s" "pkg_score (s\<lparr>n_zalloc := k\<rparr>) = pkg_score s"
  by (intro ext, simp add: pkg_len_def) (intro ext, simp add: pkg_score_def)



subsection \<open>Every report is a checked one\<close>





















subsection \<open>Properties\<close>



end
