(* ===== verification/Spec2Isabelle.thy ===== *)
theory Spec2Isabelle
  imports MqttDelivery CoapLimits DevSign WifiSafety
begin

text \<open>
  A model of the connectivity kit of this repository, the device side of an IoT platform for the ESP32, and its correctness.  All
  paths below are under \<open>src/project/iot_esp32/iot_component/iotkit_alios/iotkit-embedded/\<close>.

  THE PROGRAM.  A device gets the name and password of a Wi-Fi network from a phone that broadcasts frames whose lengths
  carry the data (\<open>wifi_provision/\<close>).  It signs itself in with a keyed digest (\<open>dev_sign/\<close>, \<open>infra/\<close>) to a
  broker, with which an MQTT client exchanges messages (\<open>mqtt/\<close>).  In the local network it serves and observes resources by CoAP
  (\<open>coap_server/\<close>).  These four parts are modelled; what they call of the hardware layer and the network is a parameter.

  CONVENTIONS (theories \<open>Prelude\<close> and \<open>Platform\<close>).  Machine integers are words of their width, C strings are lists of
  bytes without their zero, buffers are lists of bytes of the size of the array.  A C expression without a defined value (an
  access outside an object, a mutex locked twice by its holder, an endless loop) is the value \<open>None\<close>; error codes of the
  program are values.  So a theorem that a call is \<open>Some\<close> says that it returns and touches nothing outside its objects.  The
  platform is a record of functions that give the answer of the n-th call (sleep, clock, allocation, network); the state counts
  the calls.  The lists \<open>vcg\<close>, \<open>safe\<close>, \<open>keep\<close>, \<open>stab\<close>, \<open>coap_keeps\<close> and \<open>quiet\<close> hold the rules
  with which proofs about whole operations follow the text of the program.

  MQTT.  \<open>Timer\<close> is \<open>infra/infra_timer.c\<close>.  \<open>MqttPacket\<close>, \<open>MqttConnect\<close>, \<open>MqttPublish\<close> and
  \<open>MqttSubscribe\<close> are the serializers and deserializers of \<open>mqtt/MQTT*.c\<close>; the locale \<open>mqtt_serializer\<close> states what
  they share, and round trips, layouts and the truncated packets that are accepted by mistake are its consequences and companions.
  \<open>MqttTopic\<close> is the tokenizer of \<open>infra/infra_string.c\<close> and the topic functions, with the level-wise meaning of filters.
  \<open>MqttClient\<close>, \<open>MqttSession\<close>, \<open>MqttPubSub\<close> and \<open>MqttCycle\<close> are \<open>mqtt/iotx_mqtt_client.c\<close> from the
  bottom up; the record \<open>iotx_mc_client_t\<close> is its struct.  \<open>MqttInvariant\<close> proves the invariant of the client over all
  sequences of calls (an inductive relation of calls) and the mutex discipline; \<open>MqttExchange\<close> that packets are
  sent and received whole and safely, on any clock that keeps running, the wrap of its 32 bits included; \<open>MqttFlow\<close> and
  \<open>MqttPending\<close> packet ids (locale \<open>cyclic_ids\<close>, extending \<open>id_source\<close> of \<open>IdSource\<close>) and the list of
  unacknowledged messages as a queue (locale \<open>outbox\<close>), publishes that fail on the way included; \<open>MqttReconnect\<close>
  sessions, back-off and silent brokers; \<open>MqttDelivery\<close> that delivery calls exactly the handlers of the matching subscriptions.

  CoAP.  \<open>CoapMessage\<close>, \<open>CoapPacket\<close> and \<open>CoapOptions\<close> are \<open>coap_server/CoAPPacket/\<close>: the message, its wire
  format in both directions, options end to end, and the datagrams that make the parser write outside its message.  \<open>CoapContext\<close>,
  \<open>CoapResource\<close>, \<open>CoapObserve\<close>, \<open>CoapSend\<close> and \<open>CoapServer\<close> are \<open>coap_server/server/\<close>; the record
  \<open>CoAPIntContext\<close> is its context, its lists are lists.  \<open>CoapInvariant\<close> proves the invariant of a context under every operation,
  \<open>CoapRetry\<close> the timetable of retransmissions and the giving up, \<open>CoapService\<close> requests from bytes to answers, \<open>CoapLimits\<close> the
  identifiers, the deadlock and the endless loop.

  DIGESTS AND SIGNATURE.  \<open>InfraDigest\<close> holds the streaming scheme that \<open>infra_md5.c\<close>, \<open>infra_sha1.c\<close> and
  \<open>infra_sha256.c\<close> share, as the locale \<open>block_digest\<close>: feeding a message in any pieces is the digest of the padded whole, and
  the keyed digest is HMAC.  \<open>InfraMd5\<close> and \<open>InfraSha\<close> interpret it with the block functions of the code.  \<open>DevBindSha\<close>
  is the second SHA-256 (\<open>dev_bind/impl/sha256.c\<close>), proved equal to the first.  \<open>InfraText\<close> is the conversions of
  \<open>infra_string.c\<close>, \<open>DevSign\<close> is \<open>dev_sign/dev_sign_mqtt.c\<close>.

  WI-FI PROVISIONING.  \<open>ZconfigCodec\<close> is the checksum, the packing of characters and the UTF-8 test of \<open>frameworks/\<close>;
  \<open>WifiState\<close> the state (the record \<open>wifi\<close> extends \<open>zconfig_data\<close>); \<open>WifiAplist\<close> the list of access points
  (\<open>aplist/awss_aplist.c\<close>); \<open>SmartConfig\<close> the receiver (\<open>smartconfig/awss_smartconfig.c\<close> with \<open>zconfig_protocol.c\<close> and
  \<open>utils/awss_crypt.c\<close>), from the parsed frame on.  \<open>WifiDelivery\<close> defines what a phone sends and proves that the receiver gets it;
  \<open>WifiLimits\<close> has the frame classes, the list of access points and the password that does not fit; \<open>WifiSafety\<close> proves that only
  complete messages with the right checksum, received from the locked sender, are ever reported.

  LOOPS.  Loops over data are structural recursion.  Loops that wait for the network are \<open>partial_function\<close>s
  (\<open>process_loop\<close>, \<open>check_timeout_loop\<close>) or recursion with a measure on the clock or on a count of tries; where a loop may not end,
  returning is proved as such (\<open>send_packet_exact\<close>, \<open>give_up_removes\<close>), or that it never returns
  (\<open>failed_address_query_never_returns\<close>).  The invariant of the client bounds unacknowledged messages by 20; \<open>credentials_delivered\<close> covers
  messages of at most 127 bytes, the longest the 7 bits of the first frame can announce, from an access point that is not in the list yet.

  PARAMETERS AND HYPOTHESES.  Event handlers and callbacks of the application are functions of the environment; the theorems that
  depend on them state what is asked (they leave the context well-formed, they hold no mutex).  The network reads and writes no more
  than asked for.  The cipher of the platform is a function of key, vector and text.  Every property with hypotheses has a
  witness at a concrete input.

  NOT MODELLED.  The parsing of 802.11 frames and the scanning thread: packed radio structures, timers and radio calls around the
  receiver.  \<open>dev_model/\<close>, the rest of \<open>dev_bind/\<close> and \<open>ota/\<close>: JSON descriptions over cJSON and reports over the
  modelled MQTT and CoAP calls.  \<open>http/\<close>, \<open>http2/\<close>, \<open>coap_cloud/\<close> (an older copy of the packet code) and the wrappers over
  ESP-IDF, lwIP, mbedTLS and FreeRTOS.  nghttp2 and cJSON, which are vendored.  Build options are the ones of \<open>infra/infra_config.h\<close>;
  code for others (asynchronous stacks, fixed arrays without dynamic memory, QoS 2) is left out.  Threads appear only as the order of calls;
  a mutex is the set of those held.  The mutex of provisioning, \<open>zc_mutex\<close>, which only \<open>STATE_RCV_DONE\<close> and the scanning
  thread take, is left out with that thread.
\<close>

end
